(* ===== verification/Prelude.thy ===== *)
theory Prelude imports Main "HOL-Library.Word" begin

text \<open>
  Shared vocabulary of the development: the containers of the C++ standard library that the
  debugger uses, results of calls that can fail, and the generic lemmas the component theories
  lean on.

  An \<open>unordered_map\<close> is an association list with distinct keys.  Its order stands for the
  iteration order of the container, which the language leaves open; theorems about iteration hold
  for every such list.  \<open>um_find\<close>, \<open>um_emplace\<close>, \<open>um_assign\<close>, \<open>um_erase\<close> are \<open>find\<close>,
  \<open>insert\<close> (which keeps an existing entry), \<open>operator[] =\<close> (which overwrites) and \<open>erase\<close>.
\<close>

section \<open>Named collections\<close>

named_theorems um_simps \<open>lookup facts of the association-list containers\<close>
named_theorems inv_intros \<open>one preservation fact per operation of a component\<close>

section \<open>Results\<close>

text \<open>The \<open>HRESULT\<close> values the modelled code produces itself; \<open>HR_Other\<close> carries a failure code
  handed on from a callee.\<close>

datatype hresult = S_OK | S_FALSE | E_FAIL | E_INVALIDARG | HR_Other nat

fun succeeded :: "hresult \<Rightarrow> bool" where
  "succeeded S_OK = True"
| "succeeded S_FALSE = True"
| "succeeded _ = False"

text \<open>A C++ exception that escapes a handler.\<close>

datatype cxx_exception = Out_Of_Range

text \<open>The nil method token.\<close>

definition mdMethodDefNil :: nat where
  "mdMethodDefNil = 0x06000000"

text \<open>The result of an operation on \<open>int\<close>, with the wrap-around of the compiled code.\<close>

definition c_int :: "int \<Rightarrow> int" where
  "c_int i = (i + 2 ^ 31) mod 2 ^ 32 - 2 ^ 31"

lemma c_int_id [simp]: "- 2147483648 \<le> i \<Longrightarrow> i \<le> 2147483647 \<Longrightarrow> c_int i = i"
  by (simp add: c_int_def)

text \<open>\<open>unsigned\<close> to \<open>int\<close>.\<close>

definition to_s32 :: "nat \<Rightarrow> int" where
  "to_s32 n = (if n mod 2 ^ 32 < 2 ^ 31 then int (n mod 2 ^ 32) else int (n mod 2 ^ 32) - 2 ^ 32)"

definition xbind :: "'e + 'a \<Rightarrow> ('a \<Rightarrow> 'e + 'b) \<Rightarrow> 'e + 'b" where
  "xbind r f = (case r of Inl e \<Rightarrow> Inl e | Inr x \<Rightarrow> f x)"

lemma xbind_simps [simp]: "xbind (Inl e) f = Inl e" "xbind (Inr x) f = f x"
  by (simp_all add: xbind_def)

text \<open>\<open>vector::at\<close> checks its index.\<close>

definition vec_at :: "'a list \<Rightarrow> nat \<Rightarrow> cxx_exception + 'a" where
  "vec_at xs i = (if i < length xs then Inr (xs ! i) else Inl Out_Of_Range)"

lemma vec_at_Cons [simp]: "vec_at (x # xs) 0 = Inr x" "vec_at (x # xs) (Suc i) = vec_at xs i"
  by (simp_all add: vec_at_def)

lemma vec_at_Nil [simp]: "vec_at [] i = Inl Out_Of_Range"
  by (simp add: vec_at_def)

section \<open>Association lists as unordered containers\<close>

type_synonym ('k, 'v) umap = "('k \<times> 'v) list"

definition um_find :: "('k, 'v) umap \<Rightarrow> 'k \<Rightarrow> 'v option" where
  "um_find m k = map_of m k"

definition um_keys :: "('k, 'v) umap \<Rightarrow> 'k list" where
  "um_keys m = map fst m"

definition um_wf :: "('k, 'v) umap \<Rightarrow> bool" where
  "um_wf m \<longleftrightarrow> distinct (map fst m)"

fun um_assign :: "'k \<Rightarrow> 'v \<Rightarrow> ('k, 'v) umap \<Rightarrow> ('k, 'v) umap" where
  "um_assign k v [] = [(k, v)]"
| "um_assign k v ((k', v') # m) = (if k = k' then (k, v) # m else (k', v') # um_assign k v m)"

definition um_emplace :: "'k \<Rightarrow> 'v \<Rightarrow> ('k, 'v) umap \<Rightarrow> ('k, 'v) umap" where
  "um_emplace k v m = (case um_find m k of None \<Rightarrow> um_assign k v m | Some _ \<Rightarrow> m)"

definition um_erase :: "'k \<Rightarrow> ('k, 'v) umap \<Rightarrow> ('k, 'v) umap" where
  "um_erase k m = filter (\<lambda>(k', _). k' \<noteq> k) m"

lemma um_find_Nil [simp, um_simps]: "um_find [] k = None"
  by (simp add: um_find_def)

lemma um_find_Cons [um_simps]: "um_find ((k', v) # m) k = (if k' = k then Some v else um_find m k)"
  by (simp add: um_find_def)

lemma um_find_assign [um_simps]:
  "um_find (um_assign k v m) k' = (if k' = k then Some v else um_find m k')"
  by (induction k v m rule: um_assign.induct) (auto simp: um_find_def)

lemma um_find_erase [um_simps]:
  "um_find (um_erase k m) k' = (if k' = k then None else um_find m k')"
  by (induction m) (auto simp: um_find_def um_erase_def)

lemma um_find_emplace [um_simps]:
  "um_find (um_emplace k v m) k' =
     (if k' = k then (case um_find m k of None \<Rightarrow> Some v | Some w \<Rightarrow> Some w) else um_find m k')"
  by (auto simp: um_emplace_def um_find_assign split: option.splits)

lemma set_um_keys_assign: "set (map fst (um_assign k v m)) = insert k (set (map fst m))"
  by (induction k v m rule: um_assign.induct) auto

lemma um_wf_Nil [simp]: "um_wf []"
  by (simp add: um_wf_def)

lemma um_wf_assign [simp, intro]: "um_wf m \<Longrightarrow> um_wf (um_assign k v m)"
  by (induction k v m rule: um_assign.induct)
    (auto simp: um_wf_def set_um_keys_assign[simplified])

lemma um_wf_filter [simp, intro]: "um_wf m \<Longrightarrow> um_wf (filter P m)"
  by (simp add: um_wf_def distinct_map_filter)

lemma um_wf_erase [simp, intro]: "um_wf m \<Longrightarrow> um_wf (um_erase k m)"
  by (simp add: um_erase_def um_wf_filter)

lemma um_wf_emplace [simp, intro]: "um_wf m \<Longrightarrow> um_wf (um_emplace k v m)"
  by (auto simp: um_emplace_def split: option.splits)

lemma um_find_in_set: "um_wf m \<Longrightarrow> um_find m k = Some v \<longleftrightarrow> (k, v) \<in> set m"
  by (simp add: um_find_def um_wf_def)

lemma um_find_None_iff: "um_find m k = None \<longleftrightarrow> k \<notin> set (um_keys m)"
  by (simp add: um_find_def um_keys_def map_of_eq_None_iff)

lemma um_find_SomeD: "um_find m k = Some v \<Longrightarrow> (k, v) \<in> set m"
  by (simp add: um_find_def map_of_SomeD)

lemma um_find_filter_key [um_simps]:
  "um_find (filter (\<lambda>(k', _). P k') m) k = (if P k then um_find m k else None)"
  by (induction m) (auto simp: um_find_def)

lemma um_find_map_val [um_simps]:
  "um_find (map (\<lambda>(k', v). (k', f k' v)) m) k = map_option (f k) (um_find m k)"
  by (induction m) (auto simp: um_find_def)

section \<open>Strings as \<open>std::string\<close>\<close>

text \<open>\<open>s.insert(i, 1, c)\<close>, \<open>s.find(c)\<close>, \<open>s.rfind(c)\<close>, and \<open>s.substr(i, n)\<close> of \<open>std::string\<close>;
  \<open>npos\<close> is None.\<close>

definition str_insert :: "nat \<Rightarrow> char \<Rightarrow> string \<Rightarrow> string" where
  "str_insert i c s = take i s @ c # drop i s"

fun str_find :: "char \<Rightarrow> string \<Rightarrow> nat option" where
  "str_find c [] = None"
| "str_find c (x # xs) = (if x = c then Some 0 else map_option Suc (str_find c xs))"

fun str_rfind :: "char \<Rightarrow> string \<Rightarrow> nat option" where
  "str_rfind c [] = None"
| "str_rfind c (x # xs) =
     (case str_rfind c xs of Some i \<Rightarrow> Some (Suc i) | None \<Rightarrow> (if x = c then Some 0 else None))"

definition is_digit :: "char \<Rightarrow> bool" where
  "is_digit c \<longleftrightarrow> 48 \<le> (of_char c :: nat) \<and> of_char c \<le> (57 :: nat)"

definition digit_val :: "char \<Rightarrow> nat" where
  "digit_val c = of_char c - 48"

text \<open>\<open>std::to_string\<close> of an unsigned number, and the value of a string of digits.\<close>

definition digit_char :: "nat \<Rightarrow> char" where
  "digit_char d = char_of (48 + d)"

fun to_string :: "nat \<Rightarrow> string" where
  "to_string n = (if n < 10 then [digit_char n] else to_string (n div 10) @ [digit_char (n mod 10)])"

declare to_string.simps [simp del]

definition digits_val :: "string \<Rightarrow> nat" where
  "digits_val s = foldl (\<lambda>a c. 10 * a + digit_val c) 0 s"

lemma is_digit_digit_char: "d < 10 \<Longrightarrow> is_digit (digit_char d)"
  by (simp add: is_digit_def digit_char_def)

lemma digit_val_digit_char: "d < 10 \<Longrightarrow> digit_val (digit_char d) = d"
  by (simp add: digit_val_def digit_char_def)

lemma digit_char_numerals:
  "digit_char 0 = CHR ''0''" "digit_char 1 = CHR ''1''" "digit_char (Suc 0) = CHR ''1''"
  "digit_char 2 = CHR ''2''" "digit_char 3 = CHR ''3''" "digit_char 4 = CHR ''4''"
  "digit_char 5 = CHR ''5''" "digit_char 6 = CHR ''6''" "digit_char 7 = CHR ''7''"
  "digit_char 8 = CHR ''8''" "digit_char 9 = CHR ''9''"
  by (simp_all add: digit_char_def char_of_def bit_0)

lemma digits_to_string: "\<forall>c \<in> set (to_string n). is_digit c"
proof (induction n rule: to_string.induct)
  case (1 n)
  then show ?case
    by (cases "n < 10") (auto simp: to_string.simps [of n] is_digit_digit_char)
qed

lemma to_string_nonempty: "to_string n \<noteq> []"
  by (subst to_string.simps) simp

lemma digits_val_to_string: "digits_val (to_string n) = n"
proof (induction n rule: to_string.induct)
  case (1 n)
  show ?case
  proof (cases "n < 10")
    case True
    then show ?thesis by (simp add: to_string.simps [of n] digits_val_def digit_val_digit_char)
  next
    case False
    with 1 have "digits_val (to_string (n div 10)) = n div 10" by simp
    with False show ?thesis
      by (simp add: to_string.simps [of n] digits_val_def digit_val_digit_char)
  qed
qed

lemma str_find_None_iff: "str_find c s = None \<longleftrightarrow> c \<notin> set s"
  by (induction s) auto

lemma str_find_append_notin: "c \<notin> set s \<Longrightarrow> str_find c (s @ c # t) = Some (length s)"
  by (induction s) auto

lemma str_rfind_None_iff: "str_rfind c s = None \<longleftrightarrow> c \<notin> set s"
  by (induction s) (auto split: option.splits)

lemma str_rfind_append_notin: "c \<notin> set t \<Longrightarrow> str_rfind c (s @ c # t) = Some (length s)"
proof (induction s)
  case Nil
  then have "str_rfind c t = None" by (simp add: str_rfind_None_iff)
  then show ?case by simp
next
  case (Cons x s)
  then show ?case by simp
qed

lemma str_rfind_less: "str_rfind c s = Some i \<Longrightarrow> i < length s"
  by (induction s arbitrary: i) (auto split: option.splits if_splits)

section \<open>Generic list facts\<close>

lemma list_update_append_eq: "(xs @ y # ys)[length xs := z] = xs @ z # ys"
  by (simp add: list_update_append)

lemma takeWhile_all: "\<forall>x\<in>set xs. P x \<Longrightarrow> takeWhile P (xs @ ys) = xs @ takeWhile P ys"
  by (induction xs) auto

lemma dropWhile_all: "\<forall>x\<in>set xs. P x \<Longrightarrow> dropWhile P (xs @ ys) = dropWhile P ys"
  by (induction xs) auto

text \<open>Two lists that agree in a key and in a value agree in the values under each key.\<close>

lemma filter_map_agree:
  "map f xs = map g ys \<Longrightarrow> map h xs = map k ys \<Longrightarrow>
     map h (filter (\<lambda>x. f x = l) xs) = map k (filter (\<lambda>y. g y = l) ys)"
proof (induction xs arbitrary: ys)
  case (Cons x xs)
  then show ?case by (cases ys) auto
qed simp

lemma length_filter_eq: "length (filter P xs) = length xs \<Longrightarrow> filter P xs = xs"
proof (induction xs)
  case (Cons x xs)
  then show ?case using length_filter_le [of P xs] by (cases "P x") auto
qed simp

end
