(* ===== verification/Mi_Escape.thy ===== *)
theory Mi_Escape imports Prelude begin

text \<open>
  \<open>MIProtocol::EscapeMIValue\<close>: the quoting of strings that the debugger writes into a GDB/MI
  record.  The loop is modelled with its index and its in-place insertion; a reader of MI
  c-strings, the other end of the contract, is the specification.
\<close>

section \<open>The escaping loop\<close>

text \<open>The \<open>switch\<close> of the loop body: the letter written after the backslash.\<close>

definition escape_code :: "char \<Rightarrow> char option" where
  "escape_code c =
     (if c = CHR 0x22 then Some (CHR 0x22)
      else if c = CHR 0x5C then Some (CHR 0x5C)
      else if c = CHR 0x00 then Some (CHR ''0'')
      else if c = CHR 0x07 then Some (CHR ''a'')
      else if c = CHR 0x08 then Some (CHR ''b'')
      else if c = CHR 0x0C then Some (CHR ''f'')
      else if c = CHR 0x0A then Some (CHR ''n'')
      else if c = CHR 0x0D then Some (CHR ''r'')
      else if c = CHR 0x09 then Some (CHR ''t'')
      else if c = CHR 0x0B then Some (CHR ''v'')
      else None)"

function escape_loop :: "(char \<Rightarrow> char option) \<Rightarrow> string \<Rightarrow> nat \<Rightarrow> string" where
  "escape_loop code s i =
     (if i < length s then
        (case code (s ! i) of
           None \<Rightarrow> escape_loop code s (i + 1)
         | Some e \<Rightarrow> escape_loop code ((str_insert i (CHR 0x5C) s)[i + 1 := e]) (i + 2))
      else s)"
  by pat_completeness auto
termination
  by (relation "measure (\<lambda>(code, s, i). length s - i)") (auto simp: str_insert_def)

declare escape_loop.simps [simp del]

definition EscapeMIValue :: "string \<Rightarrow> string" where
  "EscapeMIValue str = escape_loop escape_code str 0"

section \<open>What the loop computes\<close>

definition escape_char :: "(char \<Rightarrow> char option) \<Rightarrow> char \<Rightarrow> string" where
  "escape_char code c = (case code c of None \<Rightarrow> [c] | Some e \<Rightarrow> [CHR 0x5C, e])"

lemma escape_loop_done: "escape_loop code s (length s) = s"
  by (subst escape_loop.simps) simp

lemma escape_loop_step:
  "escape_loop code (p @ c # s) (length p) =
     escape_loop code ((p @ escape_char code c) @ s) (length (p @ escape_char code c))"
proof (cases "code c")
  case None
  then show ?thesis
    by (subst escape_loop.simps) (simp add: escape_char_def)
next
  case (Some e)
  have "(str_insert (length p) (CHR 0x5C) (p @ c # s))[length p + 1 := e] = p @ CHR 0x5C # e # s"
    by (simp add: str_insert_def list_update_append)
  with Some show ?thesis
    by (subst escape_loop.simps) (simp add: escape_char_def)
qed

lemma escape_loop_concat: "escape_loop code (p @ s) (length p) = p @ concat (map (escape_char code) s)"
proof (induction s arbitrary: p)
  case Nil
  show ?case by (simp add: escape_loop_done)
next
  case (Cons c s)
  show ?case
    using Cons.IH [of "p @ escape_char code c"] by (simp add: escape_loop_step)
qed

lemma EscapeMIValue_concat: "EscapeMIValue s = concat (map (escape_char escape_code) s)"
  using escape_loop_concat [of escape_code "[]" s] by (simp add: EscapeMIValue_def)

lemma EscapeMIValue_Nil [simp]: "EscapeMIValue [] = []"
  by (simp add: EscapeMIValue_concat)

lemma EscapeMIValue_append: "EscapeMIValue (s @ t) = EscapeMIValue s @ EscapeMIValue t"
  by (simp add: EscapeMIValue_concat)

section \<open>The reader of a c-string\<close>

text \<open>The reader on the other side of the pipe: it stands behind the opening quote, and returns the
  string and the text after the closing quote.\<close>

definition unescape_code :: "char \<Rightarrow> char option" where
  "unescape_code e =
     (if e = CHR 0x22 then Some (CHR 0x22)
      else if e = CHR 0x5C then Some (CHR 0x5C)
      else if e = CHR ''0'' then Some (CHR 0x00)
      else if e = CHR ''a'' then Some (CHR 0x07)
      else if e = CHR ''b'' then Some (CHR 0x08)
      else if e = CHR ''f'' then Some (CHR 0x0C)
      else if e = CHR ''n'' then Some (CHR 0x0A)
      else if e = CHR ''r'' then Some (CHR 0x0D)
      else if e = CHR ''t'' then Some (CHR 0x09)
      else if e = CHR ''v'' then Some (CHR 0x0B)
      else None)"

fun read_cstring :: "string \<Rightarrow> (string \<times> string) option" where
  "read_cstring [] = None"
| "read_cstring (c # cs) =
     (if c = CHR 0x22 then Some ([], cs)
      else if c = CHR 0x5C then
        (case cs of
           [] \<Rightarrow> None
         | e # cs' \<Rightarrow>
             (case unescape_code e of
                None \<Rightarrow> None
              | Some d \<Rightarrow> map_option (\<lambda>(s, r). (d # s, r)) (read_cstring cs')))
      else map_option (\<lambda>(s, r). (c # s, r)) (read_cstring cs))"

lemma unescape_escape_code: "escape_code c = Some e \<Longrightarrow> unescape_code e = Some c"
  by (auto simp: escape_code_def unescape_code_def split: if_splits)

lemma read_cstring_escape_char:
  "read_cstring (escape_char escape_code c @ r) = map_option (\<lambda>(s, t). (c # s, t)) (read_cstring r)"
proof (cases "escape_code c")
  case None
  then have "c \<noteq> CHR 0x22" and "c \<noteq> CHR 0x5C"
    by (auto simp: escape_code_def)
  with None show ?thesis by (simp add: escape_char_def)
next
  case (Some e)
  then show ?thesis by (simp add: escape_char_def unescape_escape_code)
qed

lemma escape_char_printable:
  "c' \<in> set (escape_char escape_code c) \<Longrightarrow>
     c' \<notin> {CHR 0x00, CHR 0x07, CHR 0x08, CHR 0x09, CHR 0x0A, CHR 0x0B, CHR 0x0C, CHR 0x0D}"
  by (auto simp: escape_char_def escape_code_def split: if_splits)

lemma read_cstring_Escape: "read_cstring (EscapeMIValue s @ CHR 0x22 # r) = Some (s, r)"
proof (induction s)
  case Nil
  show ?case by simp
next
  case (Cons c s)
  have "EscapeMIValue (c # s) @ CHR 0x22 # r = escape_char escape_code c @ EscapeMIValue s @ CHR 0x22 # r"
    by (simp add: EscapeMIValue_concat)
  with Cons show ?case by (simp add: read_cstring_escape_char)
qed

section \<open>Properties\<close>

text \<open>C28. A value written between quotes with \<open>EscapeMIValue\<close> is read back unchanged by a reader
  of MI c-strings, and the reader stops exactly at the closing quote, whatever bytes the value
  holds.\<close>

theorem EscapeMIValue_roundtrip: "read_cstring (EscapeMIValue s @ CHR 0x22 # r) = Some (s, r)"
  by (rule read_cstring_Escape)

text \<open>No escaped value holds a control character, so a record of the line-based protocol stays
  on one line.\<close>

theorem EscapeMIValue_single_line:
  "set (EscapeMIValue s) \<inter>
     {CHR 0x00, CHR 0x07, CHR 0x08, CHR 0x09, CHR 0x0A, CHR 0x0B, CHR 0x0C, CHR 0x0D} = {}"
  using escape_char_printable by (auto simp: EscapeMIValue_concat)

end
