(* ===== verification/Mi_Tokenizer.thy ===== *)
theory Mi_Tokenizer imports Mi_Escape begin

text \<open>
  The \<open>Tokenizer\<close> class and \<open>ParseLine\<close> of the GDB/MI front end: a command line is split
  into the numeric token, the command name and the arguments.  The four-state scanner is modelled
  character by character over the text from \<open>m_next\<close> on.  The round trips say that a client
  that quotes its arguments with the escaping of \<open>EscapeMIValue\<close> gets exactly them.
\<close>

section \<open>Tokenizer\<close>

datatype tok_state = StateSpace | StateToken | StateQuotedToken | StateEscape

record tokenizer =
  m_str :: string
  m_delimiters :: string
  m_next :: nat

definition default_delimiters :: string where
  "default_delimiters = [CHR 0x20, CHR 0x09, CHR 0x0A, CHR 0x0D]"

text \<open>The constructor drops the trailing delimiters.\<close>

definition erase_trailing :: "string \<Rightarrow> string \<Rightarrow> string" where
  "erase_trailing ds s = rev (dropWhile (\<lambda>c. c \<in> set ds) (rev s))"

definition Tokenizer :: "string \<Rightarrow> string \<Rightarrow> tokenizer" where
  "Tokenizer str ds = \<lparr>m_str = erase_trailing ds str, m_delimiters = ds, m_next = 0\<rparr>"

text \<open>The loop of \<open>Next\<close>: the state, the token so far and the characters from \<open>m_next\<close> on; it
  returns what \<open>Next\<close> returns, the token, and the characters that \<open>m_next\<close> then stands at.\<close>

fun next_scan :: "string \<Rightarrow> tok_state \<Rightarrow> string \<Rightarrow> string \<Rightarrow> bool \<times> string \<times> string" where
  "next_scan ds st tok [] = (st \<noteq> StateEscape \<or> tok = [], tok, [])"
| "next_scan ds StateSpace tok (c # cs) =
     (if c \<in> set ds then next_scan ds StateSpace tok cs
      else if tok \<noteq> [] then (True, tok, c # cs)
      else if c = CHR 0x22 then next_scan ds StateQuotedToken tok cs
      else next_scan ds StateToken (tok @ [c]) cs)"
| "next_scan ds StateToken tok (c # cs) =
     (if c \<in> set ds then next_scan ds StateSpace tok cs
      else next_scan ds StateToken (tok @ [c]) cs)"
| "next_scan ds StateQuotedToken tok (c # cs) =
     (if c = CHR 0x5C then next_scan ds StateEscape tok cs
      else if c = CHR 0x22 then next_scan ds StateSpace tok cs
      else next_scan ds StateQuotedToken (tok @ [c]) cs)"
| "next_scan ds StateEscape tok (c # cs) = next_scan ds StateQuotedToken (tok @ [c]) cs"

definition Next :: "tokenizer \<Rightarrow> bool \<times> string \<times> tokenizer" where
  "Next t =
     (if m_next t \<ge> length (m_str t) then (False, [], t)
      else (case next_scan (m_delimiters t) StateSpace [] (drop (m_next t) (m_str t)) of
              (ok, token, rest) \<Rightarrow>
                (ok, token, t\<lparr>m_next := length (m_str t) - length rest\<rparr>)))"

definition Remain :: "tokenizer \<Rightarrow> string" where
  "Remain t = drop (m_next t) (m_str t)"

subsection \<open>Progress\<close>

lemma next_scan_suffix: "next_scan ds st tok cs = (ok, tok', rest) \<Longrightarrow> \<exists>p. cs = p @ rest"
proof (induction ds st tok cs arbitrary: ok tok' rest rule: next_scan.induct)
  case (1 ds st tok)
  then show ?case by simp
next
  case (2 ds tok c cs)
  show ?case
  proof (cases "c \<notin> set ds \<and> tok \<noteq> []")
    case True
    with "2.prems" show ?thesis by auto
  next
    case False
    with "2.prems" "2.IH" have "\<exists>p. cs = p @ rest" by (auto split: if_splits)
    then show ?thesis by (metis append_Cons)
  qed
next
  case (3 ds tok c cs)
  then have "\<exists>p. cs = p @ rest" by (auto split: if_splits)
  then show ?case by (metis append_Cons)
next
  case (4 ds tok c cs)
  then have "\<exists>p. cs = p @ rest" by (auto split: if_splits)
  then show ?case by (metis append_Cons)
next
  case (5 ds tok c cs)
  then have "\<exists>p. cs = p @ rest" by simp
  then show ?case by (metis append_Cons)
qed

lemma next_scan_length: "next_scan ds st tok cs = (ok, tok', rest) \<Longrightarrow> length rest \<le> length cs"
  by (drule next_scan_suffix) auto

lemma next_scan_progress:
  assumes "next_scan ds StateSpace [] (c # cs) = (ok, tok', rest)"
  shows "length rest \<le> length cs"
  using assms by (auto split: if_splits dest!: next_scan_length)

lemma Next_progress:
  assumes "Next t = (ok, token, t')" and "m_next t < length (m_str t)"
  shows "m_next t < m_next t'" "m_str t' = m_str t" "m_delimiters t' = m_delimiters t"
    "m_next t' \<le> length (m_str t)"
proof -
  obtain c cs where d: "drop (m_next t) (m_str t) = c # cs"
    using assms(2) by (metis Cons_nth_drop_Suc)
  obtain ok' token' rest where s: "next_scan (m_delimiters t) StateSpace [] (c # cs) = (ok', token', rest)"
    by (cases "next_scan (m_delimiters t) StateSpace [] (c # cs)")
  have t': "t' = t\<lparr>m_next := length (m_str t) - length rest\<rparr>"
    using assms d s by (simp add: Next_def)
  have "length rest \<le> length cs" using s by (rule next_scan_progress)
  moreover have "length (m_str t) - m_next t = Suc (length cs)"
    using d by (metis length_Cons length_drop)
  ultimately show "m_next t < m_next t'" by (simp add: t')
  show "m_str t' = m_str t" "m_delimiters t' = m_delimiters t" "m_next t' \<le> length (m_str t)"
    by (simp_all add: t')
qed

lemma Next_True_less: "Next t = (True, token, t') \<Longrightarrow> m_next t < length (m_str t)"
  by (auto simp: Next_def split: if_splits)

lemma Next_True_decreases:
  assumes "Next t = (True, token, t')"
  shows "length (m_str t') - m_next t' < length (m_str t) - m_next t"
  using Next_progress [OF assms Next_True_less [OF assms]] Next_True_less [OF assms] by simp

text \<open>\<open>while (tokenizer.Next(result)) args.push_back(result);\<close>\<close>

function next_all :: "tokenizer \<Rightarrow> string list" where
  "next_all t = (case Next t of (ok, token, t') \<Rightarrow> if ok then token # next_all t' else [])"
  by pat_completeness auto
termination
  by (relation "measure (\<lambda>t. length (m_str t) - m_next t)") (auto dest!: Next_True_decreases [OF sym])

declare next_all.simps [simp del]

section \<open>ParseLine\<close>

definition first_not_digit :: "string \<Rightarrow> nat" where
  "first_not_digit s = length (takeWhile is_digit s)"

text \<open>\<open>None\<close> is the result \<open>false\<close>, with token, command and arguments cleared.\<close>

definition ParseLine :: "string \<Rightarrow> (string \<times> string \<times> string list) option" where
  "ParseLine str =
     (case Next (Tokenizer str default_delimiters) of (ok, result, t) \<Rightarrow>
        if \<not> ok \<or> result = [] then None
        else let i = first_not_digit result in
          if i = length result then None
          else if result ! i \<noteq> CHR ''-'' then None
          else let token = take i result; cmd = drop (i + 1) result in
            if cmd = ''var-assign'' then
              (case Next t of (_, name, t') \<Rightarrow> Some (token, cmd, [name, Remain t']))
            else if cmd = ''break-condition'' then
              (case Next t of (_, idstr, t') \<Rightarrow> Some (token, cmd, [idstr, Remain t']))
            else Some (token, cmd, next_all t))"

section \<open>Reading back what a client writes\<close>

text \<open>A client quotes an argument with the escaping of the MI values; arguments are separated by
  a space.  An argument is plain when it has no character that \<open>EscapeMIValue\<close> replaces by a
  letter (the scanner takes the character after a backslash as it is).\<close>

definition plain_arg :: "string \<Rightarrow> bool" where
  "plain_arg a \<longleftrightarrow> (\<forall>c \<in> set a. escape_code c \<in> {None, Some (CHR 0x22), Some (CHR 0x5C)})"

definition quoted :: "string \<Rightarrow> string" where
  "quoted a = CHR 0x22 # EscapeMIValue a @ [CHR 0x22]"

fun render_args :: "string list \<Rightarrow> string" where
  "render_args [] = []"
| "render_args [a] = quoted a"
| "render_args (a # b # as) = quoted a @ CHR 0x20 # render_args (b # as)"

lemma next_scan_escaped:
  "plain_arg a \<Longrightarrow>
     next_scan ds StateQuotedToken tok (EscapeMIValue a @ CHR 0x22 # r) =
       next_scan ds StateSpace (tok @ a) r"
proof (induction a arbitrary: tok)
  case Nil
  then show ?case by simp
next
  case (Cons c a)
  from Cons.prems have "plain_arg a" by (simp add: plain_arg_def)
  note IH = Cons.IH [OF this]
  from Cons.prems have c: "escape_code c \<in> {None, Some (CHR 0x22), Some (CHR 0x5C)}"
    by (simp add: plain_arg_def)
  show ?case
  proof (cases "c = CHR 0x22 \<or> c = CHR 0x5C")
    case True
    then have "EscapeMIValue (c # a) = CHR 0x5C # c # EscapeMIValue a"
      by (auto simp: EscapeMIValue_concat escape_char_def escape_code_def)
    with IH show ?thesis by simp
  next
    case False
    with c have "escape_code c = None" by (auto simp: escape_code_def split: if_splits)
    then have "EscapeMIValue (c # a) = c # EscapeMIValue a"
      by (simp add: EscapeMIValue_concat escape_char_def)
    with False IH show ?thesis by simp
  qed
qed

lemma Next_Remain:
  assumes "Remain t = c # cs"
    and "next_scan (m_delimiters t) StateSpace [] (c # cs) = (ok, tok, rest)"
  obtains t' where "Next t = (ok, tok, t')" "Remain t' = rest" "m_delimiters t' = m_delimiters t"
proof -
  have less: "m_next t < length (m_str t)"
    using assms(1) unfolding Remain_def by (metis drop_all list.distinct(1) not_less)
  obtain p where p: "c # cs = p @ rest"
    using next_scan_suffix [OF assms(2)] by blast
  then have str: "m_str t = (take (m_next t) (m_str t) @ p) @ rest"
    using assms(1) unfolding Remain_def by (metis append.assoc append_take_drop_id)
  let ?t' = "t\<lparr>m_next := length (m_str t) - length rest\<rparr>"
  have "Next t = (ok, tok, ?t')"
    using less assms by (simp add: Next_def Remain_def)
  moreover have "Remain ?t' = rest"
    using str unfolding Remain_def
    by (metis (no_types, lifting) add_diff_cancel_right' append_eq_conv_conj length_append
        tokenizer.select_convs(1) tokenizer.select_convs(3) tokenizer.surjective
        tokenizer.update_convs(3))
  ultimately show ?thesis using that by simp
qed

lemma default_delimiters_quote [simp]: "CHR 0x22 \<notin> set default_delimiters"
  by (simp add: default_delimiters_def)

lemma default_delimiters_space [simp]: "CHR 0x20 \<in> set default_delimiters"
  by (simp add: default_delimiters_def)

lemma render_args_Cons_quote: "as \<noteq> [] \<Longrightarrow> \<exists>r. render_args as = CHR 0x22 # r"
  by (cases as rule: render_args.cases) (auto simp: quoted_def)

lemma last_render_args: "as \<noteq> [] \<Longrightarrow> last (render_args as) = CHR 0x22"
proof (induction as rule: render_args.induct)
  case (3 a b as)
  then show ?case using render_args_Cons_quote [of "b # as"] by auto
qed (auto simp: quoted_def)

lemma next_all_render:
  assumes "m_delimiters t = default_delimiters" and "Remain t = render_args as"
    and "\<forall>a \<in> set as. plain_arg a" and "\<forall>a \<in> set (butlast as). a \<noteq> []"
  shows "next_all t = as"
  using assms
proof (induction as arbitrary: t rule: render_args.induct)
  case 1
  then have "Next t = (False, [], t)" by (simp add: Next_def Remain_def)
  then show ?case by (subst next_all.simps) simp
next
  case (2 a)
  then have r: "Remain t = CHR 0x22 # EscapeMIValue a @ CHR 0x22 # []" by (simp add: quoted_def)
  have "next_scan (m_delimiters t) StateSpace [] (CHR 0x22 # EscapeMIValue a @ CHR 0x22 # []) =
      (True, a, [])"
    using 2 next_scan_escaped [of a "m_delimiters t" "[]" "[]"] by simp
  then obtain t' where n: "Next t = (True, a, t')" and "Remain t' = []"
    using Next_Remain [OF r] by blast
  then have "Next t' = (False, [], t')" by (simp add: Next_def Remain_def)
  with n show ?case by (simp add: next_all.simps [of t] next_all.simps [of t'])
next
  case (3 a b as)
  obtain r' where r': "render_args (b # as) = CHR 0x22 # r'"
    using render_args_Cons_quote [of "b # as"] by auto
  have r: "Remain t = CHR 0x22 # EscapeMIValue a @ CHR 0x22 # CHR 0x20 # render_args (b # as)"
    using "3.prems"(2) by (simp add: quoted_def)
  have "next_scan (m_delimiters t) StateSpace []
      (CHR 0x22 # EscapeMIValue a @ CHR 0x22 # CHR 0x20 # render_args (b # as)) =
      (True, a, render_args (b # as))"
    using "3.prems" next_scan_escaped [of a "m_delimiters t" "[]" "CHR 0x20 # render_args (b # as)"] r'
    by simp
  then obtain t' where n: "Next t = (True, a, t')" and t': "Remain t' = render_args (b # as)"
      "m_delimiters t' = m_delimiters t"
    using Next_Remain [OF r] by blast
  have "next_all t' = b # as"
    using "3.prems" t' by (intro "3.IH") auto
  with n show ?case by (simp add: next_all.simps [of t])
qed

text \<open>The word at the start of a command line is scanned as it stands.\<close>

lemma next_scan_word:
  "\<forall>c \<in> set w. c \<notin> set ds \<Longrightarrow>
     next_scan ds StateToken tok (w @ r) = next_scan ds StateToken (tok @ w) r"
  by (induction w arbitrary: tok) auto

lemma next_scan_first_word:
  assumes "\<forall>c \<in> set (c # w). c \<notin> set ds" and "c \<noteq> CHR 0x22"
    and "r = [] \<or> (\<exists>d x xs. r = d # x # xs \<and> d \<in> set ds \<and> x \<notin> set ds)"
  shows "next_scan ds StateSpace [] ((c # w) @ r) = (True, c # w, drop 1 r)"
  using assms next_scan_word [of w ds "[c]" r] by auto

lemma erase_trailing_last: "s = [] \<or> last s \<notin> set ds \<Longrightarrow> erase_trailing ds s = s"
  by (cases s rule: rev_cases) (auto simp: erase_trailing_def)

lemma first_not_digit_append:
  "\<forall>c \<in> set d. is_digit c \<Longrightarrow> \<not> is_digit x \<Longrightarrow> first_not_digit (d @ x # w) = length d"
  by (simp add: first_not_digit_def takeWhile_all)

section \<open>Properties\<close>

lemma ParseLine_Next:
  assumes "\<forall>c \<in> set tk. is_digit c" and "\<forall>c \<in> set cmd. c \<notin> set default_delimiters"
    and "r = [] \<or> (\<exists>d x xs. r = d # x # xs \<and> d \<in> set default_delimiters \<and> x \<notin> set default_delimiters)"
    and "r = [] \<or> last r \<notin> set default_delimiters"
  obtains t where "Next (Tokenizer (tk @ CHR ''-'' # cmd @ r) default_delimiters) =
      (True, tk @ CHR ''-'' # cmd, t)"
    and "Remain t = drop 1 r" and "m_delimiters t = default_delimiters"
proof -
  obtain c w where w: "tk @ CHR ''-'' # cmd = c # w" by (cases tk) auto
  have digit: "is_digit x \<Longrightarrow> x \<notin> set default_delimiters \<and> x \<noteq> CHR 0x22" for x
    by (auto simp: is_digit_def default_delimiters_def)
  have "CHR ''-'' \<notin> set default_delimiters" by (simp add: default_delimiters_def)
  then have "\<forall>x \<in> set (tk @ CHR ''-'' # cmd). x \<notin> set default_delimiters"
    using assms(1,2) digit by auto
  then have cw: "\<forall>x \<in> set (c # w). x \<notin> set default_delimiters" by (simp only: w)
  have c: "c \<noteq> CHR 0x22"
  proof (cases tk)
    case Nil
    with w show ?thesis by auto
  next
    case (Cons x xs)
    with w assms(1) digit [of x] show ?thesis by auto
  qed
  let ?s = "c # w @ r"
  have "last ?s \<notin> set default_delimiters"
    using cw assms(4) by (cases "r = []") auto
  then have e: "erase_trailing default_delimiters ?s = ?s"
    by (intro erase_trailing_last) simp
  have "Remain (Tokenizer ?s default_delimiters) = c # w @ r"
    by (simp add: Remain_def Tokenizer_def e)
  moreover have "next_scan (m_delimiters (Tokenizer ?s default_delimiters)) StateSpace [] (c # w @ r) =
      (True, c # w, drop 1 r)"
    using next_scan_first_word [OF cw c assms(3)] by (simp add: Tokenizer_def)
  ultimately show ?thesis
    using Next_Remain [of "Tokenizer ?s default_delimiters" c "w @ r" True "c # w" "drop 1 r"] that w
    by (metis append_Cons append.assoc Tokenizer_def tokenizer.select_convs(2))
qed

lemma ParseLine_head:
  assumes "\<forall>c \<in> set tk. is_digit c"
  shows "first_not_digit (tk @ CHR ''-'' # cmd) = length tk"
    "(tk @ CHR ''-'' # cmd) ! length tk = CHR ''-''"
    "take (length tk) (tk @ CHR ''-'' # cmd) = tk"
    "drop (Suc (length tk)) (tk @ CHR ''-'' # cmd) = cmd"
  using assms first_not_digit_append [of tk "CHR ''-''" cmd] by (auto simp: is_digit_def)

lemma ParseLine_render:
  assumes "\<forall>c \<in> set tk. is_digit c" and "\<forall>c \<in> set cmd. c \<notin> set default_delimiters"
    and "cmd \<noteq> ''var-assign''" and "cmd \<noteq> ''break-condition''"
    and "\<forall>a \<in> set as. plain_arg a" and "\<forall>a \<in> set (butlast as). a \<noteq> []"
  shows "ParseLine (tk @ CHR ''-'' # cmd @ (if as = [] then [] else CHR 0x20 # render_args as)) =
    Some (tk, cmd, as)"
proof -
  let ?r = "if as = [] then [] else CHR 0x20 # render_args as"
  have r1: "?r = [] \<or> (\<exists>d x xs. ?r = d # x # xs \<and> d \<in> set default_delimiters \<and> x \<notin> set default_delimiters)"
    using render_args_Cons_quote [of as] by fastforce
  have r2: "?r = [] \<or> last ?r \<notin> set default_delimiters"
  proof (cases "as = []")
    case False
    then show ?thesis
      using last_render_args [of as] render_args_Cons_quote [of as]
      by (auto simp: default_delimiters_def)
  qed simp
  obtain t where n: "Next (Tokenizer (tk @ CHR ''-'' # cmd @ ?r) default_delimiters) =
      (True, tk @ CHR ''-'' # cmd, t)"
    and t: "Remain t = drop 1 ?r" "m_delimiters t = default_delimiters"
    using ParseLine_Next [OF assms(1,2) r1 r2] by blast
  have "Remain t = render_args as" using t(1) by (cases as) auto
  with t(2) have "next_all t = as" using assms(5,6) by (intro next_all_render)
  then show ?thesis
    unfolding ParseLine_def using n ParseLine_head [OF assms(1), of cmd] assms(3,4)
    by (simp del: split_paired_Ex)
qed

text \<open>C27. A command line that a client builds from a numeric token, a command word and quoted
  arguments is parsed into exactly that token, that command and those arguments.  The command is
  neither \<open>var-assign\<close> nor \<open>break-condition\<close>, which take the rest of the line as it is; the arguments
  have none of the control characters that the quoting writes as a letter, which the scanner does not
  turn back; only the last of them may be empty.\<close>

theorem ParseLine_roundtrip:
  assumes "\<forall>c \<in> set tk. is_digit c" and "\<forall>c \<in> set cmd. c \<notin> set default_delimiters"
    and "cmd \<noteq> ''var-assign''" and "cmd \<noteq> ''break-condition''"
    and "\<forall>a \<in> set as. plain_arg a" and "\<forall>a \<in> set (butlast as). a \<noteq> []"
  shows "ParseLine (tk @ CHR ''-'' # cmd @ (if as = [] then [] else CHR 0x20 # render_args as)) =
    Some (tk, cmd, as)"
  by (rule ParseLine_render [OF assms])

theorem ParseLine_roundtrip_witness:
  "ParseLine (''17-break-insert '' @ render_args [''-c'', ''x > 1'', ''Program.cs:21'']) =
     Some (''17'', ''break-insert'', [''-c'', ''x > 1'', ''Program.cs:21''])"
  using ParseLine_roundtrip [of "''17''" "''break-insert''" "[''-c'', ''x > 1'', ''Program.cs:21'']"]
  by (simp add: is_digit_def default_delimiters_def plain_arg_def escape_code_def)

text \<open>For \<open>var-assign\<close> and \<open>break-condition\<close> the text after the first argument is taken as
  one expression, spaces and quotes included.\<close>

theorem ParseLine_expression:
  assumes "\<forall>c \<in> set tk. is_digit c" and "cmd = ''var-assign'' \<or> cmd = ''break-condition''"
    and "n # ns = name" and "n \<noteq> CHR 0x22" and "\<forall>c \<in> set name. c \<notin> set default_delimiters"
    and "e # es = expr" and "e \<notin> set default_delimiters" and "last expr \<notin> set default_delimiters"
  shows "ParseLine (tk @ CHR ''-'' # cmd @ CHR 0x20 # name @ CHR 0x20 # expr) =
    Some (tk, cmd, [name, expr])"
proof -
  let ?r = "CHR 0x20 # name @ CHR 0x20 # expr"
  have cmd: "\<forall>c \<in> set cmd. c \<notin> set default_delimiters"
    using assms(2) by (auto simp: default_delimiters_def)
  have r1: "?r = [] \<or> (\<exists>d x xs. ?r = d # x # xs \<and> d \<in> set default_delimiters \<and> x \<notin> set default_delimiters)"
    using assms(3,5) by auto
  have r2: "?r = [] \<or> last ?r \<notin> set default_delimiters"
    using assms(6,8) by auto
  obtain t where n: "Next (Tokenizer (tk @ CHR ''-'' # cmd @ ?r) default_delimiters) =
      (True, tk @ CHR ''-'' # cmd, t)"
    and t: "Remain t = drop 1 ?r" "m_delimiters t = default_delimiters"
    using ParseLine_Next [OF assms(1) cmd r1 r2] by blast
  have "next_scan (m_delimiters t) StateSpace [] (n # ns @ CHR 0x20 # expr) = (True, name, expr)"
    using next_scan_first_word [of n ns default_delimiters "CHR 0x20 # expr"] assms t by auto
  then obtain t' where n': "Next t = (True, name, t')" and "Remain t' = expr"
    using Next_Remain [of t n "ns @ CHR 0x20 # expr"] t(1) assms(3) by auto
  then show ?thesis
    unfolding ParseLine_def using n ParseLine_head [OF assms(1), of cmd] assms(2) by auto
qed

theorem ParseLine_expression_witness:
  "ParseLine ''8-break-condition 3 i == \"a b\"'' =
     Some (''8'', ''break-condition'', [''3'', ''i == \"a b\"''])"
  using ParseLine_expression [of "''8''" "''break-condition''" "CHR ''3''" "[]" "''3''"
      "CHR ''i''" "'' == \"a b\"''" "''i == \"a b\"''"]
  by (simp add: is_digit_def default_delimiters_def)

end
