(* ===== verification/Mi_Args.thy ===== *)
theory Mi_Args imports Mi_Tokenizer begin

text \<open>
  The argument helpers at the top of \<open>miprotocol.cpp\<close>: integers, option stripping, and the parsing
  of breakpoint locations.  Every \<open>at()\<close> keeps its check: an index out of range is the exception
  value \<open>Inl Out_Of_Range\<close>, which none of these functions catches.
\<close>

section \<open>Integers\<close>

text \<open>\<open>std::stoi\<close>: white space, a sign, digits, and whatever follows is ignored; no digits is
  \<open>invalid_argument\<close>, a value outside \<open>int\<close> is \<open>out_of_range\<close>.  \<open>ParseInt\<close> catches both.\<close>

definition is_space :: "char \<Rightarrow> bool" where
  "is_space c \<longleftrightarrow> c \<in> {CHR 0x20, CHR 0x09, CHR 0x0A, CHR 0x0B, CHR 0x0C, CHR 0x0D}"

definition stoi_sign :: "string \<Rightarrow> int \<times> string" where
  "stoi_sign s =
     (case s of
        c # cs \<Rightarrow> (if c = CHR ''-'' then (-1, cs) else if c = CHR ''+'' then (1, cs) else (1, s))
      | [] \<Rightarrow> (1, []))"

definition stoi :: "string \<Rightarrow> int option" where
  "stoi s =
     (case stoi_sign (dropWhile is_space s) of (sg, t) \<Rightarrow>
        let ds = takeWhile is_digit t; v = sg * int (digits_val ds) in
          if ds = [] then None
          else if v < - (2 ^ 31) \<or> 2 ^ 31 \<le> v then None
          else Some v)"

definition ParseInt :: "string \<Rightarrow> int \<times> bool" where
  "ParseInt s = (case stoi s of Some v \<Rightarrow> (v, True) | None \<Rightarrow> (0, False))"

text \<open>Conversion of an \<open>int\<close> to \<open>unsigned\<close>.\<close>

definition to_u32 :: "int \<Rightarrow> nat" where
  "to_u32 v = nat (v mod 2 ^ 32)"

section \<open>Options\<close>

fun StripArgs :: "string list \<Rightarrow> string list" where
  "StripArgs [] = []"
| "StripArgs [a] = [a]"
| "StripArgs (a # b # r) = (if take 2 a = ''--'' then StripArgs r else a # StripArgs (b # r))"

definition GetIntArg :: "string list \<Rightarrow> string \<Rightarrow> int \<Rightarrow> int" where
  "GetIntArg args name defaultValue =
     (case dropWhile (\<lambda>a. a \<noteq> name) args of
        [] \<Rightarrow> defaultValue
      | [_] \<Rightarrow> defaultValue
      | _ # v # _ \<Rightarrow> (case ParseInt v of (val, ok) \<Rightarrow> if ok then val else defaultValue))"

text \<open>The two indices are only written when both parse.\<close>

definition GetIndices :: "string list \<Rightarrow> int \<Rightarrow> int \<Rightarrow> bool \<times> int \<times> int" where
  "GetIndices args index1 index2 =
     (if length args < 2 then (False, index1, index2)
      else (case ParseInt (args ! (length args - 2)) of (val1, ok1) \<Rightarrow>
        if \<not> ok1 then (False, index1, index2)
        else (case ParseInt (args ! (length args - 1)) of (val2, ok2) \<Rightarrow>
          if \<not> ok2 then (False, index1, index2) else (True, val1, val2))))"

section \<open>Breakpoint locations\<close>

datatype break_type = LineBreak | FuncBreak | Error

record line_break =
  lb_filename :: string
  lb_linenum :: nat
  lb_condition :: string

record func_break =
  fb_module :: string
  fb_funcname :: string
  fb_params :: string
  fb_condition :: string

definition GetBreakpointType :: "string list \<Rightarrow> cxx_exception + break_type" where
  "GetBreakpointType args =
     (if args = [] then Inr Error
      else let f = (args ! 0 = ''-f''); ncnt = (if f then 1 else 0) in
        if f \<and> length args \<le> ncnt then Inr Error
        else xbind (vec_at args ncnt) (\<lambda>a.
          let c = (a = ''-c''); ncnt' = (if c then ncnt + 2 else ncnt) in
            if c \<and> length args < ncnt' then Inr Error
            else xbind (vec_at args ncnt') (\<lambda>loc.
              case str_rfind (CHR '':'') loc of
                None \<Rightarrow> Inr FuncBreak
              | Some i \<Rightarrow>
                  if list_all is_digit (drop (i + 1) loc) then Inr LineBreak else Inr Error)))"

definition GetConditionPrepareArgs :: "string list \<Rightarrow> cxx_exception + (string \<times> string list)" where
  "GetConditionPrepareArgs args =
     xbind (vec_at args 0) (\<lambda>a0.
       let args1 = (if a0 = ''-f'' then drop 1 args else args) in
         xbind (vec_at args1 0) (\<lambda>a1.
           if a1 = ''-c'' then xbind (vec_at args1 1) (\<lambda>cond. Inr (cond, drop 2 args1))
           else Inr ([], args1)))"

text \<open>\<open>npos\<close> is \<open>2 ^ 64 - 1\<close>, so that \<open>npos + 1\<close> is 0.\<close>

definition ParseLineBreakpoint :: "string list \<Rightarrow> cxx_exception + (bool \<times> line_break)" where
  "ParseLineBreakpoint args =
     xbind (GetConditionPrepareArgs args) (\<lambda>(cond, args').
       xbind (vec_at args' 0) (\<lambda>loc.
         let filename = (case str_rfind (CHR '':'') loc of None \<Rightarrow> loc | Some i \<Rightarrow> take i loc);
             rest = (case str_rfind (CHR '':'') loc of None \<Rightarrow> loc | Some i \<Rightarrow> drop (i + 1) loc)
         in case ParseInt rest of (v, ok) \<Rightarrow>
              Inr (ok \<and> to_u32 v > 0,
                   \<lparr>lb_filename = filename, lb_linenum = to_u32 v, lb_condition = cond\<rparr>)))"

text \<open>The text in brackets is cut out by its length \<open>closeBrace - i + 1\<close>, computed in \<open>size_t\<close>, and
  erased by the count \<open>closeBrace\<close>, both as the code has it.\<close>

definition npos :: nat where
  "npos = 2 ^ 64 - 1"

definition str_erase :: "nat \<Rightarrow> nat \<Rightarrow> string \<Rightarrow> string" where
  "str_erase i n s = take i s @ drop (i + n) s"

definition split_module :: "string \<Rightarrow> string \<times> string" where
  "split_module s =
     (case str_find (CHR ''!'') s of None \<Rightarrow> ([], s) | Some i \<Rightarrow> (take i s, drop (i + 1) s))"

definition split_params :: "string \<Rightarrow> string \<times> string" where
  "split_params s =
     (case str_find (CHR ''('') s of
        None \<Rightarrow> (s, [])
      | Some i \<Rightarrow>
          let closeBrace = (case str_find (CHR '')'') s of None \<Rightarrow> npos | Some j \<Rightarrow> j) in
            (str_erase i closeBrace s,
             take ((closeBrace + 1 + (2 ^ 64 - i)) mod 2 ^ 64) (drop i s)))"

definition ParseFuncBreakpoint :: "string list \<Rightarrow> cxx_exception + (bool \<times> func_break)" where
  "ParseFuncBreakpoint args =
     xbind (GetConditionPrepareArgs args) (\<lambda>(cond, args').
       let prep = concat args';
           (modname, rest) = split_module prep;
           (funcname, params) = split_params rest
       in Inr (True, \<lparr>fb_module = modname, fb_funcname = funcname, fb_params = params,
                      fb_condition = cond\<rparr>))"

section \<open>Facts\<close>

lemma ParseInt_to_string: "n < 2 ^ 31 \<Longrightarrow> ParseInt (to_string n @ r) = (int n, True)"
  if "r = [] \<or> \<not> is_digit (hd r)"
proof -
  assume n: "n < 2 ^ 31"
  obtain c cs where c: "to_string n = c # cs" using to_string_nonempty [of n] by (cases "to_string n") auto
  have d: "is_digit c" using digits_to_string [of n] c by simp
  then have nsp: "\<not> is_space c" and sg: "c \<noteq> CHR ''-''" "c \<noteq> CHR ''+''"
    by (auto simp: is_digit_def is_space_def)
  have "takeWhile is_digit (to_string n @ r) = to_string n"
    using that by (cases r) (auto simp: takeWhile_all digits_to_string)
  then have tw: "takeWhile is_digit (c # cs @ r) = to_string n" by (simp add: c)
  have "stoi_sign (dropWhile is_space (to_string n @ r)) = (1, c # cs @ r)"
    using nsp sg by (simp add: c stoi_sign_def)
  then have "stoi (to_string n @ r) = Some (int n)"
    unfolding stoi_def using tw n
    by (simp add: Let_def to_string_nonempty digits_val_to_string del: takeWhile.simps)
  then show ?thesis by (simp add: ParseInt_def)
qed

lemma to_u32_of_nat: "n < 2 ^ 32 \<Longrightarrow> to_u32 (int n) = n"
  by (simp add: to_u32_def)

lemma prepare_args_plain:
  "a \<noteq> ''-f'' \<Longrightarrow> a \<noteq> ''-c'' \<Longrightarrow> GetConditionPrepareArgs (a # r) = Inr ([], a # r)"
  by (simp add: GetConditionPrepareArgs_def)

lemma prepare_args_cond: "GetConditionPrepareArgs (''-c'' # c # r) = Inr (c, r)"
  by (simp add: GetConditionPrepareArgs_def)

text \<open>The option prefixes that \<open>-break-insert\<close> understands.\<close>

datatype bp_options = Plain | Forced | Conditional string | Forced_Conditional string

fun bp_option_args :: "bp_options \<Rightarrow> string list" where
  "bp_option_args Plain = []"
| "bp_option_args Forced = [''-f'']"
| "bp_option_args (Conditional c) = [''-c'', c]"
| "bp_option_args (Forced_Conditional c) = [''-f'', ''-c'', c]"

fun bp_option_condition :: "bp_options \<Rightarrow> string" where
  "bp_option_condition (Conditional c) = c"
| "bp_option_condition (Forced_Conditional c) = c"
| "bp_option_condition _ = []"

lemma prepare_args_options:
  assumes "loc \<noteq> ''-f''" and "loc \<noteq> ''-c''"
  shows "GetConditionPrepareArgs (bp_option_args opts @ [loc]) = Inr (bp_option_condition opts, [loc])"
  using assms by (cases opts) (simp_all add: GetConditionPrepareArgs_def)

lemma breakpoint_type_options:
  assumes "loc \<noteq> ''-f''" and "loc \<noteq> ''-c''"
  shows "GetBreakpointType (bp_option_args opts @ [loc]) =
    (case str_rfind (CHR '':'') loc of
       None \<Rightarrow> Inr FuncBreak
     | Some i \<Rightarrow> if list_all is_digit (drop (i + 1) loc) then Inr LineBreak else Inr Error)"
  using assms by (cases opts) (simp_all add: GetBreakpointType_def numeral_2_eq_2 numeral_3_eq_3 split: option.split)

lemma split_params_call:
  assumes "f \<noteq> []" and "CHR ''('' \<notin> set f" and "CHR '')'' \<notin> set f" and "CHR '')'' \<notin> set ps"
    and "length f + length ps < 2 ^ 63"
  shows "split_params (f @ CHR ''('' # ps @ [CHR '')'']) = (f, CHR ''('' # ps @ [CHR '')''])"
proof -
  let ?s = "f @ CHR ''('' # ps @ [CHR '')'']"
  have o: "str_find (CHR ''('') ?s = Some (length f)"
    using assms(2) by (rule str_find_append_notin)
  have "str_find (CHR '')'') ((f @ CHR ''('' # ps) @ CHR '')'' # []) = Some (length (f @ CHR ''('' # ps))"
    using assms(3,4) by (intro str_find_append_notin) auto
  then have c: "str_find (CHR '')'') ?s = Some (length f + 1 + length ps)" by simp
  have "length f + 1 + length ps + 1 + (2 ^ 64 - length f) = (length ps + 2) + 2 ^ 64"
    using assms(5) by simp
  also have "\<dots> mod 2 ^ 64 = length ps + 2"
    using assms(5) by (subst mod_add_self2) simp
  finally have m: "(length f + 1 + length ps + 1 + (2 ^ 64 - length f)) mod 2 ^ 64 = length ps + 2" .
  have "str_erase (length f) (length f + 1 + length ps) ?s = f"
    using assms(1) by (cases f) (simp_all add: str_erase_def)
  then show ?thesis
    using o c m by (simp add: split_params_def)
qed

lemma split_params_none: "CHR ''('' \<notin> set f \<Longrightarrow> split_params f = (f, [])"
  using str_find_None_iff [of "CHR ''(''" f] by (simp add: split_params_def)

lemma split_module_some: "CHR ''!'' \<notin> set m \<Longrightarrow> split_module (m @ CHR ''!'' # r) = (m, r)"
  by (simp add: split_module_def str_find_append_notin)

section \<open>Properties\<close>

text \<open>A breakpoint number that the debugger prints parses back to itself.\<close>

theorem ParseInt_printed_number:
  assumes "n < 2 ^ 31"
  shows "ParseInt (to_string n) = (int n, True)"
  using ParseInt_to_string [of "[]" n] assms by simp

theorem ParseInt_printed_number_witness: "ParseInt (to_string 4096) = (4096, True)"
  using ParseInt_printed_number [of 4096] by simp

text \<open>\<open>GetBreakpointType\<close> lets an exception escape for exactly one kind of request: a condition
  with no location behind it.\<close>

theorem GetBreakpointType_throws_iff:
  "GetBreakpointType args = Inl Out_Of_Range \<longleftrightarrow>
     (\<exists>c. args = [''-c'', c]) \<or> (\<exists>c. args = [''-f'', ''-c'', c])"
proof -
  have one: "GetBreakpointType [a] \<noteq> Inl Out_Of_Range" for a
    by (simp add: GetBreakpointType_def Let_def split: option.split)
  have two: "GetBreakpointType [a, b] = Inl Out_Of_Range \<longleftrightarrow> a = ''-c''" for a b
    by (simp add: GetBreakpointType_def Let_def numeral_2_eq_2 split: option.split)
  have three: "GetBreakpointType [a, b, c] = Inl Out_Of_Range \<longleftrightarrow> a = ''-f'' \<and> b = ''-c''" for a b c
    by (simp add: GetBreakpointType_def Let_def numeral_2_eq_2 numeral_3_eq_3 split: option.split)
  have more: "GetBreakpointType (a # b # c # d # r) \<noteq> Inl Out_Of_Range" for a b c d r
    by (simp add: GetBreakpointType_def Let_def numeral_2_eq_2 numeral_3_eq_3 split: option.split)
  consider "args = []" | a where "args = [a]" | a b where "args = [a, b]"
    | a b c where "args = [a, b, c]" | a b c d r where "args = a # b # c # d # r"
    by (metis list.exhaust)
  then show ?thesis
    by cases (auto simp: one two three more, simp add: GetBreakpointType_def)
qed

text \<open>A source location \<open>file:line\<close>, whatever characters the file name has and with every
  combination of the options, is recognised as a line breakpoint and taken apart into the file
  name, the line and the condition.\<close>

theorem line_breakpoint_parsed:
  assumes "0 < n" and "n < 2 ^ 31"
  shows "GetBreakpointType (bp_option_args opts @ [file @ CHR '':'' # to_string n]) = Inr LineBreak \<and>
    ParseLineBreakpoint (bp_option_args opts @ [file @ CHR '':'' # to_string n]) =
      Inr (True, \<lparr>lb_filename = file, lb_linenum = n, lb_condition = bp_option_condition opts\<rparr>)"
proof -
  let ?loc = "file @ CHR '':'' # to_string n"
  have colon: "CHR '':'' \<notin> set (to_string n)"
    using digits_to_string [of n] by (auto simp: is_digit_def)
  have rf: "str_rfind (CHR '':'') ?loc = Some (length file)"
    using colon by (rule str_rfind_append_notin)
  have "CHR '':'' \<in> set ?loc" by simp
  then have ne: "?loc \<noteq> ''-f''" "?loc \<noteq> ''-c''" by (auto simp del: set_append)
  have "list_all is_digit (to_string n)"
    using digits_to_string by (simp add: list_all_iff)
  then show ?thesis
    using rf ne assms ParseInt_to_string [of "[]" n]
    by (simp add: breakpoint_type_options prepare_args_options ParseLineBreakpoint_def to_u32_of_nat)
qed

theorem line_breakpoint_parsed_witness:
  "GetBreakpointType [''-f'', ''-c'', ''i == 2'', ''C:/src/Program.cs:21''] = Inr LineBreak \<and>
   ParseLineBreakpoint [''-f'', ''-c'', ''i == 2'', ''C:/src/Program.cs:21''] =
     Inr (True, \<lparr>lb_filename = ''C:/src/Program.cs'', lb_linenum = 21, lb_condition = ''i == 2''\<rparr>)"
  using line_breakpoint_parsed [of 21 "Forced_Conditional ''i == 2''" "''C:/src/Program.cs''"]
  by (simp add: to_string.simps digit_char_numerals)

text \<open>A function location \<open>module!name(params)\<close> is recognised as a function breakpoint and taken
  apart into module, function and bracketed parameters.\<close>

theorem function_breakpoint_parsed:
  assumes "f \<noteq> []" and "CHR ''('' \<notin> set f" and "CHR '')'' \<notin> set f" and "CHR '')'' \<notin> set ps"
    and "CHR ''!'' \<notin> set m" and "CHR '':'' \<notin> set (m @ f @ ps)"
    and "length f + length ps < 2 ^ 63"
  shows "GetBreakpointType (bp_option_args opts @ [m @ CHR ''!'' # f @ CHR ''('' # ps @ '')'']) =
      Inr FuncBreak \<and>
    ParseFuncBreakpoint (bp_option_args opts @ [m @ CHR ''!'' # f @ CHR ''('' # ps @ '')'']) =
      Inr (True, \<lparr>fb_module = m, fb_funcname = f, fb_params = CHR ''('' # ps @ '')'',
                  fb_condition = bp_option_condition opts\<rparr>)"
proof -
  let ?loc = "m @ CHR ''!'' # f @ CHR ''('' # ps @ [CHR '')'']"
  have rf: "str_rfind (CHR '':'') ?loc = None"
    using assms(6) by (simp add: str_rfind_None_iff)
  have "CHR ''!'' \<in> set ?loc" by simp
  then have ne: "?loc \<noteq> ''-f''" "?loc \<noteq> ''-c''" by (auto simp del: set_append)
  show ?thesis
    using rf ne split_params_call [OF assms(1-4,7)] split_module_some [OF assms(5)]
    by (simp add: breakpoint_type_options prepare_args_options ParseFuncBreakpoint_def)
qed

theorem function_breakpoint_parsed_witness:
  "GetBreakpointType [''-c'', ''n > 0'', ''app.dll!Program.Main(string[])''] = Inr FuncBreak \<and>
   ParseFuncBreakpoint [''-c'', ''n > 0'', ''app.dll!Program.Main(string[])''] =
     Inr (True, \<lparr>fb_module = ''app.dll'', fb_funcname = ''Program.Main'', fb_params = ''(string[])'',
                 fb_condition = ''n > 0''\<rparr>)"
  using function_breakpoint_parsed [of "''Program.Main''" "''string[]''" "''app.dll''"
      "Conditional ''n > 0''"] by simp

end
