(* ===== verification/Protocol_Types.thy ===== *)
theory Protocol_Types imports Mi_Args begin

text \<open>
  The data that the debugger core and its front ends exchange (\<open>protocol.h\<close>): sources,
  breakpoints, breakpoint requests, frame identifiers, and the modes of exception filters.
  \<open>unsigned\<close> identifiers are natural numbers whose increments carry their \<open>mod 2 ^ 32\<close>.
\<close>

unbundle bit_operations_syntax

section \<open>Sources and breakpoints\<close>

definition GetFileName :: "string \<Rightarrow> string" where
  "GetFileName path = rev (takeWhile (\<lambda>c. c \<noteq> CHR ''/'' \<and> c \<noteq> CHR 0x5C) (rev path))"

record source =
  src_name :: string
  src_path :: string

definition Source :: "string \<Rightarrow> source" where
  "Source path = \<lparr>src_name = GetFileName path, src_path = path\<rparr>"

definition Source_IsNull :: "source \<Rightarrow> bool" where
  "Source_IsNull s \<longleftrightarrow> src_name s = [] \<and> src_path s = []"

record breakpoint =
  bp_id :: nat
  bp_verified :: bool
  bp_message :: string
  bp_source :: source
  bp_line :: int
  bp_hitCount :: nat
  bp_condition :: string
  bp_module :: string
  bp_funcname :: string
  bp_params :: string

definition empty_breakpoint :: breakpoint where
  "empty_breakpoint =
     \<lparr>bp_id = 0, bp_verified = False, bp_message = [], bp_source = Source [], bp_line = 0,
      bp_hitCount = 0, bp_condition = [], bp_module = [], bp_funcname = [], bp_params = []\<rparr>"

record source_breakpoint =
  sb_line :: int
  sb_condition :: string

record function_breakpoint =
  fbr_module :: string
  fbr_func :: string
  fbr_params :: string
  fbr_condition :: string

section \<open>Frame identifiers\<close>

text \<open>\<open>StackFrame(int threadId, uint32_t level, ...)\<close> packs the thread and the level into 64 bits;
  the thread number is an \<open>int\<close> and is sign-extended by the cast.\<close>

type_synonym u32 = "32 word"
type_synonym u64 = "64 word"

definition StackFrame_id :: "u32 \<Rightarrow> u32 \<Rightarrow> u64" where
  "StackFrame_id threadId level = push_bit 32 (scast threadId :: u64) OR ucast level"

definition GetLevel :: "u64 \<Rightarrow> u32" where
  "GetLevel fid = ucast (fid AND 0xFFFFFFFF)"

definition GetThreadId :: "u64 \<Rightarrow> u32" where
  "GetThreadId fid = ucast (drop_bit 32 fid)"

section \<open>Frames, variables, threads and events\<close>

record stack_frame =
  sf_id :: u64
  sf_name :: string
  sf_source :: source
  sf_line :: int
  sf_column :: int
  sf_endLine :: int
  sf_endColumn :: int
  sf_moduleId :: string
  sf_ilOffset :: nat
  sf_nativeOffset :: nat
  sf_methodToken :: nat
  sf_addr :: nat

record variable =
  v_name :: string
  v_value :: string
  v_type :: string
  v_evaluateName :: string
  v_variablesReference :: nat
  v_namedVariables :: int

record thread =
  t_id :: int
  t_name :: string
  t_running :: bool

datatype stop_reason = StopStep | StopBreakpoint | StopException | StopPause | StopEntry

record stopped_event =
  se_reason :: stop_reason
  se_description :: string
  se_threadId :: int
  se_text :: string
  se_frame :: stack_frame
  se_breakpoint :: breakpoint

datatype thread_reason = ThreadStarted | ThreadExited

datatype breakpoint_reason = BreakpointChanged | BreakpointNew | BreakpointRemoved

datatype symbol_status = SymbolsSkipped | SymbolsLoaded | SymbolsNotFound

record module_info =
  mi_id :: string
  mi_name :: string
  mi_path :: string
  mi_symbolStatus :: symbol_status
  mi_baseAddress :: nat
  mi_size :: nat

datatype module_reason = ModuleNew | ModuleChanged | ModuleRemoved

text \<open>Of the \<open>Debugger\<close> interface (\<open>debugger.h\<close>).\<close>

datatype step_type = STEP_IN | STEP_OVER | STEP_OUT

datatype disconnect_action = DisconnectDefault | DisconnectTerminate | DisconnectDetach

section \<open>Exception filters\<close>

datatype exc_category = CLR | MDA | ANY

text \<open>The three flags of the bit set, in the order of the enum.\<close>

record exc_mode =
  f_unhandled :: bool
  f_throw :: bool
  f_user_unhandled :: bool
  em_category :: exc_category

text \<open>The default constructor: \<open>F_Unhandled\<close> is always on, the category is CLR.\<close>

definition default_mode :: exc_mode where
  "default_mode = \<lparr>f_unhandled = True, f_throw = False, f_user_unhandled = False, em_category = CLR\<rparr>"

definition setThrow :: "exc_mode \<Rightarrow> exc_mode" where
  "setThrow m = m\<lparr>f_throw := True\<rparr>"

definition setUserUnhandled :: "exc_mode \<Rightarrow> exc_mode" where
  "setUserUnhandled m = m\<lparr>f_user_unhandled := True\<rparr>"

definition resetThrow :: "exc_mode \<Rightarrow> exc_mode" where
  "resetThrow m = m\<lparr>f_throw := False\<rparr>"

definition resetUserUnhandled :: "exc_mode \<Rightarrow> exc_mode" where
  "resetUserUnhandled m = m\<lparr>f_user_unhandled := False\<rparr>"

definition setAll :: "exc_mode \<Rightarrow> exc_mode" where
  "setAll m = setUserUnhandled (setThrow m)"

definition resetAll :: "exc_mode \<Rightarrow> exc_mode" where
  "resetAll m = resetUserUnhandled (resetThrow m)"

definition AllModes :: "exc_mode \<Rightarrow> bool" where
  "AllModes m \<longleftrightarrow> f_unhandled m \<and> f_throw m \<and> f_user_unhandled m"

definition NeverMode :: "exc_mode \<Rightarrow> bool" where
  "NeverMode m \<longleftrightarrow> \<not> f_unhandled m \<and> \<not> f_throw m \<and> \<not> f_user_unhandled m"

definition AnyUser :: "exc_mode \<Rightarrow> bool" where
  "AnyUser m \<longleftrightarrow> f_throw m \<or> f_user_unhandled m"

definition OnlyUnhandled :: "exc_mode \<Rightarrow> bool" where
  "OnlyUnhandled m \<longleftrightarrow> f_unhandled m \<and> \<not> f_throw m \<and> \<not> f_user_unhandled m"

text \<open>\<open>out.flags |= m.flags\<close>.\<close>

definition or_flags :: "exc_mode \<Rightarrow> exc_mode \<Rightarrow> exc_mode" where
  "or_flags out m = out\<lparr>f_unhandled := f_unhandled out \<or> f_unhandled m,
                        f_throw := f_throw out \<or> f_throw m,
                        f_user_unhandled := f_user_unhandled out \<or> f_user_unhandled m\<rparr>"

lemmas mode_defs = default_mode_def setThrow_def setUserUnhandled_def resetThrow_def
  resetUserUnhandled_def setAll_def resetAll_def AllModes_def NeverMode_def AnyUser_def
  OnlyUnhandled_def or_flags_def

section \<open>Properties\<close>

text \<open>A frame identifier determines its thread and its level: both are read back from it, for
  every thread number, negative ones included, and every level.\<close>

theorem StackFrame_id_roundtrip:
  "GetThreadId (StackFrame_id threadId level) = threadId \<and> GetLevel (StackFrame_id threadId level) = level"
proof
  show "GetThreadId (StackFrame_id threadId level) = threadId"
    by (rule bit_word_eqI) (auto simp: GetThreadId_def StackFrame_id_def bit_simps dest: bit_imp_le_length)
  have m: "(0xFFFFFFFF :: u64) = mask 32" by (simp add: mask_eq_exp_minus_1)
  show "GetLevel (StackFrame_id threadId level) = level"
    unfolding GetLevel_def StackFrame_id_def m
    by (rule bit_word_eqI) (auto simp: bit_simps)
qed

end
