(* ===== verification/Exception_Breakpoints.thy ===== *)
theory Exception_Breakpoints imports Protocol_Types begin

text \<open>
  \<open>ExceptionBreakpointStorage\<close>: the exception filters of the debugger.  A table gives the name of
  each numbered filter, an \<open>unordered_multimap\<close> the modes of each name, and the number of the
  current global filter \<open>*\<close> is kept apart.  The list of modes stands for the multimap; the elements
  of one name, in list order, are its \<open>equal_range\<close>.
\<close>

section \<open>State and operations\<close>

record exc_storage =
  ebs_table :: "(nat, string) umap"
  ebs_asterix :: nat
  ebs_modes :: "(string \<times> exc_mode) list"

definition init_storage :: exc_storage where
  "init_storage = \<lparr>ebs_table = [], ebs_asterix = 0, ebs_modes = []\<rparr>"

definition asterix :: string where
  "asterix = ''*''"

definition Storage_Delete :: "nat \<Rightarrow> exc_storage \<Rightarrow> hresult \<times> exc_storage" where
  "Storage_Delete i st =
     (case um_find (ebs_table st) i of
        None \<Rightarrow> (E_FAIL, st)
      | Some name \<Rightarrow>
          (S_OK, st\<lparr>ebs_asterix := (if name = asterix then 0 else ebs_asterix st),
                    ebs_modes := filter (\<lambda>(n, _). n \<noteq> name) (ebs_modes st),
                    ebs_table := um_erase i (ebs_table st)\<rparr>))"

definition Storage_Insert :: "nat \<Rightarrow> exc_mode \<Rightarrow> string \<Rightarrow> exc_storage \<Rightarrow> hresult \<times> exc_storage" where
  "Storage_Insert i mode name st =
     (let (status, st1) =
            (if name = asterix then
               (let (s, st') = (if ebs_asterix st \<noteq> 0 then Storage_Delete (ebs_asterix st) st
                                else (S_OK, st))
                in (s, st'\<lparr>ebs_asterix := i\<rparr>))
             else (S_OK, st))
      in (status, st1\<lparr>ebs_modes := ebs_modes st1 @ [(name, mode)],
                      ebs_table := um_assign i name (ebs_table st1)\<rparr>))"

text \<open>The walk over the rest of the range.\<close>

fun merge_range :: "exc_mode \<Rightarrow> exc_mode list \<Rightarrow> exc_mode" where
  "merge_range out [] = out"
| "merge_range out (m # ms) =
     merge_range (if em_category out = ANY \<or> em_category out = em_category m then or_flags out m else out) ms"

definition equal_range :: "exc_storage \<Rightarrow> string \<Rightarrow> exc_mode list" where
  "equal_range st name = map snd (filter (\<lambda>(n, _). n = name) (ebs_modes st))"

definition Storage_GetMode :: "exc_storage \<Rightarrow> exc_mode \<Rightarrow> string \<Rightarrow> hresult \<times> exc_mode" where
  "Storage_GetMode st out name =
     (case equal_range st name of
        [] \<Rightarrow> (E_FAIL, out)
      | m # ms \<Rightarrow> (S_OK, merge_range (or_flags (out\<lparr>em_category := em_category m\<rparr>) m) ms))"

text \<open>The event numbers of \<open>Match\<close>.\<close>

definition FIRST_CHANCE :: int where "FIRST_CHANCE = 1"
definition USER_FIRST_CHANCE :: int where "USER_FIRST_CHANCE = 2"
definition CATCH_HANDLER_FOUND :: int where "CATCH_HANDLER_FOUND = 3"
definition UNHANDLED :: int where "UNHANDLED = 4"

lemmas event_defs = FIRST_CHANCE_def USER_FIRST_CHANCE_def CATCH_HANDLER_FOUND_def UNHANDLED_def

definition Storage_Match :: "exc_storage \<Rightarrow> int \<Rightarrow> string \<Rightarrow> exc_category \<Rightarrow> bool" where
  "Storage_Match st ev exceptionName category =
     (if ev = FIRST_CHANCE \<or> ev = USER_FIRST_CHANCE then False
      else
        let mode = snd (Storage_GetMode st (snd (Storage_GetMode st default_mode asterix)) exceptionName)
        in if category = ANY \<or> category = em_category mode then
             (if ev = CATCH_HANDLER_FOUND \<and> f_user_unhandled mode \<and> take 7 exceptionName \<noteq> ''System.'' then True
              else if ev = CATCH_HANDLER_FOUND \<and> f_throw mode then True
              else if ev = UNHANDLED \<and> f_unhandled mode then True
              else False)
           else False)"

section \<open>The invariant\<close>

text \<open>The table and the modes agree, and the global filter is unique and remembered.\<close>

definition storage_inv :: "exc_storage \<Rightarrow> bool" where
  "storage_inv st \<longleftrightarrow>
     um_wf (ebs_table st) \<and>
     um_find (ebs_table st) 0 = None \<and>
     fst ` set (ebs_modes st) \<subseteq> snd ` set (ebs_table st) \<and>
     (\<forall>i. um_find (ebs_table st) i = Some asterix \<longrightarrow> i = ebs_asterix st) \<and>
     (ebs_asterix st \<noteq> 0 \<longrightarrow> um_find (ebs_table st) (ebs_asterix st) = Some asterix) \<and>
     length (equal_range st asterix) \<le> 1"

lemma storage_invI:
  assumes "um_wf (ebs_table st)" and "um_find (ebs_table st) 0 = None"
    and "fst ` set (ebs_modes st) \<subseteq> snd ` set (ebs_table st)"
    and "\<And>i. um_find (ebs_table st) i = Some asterix \<Longrightarrow> i = ebs_asterix st"
    and "ebs_asterix st \<noteq> 0 \<Longrightarrow> um_find (ebs_table st) (ebs_asterix st) = Some asterix"
    and "length (equal_range st asterix) \<le> 1"
  shows "storage_inv st"
  using assms unfolding storage_inv_def by blast

lemma storage_invD:
  assumes "storage_inv st"
  shows "um_wf (ebs_table st)" "um_find (ebs_table st) 0 = None"
    "fst ` set (ebs_modes st) \<subseteq> snd ` set (ebs_table st)"
    "um_find (ebs_table st) i = Some asterix \<Longrightarrow> i = ebs_asterix st"
    "ebs_asterix st \<noteq> 0 \<Longrightarrow> um_find (ebs_table st) (ebs_asterix st) = Some asterix"
    "length (equal_range st asterix) \<le> 1"
  using assms unfolding storage_inv_def by blast+

lemma storage_inv_init: "storage_inv init_storage"
  by (simp add: storage_inv_def init_storage_def equal_range_def)

lemma set_um_table: "um_wf m \<Longrightarrow> snd ` set m = {v. \<exists>k. um_find m k = Some v}"
  by (force simp: um_find_in_set)

lemma range_filter_out:
  "map snd (filter (\<lambda>(n, _). n = k) (filter (\<lambda>(n, _). n \<noteq> name) ms)) =
     (if k = name then [] else map snd (filter (\<lambda>(n, _). n = k) ms))"
  by (induction ms) auto

lemma Delete_range:
  "um_find (ebs_table st) i = Some name \<Longrightarrow>
     equal_range (snd (Storage_Delete i st)) n = (if n = name then [] else equal_range st n)"
  by (simp add: Storage_Delete_def equal_range_def range_filter_out del: filter_filter)

lemma Delete_inv [inv_intros]:
  assumes "storage_inv st"
  shows "storage_inv (snd (Storage_Delete i st))"
proof (cases "um_find (ebs_table st) i")
  case None
  with assms show ?thesis by (simp add: Storage_Delete_def)
next
  case (Some name)
  let ?st' = "snd (Storage_Delete i st)"
  have wf: "um_wf (ebs_table st)" using assms by (simp add: storage_inv_def)
  have t: "ebs_table ?st' = um_erase i (ebs_table st)"
    and m: "ebs_modes ?st' = filter (\<lambda>(n, _). n \<noteq> name) (ebs_modes st)"
    and a: "ebs_asterix ?st' = (if name = asterix then 0 else ebs_asterix st)"
    using Some by (simp_all add: Storage_Delete_def)
  show ?thesis
  proof (rule storage_invI)
    show "um_wf (ebs_table ?st')" using wf by (simp add: t um_wf_erase)
    show "um_find (ebs_table ?st') 0 = None"
      using storage_invD(2) [OF assms] by (simp add: t um_find_erase)
    show "fst ` set (ebs_modes ?st') \<subseteq> snd ` set (ebs_table ?st')"
    proof
      fix n assume "n \<in> fst ` set (ebs_modes ?st')"
      then have "n \<in> fst ` set (ebs_modes st)" and ne: "n \<noteq> name" by (auto simp: m)
      then have "n \<in> snd ` set (ebs_table st)" using storage_invD(3) [OF assms] by blast
      then obtain k where k: "um_find (ebs_table st) k = Some n" by (auto simp: set_um_table [OF wf])
      then have "um_find (um_erase i (ebs_table st)) k = Some n" using Some ne by (auto simp: um_find_erase)
      then have "(k, n) \<in> set (um_erase i (ebs_table st))" by (rule um_find_SomeD)
      then show "n \<in> snd ` set (ebs_table ?st')" unfolding t by force
    qed
    show "k = ebs_asterix ?st'" if "um_find (ebs_table ?st') k = Some asterix" for k
    proof -
      from that have ne: "k \<noteq> i" and k: "um_find (ebs_table st) k = Some asterix"
        by (auto simp: t um_find_erase split: if_splits)
      have "name \<noteq> asterix"
        using ne Some k storage_invD(4) [OF assms, of i] storage_invD(4) [OF assms, of k] by auto
      then show ?thesis using storage_invD(4) [OF assms k] by (simp add: a)
    qed
    show "um_find (ebs_table ?st') (ebs_asterix ?st') = Some asterix" if "ebs_asterix ?st' \<noteq> 0"
    proof -
      from that have ne: "name \<noteq> asterix" and "ebs_asterix st \<noteq> 0" by (auto simp: a split: if_splits)
      with storage_invD(5) [OF assms] have "um_find (ebs_table st) (ebs_asterix st) = Some asterix" by simp
      with ne Some show ?thesis by (auto simp: a t um_find_erase)
    qed
    show "length (equal_range ?st' asterix) \<le> 1"
      using Delete_range [OF Some, of asterix] storage_invD(6) [OF assms] by simp
  qed
qed

lemma equal_range_append:
  "equal_range (st\<lparr>ebs_modes := ebs_modes st @ [(name, mode)], ebs_table := t\<rparr>) n =
     equal_range st n @ (if n = name then [mode] else [])"
  by (simp add: equal_range_def)

text \<open>The part of \<open>Storage_Insert\<close> before the insertions: the previous global filter is gone.\<close>

definition drop_asterix :: "nat \<Rightarrow> string \<Rightarrow> exc_storage \<Rightarrow> exc_storage" where
  "drop_asterix i name st =
     (if name = asterix
      then (if ebs_asterix st \<noteq> 0 then snd (Storage_Delete (ebs_asterix st) st) else st)\<lparr>ebs_asterix := i\<rparr>
      else st)"

lemma Insert_drop:
  "snd (Storage_Insert i mode name st) =
     (let st1 = drop_asterix i name st in
      st1\<lparr>ebs_modes := ebs_modes st1 @ [(name, mode)], ebs_table := um_assign i name (ebs_table st1)\<rparr>)"
  by (simp add: Storage_Insert_def drop_asterix_def Let_def split: prod.split)

lemma drop_asterix_facts:
  assumes "storage_inv st" and "i \<noteq> 0"
  shows "um_wf (ebs_table (drop_asterix i name st))"
    "um_find (ebs_table st) k = None \<Longrightarrow> um_find (ebs_table (drop_asterix i name st)) k = None"
    "fst ` set (ebs_modes (drop_asterix i name st)) \<subseteq> snd ` set (ebs_table (drop_asterix i name st))"
    "name = asterix \<Longrightarrow> um_find (ebs_table (drop_asterix i name st)) k \<noteq> Some asterix"
    "name = asterix \<Longrightarrow> equal_range (drop_asterix i name st) asterix = []"
    "name \<noteq> asterix \<Longrightarrow> drop_asterix i name st = st"
    "name = asterix \<Longrightarrow> ebs_asterix (drop_asterix i name st) = i"
proof -
  let ?d = "snd (Storage_Delete (ebs_asterix st) st)"
  have inv: "storage_inv ?d" using assms(1) by (rule Delete_inv)
  show "um_wf (ebs_table (drop_asterix i name st))"
    using storage_invD(1) [OF inv] storage_invD(1) [OF assms(1)] by (simp add: drop_asterix_def)
  show "um_find (ebs_table st) k = None \<Longrightarrow> um_find (ebs_table (drop_asterix i name st)) k = None"
    by (simp add: drop_asterix_def Storage_Delete_def um_find_erase split: option.split)
  show "fst ` set (ebs_modes (drop_asterix i name st)) \<subseteq> snd ` set (ebs_table (drop_asterix i name st))"
    using storage_invD(3) [OF inv] storage_invD(3) [OF assms(1)] by (simp add: drop_asterix_def)
  show "name \<noteq> asterix \<Longrightarrow> drop_asterix i name st = st"
    "name = asterix \<Longrightarrow> ebs_asterix (drop_asterix i name st) = i"
    by (simp_all add: drop_asterix_def)
  have gone: "\<And>k. um_find (ebs_table ?d) k \<noteq> Some asterix" "equal_range ?d asterix = []"
    if a: "ebs_asterix st \<noteq> 0"
  proof -
    have f: "um_find (ebs_table st) (ebs_asterix st) = Some asterix"
      using storage_invD(5) [OF assms(1) a] .
    then have "ebs_asterix ?d = 0" by (simp add: Storage_Delete_def)
    then show "um_find (ebs_table ?d) k \<noteq> Some asterix" for k
      using storage_invD(2,4) [OF inv] by (metis option.distinct(1))
    show "equal_range ?d asterix = []" using Delete_range [OF f, of asterix] by simp
  qed
  have none: "um_find (ebs_table st) k \<noteq> Some asterix" "equal_range st asterix = []"
    if a: "ebs_asterix st = 0" for k
  proof -
    show *: "um_find (ebs_table st) k \<noteq> Some asterix" for k
      using storage_invD(2,4) [OF assms(1)] a by (metis option.distinct(1))
    have "asterix \<notin> snd ` set (ebs_table st)"
      using * set_um_table [OF storage_invD(1) [OF assms(1)]] by auto
    then have "asterix \<notin> fst ` set (ebs_modes st)" using storage_invD(3) [OF assms(1)] by auto
    then show "equal_range st asterix = []" by (force simp: equal_range_def filter_empty_conv)
  qed
  show "name = asterix \<Longrightarrow> um_find (ebs_table (drop_asterix i name st)) k \<noteq> Some asterix"
    using gone(1) none(1) by (simp add: drop_asterix_def)
  show "name = asterix \<Longrightarrow> equal_range (drop_asterix i name st) asterix = []"
    using gone(2) none(2) by (simp add: drop_asterix_def equal_range_def)
qed

lemma Insert_inv [inv_intros]:
  assumes "storage_inv st" and "i \<noteq> 0" and "um_find (ebs_table st) i = None"
  shows "storage_inv (snd (Storage_Insert i mode name st))"
proof -
  note D = drop_asterix_facts [OF assms(1,2), where name = name]
  let ?st1 = "drop_asterix i name st"
  let ?st' = "?st1\<lparr>ebs_modes := ebs_modes ?st1 @ [(name, mode)], ebs_table := um_assign i name (ebs_table ?st1)\<rparr>"
  have "storage_inv ?st'"
  proof (rule storage_invI)
    have wf: "um_wf (um_assign i name (ebs_table ?st1))" using D(1) by (rule um_wf_assign)
    then show "um_wf (ebs_table ?st')" by simp
    show "um_find (ebs_table ?st') 0 = None"
      using D(2) [of 0] storage_invD(2) [OF assms(1)] assms(2) by (simp add: um_find_assign)
    have "snd ` set (ebs_table ?st1) \<union> {name} \<subseteq> snd ` set (um_assign i name (ebs_table ?st1))"
      using D(2) [OF assms(3)] unfolding set_um_table [OF wf] set_um_table [OF D(1)]
      by (auto simp: um_find_assign) (metis option.distinct(1))
    then show "fst ` set (ebs_modes ?st') \<subseteq> snd ` set (ebs_table ?st')"
      using D(3) by auto
    show "k = ebs_asterix ?st'" if "um_find (ebs_table ?st') k = Some asterix" for k
      using that D(4) [of k] D(6,7) storage_invD(4) [OF assms(1), of k]
      by (cases "name = asterix") (auto simp: um_find_assign split: if_splits)
    show "um_find (ebs_table ?st') (ebs_asterix ?st') = Some asterix" if "ebs_asterix ?st' \<noteq> 0"
      using that D(6,7) storage_invD(5) [OF assms(1)] assms(3)
      by (cases "name = asterix") (auto simp: um_find_assign)
    show "length (equal_range ?st' asterix) \<le> 1"
      using D(5,6) storage_invD(6) [OF assms(1)] by (cases "name = asterix") (auto simp: equal_range_append)
  qed
  then show ?thesis by (simp add: Insert_drop Let_def)
qed

lemma Insert_ok: "storage_inv st \<Longrightarrow> fst (Storage_Insert i mode name st) = S_OK"
  using storage_invD(5) [of st]
  by (auto simp: Storage_Insert_def Storage_Delete_def split: prod.split option.split)

lemma Insert_range:
  assumes inv: "storage_inv st" and i: "i \<noteq> 0"
  shows "equal_range (snd (Storage_Insert i mode name st)) n =
     (if n \<noteq> name then equal_range st n
      else if name = asterix then [mode] else equal_range st name @ [mode])"
proof -
  note D = drop_asterix_facts [OF inv i, where name = name]
  have other: "equal_range (drop_asterix i name st) n = equal_range st n" if "n \<noteq> name"
  proof (cases "name = asterix \<and> ebs_asterix st \<noteq> 0")
    case True
    then have "um_find (ebs_table st) (ebs_asterix st) = Some asterix" using storage_invD(5) [OF inv] by blast
    from Delete_range [OF this, of n] True that show ?thesis by (simp add: drop_asterix_def equal_range_def)
  qed (auto simp: drop_asterix_def equal_range_def)
  show ?thesis using D(5,6) other by (auto simp: Insert_drop Let_def equal_range_append)
qed

section \<open>The filters behind their counter\<close>

text \<open>\<open>Breakpoints::InsertExceptionBreakpoint\<close> and \<open>DeleteExceptionBreakpoint\<close>: the numbers come from
  the counter that all breakpoints share; it only moves when the insertion succeeds.\<close>

definition InsertExceptionBreakpoint ::
  "exc_mode \<Rightarrow> string \<Rightarrow> nat \<times> exc_storage \<Rightarrow> hresult \<times> nat \<times> nat \<times> exc_storage" where
  "InsertExceptionBreakpoint mode name s =
     (case s of (next, st) \<Rightarrow>
        case Storage_Insert next mode name st of (status, st') \<Rightarrow>
          if succeeded status then (S_OK, next, (next + 1) mod 2 ^ 32, st')
          else (status, 0, next, st'))"

definition DeleteExceptionBreakpoint :: "nat \<Rightarrow> nat \<times> exc_storage \<Rightarrow> hresult \<times> nat \<times> exc_storage" where
  "DeleteExceptionBreakpoint i s =
     (case s of (next, st) \<Rightarrow> case Storage_Delete i st of (status, st') \<Rightarrow> (status, next, st'))"

datatype exc_op = Ins exc_mode string | Del nat

definition exc_step :: "exc_op \<Rightarrow> nat \<times> exc_storage \<Rightarrow> nat \<times> exc_storage" where
  "exc_step op s =
     (case op of
        Ins mode name \<Rightarrow> snd (snd (InsertExceptionBreakpoint mode name s))
      | Del i \<Rightarrow> snd (DeleteExceptionBreakpoint i s))"

definition exc_inv :: "nat \<times> exc_storage \<Rightarrow> bool" where
  "exc_inv s \<longleftrightarrow> storage_inv (snd s) \<and> 0 < fst s \<and> (\<forall>i. um_find (ebs_table (snd s)) i \<noteq> None \<longrightarrow> i < fst s)"

lemma exc_step_inv:
  assumes "exc_inv s" and "fst s + 1 < 2 ^ 32"
  shows "exc_inv (exc_step op s) \<and> fst (exc_step op s) \<le> fst s + 1"
proof (cases op)
  case (Ins mode name)
  obtain nx st where s: "s = (nx, st)" by (cases s)
  have inv: "storage_inv st" and nx: "0 < nx" and lt: "\<And>i. um_find (ebs_table st) i \<noteq> None \<Longrightarrow> i < nx"
    using assms(1) by (auto simp: exc_inv_def s)
  have fresh: "um_find (ebs_table st) nx = None" using lt by (metis less_irrefl)
  have ok: "fst (Storage_Insert nx mode name st) = S_OK" using inv by (rule Insert_ok)
  have st: "exc_step op s = (nx + 1, snd (Storage_Insert nx mode name st))"
    using ok assms(2)
    by (simp add: exc_step_def Ins s InsertExceptionBreakpoint_def case_prod_beta)
  have i': "storage_inv (snd (Storage_Insert nx mode name st))"
    using Insert_inv [OF inv _ fresh] nx by simp
  have "i < nx + 1" if "um_find (ebs_table (snd (Storage_Insert nx mode name st))) i \<noteq> None" for i
    using that drop_asterix_facts(2) [OF inv, of nx i name] nx lt [of i]
    by (fastforce simp: Insert_drop Let_def um_find_assign split: if_splits)
  moreover have "fst s = nx" by (simp add: s)
  ultimately show ?thesis using i' by (simp add: exc_inv_def st)
next
  case (Del i)
  have "um_find (ebs_table (snd (Storage_Delete i st))) k \<noteq> None \<Longrightarrow> um_find (ebs_table st) k \<noteq> None" for st k
    by (auto simp: Storage_Delete_def um_find_erase split: option.splits if_splits)
  with assms Delete_inv [of "snd s" i] show ?thesis
    by (auto simp: exc_step_def Del DeleteExceptionBreakpoint_def exc_inv_def split: prod.splits)
qed

lemma exc_run_inv:
  "exc_inv s \<Longrightarrow> fst s + length ops < 2 ^ 32 \<Longrightarrow> exc_inv (fold exc_step ops s)"
proof (induction ops arbitrary: s)
  case Nil
  then show ?case by simp
next
  case (Cons op ops)
  then have "exc_inv (exc_step op s)" and "fst (exc_step op s) \<le> fst s + 1"
    using exc_step_inv [of s op] by auto
  with Cons.prems show ?case by (auto intro!: Cons.IH)
qed

lemma merge_range_category: "em_category (merge_range out ms) = em_category out"
  by (induction ms arbitrary: out) (auto simp: or_flags_def)

lemma merge_range_throw: "f_throw out \<Longrightarrow> f_throw (merge_range out ms)"
  by (induction ms arbitrary: out) (auto simp: or_flags_def)

lemma GetMode_none: "equal_range st name = [] \<Longrightarrow> Storage_GetMode st out name = (E_FAIL, out)"
  by (simp add: Storage_GetMode_def)

section \<open>Properties\<close>

text \<open>C40. However filters are inserted and deleted, the table and the modes stay consistent: every
  mode belongs to a numbered filter, numbers are unique and below the counter, and there is at most
  one global filter, the remembered one.\<close>

theorem exception_filters_invariant:
  assumes "length ops < 2 ^ 32 - 1"
  shows "exc_inv (fold exc_step ops (1, init_storage))"
proof -
  have "exc_inv (1, init_storage)"
    by (simp add: exc_inv_def storage_inv_init) (simp add: init_storage_def)
  then show ?thesis using assms by (intro exc_run_inv) auto
qed

theorem exception_filters_invariant_witness:
  "exc_inv (fold exc_step [Ins default_mode ''*'', Ins (setThrow default_mode) ''*'', Del 2] (1, init_storage))"
  using exception_filters_invariant
    [of "[Ins default_mode ''*'', Ins (setThrow default_mode) ''*'', Del 2]"] by simp

text \<open>Inserting a filter never fails, and gives it the number of the counter; the name can then
  be looked up, and for the global name every earlier global filter is gone.\<close>

theorem insert_filter_effect:
  assumes "exc_inv (next, st)" and "InsertExceptionBreakpoint mode name (next, st) = (hr, rid, next', st')"
  shows "hr = S_OK \<and> rid = next \<and> um_find (ebs_table st') next = Some name \<and>
    equal_range st' name = (if name = ''*'' then [mode] else equal_range st name @ [mode])"
proof -
  have inv: "storage_inv st" and "0 < next" using assms(1) by (simp_all add: exc_inv_def)
  note D = drop_asterix_facts [OF inv, of "next", where name = name]
  have ok: "fst (Storage_Insert next mode name st) = S_OK" using inv by (rule Insert_ok)
  have "st' = snd (Storage_Insert next mode name st)" "hr = S_OK" "rid = next"
    using assms(2) ok by (auto simp: InsertExceptionBreakpoint_def case_prod_beta)
  then show ?thesis
    using D(5,6) \<open>0 < next\<close>
    by (auto simp: Insert_drop Let_def um_find_assign equal_range_append asterix_def)
qed

theorem insert_filter_effect_witness:
  "um_find (ebs_table (snd (Storage_Insert 1 default_mode ''*'' init_storage))) 1 = Some ''*''"
proof -
  have i: "exc_inv (1, init_storage)"
    by (simp add: exc_inv_def storage_inv_init) (simp add: init_storage_def)
  show ?thesis
    using insert_filter_effect [OF i, of default_mode "''*''"]
    by (simp add: InsertExceptionBreakpoint_def Storage_Insert_def init_storage_def asterix_def)
qed

text \<open>Deleting a filter by its number removes the modes of its name altogether, also those that
  other filters of the same name put there, while those other filters keep their table entries.  An
  unknown number is an error and changes nothing.\<close>

theorem delete_filter_effect:
  "(case um_find (ebs_table st) i of
      None \<Rightarrow> Storage_Delete i st = (E_FAIL, st)
    | Some name \<Rightarrow> fst (Storage_Delete i st) = S_OK \<and>
        (\<forall>n. equal_range (snd (Storage_Delete i st)) n = (if n = name then [] else equal_range st n)) \<and>
        (\<forall>j. um_find (ebs_table (snd (Storage_Delete i st))) j =
           (if j = i then None else um_find (ebs_table st) j)))"
  using Delete_range [of st i] by (auto simp: Storage_Delete_def um_find_erase split: option.split)

definition two_filters :: exc_storage where
  "two_filters = snd (Storage_Insert 2 (setThrow default_mode) ''A'' (snd (Storage_Insert 1 (setThrow default_mode) ''A'' init_storage)))"

text \<open>A filter on exceptions when they are thrown stops the debugger at an exception of its name
  and category when the handler is found, and no filter ever stops it at the two first-chance
  events.\<close>

theorem throw_filter_stops:
  assumes "equal_range st name = m # ms" and "f_throw m" and "category = ANY \<or> category = em_category m"
  shows "Storage_Match st CATCH_HANDLER_FOUND name category \<and>
    \<not> Storage_Match st FIRST_CHANCE name category \<and> \<not> Storage_Match st USER_FIRST_CHANCE name category"
proof -
  let ?o = "snd (Storage_GetMode st default_mode asterix)"
  let ?m = "merge_range (or_flags (?o\<lparr>em_category := em_category m\<rparr>) m) ms"
  have "f_throw (or_flags (?o\<lparr>em_category := em_category m\<rparr>) m)" using assms(2) by (simp add: or_flags_def)
  then have "f_throw ?m" by (rule merge_range_throw)
  moreover have "em_category ?m = em_category m" by (simp add: merge_range_category or_flags_def)
  ultimately show ?thesis
    using assms(1,3) by (auto simp: Storage_Match_def Storage_GetMode_def event_defs Let_def)
qed

theorem throw_filter_stops_witness: "Storage_Match two_filters CATCH_HANDLER_FOUND ''A'' CLR"
  using throw_filter_stops [of two_filters "''A''" "setThrow default_mode" "[setThrow default_mode]" CLR]
  by (simp add: two_filters_def Storage_Insert_def init_storage_def asterix_def equal_range_def mode_defs)

text \<open>With no filter for a name and no global filter, only an unhandled exception stops the
  debugger.\<close>

theorem no_filter_only_unhandled:
  assumes "equal_range st ''*'' = []" and "equal_range st name = []"
  shows "Storage_Match st ev name category \<longleftrightarrow> ev = UNHANDLED \<and> (category = ANY \<or> category = CLR)"
  using assms
  by (auto simp: Storage_Match_def GetMode_none asterix_def default_mode_def event_defs Let_def)

theorem no_filter_only_unhandled_witness:
  "Storage_Match (snd (Storage_Delete 1 two_filters)) UNHANDLED ''A'' CLR \<and>
   \<not> Storage_Match (snd (Storage_Delete 1 two_filters)) CATCH_HANDLER_FOUND ''A'' CLR"
proof -
  have e: "equal_range (snd (Storage_Delete 1 two_filters)) ''*'' = []"
    "equal_range (snd (Storage_Delete 1 two_filters)) ''A'' = []"
    by (simp_all add: two_filters_def Storage_Insert_def Storage_Delete_def init_storage_def asterix_def
        equal_range_def um_find_def)
  show ?thesis
    using no_filter_only_unhandled [OF e, of UNHANDLED CLR] no_filter_only_unhandled [OF e, of CATCH_HANDLER_FOUND CLR]
    by (simp add: event_defs)
qed

end
