(* ===== verification/Module_Resolution.thy ===== *)
theory Module_Resolution imports Exception_Breakpoints "HOL-Library.Sublist" begin

text \<open>
  Finding code locations in the loaded modules (\<open>modules.cpp\<close>, \<open>cputil.cpp\<close>): source lines through
  the symbol reader, functions by their dotted name.  What the runtime's debugging interface and the
  symbol reader answer for a module are the fields of \<open>clr_module\<close>; every \<open>IfFailRet\<close> is a branch
  on them.
\<close>

section \<open>Names\<close>

text \<open>\<open>split_on_tokens\<close>: the loop over \<open>find\<close> cuts at every delimiter and keeps empty parts.\<close>

fun split_on_tokens_loop :: "char \<Rightarrow> string \<Rightarrow> string \<Rightarrow> string list" where
  "split_on_tokens_loop delim part [] = [part]"
| "split_on_tokens_loop delim part (c # cs) =
     (if c = delim then part # split_on_tokens_loop delim [] cs
      else split_on_tokens_loop delim (part @ [c]) cs)"

definition split_on_tokens :: "string \<Rightarrow> char \<Rightarrow> string list" where
  "split_on_tokens str delim = split_on_tokens_loop delim [] str"

text \<open>\<open>IsTargetFunction\<close> walks both vectors from their ends.\<close>

fun target_walk :: "string list \<Rightarrow> string list \<Rightarrow> bool" where
  "target_walk full [] = True"
| "target_walk [] (t # ts) = False"
| "target_walk (f # fs) (t # ts) = (if t \<noteq> f then False else target_walk fs ts)"

definition IsTargetFunction :: "string list \<Rightarrow> string list \<Rightarrow> bool" where
  "IsTargetFunction fullName targetName = target_walk (rev fullName) (rev targetName)"

definition GetBasename :: "string \<Rightarrow> string" where
  "GetBasename path = (case str_rfind (CHR ''/'') path of None \<Rightarrow> path | Some i \<Rightarrow> drop (i + 1) path)"

definition IsFullPath :: "string \<Rightarrow> bool" where
  "IsFullPath path = (str_rfind (CHR ''/'') path \<noteq> None)"

section \<open>Modules\<close>

text \<open>A method row: its token, its name (None when \<open>GetMethodProps\<close> fails) and the names of its
  generic parameters (None for one whose properties cannot be read).\<close>

record clr_method =
  mt_token :: nat
  mt_name :: "string option"
  mt_generics :: "string option list"

record clr_type =
  ty_name :: "string option"
  ty_methods :: "clr_method list"

record sequence_point =
  sp_startLine :: int
  sp_startColumn :: int
  sp_endLine :: int
  sp_endColumn :: int
  sp_offset :: int
  sp_document :: string

text \<open>A module: \<open>GetBaseAddress\<close>, \<open>GetSize\<close>, \<open>GetName\<close>, the process it runs in, its version
  identifier, the symbol reader's answers (a line to a method and offset, an offset to a sequence
  point, an offset to the range of its statement), the metadata, and native code: function, IL code,
  its size, breakpoint creation and activation.\<close>

record clr_module =
  cm_base :: "nat option"
  cm_size :: "nat option"
  cm_name :: "string option"
  cm_pid :: "nat option"
  cm_sequence_point :: "string \<Rightarrow> nat \<Rightarrow> (nat \<times> nat) option"
  cm_sp_at :: "nat \<Rightarrow> nat \<Rightarrow> sequence_point option"
  cm_step_range :: "nat \<Rightarrow> nat \<Rightarrow> (nat \<times> nat) option"
  cm_types :: "clr_type list option"
  cm_import2 :: bool
  cm_function :: "nat \<Rightarrow> nat option"
  cm_il_code :: "nat \<Rightarrow> nat option"
  cm_create :: "nat \<Rightarrow> nat \<Rightarrow> nat option"
  cm_create_entry :: "nat \<Rightarrow> nat option"
  cm_activate :: "nat \<Rightarrow> bool"
  cm_code_size :: "nat \<Rightarrow> nat option"

text \<open>\<open>m_modulesInfo\<close>, keyed by base address.\<close>

type_synonym modules = "(nat, clr_module) umap"

record location =
  loc_il :: nat
  loc_token :: nat
  loc_fullname :: string

definition LocationIn :: "clr_module \<Rightarrow> string \<Rightarrow> nat \<Rightarrow> location option" where
  "LocationIn m filename linenum =
     (case cm_sequence_point m filename linenum of
        None \<Rightarrow> None
      | Some (token, il) \<Rightarrow>
          (case cm_sp_at m token il of
             None \<Rightarrow> None
           | Some sp \<Rightarrow> Some \<lparr>loc_il = il, loc_token = token, loc_fullname = sp_document sp\<rparr>))"

fun GetLocationInAny :: "modules \<Rightarrow> string \<Rightarrow> nat \<Rightarrow> (location \<times> clr_module) option" where
  "GetLocationInAny [] filename linenum = None"
| "GetLocationInAny ((_, m) # ms) filename linenum =
     (case cm_base m of
        None \<Rightarrow> None
      | Some _ \<Rightarrow>
          (case LocationIn m filename linenum of
             None \<Rightarrow> GetLocationInAny ms filename linenum
           | Some loc \<Rightarrow> Some (loc, m)))"

definition GetLocationInModule :: "modules \<Rightarrow> clr_module \<Rightarrow> string \<Rightarrow> nat \<Rightarrow> location option" where
  "GetLocationInModule ms m filename linenum =
     (case cm_base m of
        None \<Rightarrow> None
      | Some a \<Rightarrow> (case um_find ms a of None \<Rightarrow> None | Some info \<Rightarrow> LocationIn info filename linenum))"

section \<open>Frames and stepping\<close>

text \<open>A managed frame: its method token, function and module, whether the metadata interface of the
  module answers, and its IL instruction pointer (None for a frame that is not an IL frame).\<close>

record clr_frame =
  fr_token :: "nat option"
  fr_function :: "nat option"
  fr_module :: "clr_module option"
  fr_metadata :: bool
  fr_ilframe :: bool
  fr_ip :: "nat option"

definition loaded_info :: "modules \<Rightarrow> clr_module \<Rightarrow> clr_module option" where
  "loaded_info ms m = (case cm_base m of None \<Rightarrow> None | Some a \<Rightarrow> um_find ms a)"

definition GetFrameILAndSequencePoint :: "modules \<Rightarrow> clr_frame \<Rightarrow> (nat \<times> sequence_point) option" where
  "GetFrameILAndSequencePoint ms fr =
     (case fr_token fr of
        None \<Rightarrow> None
      | Some token \<Rightarrow>
          (case (fr_function fr, fr_module fr) of
             (Some _, Some m) \<Rightarrow>
               if \<not> fr_metadata fr \<or> \<not> fr_ilframe fr then None
               else (case fr_ip fr of
                       None \<Rightarrow> None
                     | Some il \<Rightarrow>
                         (case loaded_info ms m of
                            None \<Rightarrow> None
                          | Some info \<Rightarrow> map_option (Pair il) (cm_sp_at info token il)))
           | _ \<Rightarrow> None))"

text \<open>The range of IL offsets that one step covers; an empty answer of the symbol reader means up to
  the end of the method.\<close>

definition GetStepRangeFromCurrentIP :: "modules \<Rightarrow> clr_frame option \<Rightarrow> (nat \<times> nat) option" where
  "GetStepRangeFromCurrentIP ms active =
     (case active of
        None \<Rightarrow> None
      | Some fr \<Rightarrow>
          (case (fr_token fr, fr_function fr, fr_module fr) of
             (Some token, Some f, Some m) \<Rightarrow>
               if \<not> fr_ilframe fr then None
               else (case fr_ip fr of
                       None \<Rightarrow> None
                     | Some il \<Rightarrow>
                         (case loaded_info ms m of
                            None \<Rightarrow> None
                          | Some info \<Rightarrow>
                              (case cm_step_range info il token of
                                 None \<Rightarrow> None
                               | Some (s, e) \<Rightarrow>
                                   if s = e
                                   then (case cm_il_code m f of
                                           None \<Rightarrow> None
                                         | Some code \<Rightarrow> map_option (Pair s) (cm_code_size m code))
                                   else Some (s, e))))
           | _ \<Rightarrow> None))"

section \<open>Modules by name\<close>

text \<open>\<open>/proc/self/\<close> in the path of a module is the debuggee's directory, not the debugger's.\<close>

definition selfPrefix :: string where
  "selfPrefix = ''/proc/self/''"

definition GetModuleFileName :: "clr_module \<Rightarrow> string" where
  "GetModuleFileName m =
     (case cm_name m of
        None \<Rightarrow> []
      | Some moduleName \<Rightarrow>
          if take (length selfPrefix) moduleName \<noteq> selfPrefix then moduleName
          else (case cm_pid m of
                  None \<Rightarrow> []
                | Some pid \<Rightarrow> ''/proc/'' @ to_string pid @ ''/'' @ drop (length selfPrefix) moduleName))"

fun GetModuleWithName :: "modules \<Rightarrow> string \<Rightarrow> clr_module option" where
  "GetModuleWithName [] name = None"
| "GetModuleWithName ((_, m) # ms) name =
     (if GetFileName (GetModuleFileName m) = name then Some m else GetModuleWithName ms name)"

text \<open>The last step of \<open>TryLoadModuleSymbols\<close>: \<open>insert\<close> keeps an entry that is already there.\<close>

definition register_module :: "clr_module \<Rightarrow> modules \<Rightarrow> bool \<times> modules" where
  "register_module m ms =
     (case (cm_base m, cm_size m) of
        (Some a, Some _) \<Rightarrow> (True, um_emplace a m ms)
      | _ \<Rightarrow> (False, ms))"

definition CleanupAllModules :: "modules \<Rightarrow> modules" where
  "CleanupAllModules ms = []"

section \<open>Functions by name\<close>

text \<open>\<open>Name<T,U>\<close>: the generic parameters that can be read, with commas between them.\<close>

definition generic_suffix :: "string option list \<Rightarrow> string" where
  "generic_suffix gs =
     (let genParams = concat (map (\<lambda>g. case g of None \<Rightarrow> [] | Some n \<Rightarrow> n @ '','') gs)
      in if genParams \<noteq> [] then CHR ''<'' # butlast genParams @ ''>'' else [])"

text \<open>The two nested enumerations; the callback threads the state of the caller and reports
  success.  \<open>True\<close> is \<open>S_OK\<close>.\<close>

fun resolve_methods ::
  "(clr_module \<Rightarrow> nat \<Rightarrow> 's \<Rightarrow> bool \<times> 's) \<Rightarrow> clr_module \<Rightarrow> string list \<Rightarrow> string \<Rightarrow>
     clr_method list \<Rightarrow> 's \<Rightarrow> bool \<times> 's" where
  "resolve_methods cb m target tname [] s = (True, s)"
| "resolve_methods cb m target tname (mt # mts) s =
     (case mt_name mt of
        None \<Rightarrow> resolve_methods cb m target tname mts s
      | Some name \<Rightarrow>
          if \<not> cm_import2 m then (False, s)
          else if IsTargetFunction
              (split_on_tokens (tname @ ''.'' @ name @ generic_suffix (mt_generics mt)) (CHR ''.'')) target
          then (case cb m (mt_token mt) s of (ok, s') \<Rightarrow>
                  if ok then resolve_methods cb m target tname mts s' else (False, s'))
          else resolve_methods cb m target tname mts s)"

fun resolve_types ::
  "(clr_module \<Rightarrow> nat \<Rightarrow> 's \<Rightarrow> bool \<times> 's) \<Rightarrow> clr_module \<Rightarrow> string list \<Rightarrow> clr_type list \<Rightarrow>
     's \<Rightarrow> bool \<times> 's" where
  "resolve_types cb m target [] s = (True, s)"
| "resolve_types cb m target (ty # tys) s =
     (case ty_name ty of
        None \<Rightarrow> (False, s)
      | Some tname \<Rightarrow>
          (case resolve_methods cb m target tname (ty_methods ty) s of (ok, s') \<Rightarrow>
             if ok then resolve_types cb m target tys s' else (False, s')))"

definition ResolveMethodInModule ::
  "(clr_module \<Rightarrow> nat \<Rightarrow> 's \<Rightarrow> bool \<times> 's) \<Rightarrow> clr_module \<Rightarrow> string \<Rightarrow> 's \<Rightarrow> bool \<times> 's" where
  "ResolveMethodInModule cb m funcName s =
     (case cm_types m of
        None \<Rightarrow> (False, s)
      | Some tys \<Rightarrow> resolve_types cb m (split_on_tokens funcName (CHR ''.'')) tys s)"

definition module_matches :: "string \<Rightarrow> string \<Rightarrow> bool" where
  "module_matches module name = ((if IsFullPath module then name else GetBasename name) = module)"

text \<open>\<open>ResolveFunctionInAny\<close> visits every module and reports \<open>E_FAIL\<close> in any case.\<close>

fun ResolveFunctionInAny ::
  "(clr_module \<Rightarrow> nat \<Rightarrow> 's \<Rightarrow> bool \<times> 's) \<Rightarrow> modules \<Rightarrow> string \<Rightarrow> string \<Rightarrow> 's \<Rightarrow> bool \<times> 's" where
  "ResolveFunctionInAny cb [] module funcname s = (False, s)"
| "ResolveFunctionInAny cb ((_, m) # ms) module funcname s =
     (if module \<noteq> [] then
        (case cm_name m of
           None \<Rightarrow> (False, s)
         | Some name \<Rightarrow>
             if \<not> module_matches module name then ResolveFunctionInAny cb ms module funcname s
             else ResolveFunctionInAny cb ms module funcname (snd (ResolveMethodInModule cb m funcname s)))
      else ResolveFunctionInAny cb ms module funcname (snd (ResolveMethodInModule cb m funcname s)))"

definition ResolveFunctionInModule ::
  "(clr_module \<Rightarrow> nat \<Rightarrow> 's \<Rightarrow> bool \<times> 's) \<Rightarrow> modules \<Rightarrow> clr_module \<Rightarrow> string \<Rightarrow> string \<Rightarrow>
     's \<Rightarrow> bool \<times> 's" where
  "ResolveFunctionInModule cb ms m module funcname s =
     (if module \<noteq> [] \<and> (case cm_name m of None \<Rightarrow> True | Some name \<Rightarrow> \<not> module_matches module name)
      then (False, s)
      else (case cm_base m of
              None \<Rightarrow> (False, s)
            | Some a \<Rightarrow>
                (case um_find ms a of
                   None \<Rightarrow> (False, s)
                 | Some _ \<Rightarrow> ResolveMethodInModule cb m funcname s)))"

section \<open>Facts\<close>

fun join :: "char \<Rightarrow> string list \<Rightarrow> string" where
  "join d [] = []"
| "join d [p] = p"
| "join d (p # q # ps) = p @ d # join d (q # ps)"

lemma split_loop_nonempty: "split_on_tokens_loop d p s \<noteq> []"
  by (induction d p s rule: split_on_tokens_loop.induct) auto

lemma join_Cons: "ps \<noteq> [] \<Longrightarrow> join d (p # ps) = p @ d # join d ps"
  by (cases ps) auto

lemma join_split_loop: "join d (split_on_tokens_loop d p s) = p @ s"
  by (induction d p s rule: split_on_tokens_loop.induct) (auto simp: join_Cons split_loop_nonempty)

lemma split_loop_part: "d \<notin> set p \<Longrightarrow> \<forall>q \<in> set (split_on_tokens_loop d p s). d \<notin> set q"
  by (induction d p s rule: split_on_tokens_loop.induct) auto

lemma target_walk_prefix: "target_walk fs ts \<longleftrightarrow> prefix ts fs"
  by (induction fs ts rule: target_walk.induct) auto

lemma IsTargetFunction_suffix: "IsTargetFunction full target \<longleftrightarrow> suffix target full"
  by (simp add: IsTargetFunction_def target_walk_prefix suffix_to_prefix)

lemma LocationIn_sound:
  "LocationIn m f l = Some loc \<Longrightarrow>
     cm_sequence_point m f l = Some (loc_token loc, loc_il loc) \<and>
     map_option sp_document (cm_sp_at m (loc_token loc) (loc_il loc)) = Some (loc_fullname loc)"
  by (auto simp: LocationIn_def split: option.splits prod.splits)

section \<open>Properties\<close>

text \<open>Splitting a dotted name loses nothing and leaves no delimiter inside a part: joining the
  parts gives the name back.\<close>

theorem split_on_tokens_join:
  "join d (split_on_tokens s d) = s \<and> d \<notin> \<Union> (set ` set (split_on_tokens s d))"
  using join_split_loop [of d "[]" s] split_loop_part [of d "[]" s] by (auto simp: split_on_tokens_def)

text \<open>A breakpoint on a function name matches a method exactly when the parts of the name are the
  last parts of the method's full name.\<close>

theorem IsTargetFunction_iff_suffix:
  "IsTargetFunction fullName targetName \<longleftrightarrow> (\<exists>front. fullName = front @ targetName)"
  by (auto simp: IsTargetFunction_suffix suffix_def)

end
