(* ===== verification/Breakpoints.thy ===== *)
theory Breakpoints imports Module_Resolution begin

text \<open>
  The breakpoint manager of the debugger core (\<open>Breakpoints\<close> in \<open>breakpoints.cpp\<close>): source
  breakpoints per file and line, function breakpoints per qualified name, exception filters, the
  entry breakpoint, and the decision whether a native breakpoint that was hit stops the user.
  Each operation is a function on the manager's state; the native breakpoints that it activates and
  deactivates are logged in order.
\<close>

section \<open>State\<close>

datatype native_op = Activate nat | Deactivate nat

record managed_bp =
  mb_id :: nat
  mb_modAddress :: nat
  mb_methodToken :: nat
  mb_ilOffset :: nat
  mb_fullname :: string
  mb_linenum :: int
  mb_breakpoint :: "nat option"
  mb_enabled :: bool
  mb_times :: nat
  mb_condition :: string

definition new_managed_bp :: managed_bp where
  "new_managed_bp =
     \<lparr>mb_id = 0, mb_modAddress = 0, mb_methodToken = 0, mb_ilOffset = 0, mb_fullname = [],
      mb_linenum = 0, mb_breakpoint = None, mb_enabled = True, mb_times = 0, mb_condition = []\<rparr>"

definition mb_resolved :: "managed_bp \<Rightarrow> bool" where
  "mb_resolved b \<longleftrightarrow> mb_modAddress b \<noteq> 0"

record func_element =
  fe_modAddress :: nat
  fe_methodToken :: nat
  fe_breakpoint :: nat

record managed_fbp =
  mf_id :: nat
  mf_module :: string
  mf_name :: string
  mf_params :: string
  mf_times :: nat
  mf_enabled :: bool
  mf_condition :: string
  mf_breakpoints :: "func_element list"

definition new_managed_fbp :: managed_fbp where
  "new_managed_fbp =
     \<lparr>mf_id = 0, mf_module = [], mf_name = [], mf_params = [], mf_times = 0, mf_enabled = True,
      mf_condition = [], mf_breakpoints = []\<rparr>"

definition mf_resolved :: "managed_fbp \<Rightarrow> bool" where
  "mf_resolved b \<longleftrightarrow> mf_breakpoints b \<noteq> []"

type_synonym file_bps = "(int, managed_bp) umap"

record bps_state =
  bs_next :: nat
  bs_files :: "(string, file_bps) umap"
  bs_funcs :: "(string, managed_fbp) umap"
  bs_exceptions :: exc_storage
  bs_stopAtEntry :: bool
  bs_entryPoint :: nat
  bs_entryBreakpoint :: "nat option"
  bs_log :: "native_op list"

definition init_breakpoints :: bps_state where
  "init_breakpoints =
     \<lparr>bs_next = 1, bs_files = [], bs_funcs = [], bs_exceptions = init_storage, bs_stopAtEntry = False,
      bs_entryPoint = mdMethodDefNil, bs_entryBreakpoint = None, bs_log = []\<rparr>"

definition SetStopAtEntry :: "bool \<Rightarrow> bps_state \<Rightarrow> bps_state" where
  "SetStopAtEntry b st = st\<lparr>bs_stopAtEntry := b\<rparr>"

definition ToBreakpoint :: "managed_bp \<Rightarrow> breakpoint" where
  "ToBreakpoint b = empty_breakpoint
     \<lparr>bp_id := mb_id b, bp_verified := mb_resolved b, bp_condition := mb_condition b,
      bp_source := Source (mb_fullname b), bp_line := mb_linenum b, bp_hitCount := mb_times b\<rparr>"

definition FuncToBreakpoint :: "managed_fbp \<Rightarrow> breakpoint" where
  "FuncToBreakpoint b = empty_breakpoint
     \<lparr>bp_id := mf_id b, bp_verified := mf_resolved b, bp_condition := mf_condition b,
      bp_module := mf_module b, bp_funcname := mf_name b, bp_params := mf_params b\<rparr>"

text \<open>The destructors deactivate the native breakpoints.\<close>

definition destroy_bp :: "managed_bp \<Rightarrow> native_op list" where
  "destroy_bp b = (case mb_breakpoint b of None \<Rightarrow> [] | Some h \<Rightarrow> [Deactivate h])"

definition destroy_fbp :: "managed_fbp \<Rightarrow> native_op list" where
  "destroy_fbp b = map (\<lambda>e. Deactivate (fe_breakpoint e)) (mf_breakpoints b)"

section \<open>Resolution\<close>

text \<open>The common tail of \<open>ResolveBreakpoint\<close> and \<open>ResolveBreakpointInModule\<close>: bind the breakpoint to
  native code of a module.  A failure after the activation leaves the native breakpoint active and
  the managed one unresolved.\<close>

definition bind_breakpoint :: "clr_module \<Rightarrow> location \<Rightarrow> managed_bp \<Rightarrow> bool \<times> native_op list \<times> managed_bp" where
  "bind_breakpoint m loc bp =
     (case cm_function m (loc_token loc) of
        None \<Rightarrow> (False, [], bp)
      | Some f \<Rightarrow>
          (case cm_il_code m f of
             None \<Rightarrow> (False, [], bp)
           | Some code \<Rightarrow>
               (case cm_create m code (loc_il loc) of
                  None \<Rightarrow> (False, [], bp)
                | Some h \<Rightarrow>
                    if \<not> cm_activate m h then (False, [], bp)
                    else (case cm_base m of
                            None \<Rightarrow> (False, [Activate h], bp)
                          | Some a \<Rightarrow>
                              (True, [Activate h],
                               bp\<lparr>mb_modAddress := a, mb_methodToken := loc_token loc,
                                  mb_ilOffset := loc_il loc, mb_fullname := loc_fullname loc,
                                  mb_breakpoint := Some h\<rparr>)))))"

definition ResolveBreakpoint :: "modules \<Rightarrow> managed_bp \<Rightarrow> bool \<times> native_op list \<times> managed_bp" where
  "ResolveBreakpoint ms bp =
     (case GetLocationInAny ms (mb_fullname bp) (to_u32 (mb_linenum bp)) of
        None \<Rightarrow> (False, [], bp)
      | Some (loc, m) \<Rightarrow> bind_breakpoint m loc bp)"

definition ResolveBreakpointInModule ::
  "modules \<Rightarrow> clr_module \<Rightarrow> managed_bp \<Rightarrow> bool \<times> native_op list \<times> managed_bp" where
  "ResolveBreakpointInModule ms m bp =
     (case GetLocationInModule ms m (mb_fullname bp) (to_u32 (mb_linenum bp)) of
        None \<Rightarrow> (False, [], bp)
      | Some loc \<Rightarrow> bind_breakpoint m loc bp)"

text \<open>The callback of the function breakpoints: the state is the log and the breakpoint.\<close>

definition func_bp_callback ::
  "clr_module \<Rightarrow> nat \<Rightarrow> native_op list \<times> managed_fbp \<Rightarrow> bool \<times> native_op list \<times> managed_fbp" where
  "func_bp_callback m token s =
     (case s of (log, fbp) \<Rightarrow>
        (case cm_function m token of
           None \<Rightarrow> (False, log, fbp)
         | Some f \<Rightarrow>
             (case cm_create_entry m f of
                None \<Rightarrow> (False, log, fbp)
              | Some h \<Rightarrow>
                  if \<not> cm_activate m h then (False, log, fbp)
                  else (case cm_base m of
                          None \<Rightarrow> (False, log @ [Activate h], fbp)
                        | Some a \<Rightarrow>
                            (True, log @ [Activate h],
                             fbp\<lparr>mf_breakpoints := mf_breakpoints fbp @
                                 [\<lparr>fe_modAddress = a, fe_methodToken = token, fe_breakpoint = h\<rparr>]\<rparr>)))))"

definition ResolveFunctionBreakpoint ::
  "modules \<Rightarrow> managed_fbp \<Rightarrow> bool \<times> native_op list \<times> managed_fbp" where
  "ResolveFunctionBreakpoint ms fbp =
     ResolveFunctionInAny func_bp_callback ms (mf_module fbp) (mf_name fbp) ([], fbp)"

definition ResolveFunctionBreakpointInModule ::
  "modules \<Rightarrow> clr_module \<Rightarrow> managed_fbp \<Rightarrow> bool \<times> native_op list \<times> managed_fbp" where
  "ResolveFunctionBreakpointInModule ms m fbp =
     ResolveFunctionInModule func_bp_callback ms m (mf_module fbp) (mf_name fbp) ([], fbp)"

section \<open>Numbering breakpoints\<close>

text \<open>\<open>m_nextBreakpointId++\<close> on a \<open>uint32_t\<close>.\<close>

definition succ_id :: "nat \<Rightarrow> nat" where
  "succ_id n = (n + 1) mod 2 ^ 32"

text \<open>
  Source and function breakpoints are exported by loops of one shape: a request whose key is in the
  table updates the entry, another one gets the next number, and each turn reports the entry.  The
  locale states that shape and what the two kinds of entries promise, and proves once what the loops
  do with numbers and keys.
\<close>

locale numbered_export =
  fixes key :: "'r \<Rightarrow> 'k"
    and fresh :: "nat \<Rightarrow> 'r \<Rightarrow> native_op list \<times> 'b"
    and update :: "'r \<Rightarrow> 'b \<Rightarrow> 'b"
    and ident :: "'b \<Rightarrow> nat"
    and hits :: "'b \<Rightarrow> nat"
    and keyof :: "'b \<Rightarrow> 'k"
    and cond :: "'b \<Rightarrow> string"
    and wanted_cond :: "'r \<Rightarrow> string"
    and report :: "'b \<Rightarrow> breakpoint"
    and loop :: "'r list \<Rightarrow> nat \<Rightarrow> ('k, 'b) umap \<Rightarrow> nat \<times> ('k, 'b) umap \<times> native_op list \<times> breakpoint list"
  assumes loop_Nil: "loop [] n m = (n, m, [], [])"
    and loop_new: "um_find m (key r) = None \<Longrightarrow>
      loop (r # rs) n m =
        (case loop rs (succ_id n) (um_emplace (key r) (snd (fresh n r)) m) of
           (n', m', log, bps) \<Rightarrow> (n', m', fst (fresh n r) @ log, report (snd (fresh n r)) # bps))"
    and loop_old: "um_find m (key r) = Some b \<Longrightarrow>
      loop (r # rs) n m =
        (case loop rs n (um_assign (key r) (update r b) m) of
           (n', m', log, bps) \<Rightarrow> (n', m', log, report (update r b) # bps))"
    and fresh_fields: "ident (snd (fresh n r)) = n" "keyof (snd (fresh n r)) = key r"
      "cond (snd (fresh n r)) = wanted_cond r"
    and update_fields: "ident (update r b) = ident b" "keyof (update r b) = keyof b"
      "hits (update r b) = hits b" "cond (update r b) = wanted_cond r"
    and report_fields: "bp_id (report b) = ident b" "bp_condition (report b) = cond b"
begin

definition table_inv :: "('k, 'b) umap \<Rightarrow> bool" where
  "table_inv m \<longleftrightarrow> um_wf m \<and> (\<forall>k b. um_find m k = Some b \<longrightarrow> keyof b = k)"

lemma table_inv_assign: "table_inv m \<Longrightarrow> keyof b = k \<Longrightarrow> table_inv (um_assign k b m)"
  by (auto simp: table_inv_def um_find_assign split: if_splits)

lemma table_inv_emplace: "table_inv m \<Longrightarrow> keyof b = k \<Longrightarrow> table_inv (um_emplace k b m)"
  by (auto simp: table_inv_def um_find_emplace split: if_splits option.splits)

lemma table_inv_filter: "table_inv m \<Longrightarrow> table_inv (filter (\<lambda>(k, _). P k) m)"
  by (auto simp: table_inv_def um_find_filter_key split: if_splits)

text \<open>The two cases of one turn of the loop, without the pairs.\<close>

lemma turn_new:
  assumes "um_find m (key r) = None" and "loop (r # rs) n m = (n', m', log', bps)"
  obtains log1 bps1 where
    "loop rs (succ_id n) (um_emplace (key r) (snd (fresh n r)) m) = (n', m', log1, bps1)"
    "bps = report (snd (fresh n r)) # bps1" "log' = fst (fresh n r) @ log1"
  using assms that by (auto simp: loop_new case_prod_beta prod_eq_iff)

lemma turn_old:
  assumes "um_find m (key r) = Some b" and "loop (r # rs) n m = (n', m', log', bps)"
  obtains bps1 where
    "loop rs n (um_assign (key r) (update r b) m) = (n', m', log', bps1)"
    "bps = report (update r b) # bps1"
  using assms that by (auto simp: loop_old case_prod_beta prod_eq_iff)

text \<open>Each request is reported once, in order, under its key and with its condition.\<close>

lemma loop_report:
  "loop rs n m = (n', m', log, bps) \<Longrightarrow> table_inv m \<Longrightarrow>
     table_inv m' \<and> map bp_condition bps = map wanted_cond rs \<and>
     (\<exists>bs. bps = map report bs \<and> map keyof bs = map key rs)"
proof (induction rs arbitrary: n m n' m' log bps)
  case Nil
  then show ?case by (simp add: loop_Nil)
next
  case (Cons r rs)
  show ?case
  proof (cases "um_find m (key r)")
    case None
    from turn_new [OF None Cons.prems(1)] obtain log1 bps1 where
      e: "loop rs (succ_id n) (um_emplace (key r) (snd (fresh n r)) m) = (n', m', log1, bps1)"
      and b: "bps = report (snd (fresh n r)) # bps1" by blast
    have "table_inv (um_emplace (key r) (snd (fresh n r)) m)"
      using Cons.prems(2) by (rule table_inv_emplace) (simp add: fresh_fields)
    from Cons.IH [OF e this] obtain bs where
      "table_inv m'" "map bp_condition bps1 = map wanted_cond rs" "bps1 = map report bs"
      "map keyof bs = map key rs" by blast
    then show ?thesis
      by (auto simp: b fresh_fields report_fields intro!: exI [of _ "snd (fresh n r) # bs"])
  next
    case (Some old)
    from turn_old [OF Some Cons.prems(1)] obtain bps1 where
      e: "loop rs n (um_assign (key r) (update r old) m) = (n', m', log, bps1)"
      and b: "bps = report (update r old) # bps1" by blast
    have k: "keyof old = key r" using Cons.prems(2) Some by (simp add: table_inv_def)
    have "table_inv (um_assign (key r) (update r old) m)"
      using Cons.prems(2) by (rule table_inv_assign) (simp add: update_fields k)
    from Cons.IH [OF e this] obtain bs where
      "table_inv m'" "map bp_condition bps1 = map wanted_cond rs" "bps1 = map report bs"
      "map keyof bs = map key rs" by blast
    then show ?thesis
      by (auto simp: b k update_fields report_fields intro!: exI [of _ "update r old # bs"])
  qed
qed

text \<open>Entries that were there keep their number and their hit count; new ones get numbers of their
  own between the old and the new counter; exactly the requested keys are added.\<close>

lemma loop_ids:
  "loop rs n m = (n', m', log, bps) \<Longrightarrow> n + length rs < 2 ^ 32 \<Longrightarrow>
     n \<le> n' \<and> n' \<le> n + length rs \<and>
     (\<forall>k b. um_find m k = Some b \<longrightarrow>
        (\<exists>b'. um_find m' k = Some b' \<and> ident b' = ident b \<and> hits b' = hits b)) \<and>
     (\<forall>k b. um_find m k = None \<and> um_find m' k = Some b \<longrightarrow>
        n \<le> ident b \<and> ident b < n' \<and> k \<in> key ` set rs) \<and>
     (\<forall>k k' b b'. um_find m k = None \<and> um_find m k' = None \<and> um_find m' k = Some b \<and>
        um_find m' k' = Some b' \<and> ident b = ident b' \<longrightarrow> k = k') \<and>
     (\<forall>k. k \<in> key ` set rs \<longrightarrow> um_find m' k \<noteq> None)"
proof (induction rs arbitrary: n m n' m' log bps)
  case Nil
  then show ?case by (auto simp: loop_Nil)
next
  case (Cons r rs)
  show ?case
  proof (cases "um_find m (key r)")
    case None
    let ?b = "snd (fresh n r)"
    let ?m = "um_emplace (key r) ?b m"
    have s: "succ_id n = n + 1" using Cons.prems(2) by (simp add: succ_id_def)
    from turn_new [OF None Cons.prems(1)] obtain log1 bps1 where
      e: "loop rs (n + 1) ?m = (n', m', log1, bps1)" unfolding s by blast
    have "n + 1 + length rs < 2 ^ 32" using Cons.prems(2) by simp
    note IH = Cons.IH [OF e this]
    note IH_old = IH [THEN conjunct2, THEN conjunct2, THEN conjunct1, rule_format]
    note IH_new = IH [THEN conjunct2, THEN conjunct2, THEN conjunct2, THEN conjunct1, rule_format]
    note IH_inj = IH [THEN conjunct2, THEN conjunct2, THEN conjunct2, THEN conjunct2, THEN conjunct1, rule_format]
    have f: "um_find ?m k = (if k = key r then Some ?b else um_find m k)" for k
      using None by (simp add: um_find_emplace)
    from IH have bound: "n + 1 \<le> n' \<and> n' \<le> n + 1 + length rs" by simp
    have "um_find ?m (key r) = Some ?b" by (simp add: f)
    from IH_old [OF this] obtain b0 where
      b0: "um_find m' (key r) = Some b0" "ident b0 = n" by (auto simp: fresh_fields)
    have new: "n + 1 \<le> ident b \<and> ident b < n' \<and> k \<in> key ` set rs"
      if "um_find m k = None" "um_find m' k = Some b" "k \<noteq> key r" for k b
      using that by (intro IH_new) (simp add: f)
    have inj: "k = k'" if "um_find m k = None" "um_find m k' = None" "um_find m' k = Some b"
        "um_find m' k' = Some b'" "ident b = ident b'" "k \<noteq> key r" "k' \<noteq> key r" for k k' b b'
      using that by (intro IH_inj [of k k' b b']) (simp add: f)
    have old: "\<exists>b'. um_find m' k = Some b' \<and> ident b' = ident b \<and> hits b' = hits b"
      if "um_find m k = Some b" for k b
    proof -
      from that None have "k \<noteq> key r" by auto
      with that f [of k] have "um_find ?m k = Some b" by simp
      then show ?thesis by (rule IH_old)
    qed
    have all: "\<And>k. k \<in> key ` set (r # rs) \<Longrightarrow> um_find m' k \<noteq> None" using IH b0 by auto
    have new': "n \<le> ident b \<and> ident b < n' \<and> k \<in> key ` set (r # rs)"
      if "um_find m k = None" "um_find m' k = Some b" for k b
      using new [OF that] b0 bound that by (cases "k = key r") auto
    have inj': "k = k'" if "um_find m k = None" "um_find m k' = None" "um_find m' k = Some b"
        "um_find m' k' = Some b'" "ident b = ident b'" for k k' b b'
      using inj [OF that] new [OF that(1,3)] new [OF that(2,4)] b0 that
      by (cases "k = key r"; cases "k' = key r") auto
    show ?thesis
      using bound old new' inj' all by (intro conjI allI impI) (simp_all, blast+)
  next
    case (Some old)
    let ?m = "um_assign (key r) (update r old) m"
    from turn_old [OF Some Cons.prems(1)] obtain bps1 where
      e: "loop rs n ?m = (n', m', log, bps1)" by blast
    have "n + length rs < 2 ^ 32" using Cons.prems(2) by simp
    note IH = Cons.IH [OF e this]
    have f: "um_find ?m k = None \<longleftrightarrow> um_find m k = None" for k
      using Some by (auto simp: um_find_assign)
    have g: "um_find m k = Some b \<Longrightarrow> \<exists>b'. um_find ?m k = Some b' \<and> ident b' = ident b \<and> hits b' = hits b" for k b
      using Some by (auto simp: um_find_assign update_fields)
    have old: "\<And>k b. um_find m k = Some b \<Longrightarrow>
        \<exists>b'. um_find m' k = Some b' \<and> ident b' = ident b \<and> hits b' = hits b"
      using IH g by metis
    have "um_find m' (key r) \<noteq> None" using old [OF Some] by auto
    then show ?thesis using IH old unfolding f by auto
  qed
qed

text \<open>Its parts, for use by rule.\<close>

lemma loop_counter:
  assumes "loop rs n m = (n', m', log, bps)" and "n + length rs < 2 ^ 32"
  shows "n \<le> n'" "n' \<le> n + length rs"
  using loop_ids [OF assms] by simp_all

lemma loop_keeps:
  assumes "loop rs n m = (n', m', log, bps)" and "n + length rs < 2 ^ 32" and "um_find m k = Some b"
  obtains b' where "um_find m' k = Some b'" "ident b' = ident b" "hits b' = hits b"
  using loop_ids [OF assms(1,2), THEN conjunct2, THEN conjunct2, THEN conjunct1] assms(3) that
  by blast

lemma loop_new_ids:
  assumes "loop rs n m = (n', m', log, bps)" and "n + length rs < 2 ^ 32"
    and "um_find m k = None" and "um_find m' k = Some b"
  shows "n \<le> ident b" "ident b < n'" "k \<in> key ` set rs"
  using loop_ids [OF assms(1,2), THEN conjunct2, THEN conjunct2, THEN conjunct2, THEN conjunct1]
    assms(3,4) by blast+

lemma loop_distinct_ids:
  assumes "loop rs n m = (n', m', log, bps)" and "n + length rs < 2 ^ 32"
    and "um_find m k = None" and "um_find m k' = None"
    and "um_find m' k = Some b" and "um_find m' k' = Some b'" and "ident b = ident b'"
  shows "k = k'"
  using loop_ids [OF assms(1,2), THEN conjunct2, THEN conjunct2, THEN conjunct2, THEN conjunct2,
      THEN conjunct1] assms(3-7) by blast

lemma loop_covers:
  assumes "loop rs n m = (n', m', log, bps)" and "n + length rs < 2 ^ 32" and "r \<in> set rs"
  obtains b where "um_find m' (key r) = Some b"
  using loop_ids [OF assms(1,2), THEN conjunct2, THEN conjunct2, THEN conjunct2, THEN conjunct2,
      THEN conjunct2] assms(3) that by blast

text \<open>A number in the table after the loop was there before under the same key, or is new.\<close>

lemma loop_ident:
  assumes "loop rs n m = (n', m', log, bps)" and "n + length rs < 2 ^ 32"
    and "um_find m' k = Some b"
  shows "map_option ident (um_find m k) = Some (ident b) \<or>
     um_find m k = None \<and> n \<le> ident b \<and> ident b < n' \<and> k \<in> key ` set rs"
proof (cases "um_find m k")
  case None
  then show ?thesis using loop_new_ids [OF assms(1,2) None assms(3)] by simp
next
  case (Some c)
  show ?thesis by (rule loop_keeps [OF assms(1,2) Some]) (use assms(3) Some in simp)
qed

text \<open>A numbering of more places than the table's, unique before the loop, is unique after it.\<close>

lemma loop_unique_ids:
  assumes l: "loop rs n m = (n', m', log, bps)" and b: "n + length rs < 2 ^ 32" and K: "inj K"
    and lt: "\<And>x i. num x = Some i \<Longrightarrow> i < n"
    and uniq: "\<And>x y i. num x = Some i \<Longrightarrow> num y = Some i \<Longrightarrow> x = y"
    and kept: "\<And>k e. um_find m k = Some e \<Longrightarrow> num (K k) = Some (ident e)"
    and new: "\<And>k. num' (K k) = map_option ident (um_find m' k)"
    and other: "\<And>x i. x \<notin> range K \<Longrightarrow> num' x = Some i \<Longrightarrow> num x = Some i"
  shows "num' x = Some i \<Longrightarrow> i < n'"
    and "num' x = Some i \<Longrightarrow> num' y = Some i \<Longrightarrow> x = y"
proof -
  have c: "num x = Some i \<or>
      (\<exists>k e. x = K k \<and> um_find m k = None \<and> um_find m' k = Some e \<and> ident e = i \<and> n \<le> i \<and> i < n')"
    if "num' x = Some i" for x i
  proof (cases "x \<in> range K")
    case True
    then obtain k where k: "x = K k" by blast
    with that new [of k] obtain e where e: "um_find m' k = Some e" "ident e = i" by auto
    from loop_ident [OF l b e(1)] show ?thesis
      using e k kept by (cases "um_find m k") auto
  next
    case False
    then show ?thesis using other that by blast
  qed
  note nn = loop_counter(1) [OF l b]
  show "i < n'" if "num' x = Some i"
    using c [OF that] lt nn by (auto dest: order.strict_trans2)
  show "x = y" if "num' x = Some i" "num' y = Some i"
  proof (cases "i < n")
    case True
    then have "num x = Some i" "num y = Some i" using c that by fastforce+
    then show ?thesis by (rule uniq)
  next
    case False
    then have "num x \<noteq> Some i" "num y \<noteq> Some i" using lt by auto
    with c that obtain k e k' e' where
      "x = K k" "um_find m k = None" "um_find m' k = Some e" "ident e = i"
      "y = K k'" "um_find m k' = None" "um_find m' k' = Some e'" "ident e' = i" by metis
    then show ?thesis using loop_distinct_ids [OF l b, of k k' e e'] by simp
  qed
qed

text \<open>The condition that stands at the end is the one requested last.\<close>

lemma loop_condition:
  "loop rs n m = (n', m', log, bps) \<Longrightarrow> um_find m' k = Some b \<Longrightarrow>
     (case filter (\<lambda>r. key r = k) rs of
        [] \<Rightarrow> map_option cond (um_find m k) = Some (cond b)
      | _ \<Rightarrow> cond b = wanted_cond (last (filter (\<lambda>r. key r = k) rs)))"
proof (induction rs arbitrary: n m n' m' log bps)
  case Nil
  then show ?case by (simp add: loop_Nil)
next
  case (Cons r rs)
  have step: "(case filter (\<lambda>r. key r = k) (r # rs) of
        [] \<Rightarrow> map_option cond (um_find m k) = Some (cond b)
      | _ \<Rightarrow> cond b = wanted_cond (last (filter (\<lambda>r. key r = k) (r # rs))))"
    if "case filter (\<lambda>r. key r = k) rs of
        [] \<Rightarrow> map_option cond (um_find m1 k) = Some (cond b)
      | _ \<Rightarrow> cond b = wanted_cond (last (filter (\<lambda>r. key r = k) rs))"
      "um_find m1 k = (if k = key r then Some e else um_find m k)" "cond e = wanted_cond r" for m1 e
    using that by (cases "filter (\<lambda>r. key r = k) rs") (auto split: if_splits)
  show ?case
  proof (cases "um_find m (key r)")
    case None
    from turn_new [OF None Cons.prems(1)] obtain log1 bps1 where
      e: "loop rs (succ_id n) (um_emplace (key r) (snd (fresh n r)) m) = (n', m', log1, bps1)" by blast
    show ?thesis
      by (rule step [OF Cons.IH [OF e Cons.prems(2)], where e = "snd (fresh n r)"])
        (use None in \<open>simp_all add: um_find_emplace fresh_fields\<close>)
  next
    case (Some old)
    from turn_old [OF Some Cons.prems(1)] obtain bps1 where
      e: "loop rs n (um_assign (key r) (update r old) m) = (n', m', log, bps1)" by blast
    show ?thesis
      by (rule step [OF Cons.IH [OF e Cons.prems(2)], where e = "update r old"])
        (simp_all add: um_find_assign update_fields)
  qed
qed

text \<open>Every reported number is the number of the entry under the request's key.\<close>

lemma loop_reported_ids:
  "loop rs n m = (n', m', log, bps) \<Longrightarrow> n + length rs < 2 ^ 32 \<Longrightarrow>
     map (\<lambda>r. map_option ident (um_find m' (key r))) rs = map (Some \<circ> bp_id) bps"
proof (induction rs arbitrary: n m n' m' log bps)
  case Nil
  then show ?case by (simp add: loop_Nil)
next
  case (Cons r rs)
  show ?case
  proof (cases "um_find m (key r)")
    case None
    let ?m = "um_emplace (key r) (snd (fresh n r)) m"
    have s: "succ_id n = n + 1" using Cons.prems(2) by (simp add: succ_id_def)
    from turn_new [OF None Cons.prems(1)] obtain log1 bps1 where
      e: "loop rs (n + 1) ?m = (n', m', log1, bps1)"
      and b: "bps = report (snd (fresh n r)) # bps1" unfolding s by blast
    have l: "n + 1 + length rs < 2 ^ 32" using Cons.prems(2) by simp
    have "um_find ?m (key r) = Some (snd (fresh n r))" using None by (simp add: um_find_emplace)
    with loop_ids [OF e l] obtain b' where "um_find m' (key r) = Some b'" "ident b' = n"
      by (metis fresh_fields(1))
    with Cons.IH [OF e l] show ?thesis by (simp add: b report_fields fresh_fields)
  next
    case (Some old)
    let ?m = "um_assign (key r) (update r old) m"
    from turn_old [OF Some Cons.prems(1)] obtain bps1 where
      e: "loop rs n ?m = (n', m', log, bps1)" and b: "bps = report (update r old) # bps1" by blast
    have l: "n + length rs < 2 ^ 32" using Cons.prems(2) by simp
    have "um_find ?m (key r) = Some (update r old)" by (simp add: um_find_assign)
    with loop_ids [OF e l] obtain b' where "um_find m' (key r) = Some b'" "ident b' = ident old"
      by (metis update_fields(1))
    with Cons.IH [OF e l] show ?thesis by (simp add: b report_fields update_fields)
  qed
qed

end

section \<open>SetBreakpoints\<close>

text \<open>The new breakpoint of one request: its number, place and condition, resolved at once when there
  is a process (\<open>procs = Some ms\<close>).\<close>

definition fresh_bp ::
  "modules option \<Rightarrow> string \<Rightarrow> nat \<Rightarrow> source_breakpoint \<Rightarrow> native_op list \<times> managed_bp" where
  "fresh_bp procs filename i sb =
     (let bp = new_managed_bp\<lparr>mb_id := i, mb_fullname := filename, mb_linenum := sb_line sb,
                              mb_condition := sb_condition sb\<rparr>
      in case procs of None \<Rightarrow> ([], bp) | Some ms \<Rightarrow> snd (ResolveBreakpoint ms bp))"

text \<open>The export loop: counter, lines of the file, log, and the breakpoints reported.\<close>

fun export_breakpoints ::
  "modules option \<Rightarrow> string \<Rightarrow> source_breakpoint list \<Rightarrow> nat \<Rightarrow> file_bps \<Rightarrow>
     nat \<times> file_bps \<times> native_op list \<times> breakpoint list" where
  "export_breakpoints procs filename [] next m = (next, m, [], [])"
| "export_breakpoints procs filename (sb # sbs) next m =
     (case um_find m (sb_line sb) of
        None \<Rightarrow>
          (case fresh_bp procs filename next sb of (log, bp) \<Rightarrow>
             (case export_breakpoints procs filename sbs (succ_id next) (um_emplace (sb_line sb) bp m) of
                (next', m', log', bps) \<Rightarrow> (next', m', log @ log', ToBreakpoint bp # bps)))
      | Some old \<Rightarrow>
          (let bp = old\<lparr>mb_condition := sb_condition sb\<rparr> in
             (case export_breakpoints procs filename sbs next (um_assign (sb_line sb) bp m) of
                (next', m', log', bps) \<Rightarrow> (next', m', log', ToBreakpoint bp # bps))))"

definition lines_of :: "(string, file_bps) umap \<Rightarrow> string \<Rightarrow> file_bps" where
  "lines_of fs filename = (case um_find fs filename of None \<Rightarrow> [] | Some m \<Rightarrow> m)"

abbreviation file_lines :: "bps_state \<Rightarrow> string \<Rightarrow> file_bps" where
  "file_lines st \<equiv> lines_of (bs_files st)"

definition SetBreakpoints ::
  "modules option \<Rightarrow> string \<Rightarrow> source_breakpoint list \<Rightarrow> bps_state \<Rightarrow> bps_state \<times> breakpoint list" where
  "SetBreakpoints procs filename srcBreakpoints st =
     (if srcBreakpoints = [] then
        (st\<lparr>bs_files := um_erase filename (bs_files st),
            bs_log := bs_log st @ concat (map (\<lambda>(_, b). destroy_bp b) (file_lines st filename))\<rparr>, [])
      else
        let m = file_lines st filename;
            wanted = map sb_line srcBreakpoints;
            kept = filter (\<lambda>(l, _). l \<in> set wanted) m;
            dropped = filter (\<lambda>(l, _). l \<notin> set wanted) m
        in case export_breakpoints procs filename srcBreakpoints (bs_next st) kept of
             (next', m', log', bps) \<Rightarrow>
               (st\<lparr>bs_next := next', bs_files := um_assign filename m' (bs_files st),
                   bs_log := bs_log st @ concat (map (\<lambda>(_, b). destroy_bp b) dropped) @ log'\<rparr>, bps))"

subsection \<open>Facts\<close>

lemma ResolveBreakpoint_fields [simp]:
  "mb_id (snd (snd (ResolveBreakpoint ms bp))) = mb_id bp"
  "mb_linenum (snd (snd (ResolveBreakpoint ms bp))) = mb_linenum bp"
  "mb_condition (snd (snd (ResolveBreakpoint ms bp))) = mb_condition bp"
  "mb_times (snd (snd (ResolveBreakpoint ms bp))) = mb_times bp"
  "mb_enabled (snd (snd (ResolveBreakpoint ms bp))) = mb_enabled bp"
  by (auto simp: ResolveBreakpoint_def bind_breakpoint_def split: option.splits)

lemma ResolveBreakpointInModule_fields [simp]:
  "mb_id (snd (snd (ResolveBreakpointInModule ms m bp))) = mb_id bp"
  "mb_linenum (snd (snd (ResolveBreakpointInModule ms m bp))) = mb_linenum bp"
  "mb_condition (snd (snd (ResolveBreakpointInModule ms m bp))) = mb_condition bp"
  "mb_times (snd (snd (ResolveBreakpointInModule ms m bp))) = mb_times bp"
  by (auto simp: ResolveBreakpointInModule_def bind_breakpoint_def split: option.splits)

lemma fresh_bp_fields [simp]:
  "mb_id (snd (fresh_bp procs f i sb)) = i"
  "mb_linenum (snd (fresh_bp procs f i sb)) = sb_line sb"
  "mb_condition (snd (fresh_bp procs f i sb)) = sb_condition sb"
  "mb_times (snd (fresh_bp procs f i sb)) = 0"
  "mb_enabled (snd (fresh_bp procs f i sb))"
  by (auto simp: fresh_bp_def new_managed_bp_def Let_def split: option.splits)

lemma ToBreakpoint_fields [simp]:
  "bp_id (ToBreakpoint b) = mb_id b" "bp_line (ToBreakpoint b) = mb_linenum b"
  "bp_condition (ToBreakpoint b) = mb_condition b" "bp_hitCount (ToBreakpoint b) = mb_times b"
  "bp_verified (ToBreakpoint b) = mb_resolved b"
  by (simp_all add: ToBreakpoint_def empty_breakpoint_def)

interpretation src: numbered_export sb_line "fresh_bp procs f" "\<lambda>r b. b\<lparr>mb_condition := sb_condition r\<rparr>"
  mb_id mb_times mb_linenum mb_condition sb_condition ToBreakpoint "export_breakpoints procs f"
  for procs f
  by unfold_locales (auto simp: case_prod_beta Let_def)

section \<open>SetFunctionBreakpoints\<close>

definition full_func_name :: "function_breakpoint \<Rightarrow> string" where
  "full_func_name fb =
     (if fbr_module fb \<noteq> [] then fbr_module fb @ ''!'' else []) @ fbr_func fb @ fbr_params fb"

definition fresh_fbp :: "modules option \<Rightarrow> nat \<Rightarrow> function_breakpoint \<Rightarrow> native_op list \<times> managed_fbp" where
  "fresh_fbp procs i fb =
     (let fbp = new_managed_fbp\<lparr>mf_id := i, mf_module := fbr_module fb, mf_name := fbr_func fb,
                                mf_params := fbr_params fb, mf_condition := fbr_condition fb\<rparr>
      in case procs of None \<Rightarrow> ([], fbp) | Some ms \<Rightarrow> snd (ResolveFunctionBreakpoint ms fbp))"

fun export_functions ::
  "modules option \<Rightarrow> function_breakpoint list \<Rightarrow> nat \<Rightarrow> (string, managed_fbp) umap \<Rightarrow>
     nat \<times> (string, managed_fbp) umap \<times> native_op list \<times> breakpoint list" where
  "export_functions procs [] next m = (next, m, [], [])"
| "export_functions procs (fb # fbs) next m =
     (case um_find m (full_func_name fb) of
        None \<Rightarrow>
          (case fresh_fbp procs next fb of (log, fbp) \<Rightarrow>
             (case export_functions procs fbs (succ_id next) (um_emplace (full_func_name fb) fbp m) of
                (next', m', log', bps) \<Rightarrow> (next', m', log @ log', FuncToBreakpoint fbp # bps)))
      | Some old \<Rightarrow>
          (let fbp = old\<lparr>mf_condition := fbr_condition fb\<rparr> in
             (case export_functions procs fbs next (um_assign (full_func_name fb) fbp m) of
                (next', m', log', bps) \<Rightarrow> (next', m', log', FuncToBreakpoint fbp # bps))))"

text \<open>The early return on an empty request is the loop on the empty list.\<close>

definition SetFunctionBreakpoints ::
  "modules option \<Rightarrow> function_breakpoint list \<Rightarrow> bps_state \<Rightarrow> bps_state \<times> breakpoint list" where
  "SetFunctionBreakpoints procs funcBreakpoints st =
     (let wanted = map full_func_name funcBreakpoints;
          kept = filter (\<lambda>(n, _). n \<in> set wanted) (bs_funcs st);
          dropped = filter (\<lambda>(n, _). n \<notin> set wanted) (bs_funcs st);
          log = bs_log st @ concat (map (\<lambda>(_, b). destroy_fbp b) dropped)
      in if funcBreakpoints = [] then (st\<lparr>bs_funcs := kept, bs_log := log\<rparr>, [])
         else case export_functions procs funcBreakpoints (bs_next st) kept of
                (next', m', log', bps) \<Rightarrow>
                  (st\<lparr>bs_next := next', bs_funcs := m', bs_log := log @ log'\<rparr>, bps))"

subsection \<open>Facts\<close>

text \<open>What any callback keeps of its state, the enumeration of modules, types and methods keeps.\<close>

lemma resolve_methods_keeps:
  "(\<And>m t s. P s \<Longrightarrow> P (snd (cb m t s))) \<Longrightarrow> P s \<Longrightarrow>
     P (snd (resolve_methods cb m target tname mts s))"
proof (induction mts arbitrary: s)
  case (Cons mt mts)
  then show ?case
    by (auto simp: case_prod_beta split: option.splits)
qed simp

lemma resolve_types_keeps:
  "(\<And>m t s. P s \<Longrightarrow> P (snd (cb m t s))) \<Longrightarrow> P s \<Longrightarrow> P (snd (resolve_types cb m target tys s))"
proof (induction tys arbitrary: s)
  case (Cons ty tys)
  then show ?case
    by (auto simp: case_prod_beta resolve_methods_keeps split: option.splits)
qed simp

lemma ResolveMethodInModule_keeps:
  "(\<And>m t s. P s \<Longrightarrow> P (snd (cb m t s))) \<Longrightarrow> P s \<Longrightarrow> P (snd (ResolveMethodInModule cb m f s))"
  by (auto simp: ResolveMethodInModule_def resolve_types_keeps split: option.splits)

lemma ResolveFunctionInAny_keeps:
  "(\<And>m t s. P s \<Longrightarrow> P (snd (cb m t s))) \<Longrightarrow> P s \<Longrightarrow> P (snd (ResolveFunctionInAny cb ms module f s))"
proof (induction ms arbitrary: s)
  case (Cons x ms)
  obtain a m where "x = (a, m)" by (cases x)
  with Cons show ?case
    by (auto simp: ResolveMethodInModule_keeps split: option.splits)
qed simp

lemma ResolveFunctionInModule_keeps:
  "(\<And>m t s. P s \<Longrightarrow> P (snd (cb m t s))) \<Longrightarrow> P s \<Longrightarrow>
     P (snd (ResolveFunctionInModule cb ms m module f s))"
  by (auto simp: ResolveFunctionInModule_def ResolveMethodInModule_keeps split: option.splits)

definition same_request :: "managed_fbp \<Rightarrow> managed_fbp \<Rightarrow> bool" where
  "same_request b c \<longleftrightarrow> mf_id c = mf_id b \<and> mf_module c = mf_module b \<and> mf_name c = mf_name b \<and>
     mf_params c = mf_params b \<and> mf_times c = mf_times b \<and> mf_enabled c = mf_enabled b \<and>
     mf_condition c = mf_condition b"

lemma func_bp_callback_keeps:
  "same_request b (snd s) \<Longrightarrow> same_request b (snd (snd (func_bp_callback m t s)))"
  by (auto simp: func_bp_callback_def same_request_def split: option.splits prod.splits)

lemma same_request_refl [simp]: "same_request b b"
  by (simp add: same_request_def)

lemma ResolveFunctionBreakpoint_same:
  "same_request fbp (snd (snd (ResolveFunctionBreakpoint ms fbp)))"
  unfolding ResolveFunctionBreakpoint_def
  by (rule ResolveFunctionInAny_keeps [where P = "\<lambda>s. same_request fbp (snd s)"])
    (simp_all add: func_bp_callback_keeps)

lemma ResolveFunctionBreakpointInModule_same:
  "same_request fbp (snd (snd (ResolveFunctionBreakpointInModule ms m fbp)))"
  unfolding ResolveFunctionBreakpointInModule_def
  by (rule ResolveFunctionInModule_keeps [where P = "\<lambda>s. same_request fbp (snd s)"])
    (simp_all add: func_bp_callback_keeps)

lemma ResolveFunctionBreakpoint_fields [simp]:
  "mf_id (snd (snd (ResolveFunctionBreakpoint ms b))) = mf_id b"
  "mf_module (snd (snd (ResolveFunctionBreakpoint ms b))) = mf_module b"
  "mf_name (snd (snd (ResolveFunctionBreakpoint ms b))) = mf_name b"
  "mf_params (snd (snd (ResolveFunctionBreakpoint ms b))) = mf_params b"
  "mf_times (snd (snd (ResolveFunctionBreakpoint ms b))) = mf_times b"
  "mf_condition (snd (snd (ResolveFunctionBreakpoint ms b))) = mf_condition b"
  using ResolveFunctionBreakpoint_same [of b ms] by (simp_all add: same_request_def)

definition func_key :: "managed_fbp \<Rightarrow> string" where
  "func_key b = (if mf_module b \<noteq> [] then mf_module b @ ''!'' else []) @ mf_name b @ mf_params b"

lemma fresh_fbp_fields [simp]:
  "mf_id (snd (fresh_fbp procs i fb)) = i"
  "mf_condition (snd (fresh_fbp procs i fb)) = fbr_condition fb"
  "mf_times (snd (fresh_fbp procs i fb)) = 0"
  "func_key (snd (fresh_fbp procs i fb)) = full_func_name fb"
  by (simp_all add: fresh_fbp_def new_managed_fbp_def func_key_def full_func_name_def Let_def
      split: option.splits)

lemma func_key_update [simp]: "func_key (b\<lparr>mf_condition := c\<rparr>) = func_key b"
  by (simp add: func_key_def)

lemma FuncToBreakpoint_fields [simp]:
  "bp_id (FuncToBreakpoint b) = mf_id b" "bp_condition (FuncToBreakpoint b) = mf_condition b"
  "bp_verified (FuncToBreakpoint b) = mf_resolved b"
  by (simp_all add: FuncToBreakpoint_def empty_breakpoint_def)

interpretation fun_bp: numbered_export full_func_name "fresh_fbp procs"
  "\<lambda>r b. b\<lparr>mf_condition := fbr_condition r\<rparr>"
  mf_id mf_times func_key mf_condition fbr_condition FuncToBreakpoint "export_functions procs"
  for procs
  by unfold_locales (auto simp: case_prod_beta Let_def)

end
