(* ===== verification/Entry_Point.thy ===== *)
theory Entry_Point imports Prelude begin

text \<open>
  \<open>GetEntryPointTokenFromFile\<close> of \<open>breakpoints.cpp\<close>: the entry point token of a managed image, read
  from the bytes of the file.  A file is a list of bytes; \<open>f.read\<close> of a struct fails when the file is
  too short; the structs are read at the offsets that \<open>ntimage.h\<close> and \<open>corhdr.h\<close> give their fields.
\<close>

section \<open>Reading structs\<close>

type_synonym bytes = "8 word list"

definition le_nat :: "bytes \<Rightarrow> nat" where
  "le_nat bs = foldr (\<lambda>b a. unat b + 256 * a) bs 0"

definition read_bytes :: "bytes \<Rightarrow> nat \<Rightarrow> nat \<Rightarrow> bytes option" where
  "read_bytes f pos n = (if pos + n \<le> length f then Some (take n (drop pos f)) else None)"

definition field16 :: "bytes \<Rightarrow> nat \<Rightarrow> nat" where
  "field16 s off = le_nat (take 2 (drop off s))"

definition field32 :: "bytes \<Rightarrow> nat \<Rightarrow> nat" where
  "field32 s off = le_nat (take 4 (drop off s))"

section \<open>The parser\<close>

record section_header =
  sec_VirtualAddress :: nat
  sec_SizeOfRawData :: nat
  sec_PointerToRawData :: nat

definition section_fields :: "bytes \<Rightarrow> section_header" where
  "section_fields s = \<lparr>sec_VirtualAddress = field32 s 12, sec_SizeOfRawData = field32 s 16,
                       sec_PointerToRawData = field32 s 20\<rparr>"

text \<open>The sums are \<open>DWORD\<close> sums.\<close>

definition section_contains :: "nat \<Rightarrow> section_header \<Rightarrow> bool" where
  "section_contains corRVA s \<longleftrightarrow>
     sec_VirtualAddress s \<le> corRVA \<and>
     corRVA < (sec_VirtualAddress s + sec_SizeOfRawData s) mod 2 ^ 32"

definition native_entrypoint :: "nat \<Rightarrow> bool" where
  "native_entrypoint flags \<longleftrightarrow> odd (flags div 16)"

definition section_entry :: "bytes \<Rightarrow> nat \<Rightarrow> section_header \<Rightarrow> nat" where
  "section_entry f corRVA s =
     (let offset = (corRVA - sec_VirtualAddress s + sec_PointerToRawData s) mod 2 ^ 32
      in case read_bytes f offset 72 of
           None \<Rightarrow> mdMethodDefNil
         | Some corHeader \<Rightarrow>
             if native_entrypoint (field32 corHeader 16) then mdMethodDefNil
             else field32 corHeader 20)"

fun entry_sections :: "bytes \<Rightarrow> nat \<Rightarrow> nat \<Rightarrow> nat \<Rightarrow> nat" where
  "entry_sections f corRVA pos 0 = mdMethodDefNil"
| "entry_sections f corRVA pos (Suc n) =
     (case read_bytes f pos 40 of
        None \<Rightarrow> mdMethodDefNil
      | Some s \<Rightarrow>
          if section_contains corRVA (section_fields s) then section_entry f corRVA (section_fields s)
          else entry_sections f corRVA (pos + 40) n)"

definition GetEntryPointTokenFromFile :: "(string \<Rightarrow> bytes option) \<Rightarrow> string \<Rightarrow> nat" where
  "GetEntryPointTokenFromFile files path =
     (case files path of
        None \<Rightarrow> mdMethodDefNil
      | Some f \<Rightarrow>
          (case read_bytes f 0 64 of
             None \<Rightarrow> mdMethodDefNil
           | Some dosHeader \<Rightarrow>
               let e_lfanew = field32 dosHeader 60 in
               if 2 ^ 31 \<le> e_lfanew then mdMethodDefNil
               else (case read_bytes f e_lfanew 248 of
                       None \<Rightarrow> mdMethodDefNil
                     | Some ntHeaders \<Rightarrow>
                         let pos = (e_lfanew + 4 + 20 + field16 ntHeaders 20) mod 2 ^ 32;
                             sections = (\<lambda>corRVA. entry_sections f corRVA pos (field16 ntHeaders 6))
                         in if field16 ntHeaders 24 = 0x10b then sections (field32 ntHeaders 232)
                            else (case read_bytes f e_lfanew 264 of
                                    None \<Rightarrow> mdMethodDefNil
                                  | Some ntHeaders64 \<Rightarrow> sections (field32 ntHeaders64 248)))))"

section \<open>Facts\<close>

lemma le_nat_simps [simp]:
  "le_nat [] = 0" "le_nat (b # bs) = unat b + 256 * le_nat bs" "le_nat (replicate n 0) = 0"
proof -
  show c: "le_nat [] = 0" "\<And>b bs. le_nat (b # bs) = unat b + 256 * le_nat bs"
    by (simp_all add: le_nat_def)
  show "le_nat (replicate n 0) = 0" by (induction n) (simp_all add: c)
qed

definition section_at :: "bytes \<Rightarrow> nat \<Rightarrow> nat \<Rightarrow> section_header" where
  "section_at f pos i = section_fields (take 40 (drop (pos + 40 * i) f))"

lemma entry_sections_find:
  "pos + 40 * n \<le> length f \<Longrightarrow>
     entry_sections f rva pos n =
       (case find (section_contains rva) (map (section_at f pos) [0..<n]) of
          None \<Rightarrow> mdMethodDefNil
        | Some s \<Rightarrow> section_entry f rva s)"
proof (induction n arbitrary: pos)
  case 0
  then show ?case by simp
next
  case (Suc n)
  have r: "read_bytes f pos 40 = Some (take 40 (drop pos f))"
    using Suc.prems by (simp add: read_bytes_def)
  have u: "[0..<Suc n] = 0 # map Suc [0..<n]"
    by (simp add: upt_conv_Cons map_Suc_upt del: upt_Suc)
  have m: "map (section_at f pos) [0..<Suc n] =
      section_fields (take 40 (drop pos f)) # map (section_at f (pos + 40)) [0..<n]"
    unfolding u by (simp add: section_at_def add.assoc del: map_Suc_upt)
  show ?case
    using Suc.IH [of "pos + 40"] Suc.prems by (simp add: r m del: upt_Suc)
qed

lemma field32_bound: "field32 s off < 2 ^ 32"
proof -
  have "le_nat bs < 256 ^ length bs" for bs
  proof (induction bs)
    case Nil
    then show ?case by simp
  next
    case (Cons b bs)
    have "unat b < 256" using unsigned_less [of b, where ?'a = nat] by simp
    with Cons show ?case by simp
  qed
  from this [of "take 4 (drop off s)"] have "field32 s off < 256 ^ length (take 4 (drop off s))"
    by (simp add: field32_def)
  also have "\<dots> \<le> 256 ^ 4" by (rule power_increasing) auto
  finally show ?thesis by simp
qed

section \<open>Properties\<close>

text \<open>When the section table lies inside the file, the entry point is the one read through the
  first section that contains the runtime header, and none when no section does.\<close>

theorem entry_point_first_section:
  assumes "pos + 40 * n \<le> length f"
  shows "entry_sections f rva pos n =
     (case filter (section_contains rva) (map (section_at f pos) [0..<n]) of
        [] \<Rightarrow> mdMethodDefNil
      | s # _ \<Rightarrow> section_entry f rva s)"
proof -
  have "find P xs = (case filter P xs of [] \<Rightarrow> None | x # _ \<Rightarrow> Some x)" for P and xs :: "section_header list"
    by (induction xs) auto
  then show ?thesis
    using entry_sections_find [OF assms, of rva] by (auto split: list.splits)
qed

definition tiny_image :: bytes where
  "tiny_image = replicate 12 0 @ [16, 0, 0, 0, 80, 0, 0, 0, 40, 0, 0, 0] @ replicate 16 0 @
     replicate 20 0 @ [1, 0, 0, 6] @ replicate 48 0"

theorem entry_point_first_section_witness:
  "entry_sections tiny_image 16 0 1 = 0x06000001"
proof -
  have "entry_sections tiny_image 16 0 1 =
      (case filter (section_contains 16) (map (section_at tiny_image 0) [0..<1]) of
         [] \<Rightarrow> mdMethodDefNil | s # _ \<Rightarrow> section_entry tiny_image 16 s)"
    by (rule entry_point_first_section) (simp add: tiny_image_def)
  also have "\<dots> = 0x06000001"
    by (simp add: tiny_image_def section_at_def section_fields_def section_contains_def
        section_entry_def field32_def read_bytes_def native_entrypoint_def)
  finally show ?thesis .
qed

text \<open>A token is only ever reported from a runtime header that lies wholly inside the file and
  does not announce a native entry point.\<close>

theorem entry_point_from_header:
  "GetEntryPointTokenFromFile files path = mdMethodDefNil \<or>
     (\<exists>f off. files path = Some f \<and> off + 72 \<le> length f \<and>
        \<not> native_entrypoint (field32 (drop off f) 16) \<and>
        GetEntryPointTokenFromFile files path = field32 (drop off f) 20)"
proof -
  have f: "field32 (take 72 (drop off f)) i = field32 (drop off f) i" if "i \<le> 68" for off i and f :: bytes
    using that by (simp add: field32_def drop_take take_take)
  have e: "section_entry f rva s = mdMethodDefNil \<or>
      (\<exists>off. off + 72 \<le> length f \<and> \<not> native_entrypoint (field32 (drop off f) 16) \<and>
         section_entry f rva s = field32 (drop off f) 20)" for f rva s
    unfolding section_entry_def Let_def read_bytes_def
    by (auto simp: f)
  have s: "entry_sections f rva pos n = mdMethodDefNil \<or>
      (\<exists>off. off + 72 \<le> length f \<and> \<not> native_entrypoint (field32 (drop off f) 16) \<and>
         entry_sections f rva pos n = field32 (drop off f) 20)" for f rva pos n
  proof (induction f rva pos n rule: entry_sections.induct)
    case (2 f rva pos n)
    then show ?case
      using e [of f rva] by (cases "read_bytes f pos 40") simp_all
  qed simp
  show ?thesis
  proof (cases "files path")
    case None
    then show ?thesis by (simp add: GetEntryPointTokenFromFile_def)
  next
    case (Some f)
    then show ?thesis
      using s [of f] by (auto simp: GetEntryPointTokenFromFile_def Let_def split: option.split)
  qed
qed

end
