(* ===== verification/Breakpoint_Manager.thy ===== *)
theory Breakpoint_Manager imports Breakpoints Entry_Point begin

text \<open>
  The rest of \<open>Breakpoints\<close> in \<open>breakpoints.cpp\<close>: what a loaded module resolves, what a native
  breakpoint that was hit means to the user, the exception filters behind the common counter, and
  the clean-up; with the invariant of the whole manager and the numbers it gives out.
\<close>

section \<open>Modules that load\<close>

fun resolve_lines ::
  "modules \<Rightarrow> clr_module \<Rightarrow> file_bps \<Rightarrow> native_op list \<times> file_bps \<times> breakpoint list" where
  "resolve_lines ms m [] = ([], [], [])"
| "resolve_lines ms m ((l, b) # bs) =
     (let (log, b', ev) =
            (if mb_resolved b then ([], b, [])
             else case ResolveBreakpointInModule ms m b of
                    (ok, log, b') \<Rightarrow> (log, b', if ok then [ToBreakpoint b'] else []));
          (log', bs', ev') = resolve_lines ms m bs
      in (log @ log', (l, b') # bs', ev @ ev'))"

fun resolve_files ::
  "modules \<Rightarrow> clr_module \<Rightarrow> (string, file_bps) umap \<Rightarrow>
     native_op list \<times> (string, file_bps) umap \<times> breakpoint list" where
  "resolve_files ms m [] = ([], [], [])"
| "resolve_files ms m ((f, bs) # fs) =
     (let (log, bs', ev) = resolve_lines ms m bs; (log', fs', ev') = resolve_files ms m fs
      in (log @ log', (f, bs') # fs', ev @ ev'))"

fun resolve_functions ::
  "modules \<Rightarrow> clr_module \<Rightarrow> (string, managed_fbp) umap \<Rightarrow>
     native_op list \<times> (string, managed_fbp) umap \<times> breakpoint list" where
  "resolve_functions ms m [] = ([], [], [])"
| "resolve_functions ms m ((n, b) # bs) =
     (let (log, b', ev) =
            (if mf_resolved b then ([], b, [])
             else case ResolveFunctionBreakpointInModule ms m b of
                    (ok, log, b') \<Rightarrow> (log, b', if ok then [FuncToBreakpoint b'] else []));
          (log', bs', ev') = resolve_functions ms m bs
      in (log @ log', (n, b') # bs', ev @ ev'))"

definition TrySetupEntryBreakpoint ::
  "(string \<Rightarrow> bytes option) \<Rightarrow> clr_module \<Rightarrow> bps_state \<Rightarrow> hresult \<times> bps_state" where
  "TrySetupEntryBreakpoint files m st =
     (if \<not> bs_stopAtEntry st \<or> bs_entryPoint st \<noteq> mdMethodDefNil then (S_FALSE, st)
      else let token = GetEntryPointTokenFromFile files (GetModuleFileName m) in
        if token = mdMethodDefNil then (S_FALSE, st)
        else (case cm_function m token of
                None \<Rightarrow> (E_FAIL, st)
              | Some f \<Rightarrow>
                  (case cm_create_entry m f of
                     None \<Rightarrow> (E_FAIL, st)
                   | Some h \<Rightarrow> (S_OK, st\<lparr>bs_entryPoint := token, bs_entryBreakpoint := Some h\<rparr>))))"

definition TryResolveBreakpointsForModule ::
  "(string \<Rightarrow> bytes option) \<Rightarrow> modules \<Rightarrow> clr_module \<Rightarrow> bps_state \<Rightarrow> bps_state \<times> breakpoint list" where
  "TryResolveBreakpointsForModule files ms m st =
     (let (log, fs, ev) = resolve_files ms m (bs_files st);
          (log', bs, ev') = resolve_functions ms m (bs_funcs st);
          st' = st\<lparr>bs_files := fs, bs_funcs := bs, bs_log := bs_log st @ log @ log'\<rparr>
      in (snd (TrySetupEntryBreakpoint files m st'), ev @ ev'))"

section \<open>Hits\<close>

text \<open>What the runtime says about a native breakpoint: its offset, the token of its function, the
  module of the function.\<close>

record native_view =
  nv_offset :: "nat option"
  nv_token :: "nat option"
  nv_module :: "clr_module option"

definition IsSameFunctionBreakpoint :: "native_view option \<Rightarrow> native_view option \<Rightarrow> bool" where
  "IsSameFunctionBreakpoint b1 b2 =
     (case (b1, b2) of
        (Some v1, Some v2) \<Rightarrow>
          (case (nv_offset v1, nv_offset v2, nv_token v1, nv_token v2, nv_module v1, nv_module v2) of
             (Some o1, Some o2, Some t1, Some t2, Some m1, Some m2) \<Rightarrow>
               o1 = o2 \<and> t1 = t2 \<and> GetModuleFileName m1 = GetModuleFileName m2
           | _ \<Rightarrow> False)
      | _ \<Rightarrow> False)"

text \<open>One argument of the frame as the enumeration yields it: a failed fetch, the end, or a value whose
  type may not be printable.\<close>

datatype arg_fetch = Arg_Failed | Arg_End | Arg_Value "string option"

text \<open>A stopped thread: its number, its active frame with the enumeration of the arguments, and the
  evaluator of conditions, which yields the type and the value of an expression in a frame.\<close>

record clr_thread =
  th_id :: "u32 option"
  th_frame :: "clr_frame option"
  th_args :: "arg_fetch list option"
  th_evaluate :: "u64 \<Rightarrow> string \<Rightarrow> (string \<times> string) option"

definition condition_holds :: "clr_thread \<Rightarrow> string \<Rightarrow> bool" where
  "condition_holds t cond =
     (cond = [] \<or>
      (case th_id t of
         None \<Rightarrow> False
       | Some threadId \<Rightarrow> th_evaluate t (StackFrame_id threadId 0) cond = Some (''bool'', ''true'')))"

text \<open>\<open>HandleEnabled\<close> for the two kinds of breakpoints: the breakpoint with its hit counted (a
  \<open>ULONG32\<close>) and what is reported.\<close>

definition HandleEnabled :: "managed_bp \<Rightarrow> clr_thread \<Rightarrow> (managed_bp \<times> breakpoint) option" where
  "HandleEnabled b t =
     (if \<not> condition_holds t (mb_condition b) then None
      else let b' = b\<lparr>mb_times := (mb_times b + 1) mod 2 ^ 32\<rparr> in Some (b', ToBreakpoint b'))"

definition HandleEnabledFunction :: "managed_fbp \<Rightarrow> clr_thread \<Rightarrow> (managed_fbp \<times> breakpoint) option" where
  "HandleEnabledFunction b t =
     (if \<not> condition_holds t (mf_condition b) then None
      else let b' = b\<lparr>mf_times := (mf_times b + 1) mod 2 ^ 32\<rparr> in Some (b', FuncToBreakpoint b'))"

text \<open>The file name under which the breakpoints of a document are kept.\<close>

definition document_key :: "bps_state \<Rightarrow> string \<Rightarrow> string option" where
  "document_key st doc =
     (if um_find (bs_files st) doc \<noteq> None then Some doc
      else if um_find (bs_files st) (GetFileName doc) \<noteq> None then Some (GetFileName doc)
      else None)"

definition HitManagedBreakpoint ::
  "modules \<Rightarrow> clr_thread \<Rightarrow> clr_frame \<Rightarrow> nat \<Rightarrow> bps_state \<Rightarrow> (breakpoint \<times> bps_state) option" where
  "HitManagedBreakpoint ms t fr methodToken st =
     (case GetFrameILAndSequencePoint ms fr of
        None \<Rightarrow> None
      | Some (ilOffset, sp) \<Rightarrow>
          (case document_key st (sp_document sp) of
             None \<Rightarrow> None
           | Some key \<Rightarrow>
               (case um_find (file_lines st key) (sp_startLine sp) of
                  None \<Rightarrow> None
                | Some b \<Rightarrow>
                    if mb_ilOffset b = ilOffset \<and> mb_methodToken b = methodToken \<and> mb_enabled b
                    then (case HandleEnabled b t of
                            None \<Rightarrow> None
                          | Some (b', bp) \<Rightarrow>
                              Some (bp, st\<lparr>bs_files := um_assign key
                                (um_assign (sp_startLine sp) b' (file_lines st key)) (bs_files st)\<rparr>))
                    else None)))"

text \<open>The parameter types of the frame, \<open>(T1,T2)\<close>; a failed fetch leaves its argument out.\<close>

fun arg_types :: "nat \<Rightarrow> arg_fetch list \<Rightarrow> string option" where
  "arg_types i [] = Some []"
| "arg_types i (Arg_Failed # as) = arg_types (i + 1) as"
| "arg_types i (Arg_End # as) = Some []"
| "arg_types i (Arg_Value None # as) = None"
| "arg_types i (Arg_Value (Some ty) # as) =
     map_option (\<lambda>s. (if i > 0 then '','' else []) @ ty @ s) (arg_types (i + 1) as)"

definition frame_params :: "clr_thread \<Rightarrow> clr_frame \<Rightarrow> string option" where
  "frame_params t fr =
     (if \<not> fr_ilframe fr then None
      else case th_args t of
             None \<Rightarrow> None
           | Some as \<Rightarrow> map_option (\<lambda>s. ''('' @ s @ '')'') (arg_types 0 as))"

fun hit_functions ::
  "(nat \<Rightarrow> native_view) \<Rightarrow> clr_thread \<Rightarrow> clr_frame \<Rightarrow> native_view \<Rightarrow>
     (string, managed_fbp) umap \<Rightarrow> (breakpoint \<times> (string, managed_fbp) umap) option" where
  "hit_functions views t fr v [] = None"
| "hit_functions views t fr v ((n, fbp) # fbs) =
     (case (if mf_params fbp \<noteq> [] then frame_params t fr else Some []) of
        None \<Rightarrow> None
      | Some params \<Rightarrow>
          if list_ex (\<lambda>e. IsSameFunctionBreakpoint (Some v) (Some (views (fe_breakpoint e)))
                          \<and> mf_enabled fbp \<and> params = mf_params fbp) (mf_breakpoints fbp)
          then map_option (\<lambda>(fbp', bp). (bp, (n, fbp') # fbs)) (HandleEnabledFunction fbp t)
          else map_option (\<lambda>(bp, fbs'). (bp, (n, fbp) # fbs')) (hit_functions views t fr v fbs))"

definition HitManagedFunctionBreakpoint ::
  "(nat \<Rightarrow> native_view) \<Rightarrow> clr_thread \<Rightarrow> clr_frame \<Rightarrow> native_view option \<Rightarrow> bps_state \<Rightarrow>
     (breakpoint \<times> bps_state) option" where
  "HitManagedFunctionBreakpoint views t fr hit st =
     (case hit of
        None \<Rightarrow> None
      | Some v \<Rightarrow> map_option (\<lambda>(bp, fbs). (bp, st\<lparr>bs_funcs := fbs\<rparr>))
                    (hit_functions views t fr v (bs_funcs st)))"

definition HitEntry :: "(nat \<Rightarrow> native_view) \<Rightarrow> native_view option \<Rightarrow> bps_state \<Rightarrow> bool \<times> bps_state" where
  "HitEntry views hit st =
     (if \<not> bs_stopAtEntry st then (False, st)
      else case (hit, bs_entryBreakpoint st) of
             (Some v, Some h) \<Rightarrow>
               if IsSameFunctionBreakpoint (Some v) (Some (views h))
               then (True, st\<lparr>bs_entryBreakpoint := None, bs_log := bs_log st @ [Deactivate h]\<rparr>)
               else (False, st)
           | _ \<Rightarrow> (False, st))"

datatype hit_result = At_Entry | Hit breakpoint | No_Hit

definition HitBreakpoint ::
  "modules \<Rightarrow> (nat \<Rightarrow> native_view) \<Rightarrow> clr_thread \<Rightarrow> native_view option \<Rightarrow> bps_state \<Rightarrow>
     hit_result \<times> bps_state" where
  "HitBreakpoint ms views t hit st =
     (case HitEntry views hit st of
        (True, st') \<Rightarrow> (At_Entry, st')
      | (False, _) \<Rightarrow>
          (case th_frame t of
             None \<Rightarrow> (No_Hit, st)
           | Some fr \<Rightarrow>
               (case fr_token fr of
                  None \<Rightarrow> (No_Hit, st)
                | Some methodToken \<Rightarrow>
                    (case HitManagedBreakpoint ms t fr methodToken st of
                       Some (bp, st') \<Rightarrow> (Hit bp, st')
                     | None \<Rightarrow>
                         (case HitManagedFunctionBreakpoint views t fr hit st of
                            Some (bp, st') \<Rightarrow> (Hit bp, st')
                          | None \<Rightarrow> (No_Hit, st))))))"

section \<open>Clean-up and exception filters\<close>

definition DeleteAllBreakpoints :: "bps_state \<Rightarrow> bps_state" where
  "DeleteAllBreakpoints st =
     st\<lparr>bs_files := [], bs_entryBreakpoint := None, bs_entryPoint := mdMethodDefNil,
        bs_log := bs_log st @ concat (map (\<lambda>(_, bs). concat (map (\<lambda>(_, b). destroy_bp b) bs)) (bs_files st))\<rparr>"

definition bps_insert_exception :: "exc_mode \<Rightarrow> string \<Rightarrow> bps_state \<Rightarrow> hresult \<times> nat \<times> bps_state" where
  "bps_insert_exception mode name st =
     (case InsertExceptionBreakpoint mode name (bs_next st, bs_exceptions st) of
        (status, rid, next, exc) \<Rightarrow> (status, rid, st\<lparr>bs_next := next, bs_exceptions := exc\<rparr>))"

definition bps_delete_exception :: "nat \<Rightarrow> bps_state \<Rightarrow> hresult \<times> bps_state" where
  "bps_delete_exception i st =
     (case DeleteExceptionBreakpoint i (bs_next st, bs_exceptions st) of
        (status, next, exc) \<Rightarrow> (status, st\<lparr>bs_next := next, bs_exceptions := exc\<rparr>))"

section \<open>The invariant\<close>

text \<open>The number of whatever is set at a place: a line of a file, a qualified function name, or an
  exception filter.\<close>

datatype bp_key = Src_Key string int | Fun_Key string | Exc_Key nat

fun id_of :: "bps_state \<Rightarrow> bp_key \<Rightarrow> nat option" where
  "id_of st (Src_Key f l) = map_option mb_id (um_find (file_lines st f) l)"
| "id_of st (Fun_Key n) = map_option mf_id (um_find (bs_funcs st) n)"
| "id_of st (Exc_Key i) = (if um_find (ebs_table (bs_exceptions st)) i = None then None else Some i)"

definition lines_inv :: "file_bps \<Rightarrow> bool" where
  "lines_inv m \<longleftrightarrow> um_wf m \<and> (\<forall>l b. um_find m l = Some b \<longrightarrow> mb_linenum b = l)"

definition funcs_inv :: "(string, managed_fbp) umap \<Rightarrow> bool" where
  "funcs_inv m \<longleftrightarrow> um_wf m \<and> (\<forall>n b. um_find m n = Some b \<longrightarrow> func_key b = n)"

definition tables_inv :: "bps_state \<Rightarrow> bool" where
  "tables_inv st \<longleftrightarrow> um_wf (bs_files st) \<and> (\<forall>f. lines_inv (file_lines st f)) \<and>
     funcs_inv (bs_funcs st) \<and> storage_inv (bs_exceptions st)"

definition ids_inv :: "bps_state \<Rightarrow> bool" where
  "ids_inv st \<longleftrightarrow> 0 < bs_next st \<and> (\<forall>k i. id_of st k = Some i \<longrightarrow> i < bs_next st) \<and>
     (\<forall>k k' i. id_of st k = Some i \<and> id_of st k' = Some i \<longrightarrow> k = k')"

definition bps_inv :: "bps_state \<Rightarrow> bool" where
  "bps_inv st \<longleftrightarrow> tables_inv st \<and> ids_inv st"

lemma ids_invD:
  assumes "ids_inv st"
  shows "0 < bs_next st" "id_of st k = Some i \<Longrightarrow> i < bs_next st"
    "id_of st k = Some i \<Longrightarrow> id_of st k' = Some i \<Longrightarrow> k = k'"
  using assms unfolding ids_inv_def by blast+

lemma ids_invI:
  assumes "0 < bs_next st" and "\<And>k i. id_of st k = Some i \<Longrightarrow> i < bs_next st"
    and "\<And>k k' i. id_of st k = Some i \<Longrightarrow> id_of st k' = Some i \<Longrightarrow> k = k'"
  shows "ids_inv st"
  using assms unfolding ids_inv_def by blast

lemma ids_same:
  "ids_inv st \<Longrightarrow> bs_next st \<le> bs_next st' \<Longrightarrow>
     (\<And>k i. id_of st' k = Some i \<Longrightarrow> id_of st k = Some i) \<Longrightarrow> ids_inv st'"
  unfolding ids_inv_def by (meson less_le_trans)

lemma lines_inv_Nil [simp]: "lines_inv []"
  by (simp add: lines_inv_def)

lemma lines_inv_src: "lines_inv = numbered_export.table_inv mb_linenum"
  by (simp add: fun_eq_iff lines_inv_def src.table_inv_def)

lemma funcs_inv_fun: "funcs_inv = numbered_export.table_inv func_key"
  by (simp add: fun_eq_iff funcs_inv_def fun_bp.table_inv_def)

lemma lines_of_simps [simp]:
  "lines_of [] g = []"
  "lines_of (um_assign f m fs) g = (if g = f then m else lines_of fs g)"
  "lines_of (um_erase f fs) g = (if g = f then [] else lines_of fs g)"
  by (simp_all add: lines_of_def um_simps)

subsection \<open>Requests\<close>

lemma lines_inv_filter: "lines_inv m \<Longrightarrow> lines_inv (filter (\<lambda>(l, _). P l) m)"
  by (simp add: lines_inv_src src.table_inv_filter)

lemma funcs_inv_filter: "funcs_inv m \<Longrightarrow> funcs_inv (filter (\<lambda>(l, _). P l) m)"
  by (simp add: funcs_inv_fun fun_bp.table_inv_filter)

text \<open>The two shapes of \<open>SetBreakpoints\<close>, without the pairs.\<close>

lemma SetBreakpoints_empty:
  "SetBreakpoints procs f [] st =
     (st\<lparr>bs_files := um_erase f (bs_files st),
         bs_log := bs_log st @ concat (map (\<lambda>(_, b). destroy_bp b) (file_lines st f))\<rparr>, [])"
  by (simp add: SetBreakpoints_def)

lemma SetBreakpoints_cases:
  assumes "SetBreakpoints procs f rs st = (st', bps)" and "rs \<noteq> []"
  obtains n' m' log lg where
    "export_breakpoints procs f rs (bs_next st)
       (filter (\<lambda>(l, _). l \<in> set (map sb_line rs)) (file_lines st f)) = (n', m', log, bps)"
    "st' = st\<lparr>bs_next := n', bs_files := um_assign f m' (bs_files st), bs_log := lg\<rparr>"
    "lg = bs_log st @ concat (map (\<lambda>(_, b). destroy_bp b)
        (filter (\<lambda>(l, _). l \<notin> set (map sb_line rs)) (file_lines st f))) @ log"
  using assms that by (auto simp: SetBreakpoints_def Let_def split: prod.splits)

lemma SetFunctionBreakpoints_cases:
  assumes "SetFunctionBreakpoints procs rs st = (st', bps)" and "rs \<noteq> []"
  obtains n' m' log lg where
    "export_functions procs rs (bs_next st)
       (filter (\<lambda>(n, _). n \<in> set (map full_func_name rs)) (bs_funcs st)) = (n', m', log, bps)"
    "st' = st\<lparr>bs_next := n', bs_funcs := m', bs_log := lg\<rparr>"
    "lg = (bs_log st @ concat (map (\<lambda>(_, b). destroy_fbp b)
        (filter (\<lambda>(n, _). n \<notin> set (map full_func_name rs)) (bs_funcs st)))) @ log"
  using assms that by (auto simp: SetFunctionBreakpoints_def Let_def split: prod.splits)

lemma SetBreakpoints_ids:
  assumes inv: "bps_inv st" and n: "bs_next st + length rs < 2 ^ 32"
    and e: "SetBreakpoints procs f rs st = (st', bps)"
  shows "bps_inv st' \<and> bs_next st' \<le> bs_next st + length rs"
proof (cases "rs = []")
  case True
  with e have st': "st' = fst (SetBreakpoints procs f [] st)" by simp
  have sub: "id_of st k = Some i" if "id_of st' k = Some i" for k i
    using that by (cases k) (auto simp: st' SetBreakpoints_empty split: if_splits)
  have "ids_inv st" using inv by (simp add: bps_inv_def)
  moreover have "bs_next st \<le> bs_next st'" by (simp add: st' SetBreakpoints_empty)
  ultimately have "ids_inv st'" using sub by (rule ids_same)
  then show ?thesis
    using inv by (auto simp: bps_inv_def st' SetBreakpoints_empty tables_inv_def True)
next
  case False
  let ?kept = "filter (\<lambda>(l, _). l \<in> set (map sb_line rs)) (file_lines st f)"
  obtain n' m' log lg where
    x: "export_breakpoints procs f rs (bs_next st) ?kept = (n', m', log, bps)"
    and st': "st' = st\<lparr>bs_next := n', bs_files := um_assign f m' (bs_files st), bs_log := lg\<rparr>"
    by (rule SetBreakpoints_cases [OF e False])
  have kept: "lines_inv ?kept"
    using inv by (auto simp: bps_inv_def tables_inv_def intro: lines_inv_filter)
  have m': "lines_inv m'"
    using src.loop_report [OF x] kept by (simp add: lines_inv_src)
  have ids: "ids_inv st" using inv by (simp add: bps_inv_def)
  have K: "inj (Src_Key f)" by (auto intro: injI)
  have kept': "id_of st (Src_Key f l) = Some (mb_id b)" if "um_find ?kept l = Some b" for l b
    using that by (simp add: um_find_filter_key split: if_splits)
  have new: "id_of st' (Src_Key f l) = map_option mb_id (um_find m' l)" for l by (simp add: st')
  have other: "id_of st k = Some i" if "k \<notin> range (Src_Key f)" "id_of st' k = Some i" for k i
    using that by (cases k) (auto simp: st' split: if_splits)
  note U = src.loop_unique_ids [OF x n K, where num = "id_of st" and num' = "id_of st'"]
  have "ids_inv st'"
  proof (rule ids_invI)
    show "0 < bs_next st'"
      using ids_invD(1) [OF ids] src.loop_counter(1) [OF x n] by (simp add: st')
    have "bs_next st' = n'" by (simp add: st')
    then show "i < bs_next st'" if "id_of st' k = Some i" for k i
      by (simp only:, intro U(1)) (use ids_invD [OF ids] kept' new other that in blast)+
    show "k = k'" if "id_of st' k = Some i" "id_of st' k' = Some i" for k k' i
      by (rule U(2)) (use ids_invD [OF ids] kept' new other that in blast)+
  qed
  then show ?thesis
    using inv src.loop_counter [OF x n] m' by (auto simp: bps_inv_def tables_inv_def st')
qed

lemma SetFunctionBreakpoints_ids:
  assumes inv: "bps_inv st" and n: "bs_next st + length rs < 2 ^ 32"
    and e: "SetFunctionBreakpoints procs rs st = (st', bps)"
  shows "bps_inv st' \<and> bs_next st' \<le> bs_next st + length rs"
proof (cases "rs = []")
  case True
  with e have st': "bs_next st' = bs_next st" "bs_files st' = bs_files st" "bs_funcs st' = []"
    "bs_exceptions st' = bs_exceptions st" by (auto simp: SetFunctionBreakpoints_def)
  have sub: "id_of st k = Some i" if "id_of st' k = Some i" for k i
    using that by (cases k) (auto simp: st' split: if_splits)
  have "ids_inv st" using inv by (simp add: bps_inv_def)
  moreover have "bs_next st \<le> bs_next st'" by (simp add: st')
  ultimately have "ids_inv st'" using sub by (rule ids_same)
  then show ?thesis
    using inv by (auto simp: bps_inv_def st' tables_inv_def funcs_inv_def)
next
  case False
  let ?kept = "filter (\<lambda>(n, _). n \<in> set (map full_func_name rs)) (bs_funcs st)"
  obtain n' m' log lg where
    x: "export_functions procs rs (bs_next st) ?kept = (n', m', log, bps)"
    and st': "st' = st\<lparr>bs_next := n', bs_funcs := m', bs_log := lg\<rparr>"
    by (rule SetFunctionBreakpoints_cases [OF e False])
  have "funcs_inv ?kept"
    using inv by (auto simp: bps_inv_def tables_inv_def intro: funcs_inv_filter)
  then have m': "funcs_inv m'"
    using fun_bp.loop_report [OF x] by (simp add: funcs_inv_fun)
  have ids: "ids_inv st" using inv by (simp add: bps_inv_def)
  have K: "inj Fun_Key" by (auto intro: injI)
  have kept': "id_of st (Fun_Key f) = Some (mf_id b)" if "um_find ?kept f = Some b" for f b
    using that by (simp add: um_find_filter_key split: if_splits)
  have new: "id_of st' (Fun_Key f) = map_option mf_id (um_find m' f)" for f by (simp add: st')
  have other: "id_of st k = Some i" if "k \<notin> range Fun_Key" "id_of st' k = Some i" for k i
    using that by (cases k) (auto simp: st' split: if_splits)
  note U = fun_bp.loop_unique_ids [OF x n K, where num = "id_of st" and num' = "id_of st'"]
  have "ids_inv st'"
  proof (rule ids_invI)
    show "0 < bs_next st'"
      using ids_invD(1) [OF ids] fun_bp.loop_counter(1) [OF x n] by (simp add: st')
    have "bs_next st' = n'" by (simp add: st')
    then show "i < bs_next st'" if "id_of st' k = Some i" for k i
      by (simp only:, intro U(1)) (use ids_invD [OF ids] kept' new other that in blast)+
    show "k = k'" if "id_of st' k = Some i" "id_of st' k' = Some i" for k k' i
      by (rule U(2)) (use ids_invD [OF ids] kept' new other that in blast)+
  qed
  then show ?thesis
    using inv fun_bp.loop_counter [OF x n] m' by (auto simp: bps_inv_def tables_inv_def st')
qed

subsection \<open>Modules and hits\<close>

text \<open>The walks over the tables, entry by entry.\<close>

definition resolved_line :: "modules \<Rightarrow> clr_module \<Rightarrow> managed_bp \<Rightarrow> managed_bp" where
  "resolved_line ms m b =
     (if mb_resolved b then b else snd (snd (ResolveBreakpointInModule ms m b)))"

definition resolved_function :: "modules \<Rightarrow> clr_module \<Rightarrow> managed_fbp \<Rightarrow> managed_fbp" where
  "resolved_function ms m b =
     (if mf_resolved b then b else snd (snd (ResolveFunctionBreakpointInModule ms m b)))"

lemma resolve_lines_map:
  "fst (snd (resolve_lines ms m bs)) = map (\<lambda>(l, b). (l, resolved_line ms m b)) bs"
  by (induction bs) (auto simp: resolved_line_def Let_def split: prod.splits)

lemma resolve_files_map:
  "fst (snd (resolve_files ms m fs)) =
     map (\<lambda>(f, bs). (f, map (\<lambda>(l, b). (l, resolved_line ms m b)) bs)) fs"
  by (induction fs) (auto simp: resolve_lines_map [symmetric] Let_def split: prod.splits)

lemma resolve_functions_map:
  "fst (snd (resolve_functions ms m bs)) = map (\<lambda>(n, b). (n, resolved_function ms m b)) bs"
  by (induction bs) (auto simp: resolved_function_def Let_def split: prod.splits)

lemma resolved_line_fields [simp]:
  "mb_id (resolved_line ms m b) = mb_id b" "mb_linenum (resolved_line ms m b) = mb_linenum b"
  "mb_condition (resolved_line ms m b) = mb_condition b" "mb_times (resolved_line ms m b) = mb_times b"
  by (simp_all add: resolved_line_def)

lemma resolved_function_fields [simp]:
  "mf_id (resolved_function ms m b) = mf_id b" "func_key (resolved_function ms m b) = func_key b"
  "mf_condition (resolved_function ms m b) = mf_condition b"
  using ResolveFunctionBreakpointInModule_same [of b ms m]
  by (simp_all add: resolved_function_def same_request_def func_key_def)

lemma um_wf_map_val [simp]: "um_wf (map (\<lambda>(k, v). (k, g k v)) m) = um_wf m"
  by (simp add: um_wf_def case_prod_beta comp_def)

lemma lines_of_map [simp]: "lines_of (map (\<lambda>(f, bs). (f, g bs)) fs) f = (if um_find fs f = None then [] else g (lines_of fs f))"
  by (simp add: lines_of_def um_find_map_val split: option.splits)

lemma TrySetupEntry_frame [simp]:
  "bs_next (snd (TrySetupEntryBreakpoint files m st)) = bs_next st"
  "bs_files (snd (TrySetupEntryBreakpoint files m st)) = bs_files st"
  "bs_funcs (snd (TrySetupEntryBreakpoint files m st)) = bs_funcs st"
  "bs_exceptions (snd (TrySetupEntryBreakpoint files m st)) = bs_exceptions st"
  by (auto simp: TrySetupEntryBreakpoint_def Let_def split: option.splits)

lemma TryResolve_frame:
  "bs_next (fst (TryResolveBreakpointsForModule files ms m st)) = bs_next st"
  "bs_files (fst (TryResolveBreakpointsForModule files ms m st)) =
     map (\<lambda>(f, bs). (f, map (\<lambda>(l, b). (l, resolved_line ms m b)) bs)) (bs_files st)"
  "bs_funcs (fst (TryResolveBreakpointsForModule files ms m st)) =
     map (\<lambda>(n, b). (n, resolved_function ms m b)) (bs_funcs st)"
  "bs_exceptions (fst (TryResolveBreakpointsForModule files ms m st)) = bs_exceptions st"
  by (simp_all add: TryResolveBreakpointsForModule_def Let_def case_prod_beta resolve_files_map
      resolve_functions_map)

lemma TryResolve_ids: "id_of (fst (TryResolveBreakpointsForModule files ms m st)) k = id_of st k"
  by (cases k) (auto simp: TryResolve_frame um_find_map_val lines_of_def option.map_comp comp_def
      split: option.splits)

lemma tables_inv_frame:
  assumes "tables_inv st" and "um_wf (bs_files st')" and "\<And>f. lines_inv (file_lines st' f)"
    and "funcs_inv (bs_funcs st')" and "bs_exceptions st' = bs_exceptions st"
  shows "tables_inv st'"
  using assms by (simp add: tables_inv_def)

lemma ids_inv_eq:
  "ids_inv st \<Longrightarrow> bs_next st' = bs_next st \<Longrightarrow> (\<And>k. id_of st' k = id_of st k) \<Longrightarrow> ids_inv st'"
  by (simp add: ids_inv_def)

lemma TryResolve_inv [inv_intros]:
  assumes "bps_inv st"
  shows "bps_inv (fst (TryResolveBreakpointsForModule files ms m st))"
proof -
  let ?st' = "fst (TryResolveBreakpointsForModule files ms m st)"
  have t: "tables_inv st" and i: "ids_inv st" using assms by (simp_all add: bps_inv_def)
  have "lines_inv (map (\<lambda>(l, b). (l, resolved_line ms m b)) bs)" if "lines_inv bs" for bs
    using that by (auto simp: lines_inv_def um_find_map_val)
  then have "lines_inv (file_lines ?st' f)" for f
    using t by (simp add: TryResolve_frame tables_inv_def)
  moreover have "funcs_inv (bs_funcs ?st')"
    using t by (auto simp: TryResolve_frame tables_inv_def funcs_inv_def um_find_map_val)
  ultimately have "tables_inv ?st'"
    using t by (intro tables_inv_frame [OF t]) (simp_all add: TryResolve_frame tables_inv_def)
  moreover have "ids_inv ?st'" by (rule ids_inv_eq [OF i]) (simp_all add: TryResolve_frame TryResolve_ids)
  ultimately show ?thesis by (simp add: bps_inv_def)
qed

lemma HandleEnabled_SomeD:
  "HandleEnabled b t = Some (b', bp) \<Longrightarrow>
     condition_holds t (mb_condition b) \<and> b' = b\<lparr>mb_times := (mb_times b + 1) mod 2 ^ 32\<rparr> \<and>
     bp = ToBreakpoint b'"
  by (auto simp: HandleEnabled_def Let_def split: if_splits)

lemma HandleEnabledFunction_SomeD:
  "HandleEnabledFunction b t = Some (b', bp) \<Longrightarrow>
     condition_holds t (mf_condition b) \<and> b' = b\<lparr>mf_times := (mf_times b + 1) mod 2 ^ 32\<rparr> \<and>
     bp = FuncToBreakpoint b'"
  by (auto simp: HandleEnabledFunction_def Let_def split: if_splits)

lemma HitManaged_SomeD:
  assumes "HitManagedBreakpoint ms t fr token st = Some (bp, st')"
  obtains key l b b' where
    "um_find (file_lines st key) l = Some b" "condition_holds t (mb_condition b)" "mb_enabled b"
    "mb_methodToken b = token" "b' = b\<lparr>mb_times := (mb_times b + 1) mod 2 ^ 32\<rparr>"
    "bp = ToBreakpoint b'"
    "st' = st\<lparr>bs_files := um_assign key (um_assign l b' (file_lines st key)) (bs_files st)\<rparr>"
  using assms that
  by (auto simp: HitManagedBreakpoint_def split: option.splits prod.splits if_splits
      dest!: HandleEnabled_SomeD)

lemma hit_functions_SomeD:
  assumes "hit_functions views t fr v fs = Some (bp, fs')"
  obtains xs n b ys where
    "fs = xs @ (n, b) # ys" "fs' = xs @ (n, b\<lparr>mf_times := (mf_times b + 1) mod 2 ^ 32\<rparr>) # ys"
    "condition_holds t (mf_condition b)" "mf_enabled b"
    "bp = FuncToBreakpoint (b\<lparr>mf_times := (mf_times b + 1) mod 2 ^ 32\<rparr>)"
    "\<exists>e \<in> set (mf_breakpoints b). IsSameFunctionBreakpoint (Some v) (Some (views (fe_breakpoint e)))"
  using assms
proof (induction views t fr v fs arbitrary: fs' thesis rule: hit_functions.induct)
  case (2 views t fr v n fbp fbs)
  obtain params where p: "(if mf_params fbp \<noteq> [] then frame_params t fr else Some []) = Some params"
    using "2.prems"(2) by (cases "if mf_params fbp \<noteq> [] then frame_params t fr else Some []") auto
  let ?hit = "list_ex (\<lambda>e. IsSameFunctionBreakpoint (Some v) (Some (views (fe_breakpoint e)))
                        \<and> mf_enabled fbp \<and> params = mf_params fbp) (mf_breakpoints fbp)"
  show ?case
  proof (cases ?hit)
    case True
    with "2.prems"(2) p obtain b' where b': "HandleEnabledFunction fbp t = Some (b', bp)" "fs' = (n, b') # fbs"
      by (auto simp: map_option_case split: option.splits)
    from HandleEnabledFunction_SomeD [OF b'(1)] b'(2) True show ?thesis
      by (intro "2.prems"(1) [of "[]" n fbp fbs]) (auto simp: list_ex_iff)
  next
    case False
    with "2.prems"(2) p obtain fs2 where r: "hit_functions views t fr v fbs = Some (bp, fs2)"
      "fs' = (n, fbp) # fs2"
      by (auto simp: map_option_case split: option.splits)
    show ?thesis
      by (rule "2.IH" [OF p False _ r(1)]) (use r(2) "2.prems"(1) [of "(n, fbp) # xs" for xs] in auto)
  qed
qed simp

lemma lines_inv_assign: "lines_inv m \<Longrightarrow> mb_linenum b = l \<Longrightarrow> lines_inv (um_assign l b m)"
  by (simp add: lines_inv_src src.table_inv_assign)

lemma bps_invI_same:
  assumes "bps_inv st" and "bs_next st' = bs_next st" and "um_wf (bs_files st')"
    and "\<And>f. lines_inv (file_lines st' f)" and "funcs_inv (bs_funcs st')"
    and "bs_exceptions st' = bs_exceptions st" and "\<And>k. id_of st' k = id_of st k"
  shows "bps_inv st'"
  using assms tables_inv_frame [of st st'] ids_inv_eq [of st st'] by (simp add: bps_inv_def)

lemma HitManaged_inv:
  assumes "bps_inv st" and "HitManagedBreakpoint ms t fr token st = Some (bp, st')"
  shows "bps_inv st' \<and> (\<forall>k. id_of st' k = id_of st k)"
proof -
  obtain key l b b' where h: "um_find (file_lines st key) l = Some b"
    "b' = b\<lparr>mb_times := (mb_times b + 1) mod 2 ^ 32\<rparr>"
    "st' = st\<lparr>bs_files := um_assign key (um_assign l b' (file_lines st key)) (bs_files st)\<rparr>"
    by (rule HitManaged_SomeD [OF assms(2)])
  have t: "tables_inv st" using assms(1) by (simp add: bps_inv_def)
  then have k: "mb_linenum b = l" using h(1) by (auto simp: tables_inv_def lines_inv_def)
  have id: "id_of st' x = id_of st x" for x
    by (cases x) (use h(1) in \<open>auto simp: h(2,3) um_find_assign\<close>)
  have l': "lines_inv (file_lines st' f)" for f
    using t lines_inv_assign [of "file_lines st key" b' l] by (simp add: h(2,3) k tables_inv_def)
  have "bps_inv st'"
    using t by (intro bps_invI_same [OF assms(1) _ _ l' _ _ id]) (simp_all add: h(3) tables_inv_def)
  then show ?thesis using id by blast
qed

lemma um_find_append: "um_find (xs @ ys) k = (case um_find xs k of None \<Rightarrow> um_find ys k | Some v \<Rightarrow> Some v)"
  by (induction xs) (auto simp: um_find_def)

lemma HitFunction_inv:
  assumes "bps_inv st" and "HitManagedFunctionBreakpoint views t fr hit st = Some (bp, st')"
  shows "bps_inv st' \<and> (\<forall>k. id_of st' k = id_of st k)"
proof -
  obtain v fs where v: "hit = Some v" "hit_functions views t fr v (bs_funcs st) = Some (bp, fs)"
    "st' = st\<lparr>bs_funcs := fs\<rparr>"
    using assms(2) by (auto simp: HitManagedFunctionBreakpoint_def map_option_case split: option.splits)
  obtain xs n b ys where h: "bs_funcs st = xs @ (n, b) # ys"
    "fs = xs @ (n, b\<lparr>mf_times := (mf_times b + 1) mod 2 ^ 32\<rparr>) # ys"
    by (rule hit_functions_SomeD [OF v(2)])
  have t: "tables_inv st" using assms(1) by (simp add: bps_inv_def)
  have id: "id_of st' x = id_of st x" for x
    by (cases x) (auto simp: v(3) h um_find_append um_find_Cons split: option.splits)
  have "func_key c = k" if "um_find fs k = Some c" for k c
  proof -
    from that obtain c' where "um_find (bs_funcs st) k = Some c'" "func_key c = func_key c'"
      by (auto simp: h um_find_append um_find_Cons func_key_def split: option.splits if_splits)
    then show ?thesis using t by (auto simp: tables_inv_def funcs_inv_def)
  qed
  moreover have "um_wf fs" using t by (simp add: tables_inv_def funcs_inv_def um_wf_def h)
  ultimately have "funcs_inv fs" by (simp add: funcs_inv_def)
  then have "bps_inv st'"
    using t by (intro bps_invI_same [OF assms(1) _ _ _ _ _ id]) (simp_all add: v(3) tables_inv_def)
  then show ?thesis using id by blast
qed

lemma HitEntry_inv: "bps_inv st \<Longrightarrow> bps_inv (snd (HitEntry views hit st)) \<and>
     (\<forall>k. id_of (snd (HitEntry views hit st)) k = id_of st k)"
proof -
  assume a: "bps_inv st"
  have f: "bs_next (snd (HitEntry views hit st)) = bs_next st"
    "bs_files (snd (HitEntry views hit st)) = bs_files st"
    "bs_funcs (snd (HitEntry views hit st)) = bs_funcs st"
    "bs_exceptions (snd (HitEntry views hit st)) = bs_exceptions st"
    by (auto simp: HitEntry_def split: option.splits)
  have id: "id_of (snd (HitEntry views hit st)) k = id_of st k" for k by (cases k) (simp_all add: f)
  then show ?thesis
    using a by (intro conjI allI bps_invI_same [OF a]) (simp_all add: f bps_inv_def tables_inv_def)
qed

text \<open>The four outcomes of \<open>HitBreakpoint\<close>.\<close>

lemma HitBreakpoint_cases:
  assumes "HitBreakpoint ms views t hit st = (r, st')"
  obtains (entry) "r = At_Entry" "HitEntry views hit st = (True, st')"
  | (line) fr token bp where "r = Hit bp" "th_frame t = Some fr" "fr_token fr = Some token"
      "HitManagedBreakpoint ms t fr token st = Some (bp, st')"
  | (func) fr bp where "r = Hit bp" "th_frame t = Some fr"
      "HitManagedFunctionBreakpoint views t fr hit st = Some (bp, st')"
  | (none) "r = No_Hit" "st' = st"
  using assms that by (auto simp: HitBreakpoint_def split: prod.splits bool.splits option.splits)

lemma HitBreakpoint_inv [inv_intros]:
  assumes "bps_inv st"
  shows "bps_inv (snd (HitBreakpoint ms views t hit st)) \<and>
     (\<forall>k. id_of (snd (HitBreakpoint ms views t hit st)) k = id_of st k)"
proof -
  obtain r st' where e: "HitBreakpoint ms views t hit st = (r, st')" by (cases "HitBreakpoint ms views t hit st")
  from e show ?thesis
  proof (cases rule: HitBreakpoint_cases)
    case entry
    with HitEntry_inv [OF assms, of views hit] show ?thesis by (simp add: e)
  next
    case line
    from HitManaged_inv [OF assms line(4)] show ?thesis by (simp add: e)
  next
    case func
    from HitFunction_inv [OF assms func(3)] show ?thesis by (simp add: e)
  next
    case none
    with assms show ?thesis by (simp add: e)
  qed
qed

subsection \<open>Exception filters and clean-up\<close>

lemma bps_inv_exc: "bps_inv st \<Longrightarrow> exc_inv (bs_next st, bs_exceptions st)"
  using ids_invD(1) [of st] ids_invD(2) [of st "Exc_Key i" i for i]
  by (auto simp: bps_inv_def exc_inv_def tables_inv_def)

lemma Delete_keys:
  "um_find (ebs_table (snd (Storage_Delete i e))) k \<noteq> None \<Longrightarrow> um_find (ebs_table e) k \<noteq> None"
  by (auto simp: Storage_Delete_def um_find_erase split: option.splits if_splits)

lemma Insert_keys:
  assumes "storage_inv e" and "i \<noteq> 0"
    and "um_find (ebs_table (snd (Storage_Insert i mode name e))) k \<noteq> None"
  shows "k = i \<or> um_find (ebs_table e) k \<noteq> None"
  using assms drop_asterix_facts(2) [OF assms(1,2), of k name]
  by (fastforce simp: Insert_drop Let_def um_find_assign split: if_splits)

lemma bps_insert_exception_inv:
  assumes "bps_inv st" and "bs_next st + 1 < 2 ^ 32"
  shows "bps_inv (snd (snd (bps_insert_exception mode name st))) \<and>
     bs_next (snd (snd (bps_insert_exception mode name st))) \<le> bs_next st + 1"
proof -
  let ?st' = "snd (snd (bps_insert_exception mode name st))"
  let ?s = "(bs_next st, bs_exceptions st)"
  have e: "exc_inv ?s" by (rule bps_inv_exc [OF assms(1)])
  have t: "tables_inv st" and ids: "ids_inv st" using assms(1) by (simp_all add: bps_inv_def)
  have x: "exc_inv (exc_step (Ins mode name) ?s)" "fst (exc_step (Ins mode name) ?s) \<le> bs_next st + 1"
    using exc_step_inv [OF e, of "Ins mode name"] assms(2) by auto
  have st': "?st' = st\<lparr>bs_next := fst (exc_step (Ins mode name) ?s),
                       bs_exceptions := snd (exc_step (Ins mode name) ?s)\<rparr>"
    by (simp add: bps_insert_exception_def exc_step_def case_prod_beta)
  have s: "storage_inv (bs_exceptions st)" "bs_next st \<noteq> 0"
    using t ids_invD(1) [OF ids] by (simp_all add: tables_inv_def)
  have ok: "fst (Storage_Insert (bs_next st) mode name (bs_exceptions st)) = S_OK"
    using s(1) by (rule Insert_ok)
  have n: "bs_next ?st' = bs_next st + 1" and ex: "bs_exceptions ?st' = snd (Storage_Insert (bs_next st) mode name (bs_exceptions st))"
    using assms(2) by (simp_all add: bps_insert_exception_def InsertExceptionBreakpoint_def case_prod_beta ok)
  have old: "id_of st k = Some i \<or> k = Exc_Key (bs_next st) \<and> i = bs_next st" if "id_of ?st' k = Some i" for k i
  proof (cases k)
    case (Exc_Key j)
    then show ?thesis
      using that Insert_keys [OF s, of mode name j] by (auto simp: ex split: if_splits)
  qed (use that in \<open>auto simp: st'\<close>)
  have "ids_inv ?st'"
  proof (rule ids_invI)
    show "0 < bs_next ?st'" by (simp add: n)
    show "i < bs_next ?st'" if "id_of ?st' k = Some i" for k i
      using old [OF that] ids_invD(2) [OF ids, of k i] by (auto simp: n)
    show "k = k'" if "id_of ?st' k = Some i" "id_of ?st' k' = Some i" for k k' i
      using old [OF that(1)] old [OF that(2)] ids_invD(2) [OF ids, of k i] ids_invD(2) [OF ids, of k' i]
        ids_invD(3) [OF ids, of k i k'] by auto
  qed
  moreover have "tables_inv ?st'" using t x by (simp add: st' tables_inv_def exc_inv_def)
  ultimately show ?thesis using x by (simp add: bps_inv_def st')
qed

lemma bps_delete_exception_inv:
  assumes "bps_inv st"
  shows "bps_inv (snd (bps_delete_exception i st))"
proof -
  let ?st' = "snd (bps_delete_exception i st)"
  have st': "?st' = st\<lparr>bs_exceptions := snd (Storage_Delete i (bs_exceptions st))\<rparr>"
    by (simp add: bps_delete_exception_def DeleteExceptionBreakpoint_def case_prod_beta)
  have sub: "id_of st k = Some j" if "id_of ?st' k = Some j" for k j
    using that Delete_keys [of i "bs_exceptions st"] by (cases k) (auto simp: st' split: if_splits)
  have "ids_inv st" using assms by (simp add: bps_inv_def)
  moreover have "bs_next st \<le> bs_next ?st'" by (simp add: st')
  ultimately have "ids_inv ?st'" using sub by (rule ids_same)
  then show ?thesis using assms Delete_inv by (simp add: bps_inv_def st' tables_inv_def)
qed

lemma DeleteAll_inv:
  assumes "bps_inv st"
  shows "bps_inv (DeleteAllBreakpoints st)"
proof -
  have sub: "id_of st k = Some j" if "id_of (DeleteAllBreakpoints st) k = Some j" for k j
    using that by (cases k) (auto simp: DeleteAllBreakpoints_def split: if_splits)
  have "ids_inv st" using assms by (simp add: bps_inv_def)
  moreover have "bs_next st \<le> bs_next (DeleteAllBreakpoints st)" by (simp add: DeleteAllBreakpoints_def)
  ultimately have "ids_inv (DeleteAllBreakpoints st)" using sub by (rule ids_same)
  then show ?thesis using assms by (simp add: bps_inv_def tables_inv_def DeleteAllBreakpoints_def)
qed

lemma SetStopAtEntry_inv: "bps_inv st \<Longrightarrow> bps_inv (SetStopAtEntry b st)"
proof -
  have "id_of (SetStopAtEntry b st) k = id_of st k" for k by (cases k) (simp_all add: SetStopAtEntry_def)
  then show "bps_inv st \<Longrightarrow> ?thesis" by (auto simp: SetStopAtEntry_def bps_inv_def tables_inv_def ids_inv_def)
qed

section \<open>Runs of the manager\<close>

datatype bps_op =
    Op_Set "modules option" string "source_breakpoint list"
  | Op_SetFunctions "modules option" "function_breakpoint list"
  | Op_InsertException exc_mode string
  | Op_DeleteException nat
  | Op_Load "string \<Rightarrow> bytes option" modules clr_module
  | Op_Hit modules "nat \<Rightarrow> native_view" clr_thread "native_view option"
  | Op_StopAtEntry bool
  | Op_DeleteAll

fun bps_step :: "bps_op \<Rightarrow> bps_state \<Rightarrow> bps_state" where
  "bps_step (Op_Set procs f rs) st = fst (SetBreakpoints procs f rs st)"
| "bps_step (Op_SetFunctions procs rs) st = fst (SetFunctionBreakpoints procs rs st)"
| "bps_step (Op_InsertException mode name) st = snd (snd (bps_insert_exception mode name st))"
| "bps_step (Op_DeleteException i) st = snd (bps_delete_exception i st)"
| "bps_step (Op_Load files ms m) st = fst (TryResolveBreakpointsForModule files ms m st)"
| "bps_step (Op_Hit ms views t hit) st = snd (HitBreakpoint ms views t hit st)"
| "bps_step (Op_StopAtEntry b) st = SetStopAtEntry b st"
| "bps_step Op_DeleteAll st = DeleteAllBreakpoints st"

text \<open>How many numbers an operation may take.\<close>

fun op_requests :: "bps_op \<Rightarrow> nat" where
  "op_requests (Op_Set procs f rs) = length rs"
| "op_requests (Op_SetFunctions procs rs) = length rs"
| "op_requests (Op_InsertException mode name) = 1"
| "op_requests _ = 0"

lemma bps_step_inv:
  assumes "bps_inv st" and "bs_next st + op_requests op < 2 ^ 32"
  shows "bps_inv (bps_step op st) \<and> bs_next (bps_step op st) \<le> bs_next st + op_requests op"
proof (cases op)
  case (Op_Set procs f rs)
  with assms SetBreakpoints_ids [OF assms(1), of rs procs f] show ?thesis
    by (metis bps_step.simps(1) op_requests.simps(1) prod.collapse)
next
  case (Op_SetFunctions procs rs)
  with assms SetFunctionBreakpoints_ids [OF assms(1), of rs procs] show ?thesis
    by (metis bps_step.simps(2) op_requests.simps(2) prod.collapse)
next
  case (Op_InsertException mode name)
  with assms bps_insert_exception_inv [OF assms(1)] show ?thesis by simp
next
  case (Op_DeleteException i)
  with bps_delete_exception_inv [OF assms(1), of i] show ?thesis
    by (simp add: bps_delete_exception_def DeleteExceptionBreakpoint_def case_prod_beta)
next
  case (Op_Load files ms m)
  with TryResolve_inv [OF assms(1), of files ms m] show ?thesis by (simp add: TryResolve_frame)
next
  case (Op_Hit ms views t hit)
  have "bs_next (snd (HitBreakpoint ms views t hit st)) = bs_next st"
    by (auto simp: HitBreakpoint_def HitEntry_def HitManagedBreakpoint_def HitManagedFunctionBreakpoint_def
        map_option_case split: option.splits bool.splits prod.splits if_splits)
  with Op_Hit HitBreakpoint_inv [OF assms(1), of ms views t hit] show ?thesis by simp
next
  case (Op_StopAtEntry b)
  with SetStopAtEntry_inv [OF assms(1), of b] show ?thesis by (simp add: SetStopAtEntry_def)
next
  case Op_DeleteAll
  with DeleteAll_inv [OF assms(1)] show ?thesis by (simp add: DeleteAllBreakpoints_def)
qed

lemma bps_run_inv:
  "bps_inv st \<Longrightarrow> bs_next st + sum_list (map op_requests ops) < 2 ^ 32 \<Longrightarrow> bps_inv (fold bps_step ops st)"
proof (induction ops arbitrary: st)
  case (Cons op ops)
  then have "bps_inv (bps_step op st)" "bs_next (bps_step op st) \<le> bs_next st + op_requests op"
    using bps_step_inv [of st op] by auto
  with Cons.prems show ?case by (auto intro!: Cons.IH)
qed simp

lemma bps_inv_init: "bps_inv init_breakpoints"
proof -
  have "id_of init_breakpoints k = None" for k
    by (cases k) (simp_all add: init_breakpoints_def init_storage_def)
  then show ?thesis
    by (simp add: bps_inv_def tables_inv_def ids_inv_def funcs_inv_def)
      (simp add: init_breakpoints_def storage_inv_init)
qed

section \<open>What the requests achieve\<close>

lemma bps_invD:
  assumes "bps_inv st"
  shows "lines_inv (file_lines st f)" "funcs_inv (bs_funcs st)" "ids_inv st"
  using assms by (simp_all add: bps_inv_def tables_inv_def)

lemma loop_lines_keys:
  assumes "export_breakpoints procs f rs n m = (n', m', log, bps)" and "n + length rs < 2 ^ 32"
    and "\<And>l. um_find m l \<noteq> None \<Longrightarrow> l \<in> sb_line ` set rs"
  shows "um_find m' l \<noteq> None \<longleftrightarrow> l \<in> sb_line ` set rs"
proof
  assume "um_find m' l \<noteq> None"
  then obtain b where "um_find m' l = Some b" by auto
  from src.loop_ident [OF assms(1,2) this] have "um_find m l \<noteq> None \<or> l \<in> sb_line ` set rs"
    by auto
  then show "l \<in> sb_line ` set rs" using assms(3) by blast
next
  assume "l \<in> sb_line ` set rs"
  then obtain r where r: "r \<in> set rs" "l = sb_line r" by blast
  obtain b where "um_find m' (sb_line r) = Some b" by (rule src.loop_covers [OF assms(1,2) r(1)])
  then show "um_find m' l \<noteq> None" by (simp add: r(2))
qed

lemma loop_function_keys:
  assumes "export_functions procs rs n m = (n', m', log, bps)" and "n + length rs < 2 ^ 32"
    and "\<And>f. um_find m f \<noteq> None \<Longrightarrow> f \<in> full_func_name ` set rs"
  shows "um_find m' f \<noteq> None \<longleftrightarrow> f \<in> full_func_name ` set rs"
proof
  assume "um_find m' f \<noteq> None"
  then obtain b where "um_find m' f = Some b" by auto
  from fun_bp.loop_ident [OF assms(1,2) this] have "um_find m f \<noteq> None \<or> f \<in> full_func_name ` set rs"
    by auto
  then show "f \<in> full_func_name ` set rs" using assms(3) by blast
next
  assume "f \<in> full_func_name ` set rs"
  then obtain r where r: "r \<in> set rs" "f = full_func_name r" by blast
  obtain b where "um_find m' (full_func_name r) = Some b" by (rule fun_bp.loop_covers [OF assms(1,2) r(1)])
  then show "um_find m' f \<noteq> None" by (simp add: r(2))
qed

text \<open>Entry stops of a run.\<close>

fun entry_stops :: "bps_op list \<Rightarrow> bps_state \<Rightarrow> nat" where
  "entry_stops [] st = 0"
| "entry_stops (op # ops) st =
     (case op of
        Op_Hit ms views t hit \<Rightarrow> (if fst (HitBreakpoint ms views t hit st) = At_Entry then 1 else 0)
      | _ \<Rightarrow> 0) + entry_stops ops (bps_step op st)"

text \<open>Where the entry breakpoint stands: not set up, armed, or passed.\<close>

definition entry_armed :: "bps_state \<Rightarrow> bool" where
  "entry_armed st \<longleftrightarrow> bs_entryBreakpoint st \<noteq> None"

definition entry_sane :: "bps_state \<Rightarrow> bool" where
  "entry_sane st \<longleftrightarrow> (entry_armed st \<longrightarrow> bs_entryPoint st \<noteq> mdMethodDefNil)"

definition entry_passed :: "bps_state \<Rightarrow> bool" where
  "entry_passed st \<longleftrightarrow> \<not> entry_armed st \<and> bs_entryPoint st \<noteq> mdMethodDefNil"

lemma entry_frame:
  "op \<noteq> Op_DeleteAll \<Longrightarrow> (\<And>fs ms m. op \<noteq> Op_Load fs ms m) \<Longrightarrow> (\<And>ms v t h. op \<noteq> Op_Hit ms v t h) \<Longrightarrow>
     bs_entryBreakpoint (bps_step op st) = bs_entryBreakpoint st \<and>
     bs_entryPoint (bps_step op st) = bs_entryPoint st"
  by (cases op) (auto simp: SetBreakpoints_def SetFunctionBreakpoints_def bps_insert_exception_def
      bps_delete_exception_def SetStopAtEntry_def Let_def split: prod.splits)

lemma Load_entry:
  "entry_passed st \<Longrightarrow> entry_passed (bps_step (Op_Load fs ms m) st)"
  "entry_sane st \<Longrightarrow> entry_sane (bps_step (Op_Load fs ms m) st)"
  by (auto simp: TryResolveBreakpointsForModule_def TrySetupEntryBreakpoint_def entry_passed_def
      entry_armed_def entry_sane_def Let_def case_prod_beta split: option.splits)

lemma Hit_entry:
  assumes "HitBreakpoint ms views t hit st = (r, st')"
  shows "r = At_Entry \<Longrightarrow> entry_armed st \<and> \<not> entry_armed st' \<and> bs_entryPoint st' = bs_entryPoint st"
    and "r \<noteq> At_Entry \<Longrightarrow> bs_entryBreakpoint st' = bs_entryBreakpoint st \<and> bs_entryPoint st' = bs_entryPoint st"
proof -
  have e: "entry_armed st \<and> \<not> entry_armed s \<and> bs_entryPoint s = bs_entryPoint st"
    if "HitEntry views hit st = (True, s)" for s
    using that by (auto simp: HitEntry_def entry_armed_def split: option.splits if_splits)
  show "entry_armed st \<and> \<not> entry_armed st' \<and> bs_entryPoint st' = bs_entryPoint st" if "r = At_Entry"
    using assms that by (cases rule: HitBreakpoint_cases) (auto dest: e)
  show "bs_entryBreakpoint st' = bs_entryBreakpoint st \<and> bs_entryPoint st' = bs_entryPoint st" if "r \<noteq> At_Entry"
    using assms that
    by (cases rule: HitBreakpoint_cases)
      (auto simp: HitManagedFunctionBreakpoint_def map_option_case elim!: HitManaged_SomeD
        split: option.splits)
qed

lemma entry_step:
  assumes "op \<noteq> Op_DeleteAll" and "entry_sane st"
  shows "entry_sane (bps_step op st)"
    and "entry_passed st \<Longrightarrow> entry_passed (bps_step op st)"
proof -
  have "entry_sane (bps_step op st) \<and> (entry_passed st \<longrightarrow> entry_passed (bps_step op st))"
  proof (cases op)
    case (Op_Load fs ms m)
    with Load_entry assms(2) show ?thesis by blast
  next
    case (Op_Hit ms views t hit)
    obtain r st' where h: "HitBreakpoint ms views t hit st = (r, st')"
      by (cases "HitBreakpoint ms views t hit st")
    from Hit_entry [OF h] assms(2) show ?thesis
      by (cases "r = At_Entry") (auto simp: Op_Hit h entry_sane_def entry_passed_def entry_armed_def)
  qed (use assms entry_frame [of op st] in \<open>auto simp: entry_sane_def entry_passed_def entry_armed_def\<close>)
  then show "entry_sane (bps_step op st)" "entry_passed st \<Longrightarrow> entry_passed (bps_step op st)" by simp_all
qed

lemma entry_stops_bound:
  "Op_DeleteAll \<notin> set ops \<Longrightarrow> entry_sane st \<Longrightarrow>
     entry_stops ops st \<le> (if entry_passed st then 0 else 1)"
proof (induction ops arbitrary: st)
  case (Cons op ops)
  have sane: "entry_sane (bps_step op st)" using Cons.prems by (intro entry_step) auto
  have IH: "entry_stops ops (bps_step op st) \<le> (if entry_passed (bps_step op st) then 0 else 1)"
    using Cons.prems by (intro Cons.IH sane) auto
  have pass: "entry_passed st \<Longrightarrow> entry_passed (bps_step op st)"
    using Cons.prems by (intro entry_step) auto
  show ?case
  proof (cases op)
    case (Op_Hit ms views t hit)
    obtain r st' where h: "HitBreakpoint ms views t hit st = (r, st')"
      by (cases "HitBreakpoint ms views t hit st")
    show ?thesis
    proof (cases "r = At_Entry")
      case True
      with Hit_entry(1) [OF h] Cons.prems(2) have "entry_passed st'" "\<not> entry_passed st"
        by (auto simp: entry_passed_def entry_sane_def)
      with IH True show ?thesis by (simp add: Op_Hit h)
    next
      case False
      with IH pass show ?thesis by (cases "entry_passed st") (simp_all add: Op_Hit h split: if_splits)
    qed
  qed (use IH pass in \<open>auto split: if_splits\<close>)
qed simp

lemma set_lines_lines:
  assumes "bps_inv st" and "bs_next st + length rs < 2 ^ 32"
    and "SetBreakpoints procs f rs st = (st', bps)"
  shows "{l. um_find (file_lines st' f) l \<noteq> None} = sb_line ` set rs \<and>
     (g \<noteq> f \<longrightarrow> file_lines st' g = file_lines st g) \<and>
     bs_funcs st' = bs_funcs st \<and> bs_exceptions st' = bs_exceptions st"
proof (cases "rs = []")
  case True
  with assms(3) show ?thesis by (auto simp: SetBreakpoints_empty)
next
  case False
  obtain n' m' log lg where
    x: "export_breakpoints procs f rs (bs_next st)
       (filter (\<lambda>(l, _). l \<in> set (map sb_line rs)) (file_lines st f)) = (n', m', log, bps)"
    and st': "st' = st\<lparr>bs_next := n', bs_files := um_assign f m' (bs_files st), bs_log := lg\<rparr>"
    by (rule SetBreakpoints_cases [OF assms(3) False])
  have "um_find m' l \<noteq> None \<longleftrightarrow> l \<in> sb_line ` set rs" for l
    by (rule loop_lines_keys [OF x assms(2)]) (simp add: um_find_filter_key split: if_splits)
  then show ?thesis by (simp add: st' set_eq_iff)
qed

lemma set_lines_report:
  assumes "bps_inv st" and "bs_next st + length rs < 2 ^ 32"
    and "SetBreakpoints procs f rs st = (st', bps)"
  shows "map bp_line bps = map sb_line rs \<and> map bp_condition bps = map sb_condition rs \<and>
     map (\<lambda>b. Some (bp_id b)) bps = map (\<lambda>r. id_of st' (Src_Key f (sb_line r))) rs"
proof (cases "rs = []")
  case True
  with assms(3) show ?thesis by (auto simp: SetBreakpoints_empty)
next
  case False
  let ?kept = "filter (\<lambda>(l, _). l \<in> set (map sb_line rs)) (file_lines st f)"
  obtain n' m' log lg where
    x: "export_breakpoints procs f rs (bs_next st) ?kept = (n', m', log, bps)"
    and st': "st' = st\<lparr>bs_next := n', bs_files := um_assign f m' (bs_files st), bs_log := lg\<rparr>"
    by (rule SetBreakpoints_cases [OF assms(3) False])
  have "lines_inv ?kept" using bps_invD(1) [OF assms(1)] by (rule lines_inv_filter)
  with src.loop_report [OF x] obtain bs where
    "map bp_condition bps = map sb_condition rs" "bps = map ToBreakpoint bs"
    "map mb_linenum bs = map sb_line rs" by (auto simp: lines_inv_src)
  moreover have "map (\<lambda>r. map_option mb_id (um_find m' (sb_line r))) rs = map (Some \<circ> bp_id) bps"
    by (rule src.loop_reported_ids [OF x assms(2)])
  ultimately show ?thesis by (simp add: st' comp_def)
qed

lemma set_lines_stable:
  assumes "bps_inv st" and "bs_next st + length rs < 2 ^ 32"
    and "SetBreakpoints procs f rs st = (st', bps)"
    and "um_find (file_lines st f) l = Some b" and "l \<in> sb_line ` set rs"
  shows "map_option (\<lambda>c. (mb_id c, mb_times c)) (um_find (file_lines st' f) l) = Some (mb_id b, mb_times b)"
proof -
  have ne: "rs \<noteq> []" using assms(5) by auto
  obtain n' m' log lg where
    x: "export_breakpoints procs f rs (bs_next st)
       (filter (\<lambda>(l, _). l \<in> set (map sb_line rs)) (file_lines st f)) = (n', m', log, bps)"
    and st': "st' = st\<lparr>bs_next := n', bs_files := um_assign f m' (bs_files st), bs_log := lg\<rparr>"
    by (rule SetBreakpoints_cases [OF assms(3) ne])
  have "um_find (filter (\<lambda>(l, _). l \<in> set (map sb_line rs)) (file_lines st f)) l = Some b"
    using assms(4,5) by (simp add: um_find_filter_key)
  then obtain c where "um_find m' l = Some c" "mb_id c = mb_id b" "mb_times c = mb_times b"
    by (rule src.loop_keeps [OF x assms(2)])
  then show ?thesis by (simp add: st')
qed

section \<open>Properties\<close>

definition two_lines :: "source_breakpoint list" where
  "two_lines = [\<lparr>sb_line = 3, sb_condition = []\<rparr>, \<lparr>sb_line = 7, sb_condition = ''x > 1''\<rparr>]"

definition line_seven :: "source_breakpoint list" where
  "line_seven = [\<lparr>sb_line = 7, sb_condition = []\<rparr>]"

text \<open>C1. Whatever sequence of requests, filter changes, module loads, hits and clean-ups is run from
  the start, the tables stay well formed and every number given out names one thing only: no two
  lines, functions or exception filters ever share a number, and all are below the counter.\<close>

theorem breakpoint_numbers_unique:
  assumes "sum_list (map op_requests ops) < 2 ^ 32 - 1"
  shows "bps_inv (fold bps_step ops init_breakpoints)"
  using assms by (intro bps_run_inv bps_inv_init) (simp add: init_breakpoints_def)

theorem breakpoint_numbers_unique_witness:
  "bps_inv (fold bps_step
     [Op_Set None ''a.cs'' two_lines, Op_InsertException default_mode ''*'',
      Op_Set None ''a.cs'' line_seven, Op_DeleteAll] init_breakpoints)"
  by (rule breakpoint_numbers_unique) (simp add: two_lines_def line_seven_def)

text \<open>After a request for a file exactly the requested lines carry breakpoints in it; the other
  files, the function breakpoints and the exception filters are as before.\<close>

theorem SetBreakpoints_lines:
  assumes "bps_inv st" and "bs_next st + length rs < 2 ^ 32"
    and "SetBreakpoints procs f rs st = (st', bps)"
  shows "{l. um_find (file_lines st' f) l \<noteq> None} = sb_line ` set rs \<and>
     (g \<noteq> f \<longrightarrow> file_lines st' g = file_lines st g) \<and>
     bs_funcs st' = bs_funcs st \<and> bs_exceptions st' = bs_exceptions st"
  by (rule set_lines_lines [OF assms])

theorem SetBreakpoints_lines_witness:
  "{l. um_find (file_lines (fst (SetBreakpoints None ''a.cs'' two_lines init_breakpoints)) ''a.cs'') l \<noteq> None}
     = {3, 7}"
  using SetBreakpoints_lines [OF bps_inv_init, of two_lines None "''a.cs''"
      "fst (SetBreakpoints None ''a.cs'' two_lines init_breakpoints)"
      "snd (SetBreakpoints None ''a.cs'' two_lines init_breakpoints)" "[]"]
  by (simp add: two_lines_def init_breakpoints_def)

text \<open>C29. A request for a file is answered in its order: one breakpoint per requested line, at that
  line, with the requested condition, and with the number under which the manager keeps the line.\<close>

theorem SetBreakpoints_report:
  assumes "bps_inv st" and "bs_next st + length rs < 2 ^ 32"
    and "SetBreakpoints procs f rs st = (st', bps)"
  shows "map bp_line bps = map sb_line rs \<and> map bp_condition bps = map sb_condition rs \<and>
     map (\<lambda>b. Some (bp_id b)) bps = map (\<lambda>r. id_of st' (Src_Key f (sb_line r))) rs"
  by (rule set_lines_report [OF assms])

theorem SetBreakpoints_report_witness:
  "map bp_line (snd (SetBreakpoints None ''a.cs'' two_lines init_breakpoints)) = [3, 7]"
  using SetBreakpoints_report [OF bps_inv_init, of two_lines None "''a.cs''"
      "fst (SetBreakpoints None ''a.cs'' two_lines init_breakpoints)"
      "snd (SetBreakpoints None ''a.cs'' two_lines init_breakpoints)"]
  by (simp add: two_lines_def init_breakpoints_def)

text \<open>A line that is requested again keeps its number and its hit count.\<close>

theorem SetBreakpoints_stable:
  assumes "bps_inv st" and "bs_next st + length rs < 2 ^ 32"
    and "SetBreakpoints procs f rs st = (st', bps)"
    and "um_find (file_lines st f) l = Some b" and "l \<in> sb_line ` set rs"
  shows "map_option (\<lambda>c. (mb_id c, mb_times c)) (um_find (file_lines st' f) l) = Some (mb_id b, mb_times b)"
  by (rule set_lines_stable [OF assms])

definition after_two :: bps_state where
  "after_two = fst (SetBreakpoints None ''a.cs'' two_lines init_breakpoints)"

lemma after_two_value:
  "after_two = init_breakpoints\<lparr>bs_next := 3, bs_files :=
     [(''a.cs'', [(3, new_managed_bp\<lparr>mb_id := 1, mb_fullname := ''a.cs'', mb_linenum := 3\<rparr>),
                  (7, new_managed_bp\<lparr>mb_id := 2, mb_fullname := ''a.cs'', mb_linenum := 7,
                                     mb_condition := ''x > 1''\<rparr>)])]\<rparr>"
  by (simp add: after_two_def SetBreakpoints_def two_lines_def init_breakpoints_def lines_of_def
      fresh_bp_def succ_id_def um_emplace_def um_find_Cons new_managed_bp_def)

lemma after_two_inv: "bps_inv after_two"
  using bps_step_inv [OF bps_inv_init, of "Op_Set None ''a.cs'' two_lines"]
  by (simp add: after_two_def two_lines_def init_breakpoints_def)

theorem SetBreakpoints_stable_witness:
  "map_option (\<lambda>c. (mb_id c, mb_times c))
     (um_find (file_lines (fst (SetBreakpoints None ''a.cs'' line_seven after_two)) ''a.cs'') 7) = Some (2, 0)"
  using SetBreakpoints_stable [OF after_two_inv, of line_seven None "''a.cs''"
      "fst (SetBreakpoints None ''a.cs'' line_seven after_two)"
      "snd (SetBreakpoints None ''a.cs'' line_seven after_two)"
      7 "new_managed_bp\<lparr>mb_id := 2, mb_fullname := ''a.cs'', mb_linenum := 7, mb_condition := ''x > 1''\<rparr>"]
  by (simp add: line_seven_def after_two_value init_breakpoints_def lines_of_def um_find_Cons
      new_managed_bp_def)

text \<open>The native breakpoint of a line that is not requested again is deactivated.\<close>

theorem SetBreakpoints_deactivates:
  assumes "um_find (file_lines st f) l = Some b" and "l \<notin> sb_line ` set rs" and "mb_breakpoint b = Some h"
  shows "Deactivate h \<in> set (drop (length (bs_log st)) (bs_log (fst (SetBreakpoints procs f rs st))))"
proof -
  have m: "(l, b) \<in> set (file_lines st f)" using assms(1) by (rule um_find_SomeD)
  have d: "Deactivate h \<in> set (destroy_bp b)" using assms(3) by (simp add: destroy_bp_def)
  show ?thesis
  proof (cases "rs = []")
    case True
    then show ?thesis using m d by (auto simp: SetBreakpoints_empty)
  next
    case False
    obtain st' bps where e: "SetBreakpoints procs f rs st = (st', bps)"
      by (cases "SetBreakpoints procs f rs st")
    obtain n' m' log lg where st': "st' = st\<lparr>bs_next := n', bs_files := um_assign f m' (bs_files st), bs_log := lg\<rparr>"
      and lg: "lg = bs_log st @ concat (map (\<lambda>(_, b). destroy_bp b)
        (filter (\<lambda>(l, _). l \<notin> set (map sb_line rs)) (file_lines st f))) @ log"
      by (rule SetBreakpoints_cases [OF e False])
    have "(l, b) \<in> set (filter (\<lambda>(l, _). l \<notin> set (map sb_line rs)) (file_lines st f))"
      using m assms(2) by auto
    then show ?thesis using d by (force simp: e st' lg)
  qed
qed

definition bound_line :: bps_state where
  "bound_line = init_breakpoints\<lparr>bs_files :=
     [(''a.cs'', [(3, new_managed_bp\<lparr>mb_id := 1, mb_breakpoint := Some 9\<rparr>)])]\<rparr>"

theorem SetBreakpoints_deactivates_witness:
  "Deactivate 9 \<in> set (bs_log (fst (SetBreakpoints None ''a.cs'' line_seven bound_line)))"
  using SetBreakpoints_deactivates [of bound_line "''a.cs''" 3
      "new_managed_bp\<lparr>mb_id := 1, mb_breakpoint := Some 9\<rparr>" line_seven 9 None]
  by (simp add: bound_line_def init_breakpoints_def lines_of_def um_find_Cons line_seven_def new_managed_bp_def)

text \<open>After a request for functions exactly the requested qualified names carry function
  breakpoints, every source breakpoint is as before, and the answer lists the requests in order with
  their conditions and the numbers under which they are kept.\<close>

theorem SetFunctionBreakpoints_functions:
  assumes "bps_inv st" and "bs_next st + length rs < 2 ^ 32"
    and "SetFunctionBreakpoints procs rs st = (st', bps)"
  shows "{n. um_find (bs_funcs st') n \<noteq> None} = full_func_name ` set rs \<and> bs_files st' = bs_files st \<and>
     map bp_condition bps = map fbr_condition rs \<and>
     map (\<lambda>b. Some (bp_id b)) bps = map (\<lambda>r. id_of st' (Fun_Key (full_func_name r))) rs"
proof (cases "rs = []")
  case True
  with assms(3) show ?thesis by (auto simp: SetFunctionBreakpoints_def)
next
  case False
  let ?kept = "filter (\<lambda>(n, _). n \<in> set (map full_func_name rs)) (bs_funcs st)"
  obtain n' m' log lg where
    x: "export_functions procs rs (bs_next st) ?kept = (n', m', log, bps)"
    and st': "st' = st\<lparr>bs_next := n', bs_funcs := m', bs_log := lg\<rparr>"
    by (rule SetFunctionBreakpoints_cases [OF assms(3) False])
  have "um_find m' f \<noteq> None \<longleftrightarrow> f \<in> full_func_name ` set rs" for f
    by (rule loop_function_keys [OF x assms(2)]) (simp add: um_find_filter_key split: if_splits)
  moreover have "funcs_inv ?kept" using bps_invD(2) [OF assms(1)] by (rule funcs_inv_filter)
  with fun_bp.loop_report [OF x] have "map bp_condition bps = map fbr_condition rs"
    by (simp add: funcs_inv_fun)
  moreover have "map (\<lambda>r. map_option mf_id (um_find m' (full_func_name r))) rs = map (Some \<circ> bp_id) bps"
    by (rule fun_bp.loop_reported_ids [OF x assms(2)])
  ultimately show ?thesis by (simp add: st' set_eq_iff comp_def)
qed

definition main_functions :: "function_breakpoint list" where
  "main_functions = [\<lparr>fbr_module = ''m.dll'', fbr_func = ''Main'', fbr_params = [], fbr_condition = ''b''\<rparr>]"

theorem SetFunctionBreakpoints_functions_witness:
  "map bp_condition (snd (SetFunctionBreakpoints None main_functions init_breakpoints)) = [''b''] \<and>
   {n. um_find (bs_funcs (fst (SetFunctionBreakpoints None main_functions init_breakpoints))) n \<noteq> None}
     = {''m.dll!Main''}"
  using SetFunctionBreakpoints_functions [OF bps_inv_init, of main_functions None
      "fst (SetFunctionBreakpoints None main_functions init_breakpoints)"
      "snd (SetFunctionBreakpoints None main_functions init_breakpoints)"]
  by (simp add: main_functions_def init_breakpoints_def full_func_name_def)

text \<open>C4. A stop on a breakpoint is for a breakpoint the manager keeps, its condition held, and the
  numbers of all breakpoints are as before.\<close>

theorem HitBreakpoint_sound:
  assumes "bps_inv st" and "HitBreakpoint ms views t hit st = (Hit bp, st')"
  shows "bp_id bp \<in> {i. \<exists>k. id_of st k = Some i} \<and> condition_holds t (bp_condition bp) \<and>
     id_of st' = id_of st"
proof -
  have "\<forall>k. id_of st' k = id_of st k" using HitBreakpoint_inv [OF assms(1), of ms views t hit] assms(2) by simp
  then have ids: "id_of st' = id_of st" by (simp add: fun_eq_iff)
  from assms(2) show ?thesis
  proof (cases rule: HitBreakpoint_cases)
    case (line fr token bp')
    obtain key l b b' where h: "um_find (file_lines st key) l = Some b" "condition_holds t (mb_condition b)"
      "b' = b\<lparr>mb_times := (mb_times b + 1) mod 2 ^ 32\<rparr>" "bp' = ToBreakpoint b'"
      by (rule HitManaged_SomeD [OF line(4)])
    have "id_of st (Src_Key key l) = Some (bp_id bp)" using h line(1) by simp
    then have "\<exists>k. id_of st k = Some (bp_id bp)" by (rule exI)
    then show ?thesis using h line(1) ids by simp
  next
    case (func fr bp')
    from func(3) obtain v fs where v: "hit_functions views t fr v (bs_funcs st) = Some (bp', fs)"
      by (auto simp: HitManagedFunctionBreakpoint_def map_option_case split: option.splits)
    obtain xs n b ys where h: "bs_funcs st = xs @ (n, b) # ys" "condition_holds t (mf_condition b)"
      "bp' = FuncToBreakpoint (b\<lparr>mf_times := (mf_times b + 1) mod 2 ^ 32\<rparr>)"
      by (rule hit_functions_SomeD [OF v])
    have "um_wf (bs_funcs st)" using bps_invD(2) [OF assms(1)] by (simp add: funcs_inv_def)
    then have "um_find (bs_funcs st) n = Some b" by (simp add: um_find_in_set h(1))
    then have "id_of st (Fun_Key n) = Some (bp_id bp)" using h func(1) by simp
    then have "\<exists>k. id_of st k = Some (bp_id bp)" by (rule exI)
    then show ?thesis using h func(1) ids by simp
  qed simp_all
qed

text \<open>A module with one statement, a frame stopped at it, and a thread whose conditions are all true.\<close>

definition demo_module :: clr_module where
  "demo_module = \<lparr>cm_base = Some 4096, cm_size = Some 512, cm_name = Some ''/app/m.dll'', cm_pid = Some 1,
     cm_sequence_point = (\<lambda>f l. if f = ''a.cs'' \<and> l = 7 then Some (5, 0) else None),
     cm_sp_at = (\<lambda>t il. Some \<lparr>sp_startLine = 7, sp_startColumn = 1, sp_endLine = 7, sp_endColumn = 9,
                              sp_offset = 0, sp_document = ''/src/a.cs''\<rparr>),
     cm_step_range = (\<lambda>il t. Some (0, 4)), cm_types = Some [], cm_import2 = True,
     cm_function = Some, cm_il_code = Some, cm_create = (\<lambda>c il. Some 9), cm_create_entry = Some,
     cm_activate = (\<lambda>h. True), cm_code_size = (\<lambda>c. Some 16)\<rparr>"

definition demo_frame :: clr_frame where
  "demo_frame = \<lparr>fr_token = Some 5, fr_function = Some 5, fr_module = Some demo_module, fr_metadata = True,
     fr_ilframe = True, fr_ip = Some 0\<rparr>"

definition demo_thread :: clr_thread where
  "demo_thread = \<lparr>th_id = Some 1, th_frame = Some demo_frame, th_args = Some [],
     th_evaluate = (\<lambda>i e. Some (''bool'', ''true''))\<rparr>"

definition demo_modules :: modules where
  "demo_modules = [(4096, demo_module)]"

text \<open>The two breakpoints of \<open>after_two\<close>, with the second bound to the demo module.\<close>

definition demo_state :: bps_state where
  "demo_state = fst (TryResolveBreakpointsForModule (\<lambda>_. None) demo_modules demo_module after_two)"

definition demo_views :: "nat \<Rightarrow> native_view" where
  "demo_views h = \<lparr>nv_offset = Some 0, nv_token = Some h, nv_module = Some demo_module\<rparr>"

lemmas demo_defs = demo_module_def demo_frame_def demo_thread_def demo_modules_def

lemma demo_state_files:
  "bs_files demo_state =
     [(''a.cs'', [(3, new_managed_bp\<lparr>mb_id := 1, mb_fullname := ''a.cs'', mb_linenum := 3\<rparr>),
                  (7, \<lparr>mb_id = 2, mb_modAddress = 4096, mb_methodToken = 5, mb_ilOffset = 0,
                      mb_fullname = ''/src/a.cs'', mb_linenum = 7, mb_breakpoint = Some 9,
                      mb_enabled = True, mb_times = 0, mb_condition = ''x > 1''\<rparr>)])]"
  by (simp add: demo_state_def TryResolve_frame after_two_value resolved_line_def mb_resolved_def
      new_managed_bp_def ResolveBreakpointInModule_def GetLocationInModule_def LocationIn_def
      bind_breakpoint_def demo_defs um_find_Cons to_u32_def)

lemma demo_state_inv: "bps_inv demo_state"
  unfolding demo_state_def by (rule TryResolve_inv [OF after_two_inv])

lemma demo_state_entry: "\<not> bs_stopAtEntry demo_state"
  by (simp add: demo_state_def TryResolveBreakpointsForModule_def Let_def case_prod_beta
      TrySetupEntryBreakpoint_def after_two_value init_breakpoints_def)

theorem HitBreakpoint_sound_witness:
  "\<exists>bp. fst (HitBreakpoint demo_modules demo_views demo_thread None demo_state) = Hit bp \<and>
     condition_holds demo_thread (bp_condition bp) \<and> bp_condition bp = ''x > 1''"
proof -
  have h: "fst (HitBreakpoint demo_modules demo_views demo_thread None demo_state) =
      Hit (ToBreakpoint \<lparr>mb_id = 2, mb_modAddress = 4096, mb_methodToken = 5, mb_ilOffset = 0,
                      mb_fullname = ''/src/a.cs'', mb_linenum = 7, mb_breakpoint = Some 9,
                      mb_enabled = True, mb_times = 1, mb_condition = ''x > 1''\<rparr>)"
    by (simp add: HitBreakpoint_def HitEntry_def demo_state_entry HitManagedBreakpoint_def
        GetFrameILAndSequencePoint_def loaded_info_def document_key_def demo_state_files lines_of_def
        um_find_Cons HandleEnabled_def condition_holds_def GetFileName_def demo_defs new_managed_bp_def Let_def)
  obtain r st' where e: "HitBreakpoint demo_modules demo_views demo_thread None demo_state = (r, st')"
    by (cases "HitBreakpoint demo_modules demo_views demo_thread None demo_state")
  from h e obtain bp where bp: "r = Hit bp" "bp_condition bp = ''x > 1''" by simp
  from HitBreakpoint_sound [OF demo_state_inv e [unfolded bp(1)]] show ?thesis
    using bp by (simp add: e)
qed

text \<open>C39. The program stops at its entry point at most once until the breakpoints are cleaned up,
  whatever modules load and whatever breakpoints are set and hit in between.\<close>

theorem entry_stop_once:
  assumes "Op_DeleteAll \<notin> set ops"
  shows "entry_stops ops init_breakpoints \<le> 1"
proof -
  have "entry_sane init_breakpoints" by (simp add: entry_sane_def entry_armed_def init_breakpoints_def)
  then show ?thesis
    using entry_stops_bound [OF assms, of init_breakpoints]
    by (simp add: entry_passed_def init_breakpoints_def)
qed

theorem entry_stop_once_witness:
  "entry_stops [Op_StopAtEntry True, Op_Hit demo_modules demo_views demo_thread None] init_breakpoints \<le> 1"
  by (rule entry_stop_once) simp

text \<open>Loading a module leaves the numbers and every resolved source breakpoint as they are, and
  each source breakpoint it announces is verified (for a module that is not mapped at address 0).\<close>

theorem module_load_effect:
  assumes "cm_base m \<noteq> Some 0"
  shows "id_of (fst (TryResolveBreakpointsForModule files ms m st)) = id_of st \<and>
     (um_find (file_lines st f) l = Some b \<and> mb_resolved b \<longrightarrow>
        um_find (file_lines (fst (TryResolveBreakpointsForModule files ms m st)) f) l = Some b) \<and>
     {e \<in> set (snd (snd (resolve_lines ms m bs))). \<not> bp_verified e} = {}"
proof -
  have r: "mb_resolved (snd (snd (ResolveBreakpointInModule ms m b)))"
    if "fst (ResolveBreakpointInModule ms m b)" for b
    using that assms
    by (auto simp: ResolveBreakpointInModule_def bind_breakpoint_def mb_resolved_def split: option.splits if_splits)
  have v: "bp_verified e" if "e \<in> set (snd (snd (resolve_lines ms m bs)))" for e bs
    using that by (induction bs) (auto simp: Let_def case_prod_beta r split: if_splits)
  have k: "um_find (file_lines (fst (TryResolveBreakpointsForModule files ms m st)) f) l = Some b"
    if "um_find (file_lines st f) l = Some b" "mb_resolved b"
    using that by (auto simp: TryResolve_frame lines_of_def um_find_map_val resolved_line_def split: option.splits)
  show ?thesis using v k by (auto simp: TryResolve_ids fun_eq_iff)
qed

theorem module_load_effect_witness:
  "id_of demo_state (Src_Key ''a.cs'' 7) = Some 2"
proof -
  have "cm_base demo_module \<noteq> Some 0" by (simp add: demo_module_def)
  from module_load_effect [OF this, of "\<lambda>_. None" demo_modules after_two "''a.cs''" 7 new_managed_bp "[]"]
  show ?thesis
    by (simp add: demo_state_def [symmetric]) (simp add: after_two_value lines_of_def um_find_Cons new_managed_bp_def)
qed

end
