(* ===== verification/Mi_Print.thy ===== *)
theory Mi_Print imports Mi_Escape Protocol_Types begin

text \<open>
  The printers of \<open>miprotocol.cpp\<close>: what the front end writes for breakpoints, frames, variables and
  events.  An \<open>ostringstream\<close> is the concatenation of what is streamed into it.
\<close>

section \<open>Streams\<close>

text \<open>An \<open>int\<close> in decimal, an unsigned number in hexadecimal, and \<open>setw\<close> with fill \<open>0\<close>.\<close>

definition show_int :: "int \<Rightarrow> string" where
  "show_int i = (if i < 0 then ''-'' @ to_string (nat (- i)) else to_string (nat i))"

definition hex_digit :: "nat \<Rightarrow> char" where
  "hex_digit d = (if d < 10 then char_of (48 + d) else char_of (87 + d))"

fun to_hex :: "nat \<Rightarrow> string" where
  "to_hex n = (if n < 16 then [hex_digit n] else to_hex (n div 16) @ [hex_digit (n mod 16)])"

declare to_hex.simps [simp del]

definition zero_pad :: "nat \<Rightarrow> string \<Rightarrow> string" where
  "zero_pad w s = replicate (w - length s) (CHR ''0'') @ s"

text \<open>\<open>name="value"\<close>.\<close>

definition attr :: "string \<Rightarrow> string \<Rightarrow> string" where
  "attr name v = name @ ''='' @ CHR 0x22 # v @ [CHR 0x22]"

text \<open>The elements of a list with the separator that the code starts with after the first.\<close>

fun commas :: "string list \<Rightarrow> string" where
  "commas [] = []"
| "commas [x] = x"
| "commas (x # y # ys) = x @ '','' @ commas (y # ys)"

section \<open>Breakpoints and frames\<close>

definition no_code_warning :: string where
  "no_code_warning =
     ''No executable code of the debugger's target code type is associated with this line.''"

definition PrintBreakpoint :: "breakpoint \<Rightarrow> hresult \<times> string" where
  "PrintBreakpoint b =
     (let front = ''bkpt={'' @ attr ''number'' (to_string (bp_id b)) @ '','' @ attr ''type'' ''breakpoint'' @ '','' @
                  attr ''disp'' ''keep'' @ '','' @ attr ''enabled'' ''y'' @ '',''
      in if bp_verified b then
           (S_OK, front @ attr ''func'' [] @ '','' @
              attr ''file'' (EscapeMIValue (src_name (bp_source b))) @ '','' @
              attr ''fullname'' (EscapeMIValue (src_path (bp_source b))) @ '','' @
              attr ''line'' (show_int (bp_line b)) @ ''}'')
         else (S_FALSE, front @ attr ''warning'' no_code_warning @ ''}''))"

definition AddrToString :: "nat \<Rightarrow> string" where
  "AddrToString addr = ''0x'' @ zero_pad 16 (to_hex addr)"

definition PrintFrameLocation :: "stack_frame \<Rightarrow> hresult \<times> string" where
  "PrintFrameLocation f =
     ((if Source_IsNull (sf_source f) then S_FALSE else S_OK),
      (if Source_IsNull (sf_source f) then []
       else attr ''file'' (EscapeMIValue (src_name (sf_source f))) @ '','' @
            attr ''fullname'' (EscapeMIValue (src_path (sf_source f))) @ '','' @
            attr ''line'' (show_int (sf_line f)) @ '','' @
            attr ''col'' (show_int (sf_column f)) @ '','' @
            attr ''end-line'' (show_int (sf_endLine f)) @ '','' @
            attr ''end-col'' (show_int (sf_endColumn f)) @ '','') @
      (if sf_methodToken f \<noteq> 0
       then ''clr-addr={'' @ attr ''module-id'' (''{'' @ sf_moduleId f @ ''}'') @ '','' @
            attr ''method-token'' (''0x'' @ zero_pad 8 (to_hex (sf_methodToken f))) @ '','' @
            attr ''il-offset'' (to_string (sf_ilOffset f)) @ '','' @
            attr ''native-offset'' (to_string (sf_nativeOffset f)) @ ''},''
       else []) @
      attr ''func'' (sf_name f) @
      (if sf_id f \<noteq> 0 then '','' @ attr ''addr'' (AddrToString (sf_addr f)) else []))"

fun print_frames :: "int \<Rightarrow> stack_frame list \<Rightarrow> string list" where
  "print_frames currentFrame [] = []"
| "print_frames currentFrame (f # fs) =
     (let loc = snd (PrintFrameLocation f) in
       ''frame={'' @ attr ''level'' (show_int currentFrame) @
       (if loc \<noteq> [] then '','' @ loc else []) @ ''}'') # print_frames (currentFrame + 1) fs"

definition PrintFrames :: "int \<Rightarrow> stack_frame list \<Rightarrow> string" where
  "PrintFrames lowFrame fs = ''stack=['' @ commas (print_frames lowFrame fs) @ '']''"

section \<open>Variables\<close>

definition print_variable :: "variable \<Rightarrow> string" where
  "print_variable v = ''{'' @ attr ''name'' (EscapeMIValue (v_name v)) @ '','' @
                      attr ''value'' (EscapeMIValue (v_value v)) @ ''}''"

definition PrintVariables :: "variable list \<Rightarrow> string" where
  "PrintVariables vs = ''variables=['' @ commas (map print_variable vs) @ '']''"

definition IsEditable :: "string \<Rightarrow> bool" where
  "IsEditable ty \<longleftrightarrow>
     ty = ''int'' \<or> ty = ''bool'' \<or> ty = ''char'' \<or> ty = ''byte'' \<or> ty = ''sbyte'' \<or> ty = ''short'' \<or>
     ty = ''ushort'' \<or> ty = ''uint'' \<or> ty = ''long'' \<or> ty = ''ulong'' \<or> ty = ''decimal'' \<or> ty = ''string''"

definition editable_text :: "string \<Rightarrow> string" where
  "editable_text ty = (if IsEditable ty then ''editable'' else ''noneditable'')"

definition PrintVar :: "string \<Rightarrow> variable \<Rightarrow> int \<Rightarrow> int \<Rightarrow> string" where
  "PrintVar varobjName v threadId print_values =
     attr ''name'' varobjName @ '','' @
     (if print_values \<noteq> 0 then attr ''value'' (EscapeMIValue (v_value v)) @ '','' else []) @
     attr ''attributes'' (editable_text (v_type v)) @ '','' @
     attr ''exp'' (if v_name v = [] then v_evaluateName v else v_name v) @ '','' @
     attr ''numchild'' (show_int (v_namedVariables v)) @ '','' @
     attr ''type'' (v_type v) @ '','' @
     attr ''thread-id'' (show_int threadId)"

section \<open>Threads and events\<close>

definition print_thread :: "thread \<Rightarrow> string" where
  "print_thread t = ''{'' @ attr ''id'' (show_int (t_id t)) @ '','' @
     attr ''name'' (EscapeMIValue (t_name t)) @ '','' @
     attr ''state'' (if t_running t then ''running'' else ''stopped'') @ ''}''"

definition PrintThreads :: "thread list \<Rightarrow> string" where
  "PrintThreads ts = ''threads=['' @ commas (map print_thread ts) @ '']''"

definition prompt :: string where
  "prompt = ''(gdb)'' @ [CHR 0x0A]"

text \<open>The lines written for a stop.\<close>

definition EmitStoppedEvent :: "stopped_event \<Rightarrow> string" where
  "EmitStoppedEvent e =
     (let loc = snd (PrintFrameLocation (se_frame e));
          tail = attr ''thread-id'' (show_int (se_threadId e)) @ '','' @ attr ''stopped-threads'' ''all'';
          frame = '',frame={'' @ loc @ ''}'' @ [CHR 0x0A]
      in (case se_reason e of
            StopBreakpoint \<Rightarrow>
              ''*stopped,'' @ attr ''reason'' ''breakpoint-hit'' @ '','' @ tail @ '','' @
              attr ''bkptno'' (to_string (bp_id (se_breakpoint e))) @ '','' @
              attr ''times'' (to_string (bp_hitCount (se_breakpoint e))) @ frame
          | StopStep \<Rightarrow> ''*stopped,'' @ attr ''reason'' ''end-stepping-range'' @ '','' @ tail @ frame
          | StopException \<Rightarrow>
              ''*stopped,'' @ attr ''reason'' ''exception-received'' @ '','' @
              attr ''exception-name'' (se_text e) @ '','' @
              attr ''exception'' (EscapeMIValue (se_description e)) @ '','' @
              attr ''exception-stage'' ''unhandled'' @ '','' @ attr ''exception-category'' ''clr'' @ '','' @
              tail @ frame
          | StopPause \<Rightarrow>
              ''*stopped,'' @ attr ''reason'' ''signal-received'' @ '','' @ attr ''signal-name'' ''SIGINT'' @ '','' @
              tail @ frame
          | StopEntry \<Rightarrow> ''*stopped,'' @ attr ''reason'' ''entry-point-hit'' @ '','' @ tail @ frame) @ prompt)"

definition EmitExitedEvent :: "int \<Rightarrow> string" where
  "EmitExitedEvent exitCode =
     ''*stopped,'' @ attr ''reason'' ''exited'' @ '','' @ attr ''exit-code'' (show_int exitCode) @
     CHR 0x0A # prompt"

definition EmitThreadEvent :: "thread_reason \<Rightarrow> int \<Rightarrow> string" where
  "EmitThreadEvent r threadId =
     ''='' @ (case r of ThreadStarted \<Rightarrow> ''thread-created'' | ThreadExited \<Rightarrow> ''thread-exited'') @ '','' @
     attr ''id'' (show_int threadId) @ [CHR 0x0A]"

definition EmitBreakpointEvent :: "breakpoint_reason \<Rightarrow> breakpoint \<Rightarrow> string" where
  "EmitBreakpointEvent r b =
     (if r = BreakpointChanged
      then ''=breakpoint-modified,'' @ snd (PrintBreakpoint b) @ [CHR 0x0A] else [])"

definition EmitModuleEvent :: "module_reason \<Rightarrow> module_info \<Rightarrow> string" where
  "EmitModuleEvent r m =
     (if r = ModuleNew
      then ''=library-loaded,'' @ attr ''id'' (''{'' @ mi_id m @ ''}'') @ '','' @
           attr ''target-name'' (EscapeMIValue (mi_path m)) @ '','' @
           attr ''host-name'' (EscapeMIValue (mi_path m)) @ '','' @
           attr ''symbols-loaded'' (if mi_symbolStatus m = SymbolsLoaded then ''1'' else ''0'') @ '','' @
           attr ''base-address'' (''0x'' @ to_hex (mi_baseAddress m)) @ '','' @
           attr ''size'' (to_string (mi_size m)) @ [CHR 0x0A]
      else [])"

definition EmitOutputEvent :: "string \<Rightarrow> string \<Rightarrow> string" where
  "EmitOutputEvent output source =
     ''=message,'' @ attr ''text'' (EscapeMIValue output) @ '','' @ attr ''send-to'' ''output-window'' @
     (if source = [] then [] else '','' @ attr ''source'' (EscapeMIValue source)) @ [CHR 0x0A]"

section \<open>The reader of printed records\<close>

text \<open>A client reads a fixed text, and a quoted value after its name.\<close>

definition read_text :: "string \<Rightarrow> string \<Rightarrow> string option" where
  "read_text t s = (if take (length t) s = t then Some (drop (length t) s) else None)"

definition read_attr :: "string \<Rightarrow> string \<Rightarrow> (string \<times> string) option" where
  "read_attr name s =
     (case read_text (name @ ''='' @ [CHR 0x22]) s of None \<Rightarrow> None | Some r \<Rightarrow> read_cstring r)"

definition read_variable :: "string \<Rightarrow> ((string \<times> string) \<times> string) option" where
  "read_variable s =
     (case read_text ''{'' s of None \<Rightarrow> None | Some s1 \<Rightarrow>
     (case read_attr ''name'' s1 of None \<Rightarrow> None | Some (n, s2) \<Rightarrow>
     (case read_text '','' s2 of None \<Rightarrow> None | Some s3 \<Rightarrow>
     (case read_attr ''value'' s3 of None \<Rightarrow> None | Some (v, s4) \<Rightarrow>
     (case read_text ''}'' s4 of None \<Rightarrow> None | Some s5 \<Rightarrow> Some ((n, v), s5))))))"

text \<open>The list after its opening bracket; the fuel is the length of the text.\<close>

fun read_list :: "nat \<Rightarrow> string \<Rightarrow> ((string \<times> string) list \<times> string) option" where
  "read_list 0 s = None"
| "read_list (Suc n) s =
     (case read_variable s of
        None \<Rightarrow> None
      | Some (x, r) \<Rightarrow>
          (case read_text '','' r of
             Some r' \<Rightarrow> map_option (\<lambda>(xs, t). (x # xs, t)) (read_list n r')
           | None \<Rightarrow> map_option (\<lambda>t. ([x], t)) (read_text '']'' r)))"

definition read_variables :: "string \<Rightarrow> (string \<times> string) list option" where
  "read_variables s =
     (case read_text ''variables=['' s of
        None \<Rightarrow> None
      | Some r \<Rightarrow>
          if r = '']'' then Some []
          else (case read_list (length r) r of
                  Some (xs, t) \<Rightarrow> (if t = [] then Some xs else None)
                | None \<Rightarrow> None))"

lemma read_text_append [simp]: "read_text t (t @ r) = Some r"
  by (simp add: read_text_def)

lemma read_attr_attr [simp]: "read_attr name (attr name (EscapeMIValue v) @ r) = Some (v, r)"
proof -
  have "attr name (EscapeMIValue v) @ r = (name @ ''='' @ [CHR 0x22]) @ EscapeMIValue v @ CHR 0x22 # r"
    by (simp add: attr_def)
  then show ?thesis by (simp only: read_attr_def read_text_append option.case read_cstring_Escape)
qed

lemma read_variable_print: "read_variable (print_variable v @ r) = Some ((v_name v, v_value v), r)"
proof -
  have t: "read_text [c] (c # s) = Some s" for c s by (simp add: read_text_def)
  show ?thesis by (simp add: read_variable_def print_variable_def t)
qed

lemma read_list_print:
  "vs \<noteq> [] \<Longrightarrow> length vs \<le> n \<Longrightarrow>
     read_list n (commas (map print_variable vs) @ '']'') = Some (map (\<lambda>v. (v_name v, v_value v)) vs, [])"
proof (induction vs arbitrary: n)
  case (Cons v vs)
  then obtain m where n: "n = Suc m" by (cases n) auto
  show ?case
  proof (cases vs)
    case Nil
    then show ?thesis by (simp add: n read_variable_print read_text_def)
  next
    case (Cons w ws)
    then have "commas (map print_variable (v # vs)) @ '']'' =
        print_variable v @ '','' @ commas (map print_variable vs) @ '']''" by simp
    moreover have "read_list m (commas (map print_variable vs) @ '']'') =
        Some (map (\<lambda>v. (v_name v, v_value v)) vs, [])"
      using Cons Cons.prems by (intro Cons.IH) (simp_all add: n)
    ultimately show ?thesis by (simp add: n read_variable_print read_text_def)
  qed
qed simp

lemma commas_length: "(\<And>x. x \<in> set xs \<Longrightarrow> x \<noteq> []) \<Longrightarrow> length xs \<le> length (commas xs)"
proof (induction xs rule: commas.induct)
  case (2 x)
  then show ?case by (cases x) auto
next
  case (3 x y ys)
  then have "length (y # ys) \<le> length (commas (y # ys))" by auto
  then show ?case by simp
qed simp

lemma print_variable_Cons: "\<exists>s. print_variable v = CHR ''{'' # s"
  by (simp add: print_variable_def)

section \<open>Properties\<close>

text \<open>The list of variables is read back by a client exactly as it was: names and values, in
  order, whatever characters they hold.\<close>

theorem PrintVariables_roundtrip:
  "read_variables (PrintVariables vs) = Some (map (\<lambda>v. (v_name v, v_value v)) vs)"
proof (cases vs)
  case Nil
  then show ?thesis by (simp add: PrintVariables_def read_variables_def read_text_def)
next
  case (Cons w ws)
  let ?r = "commas (map print_variable vs) @ '']''"
  have "x \<noteq> []" if "x \<in> set (map print_variable vs)" for x
    using that by (auto simp: print_variable_def)
  then have "length (map print_variable vs) \<le> length (commas (map print_variable vs))"
    by (rule commas_length)
  then have "length vs \<le> length ?r" by simp
  then have l: "read_list (length ?r) ?r = Some (map (\<lambda>v. (v_name v, v_value v)) vs, [])"
    using Cons by (intro read_list_print) simp_all
  obtain s where s: "print_variable w = CHR ''{'' # s" using print_variable_Cons by blast
  have ne: "?r \<noteq> '']''" by (cases ws) (simp_all add: Cons s)
  have t: "read_text ''variables=['' (PrintVariables vs) = Some ?r"
    unfolding PrintVariables_def by (rule read_text_append)
  obtain r where r: "r = ?r" by blast
  show ?thesis using l ne t unfolding r [symmetric] by (simp add: read_variables_def)
qed

end
