(* ===== verification/Mi_Protocol.thy ===== *)
theory Mi_Protocol imports Mi_Print Mi_Tokenizer Breakpoint_Manager begin

text \<open>
  The MI front end (\<open>MIProtocol\<close> in \<open>miprotocol.cpp\<close>): its state, the operations behind its commands,
  the dispatch of commands, and the command loop.  The debugger behind it is the abstract class
  \<open>Debugger\<close> of \<open>debugger.h\<close>: a record of functions on a state of its own.
\<close>

section \<open>The debugger interface\<close>

record 'd debugger =
  dbg_IsJustMyCode :: "'d \<Rightarrow> bool"
  dbg_SetJustMyCode :: "bool \<Rightarrow> 'd \<Rightarrow> 'd"
  dbg_Initialize :: "'d \<Rightarrow> 'd"
  dbg_Attach :: "int \<Rightarrow> 'd \<Rightarrow> hresult \<times> 'd"
  dbg_Launch :: "string \<Rightarrow> string list \<Rightarrow> bool \<Rightarrow> 'd \<Rightarrow> hresult \<times> 'd"
  dbg_ConfigurationDone :: "'d \<Rightarrow> hresult \<times> 'd"
  dbg_Disconnect :: "disconnect_action \<Rightarrow> 'd \<Rightarrow> 'd"
  dbg_GetLastStoppedThreadId :: "'d \<Rightarrow> int"
  dbg_Continue :: "int \<Rightarrow> 'd \<Rightarrow> hresult \<times> 'd"
  dbg_Pause :: "'d \<Rightarrow> hresult \<times> 'd"
  dbg_GetThreads :: "'d \<Rightarrow> hresult \<times> thread list"
  dbg_SetBreakpoints :: "string \<Rightarrow> source_breakpoint list \<Rightarrow> 'd \<Rightarrow> hresult \<times> breakpoint list \<times> 'd"
  dbg_SetFunctionBreakpoints :: "function_breakpoint list \<Rightarrow> 'd \<Rightarrow> hresult \<times> breakpoint list \<times> 'd"
  dbg_GetStackTrace :: "int \<Rightarrow> int \<Rightarrow> int \<Rightarrow> 'd \<Rightarrow> hresult \<times> stack_frame list"
  dbg_StepCommand :: "int \<Rightarrow> step_type \<Rightarrow> 'd \<Rightarrow> 'd"
  dbg_GetScopes :: "u64 \<Rightarrow> 'd \<Rightarrow> hresult \<times> nat list \<times> 'd"
  dbg_GetVariables :: "nat \<Rightarrow> int \<Rightarrow> int \<Rightarrow> 'd \<Rightarrow> hresult \<times> variable list \<times> 'd"
  dbg_GetNamedVariables :: "nat \<Rightarrow> 'd \<Rightarrow> int"
  dbg_Evaluate :: "u64 \<Rightarrow> string \<Rightarrow> 'd \<Rightarrow> hresult \<times> variable \<times> string \<times> 'd"
  dbg_SetVariableByExpression :: "u64 \<Rightarrow> string \<Rightarrow> string \<Rightarrow> 'd \<Rightarrow> hresult \<times> string \<times> 'd"
  dbg_InsertExceptionBreakpoint :: "exc_mode \<Rightarrow> string \<Rightarrow> 'd \<Rightarrow> hresult \<times> nat \<times> 'd"
  dbg_DeleteExceptionBreakpoint :: "nat \<Rightarrow> 'd \<Rightarrow> hresult \<times> 'd"

section \<open>State\<close>

record mi_state =
  m_exit :: bool
  m_fileExec :: string
  m_execArgs :: "string list"
  m_varCounter :: nat
  m_vars :: "(string, variable) umap"
  m_breakpoints :: "(string, (nat, source_breakpoint) umap) umap"
  m_funcBreakpoints :: "(nat, function_breakpoint) umap"

definition init_mi :: mi_state where
  "init_mi = \<lparr>m_exit = False, m_fileExec = [], m_execArgs = [], m_varCounter = 0, m_vars = [],
              m_breakpoints = [], m_funcBreakpoints = []\<rparr>"

text \<open>A command works on the front end and the debugger.\<close>

type_synonym 'd world = "mi_state \<times> 'd"

definition SetLaunchCommand :: "string \<Rightarrow> string list \<Rightarrow> mi_state \<Rightarrow> mi_state" where
  "SetLaunchCommand fileExec args m = m\<lparr>m_fileExec := fileExec, m_execArgs := args\<rparr>"

definition Cleanup :: "mi_state \<Rightarrow> mi_state" where
  "Cleanup m = m\<lparr>m_vars := [], m_varCounter := 0, m_breakpoints := []\<rparr>"

section \<open>Breakpoints\<close>

text \<open>The lines recorded for a file.\<close>

definition recorded :: "mi_state \<Rightarrow> string \<Rightarrow> (nat, source_breakpoint) umap" where
  "recorded m filename = (case um_find (m_breakpoints m) filename of None \<Rightarrow> [] | Some bs \<Rightarrow> bs)"

text \<open>\<open>SetBreakpoint\<close>: the recorded lines and the new one go to the debugger, and the first reported
  breakpoint at the new line is recorded, under its number.\<close>

definition SetBreakpoint ::
  "'d debugger \<Rightarrow> string \<Rightarrow> int \<Rightarrow> string \<Rightarrow> 'd world \<Rightarrow> hresult \<times> breakpoint \<times> 'd world" where
  "SetBreakpoint D filename linenum condition w =
     (case w of (m, d) \<Rightarrow>
        let m1 = m\<lparr>m_breakpoints := um_emplace filename [] (m_breakpoints m)\<rparr>;
            srcBreakpoints = map snd (recorded m filename) @ [\<lparr>sb_line = linenum, sb_condition = condition\<rparr>]
        in case dbg_SetBreakpoints D filename srcBreakpoints d of
             (status, bps, d') \<Rightarrow>
               if \<not> succeeded status then (status, empty_breakpoint, (m1, d'))
               else (case filter (\<lambda>b. bp_line b = linenum) bps of
                       [] \<Rightarrow> (E_FAIL, empty_breakpoint, (m1, d'))
                     | b # _ \<Rightarrow>
                         (S_OK, b, (m1\<lparr>m_breakpoints := um_assign filename
                            (um_emplace (bp_id b) \<lparr>sb_line = bp_line b, sb_condition = bp_condition b\<rparr>
                              (recorded m filename)) (m_breakpoints m1)\<rparr>, d'))))"

definition SetFunctionBreakpoint ::
  "'d debugger \<Rightarrow> func_break \<Rightarrow> 'd world \<Rightarrow> hresult \<times> breakpoint \<times> 'd world" where
  "SetFunctionBreakpoint D fb w =
     (case w of (m, d) \<Rightarrow>
        let req = \<lparr>fbr_module = fb_module fb, fbr_func = fb_funcname fb, fbr_params = fb_params fb,
                   fbr_condition = fb_condition fb\<rparr>
        in case dbg_SetFunctionBreakpoints D (map snd (m_funcBreakpoints m) @ [req]) d of
             (status, bps, d') \<Rightarrow>
               if \<not> succeeded status then (status, empty_breakpoint, (m, d'))
               else (case filter (\<lambda>b. bp_funcname b = fb_funcname fb) bps of
                       [] \<Rightarrow> (E_FAIL, empty_breakpoint, (m, d'))
                     | b # _ \<Rightarrow>
                         (S_OK, b, (m\<lparr>m_funcBreakpoints := um_emplace (bp_id b)
                            \<lparr>fbr_module = bp_module b, fbr_func = bp_funcname b, fbr_params = bp_params b,
                             fbr_condition = bp_condition b\<rparr> (m_funcBreakpoints m)\<rparr>, d'))))"

text \<open>\<open>SetBreakpointCondition\<close> looks for the number in the files, in order.\<close>

fun find_file :: "nat \<Rightarrow> (string, (nat, source_breakpoint) umap) umap \<Rightarrow>
     (string \<times> (nat, source_breakpoint) umap \<times> source_breakpoint) option" where
  "find_file i [] = None"
| "find_file i ((f, bs) # fs) =
     (case um_find bs i of None \<Rightarrow> find_file i fs | Some sb \<Rightarrow> Some (f, bs, sb))"

definition SetBreakpointCondition ::
  "'d debugger \<Rightarrow> nat \<Rightarrow> string \<Rightarrow> 'd world \<Rightarrow> hresult \<times> 'd world" where
  "SetBreakpointCondition D i condition w =
     (case w of (m, d) \<Rightarrow>
        (case find_file i (m_breakpoints m) of
           None \<Rightarrow> (E_FAIL, w)
         | Some (filename, bs, sb) \<Rightarrow>
             let bs' = um_assign i (sb\<lparr>sb_condition := condition\<rparr>) bs;
                 m' = m\<lparr>m_breakpoints := um_assign filename bs' (m_breakpoints m)\<rparr>
             in case dbg_SetBreakpoints D filename (map snd bs') d of
                  (status, _, d') \<Rightarrow> (status, (m', d'))))"

definition SetFunctionBreakpointCondition ::
  "'d debugger \<Rightarrow> nat \<Rightarrow> string \<Rightarrow> 'd world \<Rightarrow> hresult \<times> 'd world" where
  "SetFunctionBreakpointCondition D i condition w =
     (case w of (m, d) \<Rightarrow>
        (case um_find (m_funcBreakpoints m) i of
           None \<Rightarrow> (E_FAIL, w)
         | Some fb \<Rightarrow>
             let fbs = um_assign i (fb\<lparr>fbr_condition := condition\<rparr>) (m_funcBreakpoints m)
             in case dbg_SetFunctionBreakpoints D (map snd fbs) d of
                  (status, _, d') \<Rightarrow> (status, (m\<lparr>m_funcBreakpoints := fbs\<rparr>, d'))))"

text \<open>\<open>DeleteBreakpoints\<close> tells the debugger which lines remain, file by file; its own record of the
  lines is left as it is.\<close>

fun delete_in_files ::
  "'d debugger \<Rightarrow> nat list \<Rightarrow> (string, (nat, source_breakpoint) umap) umap \<Rightarrow> 'd \<Rightarrow> 'd" where
  "delete_in_files D ids [] d = d"
| "delete_in_files D ids ((f, bs) # fs) d =
     (let remaining = map snd (filter (\<lambda>(i, _). i \<notin> set ids) bs) in
       if length remaining = length bs then delete_in_files D ids fs d
       else case dbg_SetBreakpoints D f remaining d of (_, _, d') \<Rightarrow> delete_in_files D ids fs d')"

definition DeleteBreakpoints :: "'d debugger \<Rightarrow> nat list \<Rightarrow> 'd world \<Rightarrow> 'd world" where
  "DeleteBreakpoints D ids w = (case w of (m, d) \<Rightarrow> (m, delete_in_files D ids (m_breakpoints m) d))"

definition DeleteFunctionBreakpoints :: "'d debugger \<Rightarrow> nat list \<Rightarrow> 'd world \<Rightarrow> 'd world" where
  "DeleteFunctionBreakpoints D ids w =
     (case w of (m, d) \<Rightarrow>
        let remaining = map snd (filter (\<lambda>(i, _). i \<notin> set ids) (m_funcBreakpoints m)) in
          if length remaining = length (m_funcBreakpoints m) then w
          else case dbg_SetFunctionBreakpoints D remaining d of (_, _, d') \<Rightarrow> (m, d'))"

text \<open>Exception filters: the names are inserted one by one; the first failure ends the command.\<close>

fun insert_names :: "'d debugger \<Rightarrow> exc_mode \<Rightarrow> string list \<Rightarrow> 'd \<Rightarrow> hresult \<times> string list \<times> 'd" where
  "insert_names D mode [] d = (S_OK, [], d)"
| "insert_names D mode (n # ns) d =
     (case dbg_InsertExceptionBreakpoint D mode n d of
        (status, i, d') \<Rightarrow>
          if status \<noteq> S_OK then (status, [], d')
          else (case insert_names D mode ns d' of
                  (s, out, d'') \<Rightarrow> (s, (''{'' @ attr ''number'' (to_string i) @ ''}'') # out, d'')))"

definition InsertExceptionBreakpoints ::
  "'d debugger \<Rightarrow> exc_mode \<Rightarrow> string list \<Rightarrow> 'd world \<Rightarrow> hresult \<times> string \<times> 'd world" where
  "InsertExceptionBreakpoints D mode names w =
     (case w of (m, d) \<Rightarrow>
        if names = [] then (E_FAIL, [], w)
        else (case insert_names D mode names d of
                (status, bufs, d') \<Rightarrow>
                  if status \<noteq> S_OK then (status, [], (m, d'))
                  else if length names > 1 then (S_OK, ''^done,bkpt=['' @ commas bufs @ '']'', (m, d'))
                  else (S_OK, ''^done,bkpt='' @ commas bufs, (m, d'))))"

fun delete_exceptions :: "'d debugger \<Rightarrow> nat list \<Rightarrow> 'd \<Rightarrow> hresult \<times> string \<times> 'd" where
  "delete_exceptions D [] d = (S_OK, [], d)"
| "delete_exceptions D (i # is) d =
     (case dbg_DeleteExceptionBreakpoint D i d of
        (status, d') \<Rightarrow>
          if status \<noteq> S_OK
          then (status, ''Cannot delete exception breakpoint by id=:'' @ CHR 0x27 # to_string i @ [CHR 0x27], d')
          else delete_exceptions D is d')"

section \<open>Variable objects\<close>

definition PrintNewVar :: "string \<Rightarrow> variable \<Rightarrow> int \<Rightarrow> int \<Rightarrow> mi_state \<Rightarrow> string \<times> mi_state" where
  "PrintNewVar varobjName v threadId print_values m =
     (let generated = (varobjName = [] \<or> varobjName = ''-'');
          name = (if generated then ''var'' @ to_string (m_varCounter m) else varobjName);
          m1 = (if generated then m\<lparr>m_varCounter := (m_varCounter m + 1) mod 2 ^ 32\<rparr> else m)
      in (PrintVar name v threadId print_values, m1\<lparr>m_vars := um_assign name v (m_vars m)\<rparr>))"

definition CreateVar ::
  "'d debugger \<Rightarrow> int \<Rightarrow> int \<Rightarrow> string \<Rightarrow> string \<Rightarrow> 'd world \<Rightarrow> hresult \<times> string \<times> 'd world" where
  "CreateVar D threadId level varobjName expression w =
     (case w of (m, d) \<Rightarrow>
        (case dbg_Evaluate D (StackFrame_id (of_int threadId) (of_int level)) expression d of
           (status, v, out, d') \<Rightarrow>
             if \<not> succeeded status then (status, out, (m, d'))
             else (case PrintNewVar varobjName v threadId 1 m of (s, m') \<Rightarrow> (S_OK, s, (m', d')))))"

definition DeleteVar :: "string \<Rightarrow> mi_state \<Rightarrow> hresult \<times> mi_state" where
  "DeleteVar varobjName m =
     ((if um_find (m_vars m) varobjName = None then E_FAIL else S_OK),
      m\<lparr>m_vars := um_erase varobjName (m_vars m)\<rparr>)"

fun print_children :: "variable list \<Rightarrow> int \<Rightarrow> int \<Rightarrow> mi_state \<Rightarrow> string list \<times> mi_state" where
  "print_children [] threadId print_values m = ([], m)"
| "print_children (c # cs) threadId print_values m =
     (case PrintNewVar ''-'' c threadId print_values m of
        (s, m') \<Rightarrow>
          (case print_children cs threadId print_values m' of
             (out, m'') \<Rightarrow> ((''child={'' @ s @ ''}'') # out, m'')))"

definition PrintChildren :: "variable list \<Rightarrow> int \<Rightarrow> int \<Rightarrow> bool \<Rightarrow> mi_state \<Rightarrow> string \<times> mi_state" where
  "PrintChildren children threadId print_values has_more m =
     (let n = attr ''numchild'' (to_string (length children)) in
       if children = [] then (n, m)
       else case print_children children threadId print_values m of
              (out, m') \<Rightarrow>
                (n @ '',children=['' @ commas out @ '']'' @ '','' @
                 attr ''has_more'' (if has_more then ''1'' else ''0''), m'))"

definition ListChildren ::
  "'d debugger \<Rightarrow> int \<Rightarrow> int \<Rightarrow> int \<Rightarrow> string \<Rightarrow> int \<Rightarrow> 'd world \<Rightarrow> hresult \<times> string \<times> 'd world" where
  "ListChildren D threadId childStart childEnd varName print_values w =
     (case w of (m, d) \<Rightarrow>
        (case um_find (m_vars m) varName of
           None \<Rightarrow> (E_FAIL, [], w)
         | Some v \<Rightarrow>
             if v_variablesReference v > 0
             then (case dbg_GetVariables D (v_variablesReference v) childStart (childEnd - childStart) d of
                     (status, vars, d') \<Rightarrow>
                       if \<not> succeeded status then (status, [], (m, d'))
                       else (case PrintChildren vars threadId print_values
                                    (childEnd < dbg_GetNamedVariables D (v_variablesReference v) d') m of
                               (s, m') \<Rightarrow> (S_OK, s, (m', d'))))
             else (case PrintChildren [] threadId print_values False m of (s, m') \<Rightarrow> (S_OK, s, (m', d)))))"

section \<open>Commands\<close>

text \<open>A handler may let an exception escape, fails or succeeds with an output, and changes the world.\<close>

type_synonym 'd reply = "cxx_exception + (hresult \<times> string \<times> 'd world)"

definition thread_arg :: "'d debugger \<Rightarrow> string list \<Rightarrow> 'd world \<Rightarrow> int" where
  "thread_arg D args w = GetIntArg args ''--thread'' (dbg_GetLastStoppedThreadId D (snd w))"

definition cmd_thread_info :: "'d debugger \<Rightarrow> 'd world \<Rightarrow> 'd reply" where
  "cmd_thread_info D w =
     (case dbg_GetThreads D (snd w) of
        (status, ts) \<Rightarrow> Inr (if succeeded status then (S_OK, PrintThreads ts, w) else (status, [], w)))"

definition cmd_exec_continue :: "'d debugger \<Rightarrow> 'd world \<Rightarrow> 'd reply" where
  "cmd_exec_continue D w =
     (case dbg_Continue D (-1) (snd w) of
        (status, d) \<Rightarrow> Inr (if succeeded status then (S_OK, ''^running'', (fst w, d)) else (status, [], (fst w, d))))"

definition cmd_exec_interrupt :: "'d debugger \<Rightarrow> 'd world \<Rightarrow> 'd reply" where
  "cmd_exec_interrupt D w =
     (case dbg_Pause D (snd w) of
        (status, d) \<Rightarrow> Inr (if succeeded status then (S_OK, ''^done'', (fst w, d)) else (status, [], (fst w, d))))"

definition cmd_break_insert :: "'d debugger \<Rightarrow> string list \<Rightarrow> 'd world \<Rightarrow> 'd reply" where
  "cmd_break_insert D unmutable_args w =
     (let args = StripArgs unmutable_args;
          finish = (\<lambda>(status, b, w'). if succeeded status then (S_OK, snd (PrintBreakpoint b), w')
                                     else (E_FAIL, ''Unknown breakpoint location format'', w'))
      in xbind (GetBreakpointType args) (\<lambda>bt.
           case bt of
             Error \<Rightarrow> Inr (E_FAIL, ''Wrong breakpoint specified'', w)
           | LineBreak \<Rightarrow>
               xbind (ParseLineBreakpoint args) (\<lambda>(ok, lb).
                 if ok then Inr (finish (SetBreakpoint D (lb_filename lb) (to_s32 (lb_linenum lb)) (lb_condition lb) w))
                 else Inr (E_FAIL, ''Unknown breakpoint location format'', w))
           | FuncBreak \<Rightarrow>
               xbind (ParseFuncBreakpoint args) (\<lambda>(ok, fb).
                 if ok then Inr (finish (SetFunctionBreakpoint D fb w))
                 else Inr (E_FAIL, ''Unknown breakpoint location format'', w))))"

text \<open>The numbers of the arguments that parse, as a set (a list without duplicates).\<close>

definition parsed_ids :: "string list \<Rightarrow> nat list" where
  "parsed_ids args = remdups (map (\<lambda>a. to_u32 (fst (ParseInt a))) (filter (\<lambda>a. snd (ParseInt a)) args))"

definition cmd_break_delete :: "'d debugger \<Rightarrow> string list \<Rightarrow> 'd world \<Rightarrow> 'd reply" where
  "cmd_break_delete D args w =
     (let ids = parsed_ids args in
       Inr (S_OK, [], DeleteFunctionBreakpoints D ids (DeleteBreakpoints D ids w)))"

definition cmd_break_condition :: "'d debugger \<Rightarrow> string list \<Rightarrow> 'd world \<Rightarrow> 'd reply" where
  "cmd_break_condition D args w =
     (if length args < 2 then Inr (E_FAIL, ''Command requires at least 2 arguments'', w)
      else xbind (vec_at args 0) (\<lambda>a0. xbind (vec_at args 1) (\<lambda>a1.
        case ParseInt a0 of (i, ok) \<Rightarrow>
          if \<not> ok then Inr (E_FAIL, ''Unknown breakpoint id'', w)
          else (case SetBreakpointCondition D (to_u32 i) a1 w of
                  (status, w') \<Rightarrow>
                    if succeeded status then Inr (status, [], w')
                    else (case SetFunctionBreakpointCondition D (to_u32 i) a1 w' of
                            (status', w'') \<Rightarrow> Inr (status', [], w''))))))"

definition StepCommand :: "'d debugger \<Rightarrow> step_type \<Rightarrow> string list \<Rightarrow> 'd world \<Rightarrow> 'd reply" where
  "StepCommand D stepType args w =
     Inr (S_OK, ''^running'', (fst w, dbg_StepCommand D (thread_arg D args w) stepType (snd w)))"

definition cmd_disconnect :: "'d debugger \<Rightarrow> disconnect_action \<Rightarrow> 'd world \<Rightarrow> 'd reply" where
  "cmd_disconnect D action w = Inr (S_OK, [], (fst w, dbg_Disconnect D action (snd w)))"

definition cmd_target_attach :: "'d debugger \<Rightarrow> string list \<Rightarrow> 'd world \<Rightarrow> 'd reply" where
  "cmd_target_attach D args w =
     (if length args \<noteq> 1 then Inr (E_INVALIDARG, ''Command requires an argument'', w)
      else xbind (vec_at args 0) (\<lambda>a0.
        case ParseInt a0 of (pid, ok) \<Rightarrow>
          if \<not> ok then Inr (E_INVALIDARG, [], w)
          else (case dbg_Attach D pid (dbg_Initialize D (snd w)) of
                  (status, d1) \<Rightarrow>
                    if \<not> succeeded status then Inr (status, [], (fst w, d1))
                    else (case dbg_ConfigurationDone D d1 of
                            (status', d2) \<Rightarrow>
                              Inr ((if succeeded status' then S_OK else status'), [], (fst w, d2))))))"

definition cmd_stack_list_frames :: "'d debugger \<Rightarrow> string list \<Rightarrow> 'd world \<Rightarrow> 'd reply" where
  "cmd_stack_list_frames D args_orig w =
     (let threadId = thread_arg D args_orig w;
          (_, lowFrame, highFrame) = GetIndices (StripArgs args_orig) 0 (2 ^ 31 - 1)
      in case dbg_GetStackTrace D threadId lowFrame (c_int (highFrame - lowFrame)) (snd w) of
           (status, frames) \<Rightarrow>
             Inr (if succeeded status then (S_OK, PrintFrames lowFrame frames, w) else (status, [], w)))"

definition cmd_stack_list_variables :: "'d debugger \<Rightarrow> string list \<Rightarrow> 'd world \<Rightarrow> 'd reply" where
  "cmd_stack_list_variables D args w =
     (let frameId = StackFrame_id (of_int (thread_arg D args w)) (of_int (GetIntArg args ''--frame'' 0))
      in case dbg_GetScopes D frameId (snd w) of
           (status, scopes, d) \<Rightarrow>
             if \<not> succeeded status then Inr (status, [], (fst w, d))
             else if scopes \<noteq> [] \<and> scopes ! 0 \<noteq> 0
             then (case dbg_GetVariables D (scopes ! 0) 0 0 d of
                     (status', vars, d') \<Rightarrow>
                       Inr (if succeeded status' then (S_OK, PrintVariables vars, (fst w, d'))
                            else (status', [], (fst w, d'))))
             else Inr (S_OK, PrintVariables [], (fst w, d)))"

definition cmd_var_create :: "'d debugger \<Rightarrow> string list \<Rightarrow> 'd world \<Rightarrow> 'd reply" where
  "cmd_var_create D args w =
     (if length args < 2 then Inr (E_FAIL, ''Command requires at least 2 arguments'', w)
      else xbind (vec_at args 0) (\<lambda>varName. xbind (vec_at args 1) (\<lambda>e1.
        xbind (if e1 = ''*'' \<and> length args \<ge> 3 then vec_at args 2 else Inr e1) (\<lambda>varExpr.
          Inr (CreateVar D (thread_arg D args w) (GetIntArg args ''--frame'' 0) varName varExpr w)))))"

definition children_values :: "string list \<Rightarrow> int \<times> string list" where
  "children_values args =
     (case args of
        [] \<Rightarrow> (0, [])
      | a # as \<Rightarrow>
          if a = ''1'' \<or> a = ''--all-values'' then (1, as)
          else if a = ''2'' \<or> a = ''--simple-values'' then (2, as)
          else (0, args))"

definition cmd_var_list_children :: "'d debugger \<Rightarrow> string list \<Rightarrow> 'd world \<Rightarrow> 'd reply" where
  "cmd_var_list_children D args_orig w =
     (case children_values args_orig of
        (print_values, args) \<Rightarrow>
          if args = [] then Inr (E_FAIL, ''Command requires an argument'', w)
          else let threadId = thread_arg D args w;
                   args' = StripArgs args;
                   (_, childStart, childEnd) = GetIndices args' 0 (2 ^ 31 - 1)
               in xbind (vec_at args' 0) (\<lambda>varName.
                    Inr (ListChildren D threadId childStart childEnd varName print_values w)))"

definition cmd_var_delete :: "string list \<Rightarrow> 'd world \<Rightarrow> 'd reply" where
  "cmd_var_delete args w =
     (if length args < 1 then Inr (E_FAIL, ''Command requires at least 1 argument'', w)
      else xbind (vec_at args 0) (\<lambda>a0.
        case DeleteVar a0 (fst w) of (status, m) \<Rightarrow> Inr (status, [], (m, snd w))))"

definition cmd_gdb_exit :: "'d debugger \<Rightarrow> 'd world \<Rightarrow> 'd reply" where
  "cmd_gdb_exit D w =
     Inr (S_OK, [], ((fst w)\<lparr>m_exit := True\<rparr>, dbg_Disconnect D DisconnectTerminate (snd w)))"

definition cmd_file_exec :: "string list \<Rightarrow> 'd world \<Rightarrow> 'd reply" where
  "cmd_file_exec args w =
     (if args = [] then Inr (E_INVALIDARG, [], w)
      else xbind (vec_at args 0) (\<lambda>a0. Inr (S_OK, [], ((fst w)\<lparr>m_fileExec := a0\<rparr>, snd w))))"

definition cmd_exec_arguments :: "string list \<Rightarrow> 'd world \<Rightarrow> 'd reply" where
  "cmd_exec_arguments args w = Inr (S_OK, [], ((fst w)\<lparr>m_execArgs := args\<rparr>, snd w))"

definition cmd_exec_run :: "'d debugger \<Rightarrow> 'd world \<Rightarrow> 'd reply" where
  "cmd_exec_run D w =
     (case dbg_Launch D (m_fileExec (fst w)) (m_execArgs (fst w)) True (dbg_Initialize D (snd w)) of
        (status, d1) \<Rightarrow>
          if \<not> succeeded status then Inr (status, [], (fst w, d1))
          else (case dbg_ConfigurationDone D d1 of
                  (status', d2) \<Rightarrow>
                    Inr (status', (if succeeded status' then ''^running'' else []), (fst w, d2))))"

text \<open>\<open>SetWorkDir\<close> is the operating system's.\<close>

definition cmd_environment_cd :: "(string \<Rightarrow> bool) \<Rightarrow> string list \<Rightarrow> 'd world \<Rightarrow> 'd reply" where
  "cmd_environment_cd SetWorkDir args w =
     (if args = [] then Inr (E_INVALIDARG, [], w)
      else xbind (vec_at args 0) (\<lambda>a0. Inr ((if SetWorkDir a0 then S_OK else E_FAIL), [], w)))"

definition cmd_handshake :: "string list \<Rightarrow> 'd world \<Rightarrow> 'd reply" where
  "cmd_handshake args w =
     Inr (S_OK, (if args \<noteq> [] \<and> args ! 0 = ''init''
                 then attr ''request'' (replicate 43 (CHR ''A'') @ ''='') else []), w)"

definition cmd_gdb_set :: "'d debugger \<Rightarrow> string list \<Rightarrow> 'd world \<Rightarrow> 'd reply" where
  "cmd_gdb_set D args w =
     (if length args = 2 \<and> args ! 0 = ''just-my-code''
      then Inr (S_OK, [], (fst w, dbg_SetJustMyCode D (args ! 1 = ''1'') (snd w)))
      else Inr (S_OK, [], w))"

definition cmd_gdb_show :: "'d debugger \<Rightarrow> string list \<Rightarrow> 'd world \<Rightarrow> 'd reply" where
  "cmd_gdb_show D args w =
     (if length args \<noteq> 1 \<or> args ! 0 \<noteq> ''just-my-code'' then Inr (E_FAIL, [], w)
      else Inr (S_OK, attr ''value'' (if dbg_IsJustMyCode D (snd w) then ''1'' else ''0''), w))"

text \<open>The stages of an exception filter.  The name \<open>unhandled\<close> is accepted and does nothing.\<close>

definition cmd_break_exception_insert :: "'d debugger \<Rightarrow> string list \<Rightarrow> 'd world \<Rightarrow> 'd reply" where
  "cmd_break_exception_insert D args w =
     (if length args < 2 then
        Inr (E_INVALIDARG, ''Command usage: -break-exception-insert [--mda] '' @
               ''<unhandled|user-unhandled|throw|throw+user-unhandled> *|<Exception names>'', w)
      else let mda = (args ! 0 = ''--mda'');
               i = (if mda then 1 else 0);
               filter0 = (if mda then default_mode\<lparr>em_category := MDA\<rparr> else default_mode)
           in xbind (vec_at args i) (\<lambda>stage.
                if stage = ''unhandled'' then Inr (S_OK, [], w)
                else
                  let f1 = (if stage = ''user-unhandled'' then setUserUnhandled filter0 else filter0);
                      f2 = (if stage = ''throw'' then setThrow f1 else f1);
                      f3 = (if stage = ''throw+user-unhandled'' then setUserUnhandled (setThrow f2) else f2)
                  in if \<not> AnyUser f3 then
                       Inr (E_FAIL, ''Command requires only:'' @
                         concat (map (\<lambda>t. CHR 0x27 # t) [''unhandled'', [CHR '',''], ''user-unhandled'', [CHR '',''],
                           ''throw'', [CHR '',''], ''throw+user-unhandled'', []]) @
                         '' arguments as an exception stages'', w)
                     else Inr (InsertExceptionBreakpoints D f3 (drop (i + 1) args) w)))"

fun parse_all :: "string list \<Rightarrow> string + nat list" where
  "parse_all [] = Inr []"
| "parse_all (a # as) =
     (case ParseInt a of (v, ok) \<Rightarrow>
        if ok then (case parse_all as of Inl e \<Rightarrow> Inl e | Inr vs \<Rightarrow> Inr (to_u32 v # vs))
        else Inl (''Invalid argument:'' @ CHR 0x27 # a @ [CHR 0x27]))"

definition cmd_break_exception_delete :: "'d debugger \<Rightarrow> string list \<Rightarrow> 'd world \<Rightarrow> 'd reply" where
  "cmd_break_exception_delete D args w =
     (if args = [] then Inr (E_INVALIDARG, ''Command usage: -break-exception-delete <Exception indexes>'', w)
      else (case parse_all args of
              Inl e \<Rightarrow> Inr (E_INVALIDARG, e, w)
            | Inr vs \<Rightarrow>
                (case delete_exceptions D (remdups vs) (snd w) of
                   (status, out, d) \<Rightarrow> Inr (status, out, (fst w, d)))))"

definition cmd_var_show_attributes :: "string list \<Rightarrow> 'd world \<Rightarrow> 'd reply" where
  "cmd_var_show_attributes args w =
     xbind (vec_at args 0) (\<lambda>varName.
       case um_find (m_vars (fst w)) varName of
         None \<Rightarrow> Inr (E_FAIL, [], w)
       | Some v \<Rightarrow> Inr (S_OK, attr ''status'' (editable_text (v_type v)), w))"

definition unquote :: "string \<Rightarrow> string" where
  "unquote s =
     (if length s \<ge> 2 \<and> hd s = CHR 0x22 \<and> last s = CHR 0x22 then take (length s - 2) (drop 1 s) else s)"

definition cmd_var_assign :: "'d debugger \<Rightarrow> string list \<Rightarrow> 'd world \<Rightarrow> 'd reply" where
  "cmd_var_assign D args w =
     (if length args < 2 then Inr (E_FAIL, ''Command requires at least 2 arguments'', w)
      else xbind (vec_at args 0) (\<lambda>varName. xbind (vec_at args 1) (\<lambda>e1.
        let frameId = StackFrame_id (of_int (thread_arg D args w)) (of_int (GetIntArg args ''--frame'' 0))
        in case um_find (m_vars (fst w)) varName of
             None \<Rightarrow> Inr (E_FAIL, [], w)
           | Some v \<Rightarrow>
               (case dbg_SetVariableByExpression D frameId (v_evaluateName v) (unquote e1) (snd w) of
                  (status, out, d) \<Rightarrow>
                    Inr (if succeeded status then (S_OK, attr ''value'' (EscapeMIValue out), (fst w, d))
                         else (status, out, (fst w, d)))))))"

section \<open>Dispatch\<close>

definition HandleCommand ::
  "'d debugger \<Rightarrow> (string \<Rightarrow> bool) \<Rightarrow> string \<Rightarrow> string list \<Rightarrow> 'd world \<Rightarrow> 'd reply" where
  "HandleCommand D SetWorkDir command args w =
     (if command = ''thread-info'' then cmd_thread_info D w
      else if command = ''exec-continue'' then cmd_exec_continue D w
      else if command = ''exec-interrupt'' then cmd_exec_interrupt D w
      else if command = ''break-insert'' then cmd_break_insert D args w
      else if command = ''break-delete'' then cmd_break_delete D args w
      else if command = ''break-condition'' then cmd_break_condition D args w
      else if command = ''exec-step'' then StepCommand D STEP_IN args w
      else if command = ''exec-next'' then StepCommand D STEP_OVER args w
      else if command = ''exec-finish'' then StepCommand D STEP_OUT args w
      else if command = ''exec-abort'' then cmd_disconnect D DisconnectTerminate w
      else if command = ''target-attach'' then cmd_target_attach D args w
      else if command = ''target-detach'' then cmd_disconnect D DisconnectDetach w
      else if command = ''stack-list-frames'' then cmd_stack_list_frames D args w
      else if command = ''stack-list-variables'' then cmd_stack_list_variables D args w
      else if command = ''var-create'' then cmd_var_create D args w
      else if command = ''var-list-children'' then cmd_var_list_children D args w
      else if command = ''var-delete'' then cmd_var_delete args w
      else if command = ''gdb-exit'' then cmd_gdb_exit D w
      else if command = ''file-exec-and-symbols'' then cmd_file_exec args w
      else if command = ''exec-arguments'' then cmd_exec_arguments args w
      else if command = ''exec-run'' then cmd_exec_run D w
      else if command = ''environment-cd'' then cmd_environment_cd SetWorkDir args w
      else if command = ''handshake'' then cmd_handshake args w
      else if command = ''gdb-set'' then cmd_gdb_set D args w
      else if command = ''gdb-show'' then cmd_gdb_show D args w
      else if command = ''interpreter-exec'' then Inr (S_OK, [], w)
      else if command = ''break-exception-insert'' then cmd_break_exception_insert D args w
      else if command = ''break-exception-delete'' then cmd_break_exception_delete D args w
      else if command = ''var-show-attributes'' then cmd_var_show_attributes args w
      else if command = ''var-assign'' then cmd_var_assign D args w
      else Inr (E_FAIL, ''Unknown command: '' @ command, w))"

section \<open>The command loop\<close>

text \<open>The code of a failed \<open>HRESULT\<close>.\<close>

definition hr_code :: "hresult \<Rightarrow> nat" where
  "hr_code hr = (case hr of S_OK \<Rightarrow> 0 | S_FALSE \<Rightarrow> 1 | E_FAIL \<Rightarrow> 0x80004005 | E_INVALIDARG \<Rightarrow> 0x80070057
                          | HR_Other n \<Rightarrow> n)"

definition newline :: string where
  "newline = [CHR 0x0A]"

definition result_line :: "string \<Rightarrow> hresult \<Rightarrow> string \<Rightarrow> string" where
  "result_line token hr output =
     (if succeeded hr then
        token @ (if output = [] then ''^done'' else if hd output = CHR ''^'' then [] else ''^done,'') @
        output @ newline
      else token @ ''^error,'' @
        attr ''msg'' (if output = [] then ''Error: 0x'' @ zero_pad 8 (to_hex (hr_code hr)) else EscapeMIValue output) @
        newline)"

text \<open>One turn: what is written, and the world after it; \<open>None\<close> for the text when the session is over.
  An exception that escapes the handler ends the process.\<close>

datatype 'd turn = Crash cxx_exception | Answer string "'d world" | Leave "'d world"

definition command_turn :: "'d debugger \<Rightarrow> (string \<Rightarrow> bool) \<Rightarrow> string \<Rightarrow> 'd world \<Rightarrow> string \<times> 'd turn" where
  "command_turn D SetWorkDir input w =
     (case ParseLine input of
        None \<Rightarrow> ([], Answer (''^error,'' @ attr ''msg'' ''Failed to parse input'' @ newline) w)
      | Some (token, command, args) \<Rightarrow>
          (token,
           case HandleCommand D SetWorkDir command args w of
             Inl e \<Rightarrow> Crash e
           | Inr (hr, output, w') \<Rightarrow>
               if m_exit (fst w') then Leave w'
               else Answer (result_line token hr output @ prompt) w'))"

text \<open>The lines of the input, then its end.  The result is what is written, the exception that ended
  the process if one did, and the world.\<close>

fun command_lines ::
  "'d debugger \<Rightarrow> (string \<Rightarrow> bool) \<Rightarrow> string list \<Rightarrow> 'd world \<Rightarrow>
     string \<times> cxx_exception option \<times> 'd world" where
  "command_lines D cd [] (m, d) =
     (''^exit'' @ newline @ prompt, None,
      (m, if m_exit m then d else dbg_Disconnect D DisconnectTerminate d))"
| "command_lines D cd (input # inputs) w =
     (if m_exit (fst w) then (''^exit'' @ newline @ prompt, None, w)
      else case command_turn D cd input w of
        (_, Crash e) \<Rightarrow> ([], Some e, w)
      | (token, Leave w') \<Rightarrow> (token @ ''^exit'' @ newline @ prompt, None, w')
      | (_, Answer out w') \<Rightarrow>
          (case command_lines D cd inputs w' of (out', e, w'') \<Rightarrow> (out @ out', e, w'')))"

definition CommandLoop ::
  "'d debugger \<Rightarrow> (string \<Rightarrow> bool) \<Rightarrow> string list \<Rightarrow> 'd world \<Rightarrow>
     string \<times> cxx_exception option \<times> 'd world" where
  "CommandLoop D cd inputs w =
     (case command_lines D cd inputs w of (out, e, w') \<Rightarrow> (prompt @ out, e, w'))"

end
