(* ===== verification/Mi_Sync.thy ===== *)
theory Mi_Sync imports Mi_Protocol begin

text \<open>
  The front end and the breakpoint manager keep two records of the same breakpoints.  A locale states
  what the manager promises for one file; inside it, the operations of the front end are related to
  the manager's state; the interpretation on \<open>Breakpoints::SetBreakpoints\<close> discharges the promises.
\<close>

section \<open>What the manager promises\<close>

text \<open>\<open>able d n\<close>: the manager's state is sound and \<open>n\<close> more numbers are left.  \<open>id_at\<close> and
  \<open>cond_at\<close> are the number and the condition it keeps for a line.\<close>

locale line_server =
  fixes set_lines :: "string \<Rightarrow> source_breakpoint list \<Rightarrow> 'd \<Rightarrow> hresult \<times> breakpoint list \<times> 'd"
    and id_at :: "'d \<Rightarrow> string \<Rightarrow> int \<Rightarrow> nat option"
    and cond_at :: "'d \<Rightarrow> string \<Rightarrow> int \<Rightarrow> string option"
    and able :: "'d \<Rightarrow> nat \<Rightarrow> bool"
  assumes ok: "set_lines f rs d = (status, bps, d') \<Longrightarrow> status = S_OK"
    and lines: "set_lines f rs d = (status, bps, d') \<Longrightarrow> able d (length rs) \<Longrightarrow>
      id_at d' f l \<noteq> None \<longleftrightarrow> l \<in> sb_line ` set rs"
    and other: "set_lines f rs d = (status, bps, d') \<Longrightarrow> able d (length rs) \<Longrightarrow>
      g \<noteq> f \<Longrightarrow> id_at d' g l = id_at d g l"
    and stable: "set_lines f rs d = (status, bps, d') \<Longrightarrow> able d (length rs) \<Longrightarrow>
      id_at d f l = Some i \<Longrightarrow> l \<in> sb_line ` set rs \<Longrightarrow> id_at d' f l = Some i"
    and report: "set_lines f rs d = (status, bps, d') \<Longrightarrow> able d (length rs) \<Longrightarrow>
      map bp_line bps = map sb_line rs \<and> map bp_condition bps = map sb_condition rs \<and>
      map (\<lambda>b. Some (bp_id b)) bps = map (\<lambda>r. id_at d' f (sb_line r)) rs"
    and condition: "set_lines f rs d = (status, bps, d') \<Longrightarrow> able d (length rs) \<Longrightarrow>
      l \<in> sb_line ` set rs \<Longrightarrow>
      cond_at d' f l = Some (sb_condition (last (filter (\<lambda>r. sb_line r = l) rs)))"
    and unique: "able d n \<Longrightarrow> id_at d f l = Some i \<Longrightarrow> id_at d g l' = Some i \<Longrightarrow> f = g \<and> l = l'"
    and able_after: "set_lines f rs d = (status, bps, d') \<Longrightarrow> able d (length rs + n) \<Longrightarrow> able d' n"
    and able_less: "able d (n + k) \<Longrightarrow> able d n"
begin

text \<open>The two records agree: the front end has a line under a number exactly when the manager has.\<close>

definition synced :: "mi_state \<Rightarrow> 'd \<Rightarrow> bool" where
  "synced m d \<longleftrightarrow> (\<forall>f. um_wf (recorded m f)) \<and>
     (\<forall>f l i. id_at d f l = Some i \<longleftrightarrow> (\<exists>sb. um_find (recorded m f) i = Some sb \<and> sb_line sb = l))"

lemma syncedD:
  assumes "synced m d"
  shows "um_wf (recorded m f)"
    and "id_at d f l = Some i \<longleftrightarrow> (\<exists>sb. um_find (recorded m f) i = Some sb \<and> sb_line sb = l)"
  using assms by (simp_all add: synced_def)

lemma report_nth:
  assumes "set_lines f rs d = (status, bps, d')" and "able d (length rs)" and "i < length bps"
  shows "i < length rs" "bp_line (bps ! i) = sb_line (rs ! i)"
    "bp_condition (bps ! i) = sb_condition (rs ! i)" "id_at d' f (sb_line (rs ! i)) = Some (bp_id (bps ! i))"
proof -
  note r = report [OF assms(1,2)]
  have len: "length bps = length rs" using r by (metis length_map)
  show "i < length rs" using assms(3) len by simp
  show "bp_line (bps ! i) = sb_line (rs ! i)"
    using arg_cong [OF conjunct1 [OF r], of "\<lambda>xs. xs ! i"] assms(3) len by simp
  show "bp_condition (bps ! i) = sb_condition (rs ! i)"
    using arg_cong [OF conjunct1 [OF conjunct2 [OF r]], of "\<lambda>xs. xs ! i"] assms(3) len by simp
  show "id_at d' f (sb_line (rs ! i)) = Some (bp_id (bps ! i))"
    using arg_cong [OF conjunct2 [OF conjunct2 [OF r]], of "\<lambda>xs. xs ! i"] assms(3) len by simp
qed

lemma recorded_lines:
  assumes "synced m d"
  shows "l \<in> sb_line ` set (map snd (recorded m f)) \<longleftrightarrow> id_at d f l \<noteq> None"
proof
  assume "l \<in> sb_line ` set (map snd (recorded m f))"
  then obtain i sb where "(i, sb) \<in> set (recorded m f)" "sb_line sb = l" by auto
  then have "um_find (recorded m f) i = Some sb \<and> sb_line sb = l"
    by (simp add: um_find_in_set syncedD(1) [OF assms])
  then have "id_at d f l = Some i" using syncedD(2) [OF assms] by blast
  then show "id_at d f l \<noteq> None" by simp
next
  assume "id_at d f l \<noteq> None"
  then obtain i where "id_at d f l = Some i" by auto
  then obtain sb where "um_find (recorded m f) i = Some sb" "sb_line sb = l"
    using syncedD(2) [OF assms] by blast
  then have "(i, sb) \<in> set (recorded m f)" by (simp add: um_find_in_set syncedD(1) [OF assms])
  then show "l \<in> sb_line ` set (map snd (recorded m f))" using \<open>sb_line sb = l\<close> by force
qed

text \<open>One request of \<open>SetBreakpoint\<close>: the reported breakpoint is the one the manager keeps.\<close>

lemma set_one:
  assumes e: "SetBreakpoint D f l c (m, d) = (status, b, (m', d'))"
    and D: "dbg_SetBreakpoints D = set_lines"
    and able: "able d (length (recorded m f) + 1)"
  obtains bps where
    "set_lines f (map snd (recorded m f) @ [\<lparr>sb_line = l, sb_condition = c\<rparr>]) d = (S_OK, bps, d')"
    "status = S_OK" "bp_line b = l" "id_at d' f l = Some (bp_id b)"
    "filter (\<lambda>b. bp_line b = l) bps \<noteq> []" "b = hd (filter (\<lambda>b. bp_line b = l) bps)"
    "m' = m\<lparr>m_breakpoints := um_assign f
       (um_emplace (bp_id b) \<lparr>sb_line = bp_line b, sb_condition = bp_condition b\<rparr> (recorded m f))
       (um_emplace f [] (m_breakpoints m))\<rparr>"
proof -
  let ?rs = "map snd (recorded m f) @ [\<lparr>sb_line = l, sb_condition = c\<rparr>]"
  obtain s bps d1 where x: "set_lines f ?rs d = (s, bps, d1)" by (cases "set_lines f ?rs d")
  have s: "s = S_OK" by (rule ok [OF x])
  have a: "able d (length ?rs)" using able by simp
  note r = report [OF x a]
  have "l \<in> set (map bp_line bps)" using r by simp
  then obtain b1 bs where f: "filter (\<lambda>b. bp_line b = l) bps = b1 # bs"
    by (cases "filter (\<lambda>b. bp_line b = l) bps") (auto simp: filter_empty_conv)
  then have b1: "b1 \<in> set bps" "bp_line b1 = l" by (auto dest: filter_eq_ConsD)
  then obtain i where i: "i < length bps" "bps ! i = b1" by (metis in_set_conv_nth)
  have id: "id_at d1 f l = Some (bp_id b1)"
    using report_nth(2,4) [OF x a i(1)] i(2) b1(2) by simp
  have "SetBreakpoint D f l c (m, d) =
      (S_OK, b1, (m\<lparr>m_breakpoints := um_assign f
       (um_emplace (bp_id b1) \<lparr>sb_line = bp_line b1, sb_condition = bp_condition b1\<rparr> (recorded m f))
       (um_emplace f [] (m_breakpoints m))\<rparr>, d1))"
    by (simp add: SetBreakpoint_def D x s f Let_def)
  with e have eq: "status = S_OK" "b = b1" "d' = d1"
    "m' = m\<lparr>m_breakpoints := um_assign f
       (um_emplace (bp_id b1) \<lparr>sb_line = bp_line b1, sb_condition = bp_condition b1\<rparr> (recorded m f))
       (um_emplace f [] (m_breakpoints m))\<rparr>" by auto
  show thesis by (rule that [of bps]) (use x s b1 id f eq in auto)
qed

lemma recorded_assign [simp]:
  "recorded (m\<lparr>m_breakpoints := um_assign f bs fs\<rparr>) g =
     (if g = f then bs else recorded (m\<lparr>m_breakpoints := fs\<rparr>) g)"
  by (simp add: recorded_def um_find_assign)

lemma recorded_emplace [simp]:
  "recorded (m\<lparr>m_breakpoints := um_emplace f [] (m_breakpoints m)\<rparr>) g = recorded m g"
  by (auto simp: recorded_def um_find_emplace split: option.splits)

lemma SetBreakpoint_synced:
  assumes sync: "synced m d" and D: "dbg_SetBreakpoints D = set_lines"
    and able: "able d (length (recorded m f) + 1)"
    and e: "SetBreakpoint D f l c (m, d) = (status, b, (m', d'))"
  shows "synced m' d'"
proof -
  let ?rs = "map snd (recorded m f) @ [\<lparr>sb_line = l, sb_condition = c\<rparr>]"
  obtain bps where x: "set_lines f ?rs d = (S_OK, bps, d')"
    and b: "bp_line b = l" "id_at d' f l = Some (bp_id b)"
    and m': "m' = m\<lparr>m_breakpoints := um_assign f
       (um_emplace (bp_id b) \<lparr>sb_line = bp_line b, sb_condition = bp_condition b\<rparr> (recorded m f))
       (um_emplace f [] (m_breakpoints m))\<rparr>"
    by (rule set_one [OF e D able])
  have a: "able d (length ?rs)" using able by simp
  have a': "able d' 0" by (rule able_after [OF x]) (use able in simp)
  have L: "sb_line ` set ?rs = insert l (sb_line ` set (map snd (recorded m f)))" by simp
  let ?new = "um_emplace (bp_id b) \<lparr>sb_line = bp_line b, sb_condition = bp_condition b\<rparr> (recorded m f)"
  have old: "id_at d' f (sb_line sb) = Some i" if "um_find (recorded m f) i = Some sb" for i sb
  proof -
    have i: "id_at d f (sb_line sb) = Some i" using that syncedD(2) [OF sync] by blast
    then have "sb_line sb \<in> sb_line ` set ?rs"
      unfolding L using recorded_lines [OF sync, of "sb_line sb" f] by simp
    then show ?thesis by (rule stable [OF x a i])
  qed
  have here: "id_at d' f k = Some i \<longleftrightarrow> (\<exists>sb. um_find ?new i = Some sb \<and> sb_line sb = k)" for k i
  proof
    assume k: "id_at d' f k = Some i"
    show "\<exists>sb. um_find ?new i = Some sb \<and> sb_line sb = k"
    proof (cases "um_find (recorded m f) i")
      case (Some sb)
      then have "sb_line sb = k" using old [OF Some] k unique [OF a'] by blast
      then show ?thesis using Some by (auto simp: um_find_emplace)
    next
      case None
      have "k = l"
      proof (rule ccontr)
        assume "k \<noteq> l"
        then have "k \<in> sb_line ` set (map snd (recorded m f))"
          using lines [OF x a, of k] k unfolding L by simp
        then obtain j where j: "id_at d f k = Some j" using recorded_lines [OF sync] by fastforce
        then obtain sb where "um_find (recorded m f) j = Some sb" "sb_line sb = k"
          using syncedD(2) [OF sync] by blast
        then show False using old [of j sb] k None by simp
      qed
      then have "i = bp_id b" using k b by simp
      then show ?thesis using None b(1) \<open>k = l\<close> by (simp add: um_find_emplace)
    qed
  next
    assume "\<exists>sb. um_find ?new i = Some sb \<and> sb_line sb = k"
    then obtain sb where sb: "um_find ?new i = Some sb" "sb_line sb = k" by blast
    then show "id_at d' f k = Some i"
      using old [of i sb] b by (cases "um_find (recorded m f) i") (auto simp: um_find_emplace split: if_splits)
  qed
  have "um_wf (recorded m' g)" for g using syncedD(1) [OF sync] by (auto simp: m')
  moreover have "id_at d' g k = Some i \<longleftrightarrow> (\<exists>sb. um_find (recorded m' g) i = Some sb \<and> sb_line sb = k)" for g k i
  proof (cases "g = f")
    case True
    then show ?thesis using here by (simp add: m')
  next
    case False
    then show ?thesis using other [OF x a False] syncedD(2) [OF sync, of g k i] by (simp add: m')
  qed
  ultimately show ?thesis by (simp add: synced_def)
qed

text \<open>Changing a condition sends the recorded lines again.\<close>

lemma find_file_SomeD:
  "find_file i fs = Some (f, bs, sb) \<Longrightarrow> (f, bs) \<in> set fs \<and> um_find bs i = Some sb"
  by (induction fs) (auto split: option.splits)

lemma SetBreakpointCondition_synced:
  assumes sync: "synced m d" and wf: "um_wf (m_breakpoints m)" and D: "dbg_SetBreakpoints D = set_lines"
    and able: "\<And>f. able d (length (recorded m f))"
    and e: "SetBreakpointCondition D i c (m, d) = (status, (m', d'))"
  shows "synced m' d'"
proof (cases "find_file i (m_breakpoints m)")
  case None
  with e sync show ?thesis by (simp add: SetBreakpointCondition_def)
next
  case (Some x)
  obtain f bs sb where x: "x = (f, bs, sb)" by (cases x)
  from find_file_SomeD [OF Some [unfolded x]] wf
  have f: "um_find (m_breakpoints m) f = Some bs" and i: "um_find bs i = Some sb"
    by (auto simp: um_find_in_set)
  then have rec: "recorded m f = bs" by (simp add: recorded_def)
  let ?bs = "um_assign i (sb\<lparr>sb_condition := c\<rparr>) bs"
  obtain s bps d1 where st: "set_lines f (map snd ?bs) d = (s, bps, d1)" by (cases "set_lines f (map snd ?bs) d")
  have m': "m' = m\<lparr>m_breakpoints := um_assign f ?bs (m_breakpoints m)\<rparr>" and d': "d' = d1"
    using e by (simp_all add: SetBreakpointCondition_def Some x D st Let_def)
  have wfb: "um_wf bs" using syncedD(1) [OF sync, of f] by (simp add: rec)
  have lines_eq: "sb_line ` set (map snd ?bs) = sb_line ` set (map snd bs)"
  proof -
    have "map (sb_line \<circ> snd) ?bs = map (sb_line \<circ> snd) bs"
      using i by (induction i "sb\<lparr>sb_condition := c\<rparr>" bs rule: um_assign.induct) (auto simp: um_find_Cons)
    from arg_cong [OF this, of set] show ?thesis by (simp add: image_comp)
  qed
  have "length ?bs = length bs"
    using i by (induction i "sb\<lparr>sb_condition := c\<rparr>" bs rule: um_assign.induct) (auto simp: um_find_Cons)
  then have a: "able d (length (map snd ?bs))" using able [of f] by (simp add: rec)
  have L: "l \<in> sb_line ` set (map snd ?bs) \<longleftrightarrow> id_at d f l \<noteq> None" for l
    unfolding lines_eq using recorded_lines [OF sync, of l f] by (simp add: rec)
  have id: "id_at d1 g l = id_at d g l" for g l
  proof (cases "g = f")
    case True
    then show ?thesis
      using lines [OF st a, of l] stable [OF st a, of l] unfolding L by (cases "id_at d f l") auto
  qed (rule other [OF st a])
  have "um_wf (recorded m' g)" for g
    using syncedD(1) [OF sync] wfb by (simp add: m')
  moreover have "(\<exists>sb'. um_find (recorded m' g) j = Some sb' \<and> sb_line sb' = l) \<longleftrightarrow>
      (\<exists>sb'. um_find (recorded m g) j = Some sb' \<and> sb_line sb' = l)" for g j l
    using i by (auto simp: m' rec um_find_assign)
  ultimately show ?thesis using syncedD(2) [OF sync] by (simp add: synced_def d' id)
qed

text \<open>A request for a line that is recorded already: the manager takes the new condition, the front
  end keeps and reports the old one.\<close>

lemma SetBreakpoint_again:
  assumes sync: "synced m d" and D: "dbg_SetBreakpoints D = set_lines"
    and able: "able d (length (recorded m f) + 1)"
    and e: "SetBreakpoint D f l c (m, d) = (status, b, (m', d'))"
    and old: "um_find (recorded m f) i = Some sb" "sb_line sb = l"
  shows "recorded m' f = recorded m f" "bp_condition b = sb_condition sb" "cond_at d' f l = Some c"
proof -
  let ?rs = "map snd (recorded m f) @ [\<lparr>sb_line = l, sb_condition = c\<rparr>]"
  obtain bps where x: "set_lines f ?rs d = (S_OK, bps, d')"
    and b: "bp_line b = l" "id_at d' f l = Some (bp_id b)"
    and h: "filter (\<lambda>b. bp_line b = l) bps \<noteq> []" "b = hd (filter (\<lambda>b. bp_line b = l) bps)"
    and m': "m' = m\<lparr>m_breakpoints := um_assign f
       (um_emplace (bp_id b) \<lparr>sb_line = bp_line b, sb_condition = bp_condition b\<rparr> (recorded m f))
       (um_emplace f [] (m_breakpoints m))\<rparr>"
    by (rule set_one [OF e D able])
  have a: "able d (length ?rs)" using able by simp
  have i: "id_at d f l = Some i" using old syncedD(2) [OF sync] by blast
  have "l \<in> sb_line ` set ?rs" by simp
  then have "id_at d' f l = Some i" by (rule stable [OF x a i])
  then have bi: "bp_id b = i" using b by simp
  then show "recorded m' f = recorded m f" using old(1) by (simp add: m' um_emplace_def)
  have "sb_line sb' = l \<Longrightarrow> (j, sb') \<in> set (recorded m f) \<Longrightarrow> sb' = sb" for j sb'
  proof -
    assume j: "sb_line sb' = l" "(j, sb') \<in> set (recorded m f)"
    then have "um_find (recorded m f) j = Some sb'" by (simp add: um_find_in_set syncedD(1) [OF sync])
    moreover from this j have "id_at d f l = Some j" using syncedD(2) [OF sync] by blast
    ultimately show "sb' = sb" using i old(1) by simp
  qed
  then have uniq: "r \<in> set (map snd (recorded m f)) \<Longrightarrow> sb_line r = l \<Longrightarrow> r = sb" for r by force
  have mem: "sb \<in> set (map snd (recorded m f))"
    using old(1) by (force dest: um_find_SomeD)
  let ?old = "filter (\<lambda>r. sb_line r = l) (map snd (recorded m f))"
  have "sb \<in> set ?old" using mem old(2) by simp
  then have ne: "?old \<noteq> []" by force
  then have "hd ?old \<in> set ?old" by (rule hd_in_set)
  then have hd: "hd ?old = sb" using uniq by auto
  have "map bp_condition (filter (\<lambda>b. bp_line b = l) bps) = map sb_condition (filter (\<lambda>r. sb_line r = l) ?rs)"
    using report [OF x a] by (intro filter_map_agree) simp_all
  then have "bp_condition b = sb_condition (hd (filter (\<lambda>r. sb_line r = l) ?rs))"
    using h by (metis (no_types, lifting) hd_map map_is_Nil_conv)
  also have "hd (filter (\<lambda>r. sb_line r = l) ?rs) = sb"
    unfolding filter_append hd_append2 [OF ne] by (rule hd)
  finally show "bp_condition b = sb_condition sb" .
  show "cond_at d' f l = Some c" using condition [OF x a, of l] by simp
qed

text \<open>A request for a line that is not recorded: both have the new condition.\<close>

lemma SetBreakpoint_new:
  assumes sync: "synced m d" and D: "dbg_SetBreakpoints D = set_lines"
    and able: "able d (length (recorded m f) + 1)"
    and e: "SetBreakpoint D f l c (m, d) = (status, b, (m', d'))"
    and new: "id_at d f l = None"
  shows "um_find (recorded m' f) (bp_id b) = Some \<lparr>sb_line = l, sb_condition = c\<rparr>" "cond_at d' f l = Some c"
proof -
  let ?rs = "map snd (recorded m f) @ [\<lparr>sb_line = l, sb_condition = c\<rparr>]"
  obtain bps where x: "set_lines f ?rs d = (S_OK, bps, d')"
    and b: "bp_line b = l" "id_at d' f l = Some (bp_id b)"
    and h: "filter (\<lambda>b. bp_line b = l) bps \<noteq> []" "b = hd (filter (\<lambda>b. bp_line b = l) bps)"
    and m': "m' = m\<lparr>m_breakpoints := um_assign f
       (um_emplace (bp_id b) \<lparr>sb_line = bp_line b, sb_condition = bp_condition b\<rparr> (recorded m f))
       (um_emplace f [] (m_breakpoints m))\<rparr>"
    by (rule set_one [OF e D able])
  have a: "able d (length ?rs)" using able by simp
  have a': "able d' 0" by (rule able_after [OF x]) (use able in simp)
  have none: "l \<notin> sb_line ` set (map snd (recorded m f))" using recorded_lines [OF sync] new by simp
  then have "filter (\<lambda>r. sb_line r = l) (map snd (recorded m f)) = []" by (auto simp: filter_empty_conv)
  then have "map bp_condition (filter (\<lambda>b. bp_line b = l) bps) = [c]"
    using report [OF x a] by (subst filter_map_agree [of bp_line bps sb_line ?rs bp_condition sb_condition]) simp_all
  then have c: "bp_condition b = c"
    using h by (metis list.sel(1) list.map_sel(1))
  have "um_find (recorded m f) (bp_id b) = None"
  proof (rule ccontr)
    assume "um_find (recorded m f) (bp_id b) \<noteq> None"
    then obtain sb where sb: "um_find (recorded m f) (bp_id b) = Some sb" by auto
    then have i: "id_at d f (sb_line sb) = Some (bp_id b)" using syncedD(2) [OF sync] by blast
    have mem: "sb_line sb \<in> sb_line ` set (map snd (recorded m f))"
      using sb by (force dest: um_find_SomeD)
    then have "id_at d' f (sb_line sb) = Some (bp_id b)" by (intro stable [OF x a i]) auto
    with b(2) unique [OF a'] have "sb_line sb = l" by blast
    with mem none show False by simp
  qed
  then show "um_find (recorded m' f) (bp_id b) = Some \<lparr>sb_line = l, sb_condition = c\<rparr>"
    by (simp add: m' um_find_emplace b(1) c)
  show "cond_at d' f l = Some c" using condition [OF x a, of l] by simp
qed

text \<open>Deleting tells the manager which lines remain; the front end keeps its record.\<close>

lemma delete_in_files_lines:
  assumes D: "dbg_SetBreakpoints D = set_lines"
  shows "distinct (map fst fs) \<Longrightarrow> able d (sum_list (map (\<lambda>(f, bs). length bs) fs)) \<Longrightarrow>
     (\<And>f bs l. (f, bs) \<in> set fs \<Longrightarrow> id_at d f l \<noteq> None \<longleftrightarrow> l \<in> sb_line ` snd ` set bs) \<Longrightarrow>
     id_at (delete_in_files D ids fs d) g l \<noteq> None \<longleftrightarrow>
       (case map_of fs g of
          None \<Rightarrow> id_at d g l \<noteq> None
        | Some bs \<Rightarrow> l \<in> sb_line ` {sb. \<exists>i. (i, sb) \<in> set bs \<and> i \<notin> set ids})"
proof (induction fs arbitrary: d)
  case (Cons x fs)
  obtain f bs where x: "x = (f, bs)" by (cases x)
  let ?rem = "map snd (filter (\<lambda>(i, _). i \<notin> set ids) bs)"
  have rem_lines: "sb_line ` set ?rem = sb_line ` {sb. \<exists>i. (i, sb) \<in> set bs \<and> i \<notin> set ids}" by force
  have nf: "map_of fs f = None" using Cons.prems(1) by (simp add: x map_of_eq_None_iff)
  show ?case
  proof (cases "length ?rem = length bs")
    case True
    then have "filter (\<lambda>(i, _). i \<notin> set ids) bs = bs"
      by (intro length_filter_eq) simp
    then have all: "i \<notin> set ids" if "(i, sb) \<in> set bs" for i sb using that by (auto simp: filter_id_conv)
    have able': "able d (sum_list (map (\<lambda>(f, bs). length bs) fs))"
      by (rule able_less [of d _ "length bs"]) (use Cons.prems(2) in \<open>simp add: x add.commute\<close>)
    have IH: "id_at (delete_in_files D ids fs d) g l \<noteq> None \<longleftrightarrow>
       (case map_of fs g of None \<Rightarrow> id_at d g l \<noteq> None
        | Some bs \<Rightarrow> l \<in> sb_line ` {sb. \<exists>i. (i, sb) \<in> set bs \<and> i \<notin> set ids})"
      using Cons.prems by (intro Cons.IH able') (auto simp: x)
    have here: "l \<in> sb_line ` snd ` set bs \<longleftrightarrow> l \<in> sb_line ` {sb. \<exists>i. (i, sb) \<in> set bs \<and> i \<notin> set ids}"
      using all by force
    show ?thesis
      using IH here Cons.prems(3) [of f bs l] True nf by (auto simp: x Let_def)
  next
    case False
    obtain s bps d1 where st: "set_lines f ?rem d = (s, bps, d1)" by (cases "set_lines f ?rem d")
    have le: "length ?rem \<le> length bs" by simp
    then obtain k where k: "length bs = length ?rem + k" by (metis le_Suc_ex)
    have "able d (length ?rem + (sum_list (map (\<lambda>(f, bs). length bs) fs)))"
      by (rule able_less [of d _ k]) (use Cons.prems(2) in \<open>simp add: x k ac_simps\<close>)
    then have able1: "able d1 (sum_list (map (\<lambda>(f, bs). length bs) fs))" by (rule able_after [OF st])
    have a: "able d (length ?rem)"
      by (rule able_less [of d _ "k + sum_list (map (\<lambda>(f, bs). length bs) fs)"]) (use Cons.prems(2) in \<open>simp add: x k ac_simps\<close>)
    have oth: "id_at d1 h j = id_at d h j" if "h \<noteq> f" for h j by (rule other [OF st a that])
    have IH: "id_at (delete_in_files D ids fs d1) g l \<noteq> None \<longleftrightarrow>
       (case map_of fs g of None \<Rightarrow> id_at d1 g l \<noteq> None
        | Some bs \<Rightarrow> l \<in> sb_line ` {sb. \<exists>i. (i, sb) \<in> set bs \<and> i \<notin> set ids})"
    proof (rule Cons.IH [OF _ able1])
      show "distinct (map fst fs)" using Cons.prems(1) by (simp add: x)
      fix h cs j assume h: "(h, cs) \<in> set fs"
      then have "h \<noteq> f" using Cons.prems(1) by (force simp: x)
      then show "id_at d1 h j \<noteq> None \<longleftrightarrow> j \<in> sb_line ` snd ` set cs"
        using oth Cons.prems(3) [of h cs j] h by (simp add: x)
    qed
    have "id_at d1 f l \<noteq> None \<longleftrightarrow> l \<in> sb_line ` {sb. \<exists>i. (i, sb) \<in> set bs \<and> i \<notin> set ids}"
      using lines [OF st a, of l] unfolding rem_lines .
    then show ?thesis using IH oth nf False by (auto simp: x Let_def D st split: option.splits)
  qed
qed simp

end

section \<open>The manager keeps the promises\<close>

text \<open>\<open>ManagedDebugger\<close> hands the breakpoint operations of the interface on to \<open>Breakpoints\<close>; its
  other operations are those of \<open>D\<close>.\<close>

definition manager_set_lines ::
  "modules option \<Rightarrow> string \<Rightarrow> source_breakpoint list \<Rightarrow> bps_state \<Rightarrow> hresult \<times> breakpoint list \<times> bps_state" where
  "manager_set_lines procs f rs st = (case SetBreakpoints procs f rs st of (st', bps) \<Rightarrow> (S_OK, bps, st'))"

definition manager_set_functions ::
  "modules option \<Rightarrow> function_breakpoint list \<Rightarrow> bps_state \<Rightarrow> hresult \<times> breakpoint list \<times> bps_state" where
  "manager_set_functions procs rs st = (case SetFunctionBreakpoints procs rs st of (st', bps) \<Rightarrow> (S_OK, bps, st'))"

definition with_manager :: "modules option \<Rightarrow> bps_state debugger \<Rightarrow> bps_state debugger" where
  "with_manager procs D = D
     \<lparr>dbg_SetBreakpoints := manager_set_lines procs,
      dbg_SetFunctionBreakpoints := manager_set_functions procs,
      dbg_InsertExceptionBreakpoint := bps_insert_exception,
      dbg_DeleteExceptionBreakpoint := bps_delete_exception\<rparr>"

definition line_id :: "bps_state \<Rightarrow> string \<Rightarrow> int \<Rightarrow> nat option" where
  "line_id st f l = id_of st (Src_Key f l)"

definition line_condition :: "bps_state \<Rightarrow> string \<Rightarrow> int \<Rightarrow> string option" where
  "line_condition st f l = map_option mb_condition (um_find (file_lines st f) l)"

definition manager_able :: "bps_state \<Rightarrow> nat \<Rightarrow> bool" where
  "manager_able st n \<longleftrightarrow> bps_inv st \<and> bs_next st + n < 2 ^ 32"

lemma manager_set_linesD:
  "manager_set_lines procs f rs d = (status, bps, d') \<Longrightarrow>
     status = S_OK \<and> SetBreakpoints procs f rs d = (d', bps)"
  by (auto simp: manager_set_lines_def split: prod.splits)

lemma manager_condition:
  assumes e: "SetBreakpoints procs f rs st = (st', bps)" and a: "manager_able st (length rs)"
    and l: "l \<in> sb_line ` set rs"
  shows "line_condition st' f l = Some (sb_condition (last (filter (\<lambda>r. sb_line r = l) rs)))"
proof -
  have ne: "rs \<noteq> []" using l by auto
  obtain n' m' log lg where
    x: "export_breakpoints procs f rs (bs_next st)
       (filter (\<lambda>(l, _). l \<in> set (map sb_line rs)) (file_lines st f)) = (n', m', log, bps)"
    and st': "st' = st\<lparr>bs_next := n', bs_files := um_assign f m' (bs_files st), bs_log := lg\<rparr>"
    by (rule SetBreakpoints_cases [OF e ne])
  obtain r where r: "r \<in> set rs" "l = sb_line r" using l by blast
  have n: "bs_next st + length rs < 2 ^ 32" using a by (simp add: manager_able_def)
  obtain b where b: "um_find m' (sb_line r) = Some b" by (rule src.loop_covers [OF x n r(1)])
  have "filter (\<lambda>r. sb_line r = l) rs \<noteq> []" using r by (auto simp: filter_empty_conv)
  then have "mb_condition b = sb_condition (last (filter (\<lambda>r. sb_line r = l) rs))"
    using src.loop_condition [OF x b] r(2) by (auto split: list.splits)
  then show ?thesis using b r(2) by (simp add: line_condition_def st')
qed

lemma manager_able_after:
  assumes e: "SetBreakpoints procs f rs st = (st', bps)" and a: "manager_able st (length rs + n)"
  shows "manager_able st' n"
proof -
  have "bps_inv st" "bs_next st + length rs < 2 ^ 32" using a by (simp_all add: manager_able_def)
  from SetBreakpoints_ids [OF this e] a show ?thesis by (simp add: manager_able_def)
qed

interpretation manager: line_server "manager_set_lines procs" line_id line_condition manager_able for procs
proof
  fix f g :: string and rs d status bps d' l l' i n k
  show "manager_able d n \<Longrightarrow> line_id d f l = Some i \<Longrightarrow> line_id d g l' = Some i \<Longrightarrow> f = g \<and> l = l'"
    using ids_invD(3) [OF bps_invD(3), of d "Src_Key f l" i "Src_Key g l'"]
    by (auto simp: manager_able_def line_id_def)
  show "manager_able d (n + k) \<Longrightarrow> manager_able d n" by (simp add: manager_able_def)
  assume "manager_set_lines procs f rs d = (status, bps, d')"
  note e = manager_set_linesD [OF this, THEN conjunct1] manager_set_linesD [OF this, THEN conjunct2]
  show "status = S_OK" by (rule e(1))
  show "manager_able d (length rs + n) \<Longrightarrow> manager_able d' n" by (rule manager_able_after [OF e(2)])
  assume a: "manager_able d (length rs)"
  then have i: "bps_inv d" "bs_next d + length rs < 2 ^ 32" by (simp_all add: manager_able_def)
  show "line_id d' f l \<noteq> None \<longleftrightarrow> l \<in> sb_line ` set rs"
    using set_lines_lines [OF i e(2), of f] by (auto simp: line_id_def set_eq_iff)
  show "g \<noteq> f \<Longrightarrow> line_id d' g l = line_id d g l"
    using set_lines_lines [OF i e(2), of g] by (simp add: line_id_def)
  show "line_id d f l = Some i \<Longrightarrow> l \<in> sb_line ` set rs \<Longrightarrow> line_id d' f l = Some i"
    using set_lines_stable [OF i e(2), of l] by (auto simp: line_id_def)
  show "map bp_line bps = map sb_line rs \<and> map bp_condition bps = map sb_condition rs \<and>
      map (\<lambda>b. Some (bp_id b)) bps = map (\<lambda>r. line_id d' f (sb_line r)) rs"
    using set_lines_report [OF i e(2)] by (simp add: line_id_def)
  show "l \<in> sb_line ` set rs \<Longrightarrow>
      line_condition d' f l = Some (sb_condition (last (filter (\<lambda>r. sb_line r = l) rs)))"
    by (rule manager_condition [OF e(2) a])
qed

lemma with_manager_lines [simp]: "dbg_SetBreakpoints (with_manager procs D) = manager_set_lines procs"
  by (simp add: with_manager_def)

definition in_sync :: "mi_state \<Rightarrow> bps_state \<Rightarrow> bool" where
  "in_sync m d \<longleftrightarrow> (\<forall>f. um_wf (recorded m f)) \<and>
     (\<forall>f l i. line_id d f l = Some i \<longleftrightarrow> (\<exists>sb. um_find (recorded m f) i = Some sb \<and> sb_line sb = l))"

lemma in_sync_eq: "in_sync = line_server.synced line_id"
  by (simp add: fun_eq_iff in_sync_def manager.synced_def)

section \<open>Properties\<close>

text \<open>A debugger without a process, for the concrete instances.\<close>

definition idle_debugger :: "bps_state debugger" where
  "idle_debugger = \<lparr>dbg_IsJustMyCode = (\<lambda>d. True), dbg_SetJustMyCode = (\<lambda>b d. d), dbg_Initialize = (\<lambda>d. d),
     dbg_Attach = (\<lambda>pid d. (E_FAIL, d)), dbg_Launch = (\<lambda>f args b d. (E_FAIL, d)),
     dbg_ConfigurationDone = (\<lambda>d. (E_FAIL, d)), dbg_Disconnect = (\<lambda>a d. d),
     dbg_GetLastStoppedThreadId = (\<lambda>d. 0), dbg_Continue = (\<lambda>t d. (E_FAIL, d)), dbg_Pause = (\<lambda>d. (E_FAIL, d)),
     dbg_GetThreads = (\<lambda>d. (E_FAIL, [])), dbg_SetBreakpoints = manager_set_lines None,
     dbg_SetFunctionBreakpoints = manager_set_functions None,
     dbg_GetStackTrace = (\<lambda>t s n d. (E_FAIL, [])), dbg_StepCommand = (\<lambda>t s d. d),
     dbg_GetScopes = (\<lambda>f d. (E_FAIL, [], d)), dbg_GetVariables = (\<lambda>r s n d. (E_FAIL, [], d)),
     dbg_GetNamedVariables = (\<lambda>r d. 0),
     dbg_Evaluate = (\<lambda>f e d. (E_FAIL, \<lparr>v_name = [], v_value = [], v_type = [], v_evaluateName = [],
        v_variablesReference = 0, v_namedVariables = 0\<rparr>, [], d)),
     dbg_SetVariableByExpression = (\<lambda>f n v d. (E_FAIL, [], d)),
     dbg_InsertExceptionBreakpoint = bps_insert_exception, dbg_DeleteExceptionBreakpoint = bps_delete_exception\<rparr>"

definition idle :: "bps_state debugger" where
  "idle = with_manager None idle_debugger"

text \<open>The front end and the manager at the start, and after \<open>-break-insert a.cs:3\<close>.\<close>

lemma in_sync_init: "in_sync init_mi init_breakpoints"
  by (simp add: in_sync_def init_mi_def recorded_def line_id_def init_breakpoints_def)

definition after_insert :: "bps_state world" where
  "after_insert = snd (snd (SetBreakpoint idle ''a.cs'' 3 [] (init_mi, init_breakpoints)))"

lemma after_insert_value:
  "after_insert =
     (init_mi\<lparr>m_breakpoints := [(''a.cs'', [(1, \<lparr>sb_line = 3, sb_condition = []\<rparr>)])]\<rparr>,
      init_breakpoints\<lparr>bs_next := 2, bs_files :=
        [(''a.cs'', [(3, new_managed_bp\<lparr>mb_id := 1, mb_fullname := ''a.cs'', mb_linenum := 3\<rparr>)])]\<rparr>)"
  by (simp add: after_insert_def SetBreakpoint_def idle_def manager_set_lines_def SetBreakpoints_def
      recorded_def init_mi_def init_breakpoints_def lines_of_def fresh_bp_def succ_id_def um_emplace_def
      um_find_Cons new_managed_bp_def ToBreakpoint_def empty_breakpoint_def)

text \<open>What the command makes of its arguments.\<close>

lemma functions_keep_lines:
  "manager_set_functions procs rs d = (status, bps, d') \<Longrightarrow> line_id d' = line_id d"
  by (auto simp: manager_set_functions_def SetFunctionBreakpoints_def Let_def line_id_def fun_eq_iff
      split: prod.splits if_splits)

lemma SetFunctionBreakpoint_sync:
  assumes "SetFunctionBreakpoint (with_manager procs D) fb (m, d) = (status, b, (m', d'))" and "in_sync m d"
  shows "in_sync m' d'"
proof -
  obtain s bps d1 where x: "manager_set_functions procs (map snd (m_funcBreakpoints m) @
      [\<lparr>fbr_module = fb_module fb, fbr_func = fb_funcname fb, fbr_params = fb_params fb, fbr_condition = fb_condition fb\<rparr>]) d
      = (s, bps, d1)"
    by (metis prod_cases3)
  have f: "dbg_SetFunctionBreakpoints (with_manager procs D) = manager_set_functions procs"
    by (simp add: with_manager_def)
  have "d' = d1" "m_breakpoints m' = m_breakpoints m"
    using assms(1) by (auto simp: SetFunctionBreakpoint_def f x split: if_splits list.splits)
  then show ?thesis
    using assms(2) functions_keep_lines [OF x] by (simp add: in_sync_def recorded_def)
qed

lemma cmd_break_insert_cases:
  assumes "cmd_break_insert D args (m, d) = Inr (status, output, (m', d'))"
  obtains (line) lb s b where "GetBreakpointType (StripArgs args) = Inr LineBreak"
      "ParseLineBreakpoint (StripArgs args) = Inr (True, lb)"
      "SetBreakpoint D (lb_filename lb) (to_s32 (lb_linenum lb)) (lb_condition lb) (m, d) = (s, b, (m', d'))"
      "succeeded s \<longrightarrow> status = S_OK \<and> output = snd (PrintBreakpoint b)"
    | (func) fb s b where "GetBreakpointType (StripArgs args) = Inr FuncBreak"
      "SetFunctionBreakpoint D fb (m, d) = (s, b, (m', d'))"
    | (none) "m' = m" "d' = d" "\<And>lb. GetBreakpointType (StripArgs args) = Inr LineBreak \<Longrightarrow>
        ParseLineBreakpoint (StripArgs args) \<noteq> Inr (True, lb)"
proof -
  obtain bt where bt: "GetBreakpointType (StripArgs args) = Inr bt"
    using assms by (cases "GetBreakpointType (StripArgs args)") (simp_all add: cmd_break_insert_def)
  show thesis
  proof (cases bt)
    case Error
    then show ?thesis using assms bt by (intro none) (auto simp: cmd_break_insert_def)
  next
    case LineBreak
    then obtain ok lb where p: "ParseLineBreakpoint (StripArgs args) = Inr (ok, lb)"
      using assms bt by (cases "ParseLineBreakpoint (StripArgs args)") (auto simp: cmd_break_insert_def)
    show ?thesis
    proof (cases ok)
      case True
      obtain s b m1 d1 where x: "SetBreakpoint D (lb_filename lb) (to_s32 (lb_linenum lb)) (lb_condition lb) (m, d) =
          (s, b, (m1, d1))" by (metis prod_cases4)
      then show ?thesis
        using assms bt LineBreak p True by (intro line [of lb s b]) (auto simp: cmd_break_insert_def split: if_splits)
    next
      case False
      then show ?thesis using assms bt LineBreak p by (intro none) (auto simp: cmd_break_insert_def)
    qed
  next
    case FuncBreak
    then obtain ok fb where p: "ParseFuncBreakpoint (StripArgs args) = Inr (ok, fb)"
      using assms bt by (cases "ParseFuncBreakpoint (StripArgs args)") (auto simp: cmd_break_insert_def)
    show ?thesis
    proof (cases ok)
      case True
      obtain s b m1 d1 where x: "SetFunctionBreakpoint D fb (m, d) = (s, b, (m1, d1))" by (metis prod_cases4)
      then show ?thesis
        using assms bt FuncBreak p True by (intro func [of fb s b]) (auto simp: cmd_break_insert_def split: if_splits)
    next
      case False
      then show ?thesis using assms bt FuncBreak p by (intro none) (auto simp: cmd_break_insert_def)
    qed
  qed
qed

text \<open>C30. Whatever its arguments are, \<open>-break-insert\<close> keeps the lines and numbers that the front end and the manager
  have in agreement.  When they are those of a line, it succeeds and reports the breakpoint that the manager then has
  there, with the condition of the command; when the manager had none there, the front end records the condition too,
  and otherwise the front end's record of the file stays as it was.\<close>

theorem break_insert_in_sync:
  assumes "in_sync m d" and "\<forall>f. manager_able d (length (recorded m f) + 1)"
    and "cmd_break_insert (with_manager procs D) args (m, d) = Inr (status, output, (m', d'))"
  shows "in_sync m' d' \<and>
    (\<forall>lb f l. GetBreakpointType (StripArgs args) = Inr LineBreak \<and> ParseLineBreakpoint (StripArgs args) = Inr (True, lb) \<and>
        f = lb_filename lb \<and> l = to_s32 (lb_linenum lb) \<longrightarrow>
      (\<exists>b. status = S_OK \<and> output = snd (PrintBreakpoint b) \<and> bp_line b = l \<and>
        line_id d' f l = Some (bp_id b) \<and> line_condition d' f l = Some (lb_condition lb) \<and>
        (if line_id d f l = None
         then um_find (recorded m' f) (bp_id b) = Some \<lparr>sb_line = l, sb_condition = lb_condition lb\<rparr>
         else recorded m' f = recorded m f)))"
  using assms(3)
proof (cases rule: cmd_break_insert_cases)
  case (line lb s b)
  let ?f = "lb_filename lb" and ?l = "to_s32 (lb_linenum lb)"
  note sync = assms(1) [unfolded in_sync_eq]
  note a = assms(2) [THEN spec, of ?f]
  have "in_sync m' d'"
    using manager.SetBreakpoint_synced [OF sync with_manager_lines a line(3)] by (simp add: in_sync_eq)
  moreover have "s = S_OK \<and> bp_line b = ?l \<and> line_id d' ?f ?l = Some (bp_id b)"
    by (rule manager.set_one [OF line(3) with_manager_lines a]) simp
  moreover have "line_condition d' ?f ?l = Some (lb_condition lb) \<and>
      (if line_id d ?f ?l = None
       then um_find (recorded m' ?f) (bp_id b) = Some \<lparr>sb_line = ?l, sb_condition = lb_condition lb\<rparr>
       else recorded m' ?f = recorded m ?f)"
  proof (cases "line_id d ?f ?l")
    case None
    then show ?thesis using manager.SetBreakpoint_new [OF sync with_manager_lines a line(3)] by simp
  next
    case (Some i)
    then obtain sb where "um_find (recorded m ?f) i = Some sb" "sb_line sb = ?l"
      using assms(1) by (auto simp: in_sync_def)
    from manager.SetBreakpoint_again [OF sync with_manager_lines a line(3) this] Some show ?thesis by simp
  qed
  ultimately show ?thesis using line(1,2,4) by auto
next
  case (func fb s b)
  then show ?thesis using SetFunctionBreakpoint_sync [OF func(2) assms(1)] by simp
next
  case none
  then show ?thesis using assms(1) by auto
qed

lemma able_init: "manager_able init_breakpoints (Suc 0)"
  by (simp add: manager_able_def bps_inv_init) (simp add: init_breakpoints_def)

theorem break_insert_in_sync_witness:
  "\<exists>output m d. cmd_break_insert idle [''a.cs:3''] (init_mi, init_breakpoints) = Inr (S_OK, output, (m, d)) \<and>
     in_sync m d \<and> line_id d ''a.cs'' 3 \<noteq> None"
proof -
  have loc: "''a.cs:3'' = ''a.cs'' @ CHR '':'' # to_string 3" by (simp add: to_string.simps digit_char_numerals)
  have strip: "StripArgs [''a.cs:3''] = [''a.cs:3'']" by code_simp
  have p: "GetBreakpointType (StripArgs [''a.cs:3'']) = Inr LineBreak"
    "ParseLineBreakpoint (StripArgs [''a.cs:3'']) = Inr (True, \<lparr>lb_filename = ''a.cs'', lb_linenum = 3, lb_condition = []\<rparr>)"
    using line_breakpoint_parsed [of 3 Plain "''a.cs''"] by (simp_all only: strip loc) simp_all
  obtain status out m d where e: "cmd_break_insert idle [''a.cs:3''] (init_mi, init_breakpoints) = Inr (status, out, (m, d))"
    using p by (cases "SetBreakpoint idle ''a.cs'' 3 [] (init_mi, init_breakpoints)"; cases "succeeded (fst (SetBreakpoint idle ''a.cs'' 3 [] (init_mi, init_breakpoints)))")
      (auto simp: cmd_break_insert_def to_s32_def)
  have "\<forall>f. manager_able init_breakpoints (length (recorded init_mi f) + 1)"
    using able_init by (simp add: recorded_def init_mi_def)
  from break_insert_in_sync [OF in_sync_init this e [unfolded idle_def]] e p show ?thesis by (auto simp: to_s32_def)
qed

text \<open>\<open>-break-condition\<close> on a source breakpoint keeps the two records in agreement.\<close>

theorem break_condition_in_sync:
  assumes "in_sync m d" and "um_wf (m_breakpoints m)" and "\<And>f. manager_able d (length (recorded m f))"
    and "SetBreakpointCondition (with_manager procs D) i c (m, d) = (status, (m', d'))"
  shows "in_sync m' d'"
  using manager.SetBreakpointCondition_synced [OF assms(1) [unfolded in_sync_eq] assms(2) with_manager_lines assms(3,4)]
  by (simp add: in_sync_eq)

lemma after_insert_sync: "in_sync (fst after_insert) (snd after_insert)"
  by (auto simp: after_insert_value in_sync_def recorded_def line_id_def lines_of_def um_find_Cons
      init_mi_def init_breakpoints_def um_wf_def new_managed_bp_def)

lemma after_insert_able: "k < 100 \<Longrightarrow> manager_able (snd after_insert) k"
proof -
  assume k: "k < 100"
  have "snd after_insert = fst (SetBreakpoints None ''a.cs'' [\<lparr>sb_line = 3, sb_condition = []\<rparr>] init_breakpoints)"
    by (simp add: after_insert_value SetBreakpoints_def init_breakpoints_def lines_of_def fresh_bp_def
        succ_id_def um_emplace_def new_managed_bp_def)
  then have "bps_inv (snd after_insert)"
    using bps_step_inv [OF bps_inv_init, of "Op_Set None ''a.cs'' [\<lparr>sb_line = 3, sb_condition = []\<rparr>]"]
    by (simp add: init_breakpoints_def)
  then show ?thesis using k by (simp add: manager_able_def after_insert_value)
qed

theorem break_condition_in_sync_witness:
  "in_sync (fst (snd (SetBreakpointCondition idle 1 ''b'' after_insert)))
           (snd (snd (SetBreakpointCondition idle 1 ''b'' after_insert)))"
proof -
  obtain status m d where e: "SetBreakpointCondition idle 1 ''b'' (fst after_insert, snd after_insert) = (status, (m, d))"
    by (metis prod_cases3)
  have "um_wf (m_breakpoints (fst after_insert))" by (simp add: after_insert_value um_wf_def)
  moreover have "manager_able (snd after_insert) (length (recorded (fst after_insert) f))" for f
    by (rule after_insert_able) (simp add: after_insert_value recorded_def um_find_Cons)
  ultimately show ?thesis
    using break_condition_in_sync [OF after_insert_sync _ _ e [unfolded idle_def]] e by simp
qed

text \<open>\<open>-break-insert -c\<close> on a line that has a breakpoint already gives the manager the new
  condition, while the front end keeps, and reports, the old one.\<close>

theorem break_insert_again_diverges:
  assumes "in_sync m d" and "manager_able d (length (recorded m f) + 1)"
    and "SetBreakpoint (with_manager procs D) f l c (m, d) = (status, b, (m', d'))"
    and "um_find (recorded m f) i = Some sb" and "sb_line sb = l"
  shows "line_condition d' f l = Some c \<and> recorded m' f = recorded m f \<and> bp_condition b = sb_condition sb"
  using manager.SetBreakpoint_again [OF assms(1) [unfolded in_sync_eq] with_manager_lines assms(2-5)] by simp

theorem break_insert_again_diverges_witness:
  "line_condition (snd (snd (snd (SetBreakpoint idle ''a.cs'' 3 ''x'' after_insert)))) ''a.cs'' 3 = Some ''x'' \<and>
   recorded (fst (snd (snd (SetBreakpoint idle ''a.cs'' 3 ''x'' after_insert)))) ''a.cs'' =
     [(1, \<lparr>sb_line = 3, sb_condition = []\<rparr>)]"
proof -
  obtain status b m d where e: "SetBreakpoint idle ''a.cs'' 3 ''x'' (fst after_insert, snd after_insert) = (status, b, (m, d))"
    by (metis prod_cases4)
  have r: "recorded (fst after_insert) ''a.cs'' = [(1, \<lparr>sb_line = 3, sb_condition = []\<rparr>)]"
    by (simp add: after_insert_value recorded_def um_find_Cons)
  have "manager_able (snd after_insert) (length (recorded (fst after_insert) ''a.cs'') + 1)"
    by (rule after_insert_able) (simp add: r)
  from break_insert_again_diverges [OF after_insert_sync this e [unfolded idle_def],
      of 1 "\<lparr>sb_line = 3, sb_condition = []\<rparr>"]
  show ?thesis using e by (simp add: r um_find_Cons)
qed

text \<open>\<open>-break-delete\<close> removes exactly the lines with the given numbers from the manager, in every
  file, but the front end's record still lists them.\<close>

theorem break_delete_lines:
  assumes "in_sync m d" and "um_wf (m_breakpoints m)"
    and "manager_able d (sum_list (map (\<lambda>(f, bs). length bs) (m_breakpoints m)))"
    and "DeleteBreakpoints (with_manager procs D) ids (m, d) = (m', d')"
  shows "{l. line_id d' f l \<noteq> None} = {sb_line sb |i sb. um_find (recorded m f) i = Some sb \<and> i \<notin> set ids} \<and> m' = m"
proof -
  let ?D = "with_manager procs D"
  have d': "d' = delete_in_files ?D ids (m_breakpoints m) d" and m': "m' = m"
    using assms(4) by (auto simp: DeleteBreakpoints_def)
  have wf: "um_wf (recorded m g)" for g using assms(1) by (simp add: in_sync_def)
  have sync: "line_id d g l \<noteq> None \<longleftrightarrow> l \<in> sb_line ` snd ` set bs" if "(g, bs) \<in> set (m_breakpoints m)" for g bs l
  proof -
    have "recorded m g = bs" using that assms(2) by (simp add: recorded_def um_find_in_set [symmetric])
    then show ?thesis
      using manager.recorded_lines [OF assms(1) [unfolded in_sync_eq], of l g] by simp
  qed
  have "line_id d' f l \<noteq> None \<longleftrightarrow>
      (\<exists>i sb. sb_line sb = l \<and> um_find (recorded m f) i = Some sb \<and> i \<notin> set ids)" for l
  proof (cases "map_of (m_breakpoints m) f")
    case None
    then have r: "recorded m f = []" by (simp add: recorded_def um_find_def)
    then have "line_id d f l = None" using assms(1) by (cases "line_id d f l") (auto simp: in_sync_def)
    then show ?thesis
      using manager.delete_in_files_lines [OF with_manager_lines assms(2) [unfolded um_wf_def] assms(3) sync,
          where g = f and l = l and ids = ids] None
      by (simp add: d' r)
  next
    case (Some bs)
    then have r: "recorded m f = bs" by (simp add: recorded_def um_find_def)
    have "um_find bs i = Some sb \<longleftrightarrow> (i, sb) \<in> set bs" for i sb using wf [of f] by (simp add: r um_find_in_set)
    then show ?thesis
      using manager.delete_in_files_lines [OF with_manager_lines assms(2) [unfolded um_wf_def] assms(3) sync,
          where g = f and l = l and ids = ids] Some
      by (auto simp: d' r)
  qed
  then show ?thesis by (auto simp: m')
qed

theorem break_delete_lines_witness:
  "{l. line_id (snd (DeleteBreakpoints idle [1] after_insert)) ''a.cs'' l \<noteq> None} = {} \<and>
   fst (DeleteBreakpoints idle [1] after_insert) = fst after_insert"
proof -
  obtain m d where e: "DeleteBreakpoints idle [1] (fst after_insert, snd after_insert) = (m, d)"
    by (cases "DeleteBreakpoints idle [1] (fst after_insert, snd after_insert)")
  have "um_wf (m_breakpoints (fst after_insert))" by (simp add: after_insert_value um_wf_def)
  moreover have "manager_able (snd after_insert)
      (sum_list (map (\<lambda>(f, bs). length bs) (m_breakpoints (fst after_insert))))"
    by (rule after_insert_able) (simp add: after_insert_value)
  ultimately show ?thesis
    using break_delete_lines [OF after_insert_sync _ _ e [unfolded idle_def], of "''a.cs''"] e
    by (simp add: after_insert_value recorded_def um_find_Cons split: if_splits)
qed

text \<open>A deleted line comes back: whatever was deleted before, the next \<open>-break-insert\<close> in the file
  hands every line the front end ever recorded there to the manager again.\<close>

theorem deleted_line_returns:
  assumes "DeleteBreakpoints (with_manager procs D) ids (m, d) = (m1, d1)"
    and "manager_able d1 (length (recorded m1 f) + 1)"
    and "SetBreakpoint (with_manager procs D) f l c (m1, d1) = (status, b, (m2, d2))"
    and "(i, sb) \<in> set (recorded m f)"
  shows "line_id d2 f (sb_line sb) \<noteq> None"
proof -
  have m1: "m1 = m" using assms(1) by (auto simp: DeleteBreakpoints_def)
  let ?rs = "map snd (recorded m1 f) @ [\<lparr>sb_line = l, sb_condition = c\<rparr>]"
  obtain bps where x: "manager_set_lines procs f ?rs d1 = (S_OK, bps, d2)"
    by (rule manager.set_one [OF assms(3) with_manager_lines assms(2)])
  have "sb_line sb \<in> sb_line ` set ?rs" using assms(4) by (force simp: m1)
  then show ?thesis using manager.lines [OF x, of "sb_line sb"] assms(2) by simp
qed

theorem deleted_line_returns_witness:
  "line_id (snd (DeleteBreakpoints idle [1] after_insert)) ''a.cs'' 3 = None \<and>
   line_id (snd (snd (snd (SetBreakpoint idle ''a.cs'' 9 [] (DeleteBreakpoints idle [1] after_insert))))) ''a.cs'' 3 \<noteq> None"
proof -
  obtain m1 d1 where e: "DeleteBreakpoints idle [1] (fst after_insert, snd after_insert) = (m1, d1)"
    by (cases "DeleteBreakpoints idle [1] (fst after_insert, snd after_insert)")
  obtain status b m2 d2 where x: "SetBreakpoint idle ''a.cs'' 9 [] (m1, d1) = (status, b, (m2, d2))"
    by (metis prod_cases4)
  have v: "m1 = fst after_insert" "d1 = fst (SetBreakpoints None ''a.cs'' [] (snd after_insert))"
    using e by (auto simp: DeleteBreakpoints_def after_insert_value idle_def manager_set_lines_def
        SetBreakpoints_empty)
  have r: "recorded (fst after_insert) ''a.cs'' = [(1, \<lparr>sb_line = 3, sb_condition = []\<rparr>)]"
    by (simp add: after_insert_value recorded_def um_find_Cons)
  have "bps_inv (snd after_insert)" using after_insert_able [of 0] by (simp add: manager_able_def)
  then have "bps_inv d1"
    using bps_step_inv [of "snd after_insert" "Op_Set None ''a.cs'' []"] by (simp add: v after_insert_value init_breakpoints_def)
  moreover have "bs_next d1 = 2" by (simp add: v SetBreakpoints_empty after_insert_value)
  ultimately have "manager_able d1 (length (recorded m1 ''a.cs'') + 1)"
    by (simp add: manager_able_def v(1) r)
  from deleted_line_returns [OF e [unfolded idle_def] this x [unfolded idle_def], of 1 "\<lparr>sb_line = 3, sb_condition = []\<rparr>"]
  have "line_id d2 ''a.cs'' 3 \<noteq> None" by (simp add: r)
  moreover have "line_id d1 ''a.cs'' 3 = None" by (simp add: v SetBreakpoints_empty line_id_def)
  ultimately show ?thesis using e x by simp
qed

end
