(* ===== verification/Mi_Commands.thy ===== *)
theory Mi_Commands imports Mi_Sync begin

text \<open>
  What the commands of the MI front end do as a whole: which ones can let an exception escape, how
  replies are framed, the variable objects, and the exception filters a command sets in the manager.
\<close>

section \<open>Exceptions that escape\<close>

lemma plain_commands_safe:
  "cmd_thread_info D w \<noteq> Inl e" "cmd_exec_continue D w \<noteq> Inl e" "cmd_exec_interrupt D w \<noteq> Inl e"
  "cmd_break_delete D args w \<noteq> Inl e" "StepCommand D st args w \<noteq> Inl e" "cmd_disconnect D a w \<noteq> Inl e"
  "cmd_stack_list_frames D args w \<noteq> Inl e" "cmd_stack_list_variables D args w \<noteq> Inl e"
  "cmd_gdb_exit D w \<noteq> Inl e" "cmd_exec_arguments args w \<noteq> Inl e" "cmd_exec_run D w \<noteq> Inl e"
  "cmd_handshake args w \<noteq> Inl e" "cmd_gdb_set D args w \<noteq> Inl e" "cmd_gdb_show D args w \<noteq> Inl e"
  "cmd_break_exception_delete D args w \<noteq> Inl e"
  by (simp_all add: cmd_thread_info_def cmd_exec_continue_def cmd_exec_interrupt_def cmd_break_delete_def
      StepCommand_def cmd_disconnect_def cmd_stack_list_frames_def cmd_stack_list_variables_def cmd_gdb_exit_def
      cmd_exec_arguments_def cmd_exec_run_def cmd_handshake_def cmd_gdb_set_def cmd_gdb_show_def
      cmd_break_exception_delete_def Let_def split: prod.split option.split sum.split)

lemma xbind_safe:
  "i < length xs \<Longrightarrow> (\<And>x. f x \<noteq> Inl e) \<Longrightarrow> xbind (vec_at xs i) f \<noteq> Inl e"
  by (simp add: vec_at_def)

lemma if_safe: "x \<noteq> Inl e \<Longrightarrow> y \<noteq> Inl e \<Longrightarrow> (if b then x else y) \<noteq> Inl e"
  by simp

lemma checked_commands_safe:
  "cmd_break_condition D args w \<noteq> Inl e" "cmd_target_attach D args w \<noteq> Inl e"
  "cmd_var_create D args w \<noteq> Inl e" "cmd_var_delete args w \<noteq> Inl e" "cmd_file_exec args w \<noteq> Inl e"
  "cmd_environment_cd cd args w \<noteq> Inl e" "cmd_break_exception_insert D args w \<noteq> Inl e"
  "cmd_var_assign D args w \<noteq> Inl e"
proof -
  have two: "0 < length args" "1 < length args" if "\<not> length args < 2" using that by linarith+
  show "cmd_break_condition D args w \<noteq> Inl e"
    unfolding cmd_break_condition_def
    by (cases "length args < 2", simp) (simp only: if_False, intro xbind_safe two; simp split: prod.split)
  show "cmd_target_attach D args w \<noteq> Inl e" "cmd_var_delete args w \<noteq> Inl e" "cmd_file_exec args w \<noteq> Inl e"
    "cmd_environment_cd cd args w \<noteq> Inl e"
    by (auto simp: cmd_target_attach_def cmd_var_delete_def cmd_file_exec_def cmd_environment_cd_def
        vec_at_def split: prod.split)
  show "cmd_var_create D args w \<noteq> Inl e"
    by (cases "length args < 2") (auto simp: cmd_var_create_def vec_at_def)
  show "cmd_var_assign D args w \<noteq> Inl e"
    unfolding cmd_var_assign_def Let_def
    by (cases "length args < 2", simp)
      (simp only: if_False, intro xbind_safe two; simp split: prod.split option.split)
  show "cmd_break_exception_insert D args w \<noteq> Inl e"
  proof (cases "length args < 2")
    case True
    then show ?thesis by (simp add: cmd_break_exception_insert_def)
  next
    case False
    show ?thesis
      unfolding cmd_break_exception_insert_def Let_def if_not_P [OF False]
      by (intro xbind_safe if_safe Inr_not_Inl, rule less_le_trans [of _ 2]) (use False in simp_all)
  qed
qed

text \<open>A command that is none of the three is safe, whatever its arguments.\<close>

lemma HandleCommand_safe:
  assumes "command \<notin> {''break-insert'', ''var-list-children'', ''var-show-attributes''}"
  shows "HandleCommand D cd command args w \<noteq> Inl e"
proof -
  have n: "command \<noteq> ''break-insert''" "command \<noteq> ''var-list-children''" "command \<noteq> ''var-show-attributes''"
    using assms by blast+
  show ?thesis
    unfolding HandleCommand_def if_not_P [OF n(1)] if_not_P [OF n(2)] if_not_P [OF n(3)]
    by (intro if_safe plain_commands_safe checked_commands_safe) (rule Inr_not_Inl)+
qed

section \<open>Replies\<close>

lemma result_line_caret: "\<exists>r. result_line token hr out = token @ ''^'' @ r"
proof (cases "succeeded hr")
  case False
  then show ?thesis by (auto simp: result_line_def)
next
  case True
  show ?thesis
  proof (cases out)
    case (Cons c cs)
    with True show ?thesis by (cases "c = CHR ''^''") (auto simp: result_line_def)
  qed (use True in \<open>auto simp: result_line_def\<close>)
qed

section \<open>Variable objects\<close>

lemma to_string_inject [simp]: "to_string a = to_string b \<longleftrightarrow> a = b"
  by (metis digits_val_to_string)

lemma PrintNewVar_generated:
  "PrintNewVar ''-'' v t p m =
     (PrintVar (''var'' @ to_string (m_varCounter m)) v t p,
      m\<lparr>m_varCounter := (m_varCounter m + 1) mod 2 ^ 32,
        m_vars := um_assign (''var'' @ to_string (m_varCounter m)) v (m_vars m)\<rparr>)"
  by (simp add: PrintNewVar_def Let_def)

lemma print_children_vars:
  "m_varCounter m + length cs < 2 ^ 32 \<Longrightarrow>
     m_varCounter (snd (print_children cs t p m)) = m_varCounter m + length cs \<and>
     (\<forall>i < length cs. um_find (m_vars (snd (print_children cs t p m)))
        (''var'' @ to_string (m_varCounter m + i)) = Some (cs ! i)) \<and>
     (\<forall>n. (\<forall>i < length cs. n \<noteq> ''var'' @ to_string (m_varCounter m + i)) \<longrightarrow>
        um_find (m_vars (snd (print_children cs t p m))) n = um_find (m_vars m) n)"
proof (induction cs arbitrary: m)
  case (Cons c cs)
  let ?m = "snd (PrintNewVar ''-'' c t p m)"
  have c: "m_varCounter ?m = m_varCounter m + 1" using Cons.prems by (simp add: PrintNewVar_generated)
  have v: "um_find (m_vars ?m) n = (if n = ''var'' @ to_string (m_varCounter m) then Some c else um_find (m_vars m) n)" for n
    by (simp add: PrintNewVar_generated um_find_assign)
  have s: "snd (print_children (c # cs) t p m) = snd (print_children cs t p ?m)"
    by (simp add: case_prod_beta)
  have "m_varCounter ?m + length cs < 2 ^ 32" using Cons.prems by (simp add: c)
  note IH = Cons.IH [OF this, unfolded c]
  have named: "um_find (m_vars (snd (print_children cs t p ?m))) (''var'' @ to_string (m_varCounter m + i)) = Some ((c # cs) ! i)"
    if "i < length (c # cs)" for i
  proof (cases i)
    case 0
    have "um_find (m_vars (snd (print_children cs t p ?m))) (''var'' @ to_string (m_varCounter m)) =
        um_find (m_vars ?m) (''var'' @ to_string (m_varCounter m))"
      using IH by auto
    then show ?thesis by (simp add: 0 v)
  next
    case (Suc j)
    then show ?thesis using IH that by auto
  qed
  have others: "um_find (m_vars (snd (print_children cs t p ?m))) n = um_find (m_vars m) n"
    if "\<forall>i < length (c # cs). n \<noteq> ''var'' @ to_string (m_varCounter m + i)" for n
  proof -
    have "n \<noteq> ''var'' @ to_string (m_varCounter m)" using that by fastforce
    moreover have "\<forall>i < length cs. n \<noteq> ''var'' @ to_string (m_varCounter m + 1 + i)"
      using that by (metis Suc_less_eq add.assoc length_Cons plus_1_eq_Suc)
    ultimately show ?thesis using IH v by auto
  qed
  show ?case
    unfolding s using named others conjunct1 [OF IH] by (intro conjI allI impI) simp_all
qed simp

section \<open>Exception filters of a command\<close>

lemma insert_names_ranges:
  "bps_inv d \<Longrightarrow> bs_next d + length names < 2 ^ 32 \<Longrightarrow>
     insert_names (with_manager procs D) mode names d = (status, out, d') \<Longrightarrow>
     status = S_OK \<and> length out = length names \<and> bps_inv d' \<and>
     (\<forall>n. n \<in> set names \<or> mode \<in> set (equal_range (bs_exceptions d) n) \<longrightarrow>
        mode \<in> set (equal_range (bs_exceptions d') n))"
proof (induction names arbitrary: d status out d')
  case (Cons name names)
  let ?d = "snd (snd (bps_insert_exception mode name d))"
  have inv: "storage_inv (bs_exceptions d)" "bs_next d \<noteq> 0"
    using Cons.prems(1) ids_invD(1) by (auto simp: bps_inv_def tables_inv_def)
  have ok: "fst (Storage_Insert (bs_next d) mode name (bs_exceptions d)) = S_OK" using inv(1) by (rule Insert_ok)
  have e: "bps_insert_exception mode name d = (S_OK, bs_next d, ?d)" and
    x: "bs_exceptions ?d = snd (Storage_Insert (bs_next d) mode name (bs_exceptions d))"
    by (simp_all add: bps_insert_exception_def InsertExceptionBreakpoint_def case_prod_beta ok)
  have "bs_next d + 1 < 2 ^ 32" using Cons.prems(2) by simp
  from bps_insert_exception_inv [OF Cons.prems(1) this, of mode name]
  have d: "bps_inv ?d" "bs_next ?d + length names < 2 ^ 32" using Cons.prems(2) by auto
  obtain s out1 d1 where r: "insert_names (with_manager procs D) mode names ?d = (s, out1, d1)"
    by (metis prod_cases3)
  have "dbg_InsertExceptionBreakpoint (with_manager procs D) mode name d = (S_OK, bs_next d, ?d)"
    using e by (simp add: with_manager_def)
  then have eq: "status = s" "length out = Suc (length out1)" "d' = d1"
    using Cons.prems(3) r by auto
  have "mode \<in> set (equal_range (bs_exceptions ?d) n)"
    if "n = name \<or> mode \<in> set (equal_range (bs_exceptions d) n)" for n
    using that Insert_range [OF inv, of mode name n] by (auto simp: x)
  then show ?case using Cons.IH [OF d r] eq by auto
qed auto

section \<open>Properties\<close>

text \<open>Only three commands can let an exception escape and end the process; every other command,
  known or unknown, answers whatever its arguments are.\<close>

theorem HandleCommand_throws_only:
  assumes "HandleCommand D cd command args w = Inl e"
  shows "command \<in> {''break-insert'', ''var-list-children'', ''var-show-attributes''}"
  using assms HandleCommand_safe [of command D cd args w e] by blast

theorem HandleCommand_throws_only_witness:
  "HandleCommand idle (\<lambda>_. False) ''var-show-attributes'' [] (init_mi, init_breakpoints) = Inl Out_Of_Range \<and>
   ''var-show-attributes'' \<in> {''break-insert'', ''var-list-children'', ''var-show-attributes''}"
proof
  show e: "HandleCommand idle (\<lambda>_. False) ''var-show-attributes'' [] (init_mi, init_breakpoints) = Inl Out_Of_Range"
    by (simp add: HandleCommand_def cmd_var_show_attributes_def)
  show "''var-show-attributes'' \<in> {''break-insert'', ''var-list-children'', ''var-show-attributes''}"
    by (rule HandleCommand_throws_only [OF e])
qed

text \<open>The two variable commands throw exactly when, after the options they look at, no argument is
  left: \<open>-var-show-attributes\<close> without arguments, and \<open>-var-list-children\<close> with nothing but options.\<close>

theorem variable_commands_throw_iff:
  "(HandleCommand D cd ''var-show-attributes'' args w = Inl e \<longleftrightarrow> args = [] \<and> e = Out_Of_Range) \<and>
   (HandleCommand D cd ''var-list-children'' args w = Inl e \<longleftrightarrow>
      snd (children_values args) \<noteq> [] \<and> StripArgs (snd (children_values args)) = [] \<and> e = Out_Of_Range)"
proof
  show "HandleCommand D cd ''var-show-attributes'' args w = Inl e \<longleftrightarrow> args = [] \<and> e = Out_Of_Range"
    by (cases args) (auto simp: HandleCommand_def cmd_var_show_attributes_def split: option.splits)
  have "cmd_var_list_children D args w = Inl e \<longleftrightarrow>
      snd (children_values args) \<noteq> [] \<and> StripArgs (snd (children_values args)) = [] \<and> e = Out_Of_Range"
    by (cases "StripArgs (snd (children_values args))")
      (auto simp: cmd_var_list_children_def Let_def case_prod_beta)
  then show "HandleCommand D cd ''var-list-children'' args w = Inl e \<longleftrightarrow>
      snd (children_values args) \<noteq> [] \<and> StripArgs (snd (children_values args)) = [] \<and> e = Out_Of_Range"
    by (simp add: HandleCommand_def)
qed

text \<open>Every answer starts with the token of its command and a result record, \<open>^\<close>, so that a client
  can match answers to commands.\<close>

theorem answer_echoes_token:
  assumes "command_turn D cd input w = (token, Answer out w')"
  shows "\<exists>r. out = token @ ''^'' @ r"
proof (cases "ParseLine input")
  case None
  with assms show ?thesis by (auto simp: command_turn_def)
next
  case (Some x)
  obtain t c a where x: "x = (t, c, a)" by (cases x)
  show ?thesis
  proof (cases "HandleCommand D cd c a w")
    case (Inl e)
    with assms Some show ?thesis by (simp add: command_turn_def x)
  next
    case (Inr y)
    obtain hr out1 w1 where y: "y = (hr, out1, w1)" by (cases y)
    have "\<not> m_exit (fst w1)"
      using assms Some Inr by (cases "m_exit (fst w1)") (simp_all add: command_turn_def x y)
    then have "out = result_line token hr out1 @ prompt"
      using assms Some Inr by (auto simp: command_turn_def x y)
    then show ?thesis using result_line_caret [of token hr out1] by auto
  qed
qed

theorem answer_echoes_token_witness:
  "\<exists>out w'. command_turn idle (\<lambda>_. False) ''7-gdb-set'' (init_mi, init_breakpoints) = (''7'', Answer out w') \<and>
     (\<exists>r. out = ''7'' @ ''^'' @ r)"
proof -
  have p: "ParseLine ''7-gdb-set'' = Some (''7'', ''gdb-set'', [])"
    using ParseLine_render [of "''7''" "''gdb-set''" "[]"] by (simp add: is_digit_def default_delimiters_def)
  have h: "HandleCommand idle (\<lambda>_. False) ''gdb-set'' [] (init_mi, init_breakpoints) =
      Inr (S_OK, [], (init_mi, init_breakpoints))"
    by (simp add: HandleCommand_def cmd_gdb_set_def)
  have x: "\<not> m_exit init_mi" by (simp add: init_mi_def)
  have e: "command_turn idle (\<lambda>_. False) ''7-gdb-set'' (init_mi, init_breakpoints) =
      (''7'', Answer (result_line ''7'' S_OK [] @ prompt) (init_mi, init_breakpoints))"
    by (simp add: command_turn_def p h x)
  from answer_echoes_token [OF e] e show ?thesis by blast
qed

text \<open>Listing the children of a variable makes one variable object per child, under the names
  \<open>var<n>\<close> from the counter on, and leaves the other objects alone.\<close>

theorem children_become_objects:
  assumes "m_varCounter m + length cs < 2 ^ 32"
  shows "(\<forall>i < length cs. um_find (m_vars (snd (PrintChildren cs t p hm m)))
      (''var'' @ to_string (m_varCounter m + i)) = Some (cs ! i)) \<and>
    (\<forall>n. (\<forall>i < length cs. n \<noteq> ''var'' @ to_string (m_varCounter m + i)) \<longrightarrow>
      um_find (m_vars (snd (PrintChildren cs t p hm m))) n = um_find (m_vars m) n)"
proof -
  have "snd (PrintChildren cs t p hm m) = snd (print_children cs t p m)"
    by (simp add: PrintChildren_def Let_def case_prod_beta)
  then show ?thesis using print_children_vars [OF assms, of t p] by simp
qed

definition demo_variable :: variable where
  "demo_variable = \<lparr>v_name = ''x'', v_value = ''1'', v_type = ''int'', v_evaluateName = ''x'',
     v_variablesReference = 0, v_namedVariables = 0\<rparr>"

theorem children_become_objects_witness:
  "um_find (m_vars (snd (PrintChildren [demo_variable] 1 1 False init_mi))) ''var0'' = Some demo_variable"
proof -
  have "m_varCounter init_mi + length [demo_variable] < 2 ^ 32" by (simp add: init_mi_def)
  from children_become_objects [OF this, of 1 1 False] show ?thesis
    by (simp add: init_mi_def to_string.simps digit_char_numerals)
qed

text \<open>\<open>-break-exception-insert\<close> succeeds for every list of names and stages it accepts, reports one
  number per name, and afterwards the manager has the filter under each of the names.\<close>

theorem exception_insert_sets_filters:
  assumes "bps_inv d" and "bs_next d + length names < 2 ^ 32" and "names \<noteq> []"
    and "InsertExceptionBreakpoints (with_manager procs D) mode names (m, d) = (status, out, (m', d'))"
  shows "status = S_OK \<and> m' = m \<and> (\<forall>n \<in> set names. mode \<in> set (equal_range (bs_exceptions d') n))"
proof -
  obtain s bufs d1 where r: "insert_names (with_manager procs D) mode names d = (s, bufs, d1)"
    by (metis prod_cases3)
  note I = insert_names_ranges [OF assms(1,2) r]
  have "status = S_OK \<and> m' = m \<and> d' = d1"
    using assms(3,4) I r by (auto simp: InsertExceptionBreakpoints_def split: if_splits)
  then show ?thesis using I by blast
qed

theorem exception_insert_sets_filters_witness:
  "setThrow default_mode \<in> set (equal_range (bs_exceptions (snd (snd (snd
     (InsertExceptionBreakpoints idle (setThrow default_mode) [''A'', ''*''] (init_mi, init_breakpoints)))))) ''A'')"
proof -
  obtain status out m' d' where e: "InsertExceptionBreakpoints idle (setThrow default_mode) [''A'', ''*'']
      (init_mi, init_breakpoints) = (status, out, (m', d'))" by (metis prod_cases4)
  have "bs_next init_breakpoints + length [''A'', ''*''] < 2 ^ 32" by (simp add: init_breakpoints_def)
  from exception_insert_sets_filters [OF bps_inv_init this _ e [unfolded idle_def]] show ?thesis
    using e by simp
qed

end
