(* ===== verification/Module_Loading.thy ===== *)
theory Module_Loading imports Breakpoint_Manager Mi_Print begin

text \<open>
  Loading a module (\<open>modules.cpp\<close>, \<open>jmc.cpp\<close>): its identifier, its symbols, its entry in the table of
  modules, and the methods and classes that "just my code" leaves out.  The answers of the metadata
  interface and of the symbol reader for one module are the fields of two records.
\<close>

section \<open>Just my code\<close>

definition g_nonUserCode :: string where
  "g_nonUserCode = ''System.Diagnostics.DebuggerNonUserCodeAttribute..ctor''"

definition g_stepThrough :: string where
  "g_stepThrough = ''System.Diagnostics.DebuggerStepThroughAttribute..ctor''"

definition g_operatorMethodNames :: "string list" where
  "g_operatorMethodNames =
     [''op_Decrement'', ''op_Increment'', ''op_UnaryNegation'', ''op_UnaryPlus'', ''op_LogicalNot'', ''op_True'',
      ''op_False'', ''op_AddressOf'', ''op_OnesComplement'', ''op_PointerDereference'', ''op_Addition'',
      ''op_Subtraction'', ''op_Multiply'', ''op_Division'', ''op_Modulus'', ''op_ExclusiveOr'', ''op_BitwiseAnd'',
      ''op_BitwiseOr'', ''op_LogicalAnd'', ''op_LogicalOr'', ''op_Assign'', ''op_LeftShift'', ''op_RightShift'',
      ''op_SignedRightShift'', ''op_UnsignedRightShift'', ''op_Equality'', ''op_GreaterThan'', ''op_LessThan'',
      ''op_Inequality'', ''op_GreaterThanOrEqual'', ''op_LessThanOrEqual'', ''op_UnsignedRightShiftAssignment'',
      ''op_MemberSelection'', ''op_RightShiftAssignment'', ''op_MultiplicationAssignment'',
      ''op_PointerToMemberSelection'', ''op_SubtractionAssignment'', ''op_ExclusiveOrAssignment'',
      ''op_LeftShiftAssignment'', ''op_ModulusAssignment'', ''op_AdditionAssignment'',
      ''op_BitwiseAndAssignment'', ''op_BitwiseOrAssignment'', ''op_Comma'', ''op_DivisionAssignment'']"

text \<open>\<open>name.find(prefix) == 0\<close>.\<close>

definition starts_with :: "string \<Rightarrow> string \<Rightarrow> bool" where
  "starts_with p s = (take (length p) s = p)"

definition ShouldLoadSymbolsForModule :: "string \<Rightarrow> bool" where
  "ShouldLoadSymbolsForModule moduleName =
     (let name = GetFileName moduleName
      in if starts_with ''System.'' name \<or> starts_with ''SOS.'' name then False else True)"

text \<open>The metadata of a module: the type definitions, the methods of a type with their names (None when
  \<open>GetMethodProps\<close> fails), its properties with setter and getter, the printed names of the
  attributes of a token, the start lines of a method's sequence points (None when the symbol reader
  fails), and the functions and classes whose JMC status can be set.\<close>

record jmc_metadata =
  jm_typedefs :: "nat list"
  jm_methods :: "nat \<Rightarrow> (nat \<times> string option) list"
  jm_properties :: "nat \<Rightarrow> (nat \<times> nat) option list"
  jm_attributes :: "nat \<Rightarrow> string list"
  jm_start_lines :: "nat \<Rightarrow> int list option"
  jm_function :: "nat \<Rightarrow> bool"
  jm_class :: "nat \<Rightarrow> bool"

fun has_attribute_loop :: "string \<Rightarrow> string list \<Rightarrow> bool" where
  "has_attribute_loop attrName [] = False"
| "has_attribute_loop attrName (mdName # rest) =
     (if mdName = attrName then True else has_attribute_loop attrName rest)"

definition HasAttribute :: "jmc_metadata \<Rightarrow> nat \<Rightarrow> string \<Rightarrow> bool" where
  "HasAttribute md tok attrName = has_attribute_loop attrName (jm_attributes md tok)"

definition HiddenLine :: int where "HiddenLine = 0xFEEFEE"

definition HasSourceLocation :: "jmc_metadata \<Rightarrow> nat \<Rightarrow> bool" where
  "HasSourceLocation md methodDef =
     (case jm_start_lines md methodDef of
        None \<Rightarrow> False
      | Some points \<Rightarrow> list_ex (\<lambda>startLine. startLine \<noteq> 0 \<and> startLine \<noteq> HiddenLine) points)"

fun excluded_methods :: "jmc_metadata \<Rightarrow> (nat \<times> string option) list \<Rightarrow> nat list" where
  "excluded_methods md [] = []"
| "excluded_methods md ((methodDef, props) # rest) =
     (case props of
        None \<Rightarrow> excluded_methods md rest
      | Some szFunctionName \<Rightarrow>
          if szFunctionName \<in> set g_operatorMethodNames \<or> HasAttribute md methodDef g_nonUserCode
             \<or> HasAttribute md methodDef g_stepThrough \<or> \<not> HasSourceLocation md methodDef
          then methodDef # excluded_methods md rest
          else excluded_methods md rest)"

fun excluded_accessors :: "(nat \<times> nat) option list \<Rightarrow> nat list" where
  "excluded_accessors [] = []"
| "excluded_accessors (None # rest) = excluded_accessors rest"
| "excluded_accessors (Some (mdSetter, mdGetter) # rest) =
     (if mdSetter \<noteq> mdMethodDefNil then [mdSetter] else []) @
     (if mdGetter \<noteq> mdMethodDefNil then [mdGetter] else []) @ excluded_accessors rest"

definition GetNonJMCMethodsForTypeDef :: "jmc_metadata \<Rightarrow> nat \<Rightarrow> nat list" where
  "GetNonJMCMethodsForTypeDef md typeDef =
     excluded_methods md (jm_methods md typeDef) @ excluded_accessors (jm_properties md typeDef)"

fun excluded_types :: "jmc_metadata \<Rightarrow> nat list \<Rightarrow> nat list" where
  "excluded_types md [] = []"
| "excluded_types md (typeDef # rest) =
     (if HasAttribute md typeDef g_nonUserCode then [typeDef] else GetNonJMCMethodsForTypeDef md typeDef)
     @ excluded_types md rest"

definition GetNonJMCClassesAndMethods :: "jmc_metadata option \<Rightarrow> nat list" where
  "GetNonJMCClassesAndMethods mdo =
     (case mdo of None \<Rightarrow> [] | Some md \<Rightarrow> excluded_types md (jm_typedefs md))"

text \<open>The kind of a token is its highest byte.\<close>

definition TypeFromToken :: "nat \<Rightarrow> nat" where
  "TypeFromToken tk = (tk mod 2 ^ 32 div 2 ^ 24) * 2 ^ 24"

definition mdtTypeDef :: nat where "mdtTypeDef = 0x02000000"
definition mdtMethodDef :: nat where "mdtMethodDef = 0x06000000"

datatype jmc_call = Method_Not_Mine nat | Class_Not_Mine nat

fun jmc_calls :: "jmc_metadata \<Rightarrow> nat list \<Rightarrow> jmc_call list" where
  "jmc_calls md [] = []"
| "jmc_calls md (token # rest) =
     (if TypeFromToken token = mdtMethodDef then
        (if \<not> jm_function md token then jmc_calls md rest
         else Method_Not_Mine token # jmc_calls md rest)
      else if TypeFromToken token = mdtTypeDef then
        (if \<not> jm_class md token then jmc_calls md rest
         else Class_Not_Mine token # jmc_calls md rest)
      else jmc_calls md rest)"

definition SetJMCFromAttributes :: "jmc_metadata option \<Rightarrow> jmc_call list" where
  "SetJMCFromAttributes mdo =
     (case mdo of None \<Rightarrow> [] | Some md \<Rightarrow> jmc_calls md (GetNonJMCClassesAndMethods mdo))"

section \<open>The identifier of a module\<close>

record guid =
  Data1 :: "32 word"
  Data2 :: "16 word"
  Data3 :: "16 word"
  Data4 :: "8 word list"

definition hexw :: "nat \<Rightarrow> nat \<Rightarrow> string" where
  "hexw w n = zero_pad w (to_hex n)"

definition GetModuleId :: "guid \<Rightarrow> string" where
  "GetModuleId mvid =
     hexw 8 (unat (Data1 mvid)) @ ''-'' @ hexw 4 (unat (Data2 mvid)) @ ''-'' @ hexw 4 (unat (Data3 mvid)) @ ''-'' @
     hexw 2 (unat (Data4 mvid ! 0)) @ hexw 2 (unat (Data4 mvid ! 1)) @ ''-'' @
     concat (map (\<lambda>i. hexw 2 (unat (Data4 mvid ! i))) [2..<8])"

section \<open>Loading\<close>

text \<open>What the runtime answers for a module that is being loaded: the module, the metadata, whether
  symbols are found for it, the JMC interface, and the module version identifier.\<close>

record module_load =
  ld_module :: clr_module
  ld_metadata :: "jmc_metadata option"
  ld_symbols :: bool
  ld_module2 :: bool
  ld_mvid :: "guid option"

definition empty_module :: module_info where
  "empty_module = \<lparr>mi_id = [], mi_name = [], mi_path = [], mi_symbolStatus = SymbolsSkipped,
                   mi_baseAddress = 0, mi_size = 0\<rparr>"

definition symbol_status_of :: "module_load \<Rightarrow> string \<Rightarrow> symbol_status" where
  "symbol_status_of ld path =
     (if ShouldLoadSymbolsForModule path
      then (if ld_symbols ld then SymbolsLoaded else SymbolsNotFound) else SymbolsSkipped)"

text \<open>The JMC calls: the status of the whole module, then what the attributes leave out.\<close>

definition jmc_setup :: "module_load \<Rightarrow> symbol_status \<Rightarrow> (bool \<times> jmc_call list) option" where
  "jmc_setup ld status =
     (if ld_module2 ld
      then Some (status = SymbolsLoaded,
                 if status = SymbolsLoaded then SetJMCFromAttributes (ld_metadata ld) else [])
      else None)"

text \<open>\<open>module\<close> is an out parameter: a failure leaves in it what was set so far.\<close>

definition TryLoadModuleSymbols ::
  "module_load \<Rightarrow> modules \<Rightarrow> bool \<times> module_info \<times> (bool \<times> jmc_call list) option \<times> modules" where
  "TryLoadModuleSymbols ld ms =
     (if ld_metadata ld = None then (False, empty_module, None, ms)
      else
        let path = GetModuleFileName (ld_module ld);
            status = symbol_status_of ld path;
            m1 = empty_module\<lparr>mi_path := path, mi_name := GetFileName path, mi_symbolStatus := status\<rparr>;
            jmc = jmc_setup ld status
        in case ld_mvid ld of
             None \<Rightarrow> (False, m1, jmc, ms)
           | Some mvid \<Rightarrow>
               let m2 = m1\<lparr>mi_id := GetModuleId mvid\<rparr> in
               (case (cm_base (ld_module ld), cm_size (ld_module ld)) of
                  (Some a, Some sz) \<Rightarrow>
                    (True, m2\<lparr>mi_baseAddress := a, mi_size := sz\<rparr>, jmc,
                     snd (register_module (ld_module ld) ms))
                | _ \<Rightarrow> (False, m2, jmc, ms)))"

section \<open>Facts about the exclusions\<close>

lemma has_attribute_loop_iff: "has_attribute_loop a xs \<longleftrightarrow> a \<in> set xs"
  by (induction a xs rule: has_attribute_loop.induct) auto

definition hidden_method :: "jmc_metadata \<Rightarrow> nat \<Rightarrow> string \<Rightarrow> bool" where
  "hidden_method md t name \<longleftrightarrow>
     name \<in> set g_operatorMethodNames \<or> g_nonUserCode \<in> set (jm_attributes md t) \<or>
     g_stepThrough \<in> set (jm_attributes md t) \<or> \<not> HasSourceLocation md t"

lemma set_excluded_methods:
  "set (excluded_methods md ms) = {t. \<exists>name. (t, Some name) \<in> set ms \<and> hidden_method md t name}"
proof (induction md ms rule: excluded_methods.induct)
  case (2 md t props rest)
  then show ?case
    by (cases props) (auto simp: hidden_method_def HasAttribute_def has_attribute_loop_iff)
qed simp

lemma set_excluded_accessors:
  "set (excluded_accessors ps) =
     {t. t \<noteq> mdMethodDefNil \<and> (\<exists>u. Some (t, u) \<in> set ps \<or> Some (u, t) \<in> set ps)}"
  by (induction ps rule: excluded_accessors.induct) auto

lemma set_excluded_types:
  "set (excluded_types md tys) =
     {ty \<in> set tys. g_nonUserCode \<in> set (jm_attributes md ty)} \<union>
     (\<Union>ty \<in> {ty \<in> set tys. g_nonUserCode \<notin> set (jm_attributes md ty)}. set (GetNonJMCMethodsForTypeDef md ty))"
  by (induction md tys rule: excluded_types.induct) (auto simp: HasAttribute_def has_attribute_loop_iff)

lemma jmc_calls_method:
  "Method_Not_Mine t \<in> set (jmc_calls md ts) \<longleftrightarrow>
     t \<in> set ts \<and> TypeFromToken t = mdtMethodDef \<and> jm_function md t"
  by (induction md ts rule: jmc_calls.induct) auto

lemma jmc_calls_class:
  "Class_Not_Mine t \<in> set (jmc_calls md ts) \<longleftrightarrow>
     t \<in> set ts \<and> TypeFromToken t = mdtTypeDef \<and> jm_class md t"
  by (induction md ts rule: jmc_calls.induct) (auto simp: mdtMethodDef_def mdtTypeDef_def)

section \<open>Facts about identifiers\<close>

definition hex_val :: "char \<Rightarrow> nat" where
  "hex_val c = (let n = of_char c in if n < 58 then n - 48 else n - 87)"

definition from_hex :: "string \<Rightarrow> nat" where
  "from_hex s = foldl (\<lambda>n c. 16 * n + hex_val c) 0 s"

lemma hex_val_digit: "d < 16 \<Longrightarrow> hex_val (hex_digit d) = d"
  by (auto simp: hex_val_def hex_digit_def Let_def)

lemma from_hex_snoc: "from_hex (s @ [c]) = 16 * from_hex s + hex_val c"
  by (simp add: from_hex_def)

lemma from_hex_to_hex: "from_hex (to_hex n) = n"
proof (induction n rule: to_hex.induct)
  case (1 n)
  show ?case
  proof (cases "n < 16")
    case True
    then show ?thesis by (simp add: to_hex.simps [of n] from_hex_def hex_val_digit)
  next
    case False
    then have "from_hex (to_hex n) = 16 * from_hex (to_hex (n div 16)) + n mod 16"
      by (simp add: to_hex.simps [of n] from_hex_snoc hex_val_digit)
    with 1 False show ?thesis by simp
  qed
qed

lemma from_hex_zeros: "from_hex (replicate k (CHR ''0'') @ s) = from_hex s"
  by (induction k) (simp_all add: from_hex_def hex_val_def)

lemma from_hex_hexw [simp]: "from_hex (hexw w n) = n"
  by (simp add: hexw_def zero_pad_def from_hex_zeros from_hex_to_hex)

lemma length_to_hex: "n < 16 ^ Suc w \<Longrightarrow> length (to_hex n) \<le> Suc w"
proof (induction w arbitrary: n)
  case 0
  then show ?case by (simp add: to_hex.simps [of n])
next
  case (Suc w)
  show ?case
  proof (cases "n < 16")
    case False
    from Suc.prems have "n div 16 < 16 ^ Suc w" by (simp add: less_mult_imp_div_less)
    from Suc.IH [OF this] False show ?thesis by (simp add: to_hex.simps [of n])
  qed (simp add: to_hex.simps [of n])
qed

lemma length_hexw: "n < 16 ^ w \<Longrightarrow> 0 < w \<Longrightarrow> length (hexw w n) = w"
  using length_to_hex [of n "w - 1"] by (simp add: hexw_def zero_pad_def)

lemma length_hexw_byte [simp]: "length (hexw 2 (unat (b :: 8 word))) = 2"
  by (rule length_hexw) (use unsigned_less [of b] in simp_all)

lemma length_hexw_half [simp]: "length (hexw 4 (unat (b :: 16 word))) = 4"
  by (rule length_hexw) (use unsigned_less [of b] in simp_all)

lemma length_hexw_word [simp]: "length (hexw 8 (unat (b :: 32 word))) = 8"
  by (rule length_hexw) (use unsigned_less [of b] in simp_all)

text \<open>The reader of an identifier: fields at their fixed places.\<close>

definition field_at :: "nat \<Rightarrow> nat \<Rightarrow> string \<Rightarrow> nat" where
  "field_at i w s = from_hex (take w (drop i s))"

definition read_module_id :: "string \<Rightarrow> guid" where
  "read_module_id s =
     \<lparr>Data1 = of_nat (field_at 0 8 s), Data2 = of_nat (field_at 9 4 s), Data3 = of_nat (field_at 14 4 s),
      Data4 = map (\<lambda>i. of_nat (field_at i 2 s)) [19, 21, 24, 26, 28, 30, 32, 34]\<rparr>"

lemma field_skip: "length p \<le> i \<Longrightarrow> field_at i w (p @ s) = field_at (i - length p) w s"
  by (simp add: field_at_def)

lemma field_here: "length p = w \<Longrightarrow> field_at 0 w (p @ s) = from_hex p"
  by (simp add: field_at_def)

lemma field_char: "0 < i \<Longrightarrow> field_at i w (c # s) = field_at (i - 1) w s"
  using field_skip [of "[c]" i w s] by simp

lemma field_end: "length p = w \<Longrightarrow> field_at 0 w p = from_hex p"
  by (simp add: field_at_def)

lemmas field_simps' = field_skip field_here field_char field_end

lemma GetModuleId_bytes:
  "GetModuleId \<lparr>Data1 = a, Data2 = b, Data3 = c, Data4 = [d0, d1, d2, d3, d4, d5, d6, d7]\<rparr> =
     hexw 8 (unat a) @ CHR ''-'' # hexw 4 (unat b) @ CHR ''-'' # hexw 4 (unat c) @ CHR ''-'' #
     hexw 2 (unat d0) @ hexw 2 (unat d1) @ CHR ''-'' # hexw 2 (unat d2) @ hexw 2 (unat d3) @
     hexw 2 (unat d4) @ hexw 2 (unat d5) @ hexw 2 (unat d6) @ hexw 2 (unat d7)"
  by (simp add: GetModuleId_def upt_conv_Cons)

lemma read_GetModuleId: "length (Data4 g) = 8 \<Longrightarrow> read_module_id (GetModuleId g) = g"
proof -
  assume "length (Data4 g) = 8"
  then obtain d0 d1 d2 d3 d4 d5 d6 d7 where "Data4 g = [d0, d1, d2, d3, d4, d5, d6, d7]"
    by (auto simp: numeral_eq_Suc length_Suc_conv)
  then have "g = \<lparr>Data1 = Data1 g, Data2 = Data2 g, Data3 = Data3 g,
      Data4 = [d0, d1, d2, d3, d4, d5, d6, d7]\<rparr>" by simp
  then obtain a b c where g: "g = \<lparr>Data1 = a, Data2 = b, Data3 = c, Data4 = [d0, d1, d2, d3, d4, d5, d6, d7]\<rparr>"
    by blast
  show ?thesis by (simp add: g GetModuleId_bytes read_module_id_def field_simps')
qed

section \<open>Properties\<close>

text \<open>The identifier printed for a module determines its version identifier: all of it can be read back
  from the text, so two modules show the same identifier only when they are the same version.\<close>

theorem module_id_roundtrip:
  assumes "length (Data4 mvid) = 8"
  shows "read_module_id (GetModuleId mvid) = mvid \<and> length (GetModuleId mvid) = 36"
proof
  show "read_module_id (GetModuleId mvid) = mvid" using assms by (rule read_GetModuleId)
  from assms obtain d0 d1 d2 d3 d4 d5 d6 d7 where "Data4 mvid = [d0, d1, d2, d3, d4, d5, d6, d7]"
    by (auto simp: numeral_eq_Suc length_Suc_conv)
  then show "length (GetModuleId mvid) = 36" by (simp add: GetModuleId_def upt_conv_Cons)
qed

theorem module_id_roundtrip_witness:
  "read_module_id (GetModuleId \<lparr>Data1 = 1, Data2 = 2, Data3 = 3, Data4 = [4, 5, 6, 7, 8, 9, 10, 11]\<rparr>) =
     \<lparr>Data1 = 1, Data2 = 2, Data3 = 3, Data4 = [4, 5, 6, 7, 8, 9, 10, 11]\<rparr>"
  using module_id_roundtrip
    [of "\<lparr>Data1 = 1, Data2 = 2, Data3 = 3, Data4 = [4, 5, 6, 7, 8, 9, 10, 11]\<rparr>"] by simp

text \<open>"Just my code" is switched off for exactly these methods: in a type that is not itself marked as
  not the user's, the operators, the methods marked as not the user's or to be stepped through, those
  without a source line, and the accessors of properties.\<close>

theorem just_my_code_methods:
  assumes "\<forall>ty \<in> set (jm_typedefs md). TypeFromToken ty = mdtTypeDef"
  shows "Method_Not_Mine t \<in> set (SetJMCFromAttributes (Some md)) \<longleftrightarrow>
    TypeFromToken t = mdtMethodDef \<and> jm_function md t \<and>
    (\<exists>ty \<in> set (jm_typedefs md). g_nonUserCode \<notin> set (jm_attributes md ty) \<and>
       ((\<exists>name. (t, Some name) \<in> set (jm_methods md ty) \<and> hidden_method md t name) \<or>
        t \<noteq> mdMethodDefNil \<and> (\<exists>u. Some (t, u) \<in> set (jm_properties md ty) \<or> Some (u, t) \<in> set (jm_properties md ty))))"
proof -
  have "t \<notin> set (jm_typedefs md)" if "TypeFromToken t = mdtMethodDef"
    using assms that by (auto simp: mdtMethodDef_def mdtTypeDef_def)
  then show ?thesis
    by (auto simp: SetJMCFromAttributes_def GetNonJMCClassesAndMethods_def jmc_calls_method set_excluded_types
        GetNonJMCMethodsForTypeDef_def set_excluded_methods set_excluded_accessors)
qed

definition demo_metadata :: jmc_metadata where
  "demo_metadata =
     \<lparr>jm_typedefs = [0x02000001], jm_methods = (\<lambda>_. [(0x06000001, Some ''Main''), (0x06000002, Some ''op_True'')]),
      jm_properties = (\<lambda>_. []), jm_attributes = (\<lambda>_. []), jm_start_lines = (\<lambda>_. Some [7]),
      jm_function = (\<lambda>_. True), jm_class = (\<lambda>_. True)\<rparr>"

theorem just_my_code_methods_witness:
  "Method_Not_Mine 0x06000002 \<in> set (SetJMCFromAttributes (Some demo_metadata)) \<and>
   Method_Not_Mine 0x06000001 \<notin> set (SetJMCFromAttributes (Some demo_metadata))"
proof -
  have h: "\<forall>ty \<in> set (jm_typedefs demo_metadata). TypeFromToken ty = mdtTypeDef"
    by (simp add: demo_metadata_def TypeFromToken_def mdtTypeDef_def)
  show ?thesis
    using just_my_code_methods [OF h, where t = "0x06000001"] just_my_code_methods [OF h, where t = "0x06000002"]
    by (simp add: demo_metadata_def TypeFromToken_def mdtMethodDef_def hidden_method_def HasSourceLocation_def
        HiddenLine_def g_operatorMethodNames_def)
qed

end
