(* ===== verification/Evaluation.thy ===== *)
theory Evaluation imports Prelude begin

text \<open>
  Function evaluations in the debuggee (\<open>valuewalk.cpp\<close>, \<open>class Evaluator\<close> of \<open>manageddebugger.h\<close>):
  the table of running evaluations, one promise per thread, and the queue of threads that evaluate.
  A command thread starts an evaluation and waits for its future; the callback thread completes it.
  A promise is a number; its future is unresolved, holds a value, or is broken.
\<close>

section \<open>State\<close>

datatype outcome = Value "nat option" | Broken

record evaluator =
  m_evalResults :: "(nat, nat) umap"
  m_evalQueue :: "nat list"
  ev_next :: nat
  ev_futures :: "(nat, outcome) umap"

definition init_evaluator :: evaluator where
  "init_evaluator = \<lparr>m_evalResults = [], m_evalQueue = [], ev_next = 0, ev_futures = []\<rparr>"

text \<open>Calls into the runtime that change what the debuggee does.\<close>

datatype rt_call =
    Rt_Continue | Rt_Stop | Rt_Detach | Rt_Terminate | Rt_Debug_Terminate
  | Rt_Run_All | Rt_Suspend_All | Rt_Suspend_All_But nat | Rt_Run_Thread nat
  | Rt_Intercept | Rt_Deactivate_Stepper nat | Rt_Deactivate_Breakpoint nat
  | Rt_Step_Out | Rt_Step_Range bool nat nat | Rt_Step bool

definition is_empty_eval_queue :: "evaluator \<Rightarrow> bool" where
  "is_empty_eval_queue ev = (m_evalQueue ev = [])"

definition push_eval_queue :: "nat \<Rightarrow> evaluator \<Rightarrow> evaluator" where
  "push_eval_queue tid ev = ev\<lparr>m_evalQueue := m_evalQueue ev @ [tid]\<rparr>"

definition front_eval_queue :: "evaluator \<Rightarrow> nat" where
  "front_eval_queue ev = (case m_evalQueue ev of [] \<Rightarrow> 0 | tid # _ \<Rightarrow> tid)"

definition pop_eval_queue :: "evaluator \<Rightarrow> evaluator" where
  "pop_eval_queue ev = ev\<lparr>m_evalQueue := tl (m_evalQueue ev)\<rparr>"

section \<open>Operations\<close>

text \<open>Destroying a promise without a value breaks its future.\<close>

fun break_promises :: "(nat \<times> nat) list \<Rightarrow> (nat, outcome) umap \<Rightarrow> (nat, outcome) umap" where
  "break_promises [] fs = fs"
| "break_promises ((_, p) # rest) fs = break_promises rest (um_assign p Broken fs)"

text \<open>\<open>NotifyEvalComplete\<close>: no thread means that the process is gone; otherwise the result of the
  evaluation (null without one) goes to the promise of the thread.\<close>

definition NotifyEvalComplete :: "nat option \<Rightarrow> nat option \<Rightarrow> evaluator \<Rightarrow> evaluator" where
  "NotifyEvalComplete pThread result ev =
     (case pThread of
        None \<Rightarrow> ev\<lparr>m_evalResults := [], ev_futures := break_promises (m_evalResults ev) (ev_futures ev)\<rparr>
      | Some threadId \<Rightarrow>
          (case um_find (m_evalResults ev) threadId of
             None \<Rightarrow> ev
           | Some p \<Rightarrow> ev\<lparr>ev_futures := um_assign p (Value result) (ev_futures ev),
                         m_evalResults := um_erase threadId (m_evalResults ev)\<rparr>))"

definition IsEvalRunning :: "evaluator \<Rightarrow> bool" where
  "IsEvalRunning ev = (m_evalResults ev \<noteq> [])"

text \<open>\<open>RunEval\<close> for a thread, with the answers of \<open>GetProcess\<close> and \<open>Continue\<close>: the promise it returns
  the future of, and the calls.\<close>

definition RunEval ::
  "nat \<Rightarrow> bool \<Rightarrow> bool \<Rightarrow> evaluator \<Rightarrow> nat \<times> evaluator \<times> rt_call list" where
  "RunEval threadId process continued ev =
     (let p = ev_next ev; ev1 = ev\<lparr>ev_next := p + 1\<rparr>;
          broken = ev1\<lparr>ev_futures := um_assign p Broken (ev_futures ev)\<rparr>
      in if \<not> process then (p, broken, [])
         else if um_find (m_evalResults ev) threadId \<noteq> None then (p, broken, [])
         else (p, (if continued then ev1\<lparr>m_evalResults := um_assign threadId p (m_evalResults ev)\<rparr> else broken),
               [Rt_Suspend_All_But threadId, Rt_Run_Thread threadId, Rt_Continue]))"

text \<open>What \<open>WaitEvalResult\<close> returns once the future is resolved; None while it waits.\<close>

definition WaitEvalResult :: "evaluator \<Rightarrow> nat \<Rightarrow> bool \<Rightarrow> (hresult \<times> nat option) option" where
  "WaitEvalResult ev p wanted =
     (case um_find (ev_futures ev) p of
        None \<Rightarrow> None
      | Some Broken \<Rightarrow> Some (E_FAIL, None)
      | Some (Value v) \<Rightarrow>
          if \<not> wanted then Some (S_OK, None)
          else (case v of None \<Rightarrow> Some (E_FAIL, None) | Some r \<Rightarrow> Some (S_OK, Some r)))"

text \<open>The answers of the runtime in \<open>EvalFunction\<close>: \<open>CreateEval\<close>, the \<open>ICorDebugEval2\<close> interface, and
  \<open>CallParameterizedFunction\<close>.  \<open>Inr\<close> is the promise that the caller waits for.\<close>

definition EvalFunction ::
  "hresult \<Rightarrow> hresult \<Rightarrow> hresult \<Rightarrow> nat \<Rightarrow> bool \<Rightarrow> bool \<Rightarrow> evaluator \<Rightarrow>
     (hresult + nat) \<times> evaluator \<times> rt_call list" where
  "EvalFunction create eval2 called tid process continued ev =
     (if \<not> succeeded create then (Inl create, ev, [])
      else if \<not> succeeded eval2 then (Inl eval2, ev, [])
      else if \<not> succeeded called then (Inl called, ev, [])
      else (case RunEval tid process continued (push_eval_queue tid ev) of
              (p, ev', calls) \<Rightarrow> (Inr p, ev', calls)))"

section \<open>Steps\<close>

inductive ev_step :: "evaluator \<Rightarrow> evaluator \<Rightarrow> bool" where
  step_eval: "EvalFunction create eval2 called tid process continued ev = (r, ev', calls) \<Longrightarrow> ev_step ev ev'"
| step_notify: "ev_step ev (NotifyEvalComplete pThread result ev)"
| step_push: "ev_step ev (push_eval_queue tid ev)"
| step_pop: "ev_step ev (pop_eval_queue ev)"

inductive_cases ev_stepE: "ev_step ev ev'"

text \<open>Every promise ever handed out is either in the table, for one thread, or resolved.\<close>

definition ev_inv :: "evaluator \<Rightarrow> bool" where
  "ev_inv ev \<longleftrightarrow> um_wf (m_evalResults ev) \<and> distinct (map snd (m_evalResults ev)) \<and>
     set (map snd (m_evalResults ev)) \<inter> set (um_keys (ev_futures ev)) = {} \<and>
     set (map snd (m_evalResults ev)) \<union> set (um_keys (ev_futures ev)) = {..< ev_next ev}"

lemma keys_assign [simp]: "set (um_keys (um_assign k v m)) = insert k (set (um_keys m))"
  by (simp add: um_keys_def set_um_keys_assign [simplified])

lemma keys_break [simp]: "set (um_keys (break_promises ps fs)) = set (map snd ps) \<union> set (um_keys fs)"
  by (induction ps fs rule: break_promises.induct) auto

lemma set_snd_assign_new:
  "um_find m k = None \<Longrightarrow> set (map snd (um_assign k v m)) = insert v (set (map snd m))"
  by (induction k v m rule: um_assign.induct) (auto simp: um_find_Cons split: if_splits)

lemma distinct_snd_assign_new:
  "um_find m k = None \<Longrightarrow> v \<notin> set (map snd m) \<Longrightarrow> distinct (map snd m) \<Longrightarrow>
     distinct (map snd (um_assign k v m))"
proof (induction k v m rule: um_assign.induct)
  case (2 k v k' v' m)
  then have "k \<noteq> k'" and n: "um_find m k = None" by (auto simp: um_find_Cons split: if_splits)
  with 2 show ?case using set_snd_assign_new [OF n, of v] by auto
qed simp

lemma snd_erase:
  assumes "um_wf m" and "distinct (map snd m)" and "um_find m k = Some p"
  shows "set (map snd (um_erase k m)) = set (map snd m) - {p}"
proof -
  have kp: "(k, p) \<in> set m" using assms(3) by (rule um_find_SomeD)
  have inj: "inj_on snd (set m)" using assms(2) by (simp add: distinct_map)
  have one: "v = p" if "(k, v) \<in> set m" for v
    using um_find_in_set [OF assms(1), of k v] that assms(3) by simp
  have two: "k' = k" if "(k', p) \<in> set m" for k'
    using inj_onD [OF inj _ that kp] by simp
  show ?thesis
  proof (intro subset_antisym subsetI)
    fix v assume "v \<in> set (map snd (um_erase k m))"
    then obtain k' where "(k', v) \<in> set m" "k' \<noteq> k" by (auto simp: um_erase_def)
    then show "v \<in> set (map snd m) - {p}" using two by force
  next
    fix v assume "v \<in> set (map snd m) - {p}"
    then obtain k' where "(k', v) \<in> set m" "v \<noteq> p" by auto
    moreover from this one have "k' \<noteq> k" by blast
    ultimately show "v \<in> set (map snd (um_erase k m))" by (force simp: um_erase_def)
  qed
qed

lemma distinct_snd_erase: "distinct (map snd m) \<Longrightarrow> distinct (map snd (um_erase k m))"
  by (simp add: um_erase_def distinct_map_filter)

lemma find_pending: "um_find m k = Some p \<Longrightarrow> p \<in> set (map snd m)"
  by (force dest: um_find_SomeD)


section \<open>The invariant is kept\<close>

lemma ev_inv_init: "ev_inv init_evaluator"
  by (simp add: ev_inv_def init_evaluator_def um_keys_def)

lemma ev_inv_queue:
  "ev_inv (push_eval_queue tid ev) = ev_inv ev" "ev_inv (pop_eval_queue ev) = ev_inv ev"
  by (simp_all add: ev_inv_def push_eval_queue_def pop_eval_queue_def)

lemma ev_inv_notify:
  assumes "ev_inv ev"
  shows "ev_inv (NotifyEvalComplete pThread result ev)"
proof (cases pThread)
  case None
  then show ?thesis using assms by (auto simp: ev_inv_def NotifyEvalComplete_def)
next
  case (Some t)
  show ?thesis
  proof (cases "um_find (m_evalResults ev) t")
    case None
    then show ?thesis using assms by (simp add: NotifyEvalComplete_def Some)
  next
    case p: (Some p)
    from assms have e: "set (map snd (um_erase t (m_evalResults ev))) = set (map snd (m_evalResults ev)) - {p}"
      by (intro snd_erase p) (simp_all add: ev_inv_def)
    have "p \<in> set (map snd (m_evalResults ev))" using p by (rule find_pending)
    then show ?thesis
      using assms by (auto simp: ev_inv_def NotifyEvalComplete_def Some p e [simplified] distinct_snd_erase [simplified])
  qed
qed

lemma ev_inv_run:
  assumes "ev_inv ev" and "RunEval tid process continued ev = (p, ev', calls)"
  shows "ev_inv ev'" and "p = ev_next ev" and "ev_next ev' = Suc (ev_next ev)"
proof -
  have fresh: "ev_next ev \<notin> set (map snd (m_evalResults ev))" "ev_next ev \<notin> set (um_keys (ev_futures ev))"
    using assms(1) unfolding ev_inv_def by (metis UnCI lessThan_iff nat_neq_iff)+
  show "p = ev_next ev" "ev_next ev' = Suc (ev_next ev)"
    using assms(2) by (auto simp: RunEval_def Let_def split: if_splits)
  have broken: "ev_inv (ev\<lparr>ev_next := Suc (ev_next ev), ev_futures := um_assign (ev_next ev) Broken (ev_futures ev)\<rparr>)"
    using assms(1) fresh by (auto simp: ev_inv_def)
  have started: "ev_inv (ev\<lparr>ev_next := Suc (ev_next ev), m_evalResults := um_assign tid (ev_next ev) (m_evalResults ev)\<rparr>)"
    if n: "um_find (m_evalResults ev) tid = None"
    using assms(1) fresh distinct_snd_assign_new [OF n fresh(1)] set_snd_assign_new [OF n, of "ev_next ev"]
    by (auto simp: ev_inv_def)
  show "ev_inv ev'"
    using assms(2) broken started by (auto simp: RunEval_def Let_def split: if_splits)
qed

lemma ev_inv_step: "ev_step ev ev' \<Longrightarrow> ev_inv ev \<Longrightarrow> ev_inv ev'"
proof (induction rule: ev_step.induct)
  case (step_eval create eval2 called tid process continued ev r ev' calls)
  show ?case
  proof (cases "succeeded create \<and> succeeded eval2 \<and> succeeded called")
    case True
    obtain p ev2 c where R: "RunEval tid process continued (push_eval_queue tid ev) = (p, ev2, c)"
      by (cases "RunEval tid process continued (push_eval_queue tid ev)")
    have "ev_inv (push_eval_queue tid ev)" using step_eval.prems by (simp add: ev_inv_queue)
    from ev_inv_run(1) [OF this R] show ?thesis using step_eval.hyps True by (simp add: EvalFunction_def R)
  next
    case False
    then show ?thesis using step_eval by (auto simp: EvalFunction_def split: if_splits)
  qed
qed (simp_all add: ev_inv_queue ev_inv_notify)

lemma ev_inv_reachable: "ev_step\<^sup>*\<^sup>* init_evaluator ev \<Longrightarrow> ev_inv ev"
  by (induction rule: rtranclp_induct) (auto simp: ev_inv_init intro: ev_inv_step)

lemma exit_resolves:
  assumes "ev_inv ev" and "p < ev_next ev"
  shows "WaitEvalResult (NotifyEvalComplete None result ev) p wanted \<noteq> None"
proof -
  have "p \<in> set (map snd (m_evalResults ev)) \<union> set (um_keys (ev_futures ev))"
    using assms by (simp add: ev_inv_def)
  then have "p \<in> set (um_keys (break_promises (m_evalResults ev) (ev_futures ev)))" by simp
  then have "um_find (break_promises (m_evalResults ev) (ev_futures ev)) p \<noteq> None"
    by (simp add: um_find_None_iff)
  then show ?thesis
    by (auto simp: WaitEvalResult_def NotifyEvalComplete_def split: outcome.splits option.splits)
qed

section \<open>Properties\<close>

text \<open>C33. When the process exits, no evaluation is left waiting: whatever evaluations were started,
  completed and queued before, every future that was ever handed out is then resolved.\<close>

theorem exit_releases_evaluations:
  assumes "ev_step\<^sup>*\<^sup>* init_evaluator ev" and "p < ev_next ev"
  shows "WaitEvalResult (NotifyEvalComplete None result ev) p wanted \<noteq> None"
  by (rule exit_resolves [OF ev_inv_reachable [OF assms(1)] assms(2)])

definition demo_running :: evaluator where
  "demo_running = (case EvalFunction S_OK S_OK S_OK 7 True True init_evaluator of (_, ev, _) \<Rightarrow> ev)"

lemma demo_running_eq:
  "demo_running = \<lparr>m_evalResults = [(7, 0)], m_evalQueue = [7], ev_next = 1, ev_futures = []\<rparr>"
  by (simp add: demo_running_def EvalFunction_def RunEval_def push_eval_queue_def init_evaluator_def Let_def)

theorem exit_releases_evaluations_witness:
  "WaitEvalResult (NotifyEvalComplete None None demo_running) 0 True \<noteq> None"
proof -
  have "ev_step init_evaluator demo_running"
    by (rule step_eval [of S_OK S_OK S_OK 7 True True _ "Inr 0" _ "[Rt_Suspend_All_But 7, Rt_Run_Thread 7, Rt_Continue]"])
      (simp add: EvalFunction_def RunEval_def push_eval_queue_def init_evaluator_def Let_def demo_running_eq)
  then show ?thesis
    by (intro exit_releases_evaluations r_into_rtranclp) (simp_all add: demo_running_eq)
qed

text \<open>The completion of an evaluation resolves the future of the thread it ran on, with its result, and
  no other; the thread can evaluate again afterwards.\<close>

theorem completion_is_exact:
  assumes "um_find (m_evalResults ev) t = Some p"
  shows "um_find (m_evalResults (NotifyEvalComplete (Some t) result ev)) t = None \<and>
    um_find (ev_futures (NotifyEvalComplete (Some t) result ev)) p = Some (Value result) \<and>
    (\<forall>q wanted. q \<noteq> p \<longrightarrow>
       WaitEvalResult (NotifyEvalComplete (Some t) result ev) q wanted = WaitEvalResult ev q wanted) \<and>
    (\<forall>t'. t' \<noteq> t \<longrightarrow>
       um_find (m_evalResults (NotifyEvalComplete (Some t) result ev)) t' = um_find (m_evalResults ev) t')"
  using assms by (simp add: NotifyEvalComplete_def WaitEvalResult_def um_simps)

theorem completion_is_exact_witness:
  "WaitEvalResult (NotifyEvalComplete (Some 7) (Some 42) demo_running) 0 True = Some (S_OK, Some 42) \<and>
   WaitEvalResult demo_running 0 True = None"
  using completion_is_exact [of demo_running 7 0 "Some 42"]
  by (simp add: demo_running_eq um_find_Cons WaitEvalResult_def)

end
