(* ===== verification/Frames.thy ===== *)
theory Frames imports Module_Loading begin

text \<open>
  Threads and stacks of the debuggee (\<open>frames.cpp\<close>): the list of threads, the location of a frame, the
  walk over the frames of a thread, and the two operations on top of the walk, the stack trace and
  the frame at a level.  What the stack walker of the runtime answers is a list of items.
\<close>

section \<open>Threads\<close>

text \<open>One thread of the enumeration: its number, its process, whether that runs, and whether the thread
  is a background thread.\<close>

record thread_answer =
  ta_id :: "nat option"
  ta_process :: bool
  ta_running :: "bool option"
  ta_background :: "bool option"

fun threads_loop :: "thread_answer list \<Rightarrow> hresult \<times> thread list" where
  "threads_loop [] = (S_OK, [])"
| "threads_loop (a # as) =
     (case (ta_id a, ta_process a, ta_running a, ta_background a) of
        (Some threadId, True, Some running, Some background) \<Rightarrow>
          (case threads_loop as of (status, ts) \<Rightarrow>
             (status, if \<not> background
                      then \<lparr>t_id = int threadId, t_name = ''<No name>'', t_running = running\<rparr> # ts else ts))
      | _ \<Rightarrow> (E_FAIL, []))"

definition GetThreadsState :: "thread_answer list option \<Rightarrow> hresult \<times> thread list" where
  "GetThreadsState enum = (case enum of None \<Rightarrow> (E_FAIL, []) | Some as \<Rightarrow> threads_loop as)"

section \<open>Frames\<close>

datatype frame_type = FrameUnknown | FrameNative | FrameCLRNative | FrameCLRInternal | FrameCLRManaged

datatype internal_frame_type =
    STUBFRAME_NONE | STUBFRAME_M2U | STUBFRAME_U2M | STUBFRAME_APPDOMAIN_TRANSITION
  | STUBFRAME_LIGHTWEIGHT_FUNCTION | STUBFRAME_FUNC_EVAL | STUBFRAME_INTERNALCALL | STUBFRAME_CLASS_INIT
  | STUBFRAME_EXCEPTION | STUBFRAME_SECURITY | STUBFRAME_JIT_COMPILATION

fun GetInternalTypeName :: "internal_frame_type \<Rightarrow> string" where
  "GetInternalTypeName STUBFRAME_M2U = ''Managed to Native Transition''"
| "GetInternalTypeName STUBFRAME_U2M = ''Native to Managed Transition''"
| "GetInternalTypeName STUBFRAME_APPDOMAIN_TRANSITION = ''Appdomain Transition''"
| "GetInternalTypeName STUBFRAME_LIGHTWEIGHT_FUNCTION = ''Lightweight function''"
| "GetInternalTypeName STUBFRAME_FUNC_EVAL = ''Func Eval''"
| "GetInternalTypeName STUBFRAME_INTERNALCALL = ''Internal Call''"
| "GetInternalTypeName STUBFRAME_CLASS_INIT = ''Class Init''"
| "GetInternalTypeName STUBFRAME_EXCEPTION = ''Exception''"
| "GetInternalTypeName STUBFRAME_SECURITY = ''Security''"
| "GetInternalTypeName STUBFRAME_JIT_COMPILATION = ''JIT Compilation''"
| "GetInternalTypeName STUBFRAME_NONE = ''Unknown''"

text \<open>A frame of the runtime: the interfaces it has (unwindable; internal, with the kind when it can be
  read; native, with its instruction pointer), the stack pointer of its context, whether it has a
  managed function, its stack range, its managed part, the version identifier of its module, and the
  method name that is printed for it.\<close>

record walk_frame =
  wf_unwindable :: bool
  wf_internal :: bool
  wf_internal_type :: "internal_frame_type option"
  wf_context :: "nat option"
  wf_function :: bool
  wf_native :: bool
  wf_native_ip :: "nat option"
  wf_addr :: nat
  wf_clr :: clr_frame
  wf_mvid :: "guid option"
  wf_method :: string

record native_frame =
  nf_addr :: nat
  nf_symbol :: string
  nf_file :: string
  nf_linenum :: int

definition GetFrameAddr :: "walk_frame \<Rightarrow> nat" where
  "GetFrameAddr f = wf_addr f"

definition new_stack_frame :: "nat \<Rightarrow> nat \<Rightarrow> string \<Rightarrow> stack_frame" where
  "new_stack_frame threadId level name =
     \<lparr>sf_id = StackFrame_id (of_nat threadId) (of_nat level), sf_name = name, sf_source = Source [],
      sf_line = 0, sf_column = 0, sf_endLine = 0, sf_endColumn = 0, sf_moduleId = [], sf_ilOffset = 0,
      sf_nativeOffset = 0, sf_methodToken = 0, sf_addr = 0\<rparr>"

definition GetFrameLocation :: "modules \<Rightarrow> walk_frame \<Rightarrow> nat \<Rightarrow> nat \<Rightarrow> hresult \<times> stack_frame" where
  "GetFrameLocation ms f threadId level =
     (let s0 = new_stack_frame threadId level [];
          s1 = (case GetFrameILAndSequencePoint ms (wf_clr f) of
                  None \<Rightarrow> s0
                | Some (_, sp) \<Rightarrow>
                    s0\<lparr>sf_source := Source (sp_document sp), sf_line := sp_startLine sp,
                       sf_column := sp_startColumn sp, sf_endLine := sp_endLine sp,
                       sf_endColumn := sp_endColumn sp\<rparr>)
      in case (fr_token (wf_clr f), fr_function (wf_clr f), fr_module (wf_clr f)) of
           (Some methodToken, Some _, Some _) \<Rightarrow>
             if \<not> fr_ilframe (wf_clr f) \<or> \<not> wf_native f then (E_FAIL, s1)
             else (case (wf_native_ip f, fr_ip (wf_clr f), wf_mvid f) of
                     (Some nOffset, Some ilOffset, Some mvid) \<Rightarrow>
                       ((if Source_IsNull (sf_source s1) then S_FALSE else S_OK),
                        s1\<lparr>sf_moduleId := GetModuleId mvid, sf_methodToken := methodToken,
                           sf_ilOffset := ilOffset, sf_nativeOffset := nOffset,
                           sf_addr := GetFrameAddr f, sf_name := wf_method f\<rparr>)
                   | _ \<Rightarrow> (E_FAIL, s1))
         | _ \<Rightarrow> (E_FAIL, s1))"

section \<open>The walk\<close>

type_synonym 's walk_callback =
  "frame_type \<Rightarrow> walk_frame option \<Rightarrow> native_frame option \<Rightarrow> 's \<Rightarrow> hresult \<times> 's"

text \<open>Native frames are not unwound.\<close>

definition UnwindNativeFrames :: "nat \<Rightarrow> nat \<Rightarrow> native_frame list" where
  "UnwindNativeFrames startValue endValue = []"

text \<open>A frame to be stitched in: a native one, or an internal one of the cache.\<close>

datatype stitch = Stitch_Native native_frame | Stitch_Internal walk_frame

fun stitch_addr :: "stitch \<Rightarrow> nat" where
  "stitch_addr (Stitch_Native n) = nf_addr n"
| "stitch_addr (Stitch_Internal f) = GetFrameAddr f"

fun stitch_calls :: "'s walk_callback \<Rightarrow> stitch list \<Rightarrow> 's \<Rightarrow> hresult \<times> 's" where
  "stitch_calls cb [] s = (S_OK, s)"
| "stitch_calls cb (fr # frs) s =
     (case (case fr of Stitch_Internal f \<Rightarrow> cb FrameCLRInternal (Some f) None s
                     | Stitch_Native n \<Rightarrow> cb FrameNative None (Some n) s) of
        (status, s') \<Rightarrow> if succeeded status then stitch_calls cb frs s' else (status, s'))"

definition StitchInternalFrames ::
  "walk_frame list \<Rightarrow> native_frame list \<Rightarrow> 's walk_callback \<Rightarrow> 's \<Rightarrow> hresult \<times> 's" where
  "StitchInternalFrames internalFrameCache nativeFrames cb s =
     stitch_calls cb (sort_key stitch_addr (map Stitch_Native nativeFrames @ map Stitch_Internal internalFrameCache)) s"

text \<open>An item of the stack walker: a failure to move on or to fetch the frame, a native frame with the
  stack pointer of its context, or a frame of the runtime.  The end of the list is the end of the
  stack.\<close>

datatype walk_item = Walk_Failed | Walk_Native "nat option" | Walk_Frame walk_frame

definition uint64_max :: nat where "uint64_max = 18446744073709551615"

definition native_frames :: "nat option \<Rightarrow> nat option \<Rightarrow> native_frame list" where
  "native_frames unmanaged current =
     (case unmanaged of
        None \<Rightarrow> []
      | Some sp \<Rightarrow> UnwindNativeFrames sp (case current of None \<Rightarrow> uint64_max | Some e \<Rightarrow> e))"

text \<open>What the loop does with a frame once the internal frames before it are reported.\<close>

definition report_frame :: "'s walk_callback \<Rightarrow> int \<Rightarrow> walk_frame \<Rightarrow> 's \<Rightarrow> hresult \<times> 's" where
  "report_frame cb level f s =
     (if wf_function f then cb FrameCLRManaged (Some f) None s
      else if \<not> wf_native f then cb FrameUnknown (Some f) None s
      else case (if level = 0 then StitchInternalFrames [] (UnwindNativeFrames 0 (GetFrameAddr f)) cb s
                 else (S_OK, s)) of
             (status, s') \<Rightarrow>
               if \<not> succeeded status then (status, s')
               else cb (if wf_internal f then FrameCLRInternal else FrameCLRNative) (Some f) None s')"

text \<open>The loop: the level, the cached internal frames, the stack pointer of the last native context
  (\<open>ctxUnmanagedChain\<close>) and of the last managed one (\<open>currentCtx\<close>), when they are valid.\<close>

fun walk_loop ::
  "'s walk_callback \<Rightarrow> int \<Rightarrow> walk_frame list \<Rightarrow> nat option \<Rightarrow> nat option \<Rightarrow> walk_item list \<Rightarrow> 's \<Rightarrow>
     hresult \<times> 's" where
  "walk_loop cb level cache unmanaged current [] s =
     StitchInternalFrames cache (native_frames unmanaged None) cb s"
| "walk_loop cb level cache unmanaged current (Walk_Failed # items) s = (E_FAIL, s)"
| "walk_loop cb level cache unmanaged current (Walk_Native ctx # items) s =
     (case ctx of
        None \<Rightarrow> (E_FAIL, s)
      | Some sp \<Rightarrow> walk_loop cb (level + 1) cache (Some sp) None items s)"
| "walk_loop cb level cache unmanaged current (Walk_Frame f # items) s =
     (if wf_unwindable f then walk_loop cb (level + 1) cache unmanaged current items s
      else if \<not> wf_internal f \<and> wf_context f = None then (E_FAIL, s)
      else if wf_internal f \<and> unmanaged \<noteq> None
      then walk_loop cb (level + 1) (cache @ [f]) unmanaged current items s
      else
        let current' = (if \<not> wf_internal f then wf_context f else current) in
        (case StitchInternalFrames cache (native_frames unmanaged current') cb s of
           (status, s') \<Rightarrow>
             if \<not> succeeded status then (status, s')
             else (case report_frame cb level f s' of
                     (status', s'') \<Rightarrow>
                       if \<not> succeeded status' then (status', s'')
                       else walk_loop cb (level + 1) [] None current' items s'')))"

text \<open>The first item is at level 0.\<close>

definition WalkFrames :: "walk_item list option \<Rightarrow> 's walk_callback \<Rightarrow> 's \<Rightarrow> hresult \<times> 's" where
  "WalkFrames stack cb s =
     (case stack of None \<Rightarrow> (E_FAIL, s) | Some items \<Rightarrow> walk_loop cb 0 [] None None items s)"

section \<open>The frame at a level and the stack trace\<close>

definition frame_at_callback :: "int \<Rightarrow> (int \<times> walk_frame option) walk_callback" where
  "frame_at_callback level ty f n st =
     (case st of (currentFrame, result) \<Rightarrow>
        let cur = currentFrame + 1 in
        if cur < level then (S_OK, (cur, result))
        else if cur > level then (E_FAIL, (cur, result))
        else if cur = level \<and> ty = FrameCLRManaged then (E_FAIL, (cur, f))
        else (E_FAIL, (cur, result)))"

definition GetFrameAt :: "walk_item list option \<Rightarrow> int \<Rightarrow> hresult \<times> walk_frame option" where
  "GetFrameAt stack level =
     (case WalkFrames stack (frame_at_callback level) (- 1, None) of
        (status, (_, result)) \<Rightarrow>
          (case result of Some f \<Rightarrow> (S_OK, Some f) | None \<Rightarrow> (status, None)))"

text \<open>The stack frame for one reported frame; None when the kind of an internal frame cannot be read.\<close>

definition trace_frame ::
  "modules \<Rightarrow> nat \<Rightarrow> nat \<Rightarrow> frame_type \<Rightarrow> walk_frame option \<Rightarrow> native_frame option \<Rightarrow> stack_frame option" where
  "trace_frame ms threadId level ty f n =
     (case ty of
        FrameUnknown \<Rightarrow> map_option (\<lambda>f. (new_stack_frame threadId level ''?'')\<lparr>sf_addr := GetFrameAddr f\<rparr>) f
      | FrameNative \<Rightarrow>
          map_option (\<lambda>n. (new_stack_frame threadId level (nf_symbol n))
             \<lparr>sf_addr := nf_addr n, sf_source := Source (nf_file n), sf_line := nf_linenum n\<rparr>) n
      | FrameCLRNative \<Rightarrow>
          map_option (\<lambda>f. (new_stack_frame threadId level ''[Native Frame]'')\<lparr>sf_addr := GetFrameAddr f\<rparr>) f
      | FrameCLRInternal \<Rightarrow>
          (case f of
             None \<Rightarrow> None
           | Some f \<Rightarrow>
               if \<not> wf_internal f then None
               else map_option (\<lambda>t. (new_stack_frame threadId level (''['' @ GetInternalTypeName t @ '']''))
                                  \<lparr>sf_addr := GetFrameAddr f\<rparr>) (wf_internal_type f))
      | FrameCLRManaged \<Rightarrow> map_option (\<lambda>f. snd (GetFrameLocation ms f threadId level)) f)"

definition stack_trace_callback ::
  "modules \<Rightarrow> nat \<Rightarrow> int \<Rightarrow> int \<Rightarrow> (int \<times> stack_frame list) walk_callback" where
  "stack_trace_callback ms threadId startFrame levels ty f n st =
     (case st of (currentFrame, stackFrames) \<Rightarrow>
        let cur = currentFrame + 1 in
        if cur < startFrame then (S_OK, (cur, stackFrames))
        else if levels \<noteq> 0 \<and> cur \<ge> c_int (startFrame + levels) then (S_OK, (cur, stackFrames))
        else (case trace_frame ms threadId (nat cur) ty f n of
                None \<Rightarrow> (E_FAIL, (cur, stackFrames))
              | Some fr \<Rightarrow> (S_OK, (cur, stackFrames @ [fr]))))"

definition GetStackTrace ::
  "modules \<Rightarrow> nat \<Rightarrow> walk_item list option \<Rightarrow> int \<Rightarrow> int \<Rightarrow> hresult \<times> stack_frame list \<times> int option" where
  "GetStackTrace ms threadId stack startFrame levels =
     (case WalkFrames stack (stack_trace_callback ms threadId startFrame levels) (- 1, []) of
        (status, (currentFrame, stackFrames)) \<Rightarrow>
          if succeeded status then (S_OK, stackFrames, Some (currentFrame + 1))
          else (status, stackFrames, None))"

section \<open>The walk as a list\<close>

text \<open>The frames a walk reports, whatever the callback does with them, and whether the walk itself
  succeeds: the reference for the callback-driven loop.\<close>

type_synonym report = "frame_type \<times> walk_frame option \<times> native_frame option"

definition internal_reports :: "walk_frame list \<Rightarrow> report list" where
  "internal_reports cache = map (\<lambda>f. (FrameCLRInternal, Some f, None)) (sort_key GetFrameAddr cache)"

definition frame_report :: "walk_frame \<Rightarrow> report" where
  "frame_report f =
     ((if wf_function f then FrameCLRManaged else if \<not> wf_native f then FrameUnknown
       else if wf_internal f then FrameCLRInternal else FrameCLRNative), Some f, None)"

fun walked :: "walk_frame list \<Rightarrow> bool \<Rightarrow> walk_item list \<Rightarrow> report list \<times> bool" where
  "walked cache native [] = (internal_reports cache, True)"
| "walked cache native (Walk_Failed # items) = ([], False)"
| "walked cache native (Walk_Native ctx # items) = (if ctx = None then ([], False) else walked cache True items)"
| "walked cache native (Walk_Frame f # items) =
     (if wf_unwindable f then walked cache native items
      else if \<not> wf_internal f \<and> wf_context f = None then ([], False)
      else if wf_internal f \<and> native then walked (cache @ [f]) native items
      else (case walked [] False items of
              (rs, ok) \<Rightarrow> (internal_reports cache @ frame_report f # rs, ok)))"

fun feed :: "'s walk_callback \<Rightarrow> report list \<Rightarrow> 's \<Rightarrow> hresult \<times> 's" where
  "feed cb [] s = (S_OK, s)"
| "feed cb ((ty, f, n) # rs) s =
     (case cb ty f n s of (status, s') \<Rightarrow> if succeeded status then feed cb rs s' else (status, s'))"

lemma feed_append:
  "feed cb (rs @ rs') s = (case feed cb rs s of (status, s') \<Rightarrow> if succeeded status then feed cb rs' s' else (status, s'))"
  by (induction cb rs s rule: feed.induct) (auto split: prod.splits)

lemma feed_succeeded: "feed cb rs s = (status, s') \<Longrightarrow> succeeded status \<Longrightarrow> status = S_OK"
  by (induction cb rs s rule: feed.induct) (auto split: prod.splits if_splits)

lemma sort_key_map: "sort_key k (map g xs) = map g (sort_key (\<lambda>x. k (g x)) xs)"
proof -
  have "insort_key k (g x) (map g ys) = map g (insort_key (\<lambda>x. k (g x)) x ys)" for x ys
    by (induction ys) auto
  then show ?thesis by (induction xs) auto
qed

lemma stitch_calls_feed:
  "stitch_calls cb (map Stitch_Internal fs) s = feed cb (map (\<lambda>f. (FrameCLRInternal, Some f, None)) fs) s"
  by (induction fs arbitrary: s) (auto split: prod.splits)

lemma Stitch_feed [simp]: "StitchInternalFrames cache [] cb s = feed cb (internal_reports cache) s"
  by (simp add: StitchInternalFrames_def sort_key_map stitch_calls_feed internal_reports_def)

lemma native_frames_Nil [simp]: "native_frames u c = []" "UnwindNativeFrames a b = []"
  by (simp_all add: native_frames_def UnwindNativeFrames_def split: option.splits)

lemma internal_reports_Nil [simp]: "internal_reports [] = []"
  by (simp add: internal_reports_def)

lemma report_frame_feed: "report_frame cb level f s = (case frame_report f of (ty, x, n) \<Rightarrow> cb ty x n s)"
  by (simp add: report_frame_def frame_report_def)

lemma walk_loop_feed:
  "walk_loop cb level cache unmanaged current items s =
     (case feed cb (fst (walked cache (unmanaged \<noteq> None) items)) s of
        (status, s') \<Rightarrow>
          if \<not> succeeded status then (status, s')
          else (if snd (walked cache (unmanaged \<noteq> None) items) then S_OK else E_FAIL, s'))"
proof (induction cb level cache unmanaged current items s rule: walk_loop.induct)
  case (1 cb level cache unmanaged current s)
  then show ?case using feed_succeeded by (fastforce split: prod.splits)
next
  case (4 cb level cache unmanaged current f items s)
  consider "wf_unwindable f" | "\<not> wf_unwindable f" "\<not> wf_internal f \<and> wf_context f = None"
    | "\<not> wf_unwindable f" "wf_internal f \<and> unmanaged \<noteq> None"
    | "\<not> wf_unwindable f" "\<not> (\<not> wf_internal f \<and> wf_context f = None)" "\<not> (wf_internal f \<and> unmanaged \<noteq> None)" by blast
  then show ?case
  proof cases
    case c: 4
    obtain rs ok where W: "walked [] False items = (rs, ok)" by (cases "walked [] False items")
    obtain ty x n where R: "frame_report f = (ty, x, n)" by (cases "frame_report f") auto
    obtain st1 s1 where F: "feed cb (internal_reports cache) s = (st1, s1)" by fastforce
    obtain st2 s2 where C: "cb ty x n s1 = (st2, s2)" by fastforce
    let ?current = "if \<not> wf_internal f then wf_context f else current"
    have IH: "walk_loop cb (level + 1) [] None ?current items s2 =
        (case feed cb rs s2 of (status, s') \<Rightarrow>
           if \<not> succeeded status then (status, s') else (if ok then S_OK else E_FAIL, s'))"
      if "succeeded st1" "succeeded st2"
      using 4(3) [OF c refl, of st1 s1 st2 s2] that W by (simp add: F report_frame_feed R C)
    show ?thesis
      using c IH by (auto simp: Let_def W R F C feed_append report_frame_feed split: prod.splits)
  qed (use 4 in auto)
qed (auto split: option.splits)

lemma WalkFrames_feed:
  "WalkFrames (Some items) cb s =
     (case feed cb (fst (walked [] False items)) s of
        (status, s') \<Rightarrow>
          if \<not> succeeded status then (status, s')
          else (if snd (walked [] False items) then S_OK else E_FAIL, s'))"
  by (simp add: WalkFrames_def walk_loop_feed)

section \<open>The trace as a list\<close>

text \<open>The stack frames for a list of reports, numbered from a level on.\<close>

fun traced :: "modules \<Rightarrow> nat \<Rightarrow> nat \<Rightarrow> report list \<Rightarrow> stack_frame list option" where
  "traced ms tid k [] = Some []"
| "traced ms tid k ((ty, f, n) # rs) =
     (case trace_frame ms tid k ty f n of
        None \<Rightarrow> None
      | Some fr \<Rightarrow> map_option ((#) fr) (traced ms tid (k + 1) rs))"

definition trace_window :: "nat \<Rightarrow> nat \<Rightarrow> nat \<Rightarrow> 'a list \<Rightarrow> 'a list" where
  "trace_window k start levels fs =
     (if levels = 0 then drop (start - k) fs else take (levels - (k - start)) (drop (start - k) fs))"

lemma trace_window_simps:
  "trace_window k start levels [] = []"
  "trace_window k start levels (f # fs) =
     (if k < start then trace_window (k + 1) start levels fs
      else if levels \<noteq> 0 \<and> k \<ge> start + levels then []
      else f # trace_window (k + 1) start levels fs)"
  "k \<ge> start + levels \<Longrightarrow> levels \<noteq> 0 \<Longrightarrow> trace_window k start levels fs = []"
  by (auto simp: trace_window_def Suc_diff_Suc [symmetric] drop_Cons' take_Cons' Suc_diff_le)

lemma traced_length: "traced ms tid k rs = Some fs \<Longrightarrow> length fs = length rs"
  by (induction ms tid k rs arbitrary: fs rule: traced.induct) (auto split: option.splits)

lemma traced_nth:
  "traced ms tid k rs = Some fs \<Longrightarrow> i < length rs \<Longrightarrow>
     (case rs ! i of (ty, f, n) \<Rightarrow> trace_frame ms tid (k + i) ty f n) = Some (fs ! i)"
proof (induction ms tid k rs arbitrary: fs i rule: traced.induct)
  case (2 ms tid k ty f n rs)
  then show ?case by (cases i) (auto split: option.splits)
qed simp

lemma stack_trace_step:
  "stack_trace_callback ms tid start levels ty f n (int k - 1, acc) =
     (if int k < start \<or> levels \<noteq> 0 \<and> int k \<ge> c_int (start + levels) then (S_OK, (int k, acc))
      else (case trace_frame ms tid k ty f n of
              None \<Rightarrow> (E_FAIL, (int k, acc))
            | Some fr \<Rightarrow> (S_OK, (int k, acc @ [fr]))))"
  by (simp add: stack_trace_callback_def Let_def split: option.split)

lemma feed_trace_whole:
  "feed (stack_trace_callback ms tid 0 0) rs (int k - 1, acc) = (S_OK, st) \<Longrightarrow>
     \<exists>fs. traced ms tid k rs = Some fs \<and> st = (int (k + length rs) - 1, acc @ fs)"
proof (induction rs arbitrary: k acc)
  case (Cons r rs)
  obtain ty f n where r: "r = (ty, f, n)" by (cases r)
  show ?case
  proof (cases "trace_frame ms tid k ty f n")
    case None
    with Cons.prems show ?thesis by (simp add: r stack_trace_step)
  next
    case (Some fr)
    with Cons.prems have "feed (stack_trace_callback ms tid 0 0) rs (int (k + 1) - 1, acc @ [fr]) = (S_OK, st)"
      by (simp add: r stack_trace_step)
    from Cons.IH [OF this] show ?thesis using Some by (auto simp: r)
  qed
qed simp

lemma feed_trace_window:
  assumes "start + levels \<le> 2147483647"
  shows "traced ms tid k rs = Some fs \<Longrightarrow>
     feed (stack_trace_callback ms tid (int start) (int levels)) rs (int k - 1, acc) =
       (S_OK, (int (k + length rs) - 1, acc @ trace_window k start levels fs))"
proof (induction rs arbitrary: k acc fs)
  case Nil
  then show ?case by (simp add: trace_window_simps)
next
  case (Cons r rs)
  obtain ty f n where r: "r = (ty, f, n)" by (cases r)
  from Cons.prems obtain fr gs where t: "trace_frame ms tid k ty f n = Some fr"
    and g: "traced ms tid (k + 1) rs = Some gs" and fs: "fs = fr # gs"
    by (auto simp: r split: option.splits)
  let ?cb = "stack_trace_callback ms tid (int start) (int levels)"
  let ?keep = "k \<ge> start \<and> \<not> (levels \<noteq> 0 \<and> k \<ge> start + levels)"
  have "c_int (int start + int levels) = int start + int levels" using assms by simp
  then have "?cb ty f n (int k - 1, acc) = (S_OK, (int (k + 1) - 1, if ?keep then acc @ [fr] else acc))"
    by (auto simp: stack_trace_step t)
  then have "feed ?cb (r # rs) (int k - 1, acc) =
      feed ?cb rs (int (k + 1) - 1, if ?keep then acc @ [fr] else acc)" by (simp add: r)
  also have "\<dots> = (S_OK, (int (k + 1 + length rs) - 1, (if ?keep then acc @ [fr] else acc) @ trace_window (k + 1) start levels gs))"
    by (rule Cons.IH [OF g])
  also have "\<dots> = (S_OK, (int (k + length (r # rs)) - 1, acc @ trace_window k start levels fs))"
    by (auto simp: fs trace_window_simps(2,3))
  finally show ?case .
qed

text \<open>A trace that succeeds: the walk succeeds, and its reports are all traced.\<close>

lemma whole_trace:
  assumes "GetStackTrace ms tid stack 0 0 = (S_OK, fs, Some n)"
  obtains items rs where "stack = Some items" "walked [] False items = (rs, True)"
    "traced ms tid 0 rs = Some fs" "n = int (length fs)"
proof -
  from assms obtain items where items: "stack = Some items"
    by (cases stack) (auto simp: GetStackTrace_def WalkFrames_def)
  obtain rs ok where W: "walked [] False items = (rs, ok)" by (cases "walked [] False items")
  obtain st c acc where F: "feed (stack_trace_callback ms tid 0 0) rs (- 1, []) = (st, (c, acc))"
    by (cases "feed (stack_trace_callback ms tid 0 0) rs (- 1, [])") auto
  have ok: "succeeded st" ok and r: "fs = acc" "n = c + 1"
    using assms by (auto simp: GetStackTrace_def items WalkFrames_feed W F split: if_splits)
  from F ok feed_succeeded [OF F] have "feed (stack_trace_callback ms tid 0 0) rs (int 0 - 1, []) = (S_OK, (c, acc))"
    by simp
  from feed_trace_whole [OF this] obtain gs where "traced ms tid 0 rs = Some gs" "c = int (length rs) - 1" "acc = gs"
    by auto
  then show ?thesis using that items W ok r traced_length by fastforce
qed

lemma trace_window_zero: "trace_window 0 start levels fs = (if levels = 0 then drop start fs else take levels (drop start fs))"
  by (simp add: trace_window_def)

lemma stack_trace_part:
  assumes "GetStackTrace ms tid stack 0 0 = (S_OK, fs, Some n)" and "start + levels \<le> 2147483647"
  shows "GetStackTrace ms tid stack (int start) (int levels) =
    (S_OK, if levels = 0 then drop start fs else take levels (drop start fs), Some n)"
proof -
  from whole_trace [OF assms(1)] obtain items rs where items: "stack = Some items"
    and W: "walked [] False items = (rs, True)" and t: "traced ms tid 0 rs = Some fs" and n: "n = int (length fs)" .
  show ?thesis
    using feed_trace_window [OF assms(2) t, of "[]"] traced_length [OF t] n
    by (simp add: GetStackTrace_def items WalkFrames_feed W trace_window_zero)
qed

section \<open>The frame at a level\<close>

lemma feed_frame_at:
  "feed (frame_at_callback (int level)) rs (int k - 1, None) =
     (if k > level then (if rs = [] then (S_OK, (int k - 1, None)) else (E_FAIL, (int k, None)))
      else if k + length rs \<le> level then (S_OK, (int (k + length rs) - 1, None))
      else (E_FAIL, (int level, case rs ! (level - k) of (ty, f, n) \<Rightarrow> if ty = FrameCLRManaged then f else None)))"
proof (induction rs arbitrary: k)
  case (Cons r rs)
  obtain ty f n where r: "r = (ty, f, n)" by (cases r)
  show ?case
    using Cons.IH [of "k + 1"]
    by (auto simp: r frame_at_callback_def Let_def nth_Cons' Suc_diff_Suc)
qed simp

lemma GetFrameAt_walked:
  assumes "walked [] False items = (rs, True)"
  shows "GetFrameAt (Some items) (int level) =
    (if level < length rs
     then (case rs ! level of (ty, f, n) \<Rightarrow>
             if ty = FrameCLRManaged \<and> f \<noteq> None then (S_OK, f) else (E_FAIL, None))
     else (S_OK, None))"
  using feed_frame_at [of level rs 0]
  by (auto simp: GetFrameAt_def WalkFrames_feed assms split: prod.splits option.splits)

lemma managed_trace: "trace_frame ms tid k FrameCLRManaged (Some f) n = Some fr \<Longrightarrow> fr = snd (GetFrameLocation ms f tid k)"
  by (simp add: trace_frame_def)

section \<open>Properties\<close>

text \<open>C31. Asking for a part of the stack gives that part: from a stack whose whole trace can be made, the
  frames from a start on, at most the wanted number of them (all when it is 0), with the total number
  of frames of the whole stack.  The end of the part is an \<open>int\<close>: it must not pass the largest one.\<close>

theorem stack_trace_window:
  assumes "GetStackTrace ms tid stack 0 0 = (S_OK, fs, Some n)" and "start + levels \<le> 2147483647"
  shows "GetStackTrace ms tid stack (int start) (int levels) =
    (S_OK, if levels = 0 then drop start fs else take levels (drop start fs), Some (int (length fs)))"
proof -
  have "n = int (length fs)" using whole_trace [OF assms(1)] by metis
  then show ?thesis using stack_trace_part [OF assms] by simp
qed

text \<open>The level of a frame means the same to the trace and to the search for a frame: the frame found
  at a level of the stack is the one whose location the trace lists at that place.  A level past the
  end of the stack is no error: the search succeeds and leaves the frame null.\<close>

theorem frame_at_level:
  assumes "GetStackTrace ms tid stack 0 0 = (S_OK, fs, Some n)"
  shows "(case GetFrameAt stack (int level) of
      (status, Some f) \<Rightarrow> status = S_OK \<and> level < length fs \<and> fs ! level = snd (GetFrameLocation ms f tid level)
    | (status, None) \<Rightarrow> (status = S_OK) = (length fs \<le> level))"
proof -
  from whole_trace [OF assms] obtain items rs where items: "stack = Some items"
    and W: "walked [] False items = (rs, True)" and t: "traced ms tid 0 rs = Some fs" .
  have len: "length fs = length rs" using t by (rule traced_length)
  show ?thesis
  proof (cases "level < length rs")
    case True
    obtain ty f n where r: "rs ! level = (ty, f, n)" by (cases "rs ! level")
    from traced_nth [OF t True] have "trace_frame ms tid level ty f n = Some (fs ! level)" by (simp add: r)
    then show ?thesis
      using True by (auto simp: items GetFrameAt_walked [OF W] r len dest: managed_trace)
  next
    case False
    then show ?thesis by (simp add: items GetFrameAt_walked [OF W] len)
  qed
qed

text \<open>Two managed frames with an internal one between them.\<close>

definition demo_walk_frame :: "string \<Rightarrow> walk_frame" where
  "demo_walk_frame name =
     \<lparr>wf_unwindable = False, wf_internal = False, wf_internal_type = None, wf_context = Some 64,
      wf_function = True, wf_native = True, wf_native_ip = Some 0, wf_addr = 64, wf_clr = demo_frame,
      wf_mvid = None, wf_method = name\<rparr>"

definition demo_stack :: "walk_item list option" where
  "demo_stack = Some [Walk_Frame (demo_walk_frame ''Inner''), Walk_Native (Some 32),
     Walk_Frame ((demo_walk_frame [])\<lparr>wf_internal := True, wf_internal_type := Some STUBFRAME_M2U\<rparr>),
     Walk_Frame (demo_walk_frame ''Outer'')]"

lemma demo_trace:
  "GetStackTrace ms 1 demo_stack 0 0 =
     (S_OK, [snd (GetFrameLocation ms (demo_walk_frame ''Inner'') 1 0),
             (new_stack_frame 1 1 ''[Managed to Native Transition]'')\<lparr>sf_addr := 64\<rparr>,
             snd (GetFrameLocation ms (demo_walk_frame ''Outer'') 1 2)], Some 3)"
proof -
  have W: "walked [] False (the demo_stack) =
      ([(FrameCLRManaged, Some (demo_walk_frame ''Inner''), None),
        (FrameCLRInternal, Some ((demo_walk_frame [])\<lparr>wf_internal := True, wf_internal_type := Some STUBFRAME_M2U\<rparr>), None),
        (FrameCLRManaged, Some (demo_walk_frame ''Outer''), None)], True)"
    by (simp add: demo_stack_def demo_walk_frame_def frame_report_def internal_reports_def)
  have "demo_stack = Some (the demo_stack)" by (simp add: demo_stack_def)
  then have "GetStackTrace ms 1 demo_stack 0 0 = GetStackTrace ms 1 (Some (the demo_stack)) 0 0" by simp
  then show ?thesis
    by (simp add: GetStackTrace_def WalkFrames_feed W stack_trace_callback_def trace_frame_def Let_def
        demo_walk_frame_def GetFrameAddr_def)
qed

theorem stack_trace_window_witness:
  "GetStackTrace demo_modules 1 demo_stack 2 1 =
     (S_OK, [snd (GetFrameLocation demo_modules (demo_walk_frame ''Outer'') 1 2)], Some 3)"
  using stack_trace_window [OF demo_trace [of demo_modules], of 2 1] by simp

theorem frame_at_level_witness: "snd (GetFrameAt demo_stack 3) = None \<and> fst (GetFrameAt demo_stack 3) = S_OK"
  using frame_at_level [OF demo_trace [of demo_modules], of 3]
  by (cases "GetFrameAt demo_stack 3"; cases "snd (GetFrameAt demo_stack 3)") simp_all

end
