(* ===== verification/Shell_Args.thy ===== *)
theory Shell_Args imports Mi_Escape begin

text \<open>
  The command line that a launch passes to the runtime host (\<open>EscapeShellArg\<close> and \<open>RunProcess\<close>,
  \<open>manageddebugger.cpp\<close>).  The loop inserts in place and steps over what it has inserted, as that of
  \<open>EscapeMIValue\<close> does, with a \<open>switch\<close> of its own.
\<close>

section \<open>Escaping\<close>

definition escape_shell_code :: "char \<Rightarrow> char option" where
  "escape_shell_code c =
     (if c = CHR 0x22 then Some (CHR 0x22)
      else if c = CHR 0x5C then Some (CHR 0x5C)
      else None)"

definition EscapeShellArg :: "string \<Rightarrow> string" where
  "EscapeShellArg arg = escape_loop escape_shell_code arg 0"

section \<open>The command line\<close>

fun launch_arguments :: "string list \<Rightarrow> string" where
  "launch_arguments [] = []"
| "launch_arguments (arg # args) = CHR 0x20 # CHR 0x22 # EscapeShellArg arg @ CHR 0x22 # launch_arguments args"

definition launch_command_line :: "string \<Rightarrow> string list \<Rightarrow> string" where
  "launch_command_line fileExec execArgs = CHR 0x22 # fileExec @ CHR 0x22 # launch_arguments execArgs"

section \<open>Reading a command line\<close>

text \<open>What a program makes of such a line: words in quotes, with blanks between them.  The fuel is the
  length of the line.\<close>

fun read_args :: "nat \<Rightarrow> string \<Rightarrow> string list option" where
  "read_args n [] = Some []"
| "read_args 0 (c # cs) = None"
| "read_args (Suc n) (c # cs) =
     (if c = CHR 0x20 then read_args n cs
      else if c = CHR 0x22
      then (case read_cstring cs of None \<Rightarrow> None | Some (a, rest) \<Rightarrow> map_option ((#) a) (read_args n rest))
      else None)"

definition read_command_line :: "string \<Rightarrow> string list option" where
  "read_command_line s = read_args (length s) s"

section \<open>Facts\<close>

lemma EscapeShellArg_concat: "EscapeShellArg a = concat (map (escape_char escape_shell_code) a)"
  using escape_loop_concat [of escape_shell_code "[]" a] by (simp add: EscapeShellArg_def)

lemma read_EscapeShellArg: "read_cstring (EscapeShellArg a @ CHR 0x22 # r) = Some (a, r)"
  unfolding EscapeShellArg_concat
  by (induction a) (auto simp: escape_char_def escape_shell_code_def unescape_code_def)

lemma read_plain_word:
  "CHR 0x22 \<notin> set a \<Longrightarrow> CHR 0x5C \<notin> set a \<Longrightarrow> read_cstring (a @ CHR 0x22 # r) = Some (a, r)"
  by (induction a) auto

lemma read_launch_arguments: "length (launch_arguments args) \<le> n \<Longrightarrow> read_args n (launch_arguments args) = Some args"
proof (induction args arbitrary: n)
  case (Cons a args)
  then obtain m where "n = Suc (Suc m)" by (cases n; cases "n - 1") auto
  then show ?case using Cons by (simp add: read_EscapeShellArg)
qed simp

text \<open>A word between quotes that reads as itself has no quote and no backslash: after a backslash the word
  would have to be backslashes only, and half as long as what is read for it.\<close>

lemma unescape_backslash: "unescape_code c = Some (CHR 0x5C) \<Longrightarrow> c = CHR 0x5C"
  by (auto simp: unescape_code_def split: if_splits)

lemma reads_backslashes:
  "read_cstring t = Some (a, r) \<Longrightarrow> a = take (length a) (replicate k (CHR 0x5C) @ t) \<Longrightarrow> 0 < k \<Longrightarrow>
     set a \<subseteq> {CHR 0x5C} \<and> t = replicate (2 * length a) (CHR 0x5C) @ CHR 0x22 # r"
proof (induction t arbitrary: a k rule: read_cstring.induct)
  case (2 c cs)
  show ?case
  proof (cases "c = CHR 0x22")
    case True
    then show ?thesis using "2.prems" by simp
  next
    case nq: False
    then obtain x a' where a: "a = x # a'"
      using "2.prems"(1) by (auto split: if_splits list.splits option.splits)
    obtain j where k: "k = Suc j" using "2.prems"(3) by (cases k) auto
    have x: "x = CHR 0x5C" using "2.prems"(2) by (simp add: a k)
    show ?thesis
    proof (cases "c = CHR 0x5C")
      case False
      then show ?thesis using "2.prems"(1) nq by (auto simp: a x split: option.splits)
    next
      case True
      then obtain d cs' where cs: "cs = d # cs'" "unescape_code d = Some (CHR 0x5C)" "read_cstring cs' = Some (a', r)"
        using "2.prems"(1) by (auto simp: a x split: list.splits option.splits)
      have d: "d = CHR 0x5C" using cs(2) by (rule unescape_backslash)
      have "a' = take (length a') (replicate (j + 2) (CHR 0x5C) @ cs')"
        using "2.prems"(2) by (simp add: a k cs(1) d True replicate_app_Cons_same)
      with "2.IH"(1) [OF nq True cs(1), of _ a' "j + 2"] cs(2,3)
      have "set a' \<subseteq> {CHR 0x5C} \<and> cs' = replicate (2 * length a') (CHR 0x5C) @ CHR 0x22 # r" by auto
      then show ?thesis by (simp add: a x True cs(1) d)
    qed
  qed
qed simp

lemma reads_itself: "read_cstring (a @ CHR 0x22 # s) = Some (a, r) \<Longrightarrow> CHR 0x22 \<notin> set a \<and> CHR 0x5C \<notin> set a"
proof (induction a)
  case (Cons c a)
  consider "c = CHR 0x22" | "c = CHR 0x5C" | "c \<noteq> CHR 0x22" "c \<noteq> CHR 0x5C" by blast
  then show ?case
  proof cases
    case 2
    obtain d t where t: "a @ CHR 0x22 # s = d # t" "unescape_code d = Some (CHR 0x5C)" "read_cstring t = Some (a, r)"
      using Cons.prems 2 by (auto split: list.splits option.splits)
    have d: "d = CHR 0x5C" using t(2) by (rule unescape_backslash)
    obtain a' where a: "a = CHR 0x5C # a'" "t = a' @ CHR 0x22 # s" using t(1) d by (cases a) auto
    have "a = take (length a) (replicate 1 (CHR 0x5C) @ t)" by (simp add: a)
    from reads_backslashes [OF t(3) this] have all: "set a \<subseteq> {CHR 0x5C}"
      and eq: "t = replicate (2 * length a) (CHR 0x5C) @ CHR 0x22 # r" by simp_all
    have "t ! length a' = CHR 0x22" by (simp add: a(2))
    moreover have "length a' < 2 * length a" by (simp add: a(1))
    then have "t ! length a' = CHR 0x5C" unfolding eq by (simp add: nth_append del: replicate.simps)
    ultimately show ?thesis by simp
  qed (use Cons in \<open>auto split: option.splits\<close>)
qed simp

section \<open>Property\<close>


end
