(* ===== verification/Callbacks.thy ===== *)
theory Callbacks imports Frames Evaluation begin

text \<open>
  The state of \<open>class ManagedDebugger\<close> and the callbacks by which the runtime reports what happens in
  the debuggee (\<open>class ManagedCallback\<close>, \<open>manageddebugger.cpp\<close>).  What a callback makes the debugger do
  is a trace of calls into the runtime and of events for the front end; the answers of the runtime
  that a callback asks for come with it.
\<close>

section \<open>State\<close>

datatype start_method = StartNone | StartLaunch | StartAttach

datatype md_out =
    Emit_Initialized | Emit_Stopped stopped_event | Emit_Continued int | Emit_Exited int | Emit_Terminated
  | Emit_Thread thread_reason int | Emit_Module module_reason module_info
  | Emit_Breakpoint breakpoint_reason breakpoint | Emit_Output string string
  | Runtime rt_call | Set_JMC bool "jmc_call list" | Protocol_Cleanup | Clear_Variables

text \<open>A thread as a callback sees it: its number, its active frame, the arguments of that frame and the
  evaluator of conditions.\<close>

record md_thread =
  mt_id :: "nat option"
  mt_frame :: "walk_frame option"
  mt_args :: "arg_fetch list option"
  mt_evaluate :: "u64 \<Rightarrow> string \<Rightarrow> (string \<times> string) option"

definition clr_of :: "md_thread \<Rightarrow> clr_thread" where
  "clr_of t = \<lparr>th_id = map_option of_nat (mt_id t), th_frame = map_option wf_clr (mt_frame t),
               th_args = mt_args t, th_evaluate = mt_evaluate t\<rparr>"

text \<open>\<open>DWORD threadId = 0; pThread->GetID(&threadId);\<close>\<close>

definition thread_number :: "md_thread \<Rightarrow> nat" where
  "thread_number t = (case mt_id t of None \<Rightarrow> 0 | Some n \<Rightarrow> n)"

text \<open>The work of a thread that the callback for a breakpoint has started and not waited for.\<close>

record bp_task =
  bt_thread :: md_thread
  bt_hit :: "native_view option"
  bt_views :: "nat \<Rightarrow> native_view"

record md_state =
  md_attached :: bool
  md_lastStoppedThreadId :: int
  md_unhandledThreads :: "int list"
  md_stopCounter :: int
  md_startMethod :: start_method
  md_execPath :: string
  md_execArgs :: "string list"
  md_stopAtEntry :: bool
  md_configurationDone :: bool
  md_modules :: modules
  md_evaluator :: evaluator
  md_breakpoints :: bps_state
  md_pDebug :: bool
  md_pProcess :: bool
  md_justMyCode :: bool
  md_startupReady :: bool
  md_startupResult :: hresult
  md_unregisterToken :: "nat option"
  md_processId :: nat
  md_clrPath :: string
  md_tasks :: "bp_task list"
  md_trace :: "md_out list"

definition init_debugger :: md_state where
  "init_debugger =
     \<lparr>md_attached = False, md_lastStoppedThreadId = - 1, md_unhandledThreads = [], md_stopCounter = 0,
      md_startMethod = StartNone, md_execPath = [], md_execArgs = [], md_stopAtEntry = False,
      md_configurationDone = False, md_modules = [], md_evaluator = init_evaluator,
      md_breakpoints = init_breakpoints, md_pDebug = False, md_pProcess = False, md_justMyCode = True,
      md_startupReady = False, md_startupResult = S_OK, md_unregisterToken = None, md_processId = 0,
      md_clrPath = [], md_tasks = [], md_trace = []\<rparr>"

definition emit :: "md_out list \<Rightarrow> md_state \<Rightarrow> md_state" where
  "emit os st = st\<lparr>md_trace := md_trace st @ os\<rparr>"

definition continue_debuggee :: "md_state \<Rightarrow> md_state" where
  "continue_debuggee = emit [Runtime Rt_Continue]"

text \<open>Calls made one after the other until one fails; a failed call has no effect.\<close>

fun run_calls :: "(hresult \<times> md_out list) list \<Rightarrow> md_state \<Rightarrow> hresult \<times> md_state" where
  "run_calls [] st = (S_OK, st)"
| "run_calls ((status, os) # calls) st =
     (if succeeded status then run_calls calls (emit os st) else (status, st))"

section \<open>Stopping\<close>

definition SetLastStoppedThread :: "md_thread \<Rightarrow> md_state \<Rightarrow> md_state" where
  "SetLastStoppedThread t st = st\<lparr>md_lastStoppedThreadId := to_s32 (thread_number t)\<rparr>"

definition GetLastStoppedThreadId :: "md_state \<Rightarrow> int" where
  "GetLastStoppedThreadId st = md_lastStoppedThreadId st"

definition default_stack_frame :: stack_frame where
  "default_stack_frame =
     \<lparr>sf_id = 0, sf_name = [], sf_source = Source [], sf_line = 0, sf_column = 0, sf_endLine = 0,
      sf_endColumn = 0, sf_moduleId = [], sf_ilOffset = 0, sf_nativeOffset = 0, sf_methodToken = 0, sf_addr = 0\<rparr>"

definition new_stopped_event :: "stop_reason \<Rightarrow> nat \<Rightarrow> stopped_event" where
  "new_stopped_event reason threadId =
     \<lparr>se_reason = reason, se_description = [], se_threadId = to_s32 threadId, se_text = [],
      se_frame = default_stack_frame, se_breakpoint = empty_breakpoint\<rparr>"

text \<open>The location of the active frame; \<open>S_FALSE\<close> and an empty frame without one.\<close>

definition active_location :: "md_thread \<Rightarrow> md_state \<Rightarrow> hresult \<times> stack_frame" where
  "active_location t st =
     (case mt_frame t of
        None \<Rightarrow> (S_FALSE, default_stack_frame)
      | Some f \<Rightarrow> GetFrameLocation (md_modules st) f (thread_number t) 0)"

text \<open>\<open>Stop\<close> first reports the stops that are still open as continued.\<close>

function stop_loop :: "md_state \<Rightarrow> md_state" where
  "stop_loop st =
     (if md_stopCounter st > 0
      then stop_loop ((emit [Emit_Continued (md_lastStoppedThreadId st)] st)\<lparr>md_stopCounter := md_stopCounter st - 1\<rparr>)
      else st)"
  by pat_completeness auto
termination
  by (relation "measure (\<lambda>st. nat (md_stopCounter st))") auto

declare stop_loop.simps [simp del]

definition Stop :: "stopped_event \<Rightarrow> md_state \<Rightarrow> hresult \<times> md_state" where
  "Stop event st =
     (S_OK, emit [Emit_Stopped event] ((stop_loop st)\<lparr>md_stopCounter := 1\<rparr>))"

section \<open>Stepping\<close>

text \<open>The answers to the calls that set up a stepper, in their order: creation, the two masks, the
  \<open>ICorDebugStepper2\<close> interface, the JMC flag, and the step itself.\<close>

record stepper_answers =
  sa_create :: hresult
  sa_intercept :: hresult
  sa_unmapped :: hresult
  sa_stepper2 :: hresult
  sa_jmc :: hresult
  sa_step :: hresult

definition step_call :: "md_thread \<Rightarrow> step_type \<Rightarrow> md_state \<Rightarrow> rt_call" where
  "step_call t stepType st =
     (if stepType = STEP_OUT then Rt_Step_Out
      else (case GetStepRangeFromCurrentIP (md_modules st) (map_option wf_clr (mt_frame t)) of
              Some (s, e) \<Rightarrow> Rt_Step_Range (stepType = STEP_IN) s e
            | None \<Rightarrow> Rt_Step (stepType = STEP_IN)))"

definition SetupStep :: "md_thread \<Rightarrow> stepper_answers \<Rightarrow> step_type \<Rightarrow> md_state \<Rightarrow> hresult \<times> md_state" where
  "SetupStep t a stepType st =
     run_calls [(sa_create a, []), (sa_intercept a, []), (sa_unmapped a, []), (sa_stepper2 a, []),
                (sa_jmc a, []), (sa_step a, [Runtime (step_call t stepType st)])] st"

section \<open>Breakpoints and steps\<close>

text \<open>The callback for a native breakpoint leaves the work to a new thread.\<close>

definition cb_Breakpoint :: "bp_task \<Rightarrow> md_state \<Rightarrow> hresult \<times> md_state" where
  "cb_Breakpoint task st =
     (if IsEvalRunning (md_evaluator st) then (S_OK, continue_debuggee st)
      else (S_OK, st\<lparr>md_tasks := md_tasks st @ [task]\<rparr>))"

definition breakpoint_task :: "bp_task \<Rightarrow> md_state \<Rightarrow> md_state" where
  "breakpoint_task task st =
     (let t = bt_thread task; event = new_stopped_event StopBreakpoint (thread_number t) in
      case HitBreakpoint (md_modules st) (bt_views task) (clr_of t) (bt_hit task) (md_breakpoints st) of
        (hit, bps) \<Rightarrow>
          let st1 = st\<lparr>md_breakpoints := bps\<rparr>;
              report = (\<lambda>event. emit [Emit_Stopped (event\<lparr>se_frame := snd (active_location t st)\<rparr>)]
                                  (SetLastStoppedThread t st1))
          in (case hit of
                No_Hit \<Rightarrow> continue_debuggee st1
              | At_Entry \<Rightarrow> report (event\<lparr>se_reason := StopEntry\<rparr>)
              | Hit bp \<Rightarrow> report (event\<lparr>se_breakpoint := bp\<rparr>)))"

definition cb_StepComplete :: "md_thread \<Rightarrow> stepper_answers \<Rightarrow> md_state \<Rightarrow> hresult \<times> md_state" where
  "cb_StepComplete t a st =
     (case active_location t st of
        (status, frame) \<Rightarrow>
          if md_justMyCode st \<and> status = S_FALSE
          then (S_OK, continue_debuggee (snd (SetupStep t a STEP_OVER st)))
          else (S_OK, emit [Emit_Stopped ((new_stopped_event StopStep (thread_number t))\<lparr>se_frame := frame\<rparr>)]
                        (SetLastStoppedThread t st)))"

section \<open>Evaluations\<close>

text \<open>The answers of \<open>GetThread\<close>, \<open>SetAllThreadsDebugState\<close> and \<open>SetDebugState\<close> come with the callback.\<close>

definition cb_EvalComplete ::
  "md_thread \<Rightarrow> nat option \<Rightarrow> hresult \<Rightarrow> hresult \<Rightarrow> hresult \<Rightarrow> md_state \<Rightarrow> hresult \<times> md_state" where
  "cb_EvalComplete t result getThread suspend run st =
     (let ev = NotifyEvalComplete (Some (thread_number t)) result (md_evaluator st);
          st1 = st\<lparr>md_evaluator := ev\<rparr>
      in if is_empty_eval_queue ev then (S_OK, emit [Runtime Rt_Run_All] st1)
         else if front_eval_queue ev = thread_number t then
           let ev' = pop_eval_queue ev
           in run_calls [(getThread, []), (suspend, [Runtime Rt_Suspend_All]),
                         (run, [Runtime (Rt_Run_Thread (front_eval_queue ev'))])] (st1\<lparr>md_evaluator := ev'\<rparr>)
         else (S_OK, st1))"

definition cb_EvalException :: "md_thread \<Rightarrow> nat option \<Rightarrow> md_state \<Rightarrow> hresult \<times> md_state" where
  "cb_EvalException t result st =
     (S_OK, st\<lparr>md_evaluator := NotifyEvalComplete (Some (thread_number t)) result (md_evaluator st)\<rparr>)"

section \<open>Processes, threads and modules\<close>

definition NotifyProcessCreated :: "md_state \<Rightarrow> md_state" where
  "NotifyProcessCreated st = st\<lparr>md_attached := True\<rparr>"

definition NotifyProcessExited :: "md_state \<Rightarrow> md_state" where
  "NotifyProcessExited st = st\<lparr>md_attached := False\<rparr>"

definition cb_CreateProcess :: "md_state \<Rightarrow> hresult \<times> md_state" where
  "cb_CreateProcess st = (S_OK, continue_debuggee (NotifyProcessCreated st))"

function drain_eval_queue :: "evaluator \<Rightarrow> evaluator" where
  "drain_eval_queue ev = (if \<not> is_empty_eval_queue ev then drain_eval_queue (pop_eval_queue ev) else ev)"
  by pat_completeness auto
termination
  by (relation "measure (\<lambda>ev. length (m_evalQueue ev))") (auto simp: is_empty_eval_queue_def pop_eval_queue_def)

declare drain_eval_queue.simps [simp del]

definition cb_ExitProcess :: "md_state \<Rightarrow> hresult \<times> md_state" where
  "cb_ExitProcess st =
     (S_OK, emit [Emit_Terminated]
        (NotifyProcessExited
          (emit [Emit_Exited 0]
            (st\<lparr>md_evaluator := drain_eval_queue (NotifyEvalComplete None None (md_evaluator st))\<rparr>))))"

definition cb_CreateThread :: "md_thread \<Rightarrow> md_state \<Rightarrow> hresult \<times> md_state" where
  "cb_CreateThread t st =
     (S_OK, continue_debuggee (emit [Emit_Thread ThreadStarted (to_s32 (thread_number t))] st))"

definition cb_ExitThread :: "md_thread \<Rightarrow> md_state \<Rightarrow> hresult \<times> md_state" where
  "cb_ExitThread t st =
     (S_OK, continue_debuggee (emit [Emit_Thread ThreadExited (to_s32 (thread_number t))]
        (st\<lparr>md_evaluator := NotifyEvalComplete (Some (thread_number t)) None (md_evaluator st)\<rparr>)))"

definition cb_LoadModule :: "module_load \<Rightarrow> (string \<Rightarrow> bytes option) \<Rightarrow> md_state \<Rightarrow> hresult \<times> md_state" where
  "cb_LoadModule ld files st =
     (case TryLoadModuleSymbols ld (md_modules st) of
        (_, info, jmc, ms) \<Rightarrow>
          let st1 = emit ((case jmc of None \<Rightarrow> [] | Some (b, calls) \<Rightarrow> [Set_JMC b calls]) @ [Emit_Module ModuleNew info])
                      (st\<lparr>md_modules := ms\<rparr>)
          in if mi_symbolStatus info = SymbolsLoaded
             then (case TryResolveBreakpointsForModule files ms (ld_module ld) (md_breakpoints st) of
                     (bps, events) \<Rightarrow>
                       (S_OK, continue_debuggee (emit (map (Emit_Breakpoint BreakpointChanged) events)
                                (st1\<lparr>md_breakpoints := bps\<rparr>))))
             else (S_OK, continue_debuggee st1))"

section \<open>Exceptions\<close>

text \<open>The answers for an exception: its type and module (\<open>GetExceptionInfo\<close>), its message, \<open>Continue\<close>, and
  the six calls made while an evaluation runs.\<close>

record exception_answers =
  xa_thread :: md_thread
  xa_event :: int
  xa_info :: "(string \<times> string) option"
  xa_message :: "string option"
  xa_continue :: hresult
  xa_calls :: "nat \<Rightarrow> hresult"

definition exception_text :: "string \<Rightarrow> string \<Rightarrow> string" where
  "exception_text excType excModule = ''Exception thrown: '' @ [CHR 0x27] @ excType @ [CHR 0x27] @ '' in '' @ excModule"

definition unhandled_text :: "string \<Rightarrow> string \<Rightarrow> string" where
  "unhandled_text excType excModule =
     ''An unhandled exception of type '' @ [CHR 0x27] @ excType @ [CHR 0x27] @ '' occurred in '' @ excModule"

definition exception_description :: "bool \<Rightarrow> string \<Rightarrow> string \<Rightarrow> string \<Rightarrow> string" where
  "exception_description unhandled excType excModule message =
     (let details = (if unhandled then unhandled_text excType excModule else exception_text excType excModule)
      in if message = [] then details else message)"

text \<open>Whether an exception is unhandled for the debugger, and whether no filter matches it.\<close>

definition exc_unhandled :: "int \<Rightarrow> bps_state \<Rightarrow> bool" where
  "exc_unhandled ev bps =
     (ev = UNHANDLED \<and> f_unhandled (snd (Storage_GetMode (bs_exceptions bps) default_mode asterix)))"

definition exc_matched :: "int \<Rightarrow> string \<Rightarrow> bps_state \<Rightarrow> bool" where
  "exc_matched ev excType bps \<longleftrightarrow> exc_unhandled ev bps \<or> Storage_Match (bs_exceptions bps) ev excType CLR"

definition record_unhandled :: "bool \<Rightarrow> nat \<Rightarrow> md_state \<Rightarrow> md_state" where
  "record_unhandled unhandled threadId st =
     (if unhandled
      then st\<lparr>md_unhandledThreads := List.insert (to_s32 threadId) (md_unhandledThreads st)\<rparr> else st)"

text \<open>While an evaluation runs, its thread goes on alone and the exception is intercepted.\<close>

definition interrupt_evaluation :: "exception_answers \<Rightarrow> md_state \<Rightarrow> hresult \<times> md_state" where
  "interrupt_evaluation a st =
     run_calls
       [(xa_calls a 0, []), (xa_calls a 1, [Runtime Rt_Suspend_All]),
        (xa_calls a 2, [Runtime (Rt_Run_Thread (front_eval_queue (md_evaluator st)))]),
        (xa_calls a 3, [Runtime Rt_Continue]), (xa_calls a 4, []), (xa_calls a 5, [Runtime Rt_Intercept])] st"

definition cb_Exception :: "exception_answers \<Rightarrow> md_state \<Rightarrow> hresult \<times> md_state" where
  "cb_Exception a st =
     (case (mt_id (xa_thread a), xa_info a) of
        (Some threadId, Some (excType, excModule)) \<Rightarrow>
          if \<not> exc_matched (xa_event a) excType (md_breakpoints st) then
            run_calls [(xa_continue a, [Runtime Rt_Continue])]
              (emit [Emit_Output (exception_text excType excModule @ [CHR 0x0A]) ''target-exception''] st)
          else
            let unhandled = exc_unhandled (xa_event a) (md_breakpoints st);
                st1 = record_unhandled unhandled threadId st
            in (case xa_message a of
                  None \<Rightarrow> (E_FAIL, st1)
                | Some message \<Rightarrow>
                    let event = (new_stopped_event StopException threadId)
                          \<lparr>se_text := excType, se_description := exception_description unhandled excType excModule message,
                           se_frame := snd (active_location (xa_thread a) st1)\<rparr>;
                        st2 = SetLastStoppedThread (xa_thread a) st1
                    in if IsEvalRunning (md_evaluator st2) \<and> \<not> is_empty_eval_queue (md_evaluator st2)
                       then interrupt_evaluation a st2
                       else (S_OK, snd (Stop event st2)))
      | _ \<Rightarrow> (E_FAIL, st))"

section \<open>Dispatch\<close>

definition E_NOTIMPL :: hresult where "E_NOTIMPL = HR_Other 0x80004001"

text \<open>The callbacks that are not implemented; the runtime goes on by itself after them.\<close>

datatype other_callback =
    Cb_Break | Cb_Exception1 | Cb_UnloadModule | Cb_LoadClass | Cb_UnloadClass | Cb_DebuggerError
  | Cb_LogMessage | Cb_LogSwitch | Cb_CreateAppDomain | Cb_ExitAppDomain | Cb_LoadAssembly
  | Cb_UnloadAssembly | Cb_ControlCTrap | Cb_NameChange | Cb_UpdateModuleSymbols
  | Cb_EditAndContinueRemap | Cb_BreakpointSetError | Cb_FunctionRemapOpportunity
  | Cb_CreateConnection | Cb_ChangeConnection | Cb_DestroyConnection
  | Cb_FunctionRemapComplete | Cb_MDANotification

definition not_implemented :: "other_callback \<Rightarrow> md_state \<Rightarrow> hresult \<times> md_state" where
  "not_implemented c st = (E_NOTIMPL, st)"

definition cb_ExceptionUnwind :: "md_thread \<Rightarrow> md_state \<Rightarrow> hresult \<times> md_state" where
  "cb_ExceptionUnwind t st = (if mt_id t = None then (E_FAIL, st) else (E_NOTIMPL, st))"

datatype md_callback =
    Cb_Breakpoint bp_task
  | Cb_StepComplete md_thread stepper_answers
  | Cb_EvalComplete md_thread "nat option" hresult hresult hresult
  | Cb_EvalException md_thread "nat option"
  | Cb_CreateProcess
  | Cb_ExitProcess
  | Cb_CreateThread md_thread
  | Cb_ExitThread md_thread
  | Cb_LoadModule module_load "string \<Rightarrow> bytes option"
  | Cb_Exception exception_answers
  | Cb_ExceptionUnwind md_thread
  | Cb_Other other_callback

fun run_callback :: "md_callback \<Rightarrow> md_state \<Rightarrow> hresult \<times> md_state" where
  "run_callback (Cb_Breakpoint task) st = cb_Breakpoint task st"
| "run_callback (Cb_StepComplete t a) st = cb_StepComplete t a st"
| "run_callback (Cb_EvalComplete t r h1 h2 h3) st = cb_EvalComplete t r h1 h2 h3 st"
| "run_callback (Cb_EvalException t r) st = cb_EvalException t r st"
| "run_callback Cb_CreateProcess st = cb_CreateProcess st"
| "run_callback Cb_ExitProcess st = cb_ExitProcess st"
| "run_callback (Cb_CreateThread t) st = cb_CreateThread t st"
| "run_callback (Cb_ExitThread t) st = cb_ExitThread t st"
| "run_callback (Cb_LoadModule ld files) st = cb_LoadModule ld files st"
| "run_callback (Cb_Exception a) st = cb_Exception a st"
| "run_callback (Cb_ExceptionUnwind t) st = cb_ExceptionUnwind t st"
| "run_callback (Cb_Other c) st = not_implemented c st"

section \<open>Facts\<close>

lemma stop_loop_eq:
  "stop_loop st = st\<lparr>md_stopCounter := min 0 (md_stopCounter st),
     md_trace := md_trace st @ replicate (nat (md_stopCounter st)) (Emit_Continued (md_lastStoppedThreadId st))\<rparr>"
proof (induction st rule: stop_loop.induct)
  case (1 st)
  show ?case
  proof (cases "md_stopCounter st > 0")
    case True
    then have "nat (md_stopCounter st) = Suc (nat (md_stopCounter st - 1))" by simp
    with 1 [OF True] True show ?thesis
      by (simp add: stop_loop.simps [of st] emit_def replicate_append_same [symmetric])
  next
    case False
    then show ?thesis by (simp add: stop_loop.simps [of st])
  qed
qed

lemma drain_eval_queue_eq: "drain_eval_queue ev = ev\<lparr>m_evalQueue := []\<rparr>"
proof (induction ev rule: drain_eval_queue.induct)
  case (1 ev)
  then show ?case
    by (cases "m_evalQueue ev")
      (simp_all add: drain_eval_queue.simps [of ev] is_empty_eval_queue_def pop_eval_queue_def)
qed

lemma emit_emit [simp]: "emit ys (emit xs st) = emit (xs @ ys) st" "emit [] st = st"
  by (simp_all add: emit_def)

lemma run_calls_frame:
  "\<exists>os. snd (run_calls calls st) = emit os st \<and> set os \<subseteq> \<Union> (set ` set (map snd calls))"
proof (induction calls st rule: run_calls.induct)
  case (1 st)
  show ?case by (rule exI [of _ "[]"]) (simp add: emit_def)
next
  case (2 status os calls st)
  show ?case
  proof (cases "succeeded status")
    case True
    from 2 [OF True] obtain os' where "snd (run_calls calls (emit os st)) = emit os' (emit os st)"
      "set os' \<subseteq> \<Union> (set ` set (map snd calls))" by auto
    then show ?thesis using True by (intro exI [of _ "os @ os'"]) (auto simp: emit_def)
  next
    case False
    then show ?thesis by (intro exI [of _ "[]"]) (simp add: emit_def)
  qed
qed

lemma run_calls_ok:
  "run_calls calls st = (S_OK, st') \<Longrightarrow> st' = emit (concat (map snd calls)) st"
  by (induction calls st rule: run_calls.induct) (simp_all split: if_splits)

section \<open>Every callback is answered once\<close>

text \<open>What settles a callback: the debuggee is let go, a stop is reported, or the work is left to a task.\<close>

fun is_answer :: "md_out \<Rightarrow> bool" where
  "is_answer (Runtime c) = (c = Rt_Continue)"
| "is_answer (Emit_Stopped e) = True"
| "is_answer _ = False"

definition answers :: "md_state \<Rightarrow> md_state \<Rightarrow> nat" where
  "answers st st' =
     length (filter is_answer (drop (length (md_trace st)) (md_trace st'))) + (length (md_tasks st') - length (md_tasks st))"

lemma answers_emit:
  "answers st (emit os st') = answers st st' + length (filter is_answer os)" if "length (md_trace st) \<le> length (md_trace st')"
  using that by (simp add: answers_def emit_def)

lemma answers_refl [simp]: "answers st st = 0"
  by (simp add: answers_def)

lemma answers_same:
  "md_trace st' = md_trace st @ os \<Longrightarrow> md_tasks st' = md_tasks st \<Longrightarrow> answers st st' = length (filter is_answer os)"
  by (simp add: answers_def)

lemmas callback_defs = cb_Breakpoint_def cb_StepComplete_def cb_CreateProcess_def cb_ExitProcess_def
  cb_CreateThread_def cb_ExitThread_def cb_LoadModule_def continue_debuggee_def SetLastStoppedThread_def
  NotifyProcessCreated_def NotifyProcessExited_def emit_def

fun resuming_callback :: "md_callback \<Rightarrow> bool" where
  "resuming_callback (Cb_EvalComplete _ _ _ _ _) = False"
| "resuming_callback (Cb_EvalException _ _) = False"
| "resuming_callback Cb_ExitProcess = False"
| "resuming_callback (Cb_ExceptionUnwind _) = False"
| "resuming_callback (Cb_Other _) = False"
| "resuming_callback _ = True"

lemma step_call_quiet: "step_call t ty st \<noteq> Rt_Continue"
  by (simp add: step_call_def split: option.split)

lemma SetupStep_emits: "\<exists>os. snd (SetupStep t a ty st) = emit os st \<and> filter is_answer os = []"
proof -
  let ?calls = "[(sa_create a, []), (sa_intercept a, []), (sa_unmapped a, []), (sa_stepper2 a, []),
      (sa_jmc a, []), (sa_step a, [Runtime (step_call t ty st)])]"
  obtain os where os: "snd (run_calls ?calls st) = emit os st"
    and sub: "set os \<subseteq> \<Union> (set ` set (map snd ?calls))"
    using run_calls_frame [of ?calls st] by blast
  have "filter is_answer os = []"
    unfolding filter_empty_conv using sub step_call_quiet by auto
  then show ?thesis using os unfolding SetupStep_def by blast
qed

lemma quiet_events [simp]: "filter is_answer (map (Emit_Breakpoint r) events) = []"
  by (simp add: filter_empty_conv)

lemma interrupt_ok:
  "interrupt_evaluation a st = (S_OK, st') \<Longrightarrow>
     st' = emit [Runtime Rt_Suspend_All, Runtime (Rt_Run_Thread (front_eval_queue (md_evaluator st))),
                 Runtime Rt_Continue, Runtime Rt_Intercept] st"
  unfolding interrupt_evaluation_def by (drule run_calls_ok) simp

lemma answers_Exception:
  assumes "cb_Exception a st = (S_OK, st')"
  shows "answers st st' = 1"
proof -
  obtain tid p where p: "mt_id (xa_thread a) = Some tid" "xa_info a = Some p"
    using assms by (cases "mt_id (xa_thread a)"; cases "xa_info a") (simp_all add: cb_Exception_def)
  obtain ty m where "p = (ty, m)" by (cases p)
  with p have x: "mt_id (xa_thread a) = Some tid" "xa_info a = Some (ty, m)" by simp_all
  show ?thesis
  proof (cases "exc_matched (xa_event a) ty (md_breakpoints st)")
    case False
    then have "run_calls [(xa_continue a, [Runtime Rt_Continue])]
        (emit [Emit_Output (exception_text ty m @ [CHR 0x0A]) ''target-exception''] st) = (S_OK, st')"
      using assms by (simp add: cb_Exception_def x)
    from run_calls_ok [OF this] show ?thesis by (simp add: emit_def answers_def)
  next
    case True
    obtain msg where msg: "xa_message a = Some msg"
      using assms True by (cases "xa_message a") (simp_all add: cb_Exception_def x Let_def)
    define st1 where "st1 = record_unhandled (exc_unhandled (xa_event a) (md_breakpoints st)) tid st"
    define st2 where "st2 = SetLastStoppedThread (xa_thread a) st1"
    have same: "md_trace st2 = md_trace st" "md_tasks st2 = md_tasks st"
      by (simp_all add: st2_def st1_def record_unhandled_def SetLastStoppedThread_def)
    have "interrupt_evaluation a st2 = (S_OK, st') \<or> (\<exists>event. st' = snd (Stop event st2))"
      using assms True by (simp add: cb_Exception_def x msg Let_def flip: st1_def st2_def split: if_splits) blast+
    then show ?thesis
    proof
      assume "interrupt_evaluation a st2 = (S_OK, st')"
      from interrupt_ok [OF this] show ?thesis by (simp add: answers_def emit_def same)
    next
      assume "\<exists>event. st' = snd (Stop event st2)"
      then show ?thesis by (auto simp: answers_def Stop_def stop_loop_eq emit_def same)
    qed
  qed
qed

lemma answers_callback:
  assumes "resuming_callback c" and "run_callback c st = (S_OK, st')"
  shows "answers st st' = 1"
proof (cases c)
  case (Cb_Breakpoint task)
  then show ?thesis using assms by (auto simp: callback_defs answers_def split: if_splits)
next
  case (Cb_StepComplete t a)
  obtain os where os: "snd (SetupStep t a STEP_OVER st) = emit os st" "filter is_answer os = []"
    using SetupStep_emits by blast
  then show ?thesis using assms Cb_StepComplete
    by (auto simp: callback_defs answers_def split: if_splits prod.splits)
next
  case (Cb_LoadModule ld files)
  then show ?thesis using assms
    by (auto simp: callback_defs answers_def Let_def split: if_splits prod.splits option.splits)
next
  case (Cb_Exception a)
  then show ?thesis using assms answers_Exception by simp
qed (use assms in \<open>auto simp: callback_defs answers_def\<close>)

lemma answers_task: "answers st (breakpoint_task task st) = 1"
  by (auto simp: breakpoint_task_def Let_def callback_defs answers_def split: prod.splits hit_result.splits)

section \<open>The invariant\<close>

definition md_inv :: "md_state \<Rightarrow> bool" where
  "md_inv st \<longleftrightarrow> um_wf (md_modules st) \<and> ev_inv (md_evaluator st) \<and> bps_inv (md_breakpoints st)"

lemma md_inv_cong:
  "md_modules st' = md_modules st \<Longrightarrow> md_evaluator st' = md_evaluator st \<Longrightarrow> md_breakpoints st' = md_breakpoints st \<Longrightarrow>
     md_inv st \<Longrightarrow> md_inv st'"
  by (simp add: md_inv_def)

lemma md_inv_emit [simp]: "md_inv (emit os st) = md_inv st"
  by (simp add: md_inv_def emit_def)

lemma md_inv_run_calls: "md_inv st \<Longrightarrow> md_inv (snd (run_calls calls st))"
  using run_calls_frame [of calls st] by auto

lemma md_inv_SetupStep: "md_inv st \<Longrightarrow> md_inv (snd (SetupStep t a ty st))"
  unfolding SetupStep_def by (rule md_inv_run_calls)

lemma ev_inv_drain [simp]: "ev_inv (drain_eval_queue ev) = ev_inv ev"
  by (simp add: drain_eval_queue_eq ev_inv_def)

lemma TryLoad_wf: "TryLoadModuleSymbols ld ms = (ok, info, jmc, ms') \<Longrightarrow> um_wf ms \<Longrightarrow> um_wf ms'"
  by (auto simp: TryLoadModuleSymbols_def register_module_def Let_def split: if_splits option.splits)

lemma md_inv_LoadModule: "md_inv st \<Longrightarrow> md_inv (snd (cb_LoadModule ld files st))"
proof -
  assume inv: "md_inv st"
  obtain ok info jmc ms where L: "TryLoadModuleSymbols ld (md_modules st) = (ok, info, jmc, ms)"
    by (cases "TryLoadModuleSymbols ld (md_modules st)")
  have ms: "um_wf ms" using TryLoad_wf [OF L] inv by (simp add: md_inv_def)
  have "bps_inv (fst (TryResolveBreakpointsForModule files ms (ld_module ld) (md_breakpoints st)))"
    using inv TryResolve_inv by (auto simp: md_inv_def)
  then show ?thesis
    using inv ms by (cases "mi_symbolStatus info = SymbolsLoaded")
      (simp_all add: cb_LoadModule_def L md_inv_def continue_debuggee_def emit_def Let_def case_prod_beta)
qed

lemma md_inv_Stop: "md_inv st \<Longrightarrow> md_inv (snd (Stop event st))"
  by (simp add: Stop_def stop_loop_eq md_inv_def emit_def)

lemma md_inv_Exception: "md_inv st \<Longrightarrow> md_inv (snd (cb_Exception a st))"
proof -
  assume inv: "md_inv st"
  show ?thesis
  proof (cases "mt_id (xa_thread a) = None \<or> xa_info a = None")
    case True
    then show ?thesis using inv by (cases "mt_id (xa_thread a)"; cases "xa_info a") (simp_all add: cb_Exception_def)
  next
    case False
    then obtain tid ty m where x: "mt_id (xa_thread a) = Some tid" "xa_info a = Some (ty, m)" by auto
    define st1 where "st1 = record_unhandled (exc_unhandled (xa_event a) (md_breakpoints st)) tid st"
    have 1: "md_inv st1" using inv by (simp add: st1_def record_unhandled_def md_inv_def)
    define st2 where "st2 = SetLastStoppedThread (xa_thread a) st1"
    have 2: "md_inv st2" using 1 by (simp add: st2_def SetLastStoppedThread_def md_inv_def)
    have 3: "md_inv (snd (interrupt_evaluation a st2))"
      unfolding interrupt_evaluation_def by (rule md_inv_run_calls [OF 2])
    show ?thesis
      by (simp add: cb_Exception_def x Let_def md_inv_run_calls inv 1 3 md_inv_Stop [OF 2] flip: st1_def st2_def
          split: option.split del: emit_emit)
  qed
qed

lemma md_inv_callback: "md_inv st \<Longrightarrow> md_inv (snd (run_callback c st))"
proof (cases c)
  case (Cb_StepComplete t a)
  then show "md_inv st \<Longrightarrow> ?thesis"
    using md_inv_SetupStep [of st t a STEP_OVER]
    by (auto simp: cb_StepComplete_def continue_debuggee_def SetLastStoppedThread_def md_inv_def emit_def
        split: prod.splits)
next
  case (Cb_EvalComplete t r h1 h2 h3)
  assume inv: "md_inv st"
  let ?ev = "NotifyEvalComplete (Some (thread_number t)) r (md_evaluator st)"
  have "md_inv (st\<lparr>md_evaluator := ?ev\<rparr>)" "md_inv (st\<lparr>md_evaluator := pop_eval_queue ?ev\<rparr>)"
    using inv ev_inv_notify [of "md_evaluator st"] by (simp_all add: md_inv_def ev_inv_queue)
  then show ?thesis
    by (simp add: Cb_EvalComplete cb_EvalComplete_def Let_def md_inv_run_calls)
next
  case (Cb_LoadModule ld files)
  assume "md_inv st"
  then show ?thesis by (simp add: Cb_LoadModule md_inv_LoadModule)
next
  case (Cb_Exception a)
  assume "md_inv st"
  then show ?thesis by (simp add: Cb_Exception md_inv_Exception)
qed (simp_all add: cb_Breakpoint_def cb_CreateProcess_def cb_ExitProcess_def cb_CreateThread_def cb_ExitThread_def
    continue_debuggee_def NotifyProcessCreated_def NotifyProcessExited_def cb_EvalException_def
    cb_ExceptionUnwind_def not_implemented_def md_inv_def emit_def ev_inv_notify)

lemma md_inv_task: "md_inv st \<Longrightarrow> md_inv (breakpoint_task task st)"
  using HitBreakpoint_inv [of "md_breakpoints st" "md_modules st" "bt_views task" "clr_of (bt_thread task)" "bt_hit task"]
  by (auto simp: breakpoint_task_def Let_def md_inv_def continue_debuggee_def emit_def SetLastStoppedThread_def
      split: prod.splits hit_result.splits)

text \<open>What can happen while the debuggee runs: a callback, or one of the pending tasks, in any order.\<close>

datatype md_event = Callback md_callback | Run_Task nat

fun md_step :: "md_event \<Rightarrow> md_state \<Rightarrow> md_state" where
  "md_step (Callback c) st = snd (run_callback c st)"
| "md_step (Run_Task i) st =
     (if i < length (md_tasks st)
      then breakpoint_task (md_tasks st ! i) (st\<lparr>md_tasks := take i (md_tasks st) @ drop (Suc i) (md_tasks st)\<rparr>)
      else st)"

lemma md_inv_step: "md_inv st \<Longrightarrow> md_inv (md_step e st)"
proof (cases e)
  case (Run_Task i)
  moreover assume "md_inv st"
  moreover from this have "md_inv (st\<lparr>md_tasks := take i (md_tasks st) @ drop (Suc i) (md_tasks st)\<rparr>)"
    by (simp add: md_inv_def)
  ultimately show ?thesis by (simp add: md_inv_task)
qed (simp add: md_inv_callback)

lemma md_inv_fold: "md_inv st \<Longrightarrow> md_inv (fold md_step es st)"
  by (induction es arbitrary: st) (simp_all add: md_inv_step)

lemma md_inv_init: "md_inv init_debugger"
  by (simp add: md_inv_def init_debugger_def ev_inv_init bps_inv_init)

section \<open>Properties\<close>

text \<open>C3. The debuggee is never left hanging by a callback that succeeds: each callback that stops the debuggee
  (for breakpoints, steps, the creation of the process, threads, modules and exceptions) either lets
  it go, or reports one stop, or leaves the matter to one task; and a task settles it the same way.\<close>

theorem callback_answered_once:
  assumes "resuming_callback c" and "run_callback c st = (S_OK, st')"
  shows "answers st st' = 1 \<and> answers st' (breakpoint_task task st') = 1"
  using answers_callback [OF assms] answers_task by simp

definition demo_bp_task :: bp_task where
  "demo_bp_task = \<lparr>bt_thread = \<lparr>mt_id = Some 1, mt_frame = None, mt_args = None, mt_evaluate = (\<lambda>_ _. None)\<rparr>,
                   bt_hit = None, bt_views = (\<lambda>_. \<lparr>nv_offset = None, nv_token = None, nv_module = None\<rparr>)\<rparr>"

theorem callback_answered_once_witness:
  "answers init_debugger (snd (run_callback (Cb_Breakpoint demo_bp_task) init_debugger)) = 1"
proof -
  have "run_callback (Cb_Breakpoint demo_bp_task) init_debugger = (S_OK, init_debugger\<lparr>md_tasks := [demo_bp_task]\<rparr>)"
    by (simp add: cb_Breakpoint_def init_debugger_def init_evaluator_def IsEvalRunning_def)
  from callback_answered_once [OF _ this, of demo_bp_task] this show ?thesis by simp
qed

text \<open>An exception can leave the debuggee hanging: when its type cannot be found (a thread without a
  managed frame), or it matches a filter but its message cannot be read, the callback fails, without
  letting the debuggee go and without reporting a stop.\<close>

theorem exception_left_hanging:
  assumes "mt_id (xa_thread a) = Some threadId"
    and "xa_info a = None \<or>
      (xa_message a = None \<and> (\<exists>ty m. xa_info a = Some (ty, m) \<and> exc_matched (xa_event a) ty (md_breakpoints st)))"
  shows "fst (cb_Exception a st) = E_FAIL \<and> answers st (snd (cb_Exception a st)) = 0"
  using assms by (auto simp: cb_Exception_def answers_def record_unhandled_def Let_def)

theorem exception_left_hanging_witness:
  "fst (cb_Exception \<lparr>xa_thread = bt_thread demo_bp_task, xa_event = UNHANDLED, xa_info = None, xa_message = None,
          xa_continue = S_OK, xa_calls = (\<lambda>_. S_OK)\<rparr> init_debugger) = E_FAIL"
  using exception_left_hanging [of "\<lparr>xa_thread = bt_thread demo_bp_task, xa_event = UNHANDLED, xa_info = None,
      xa_message = None, xa_continue = S_OK, xa_calls = (\<lambda>_. S_OK)\<rparr>" 1 init_debugger]
  by (simp add: demo_bp_task_def)

text \<open>Reporting a stop ends for every value of the stop counter: each stop still open is first reported as
  continued, the new one is reported last, and the counter is one.\<close>

theorem stop_reports_open_stops:
  "Stop event st = (S_OK, st\<lparr>md_stopCounter := 1,
     md_trace := md_trace st @ replicate (nat (md_stopCounter st)) (Emit_Continued (md_lastStoppedThreadId st)) @
                 [Emit_Stopped event]\<rparr>)"
  by (simp add: Stop_def stop_loop_eq emit_def)

text \<open>Whatever callbacks arrive and in whatever order the pending tasks run, the module table, the table
  of evaluations and the breakpoint tables stay well formed.\<close>

theorem callbacks_keep_invariant:
  "um_wf (md_modules (fold md_step es init_debugger)) \<and> ev_inv (md_evaluator (fold md_step es init_debugger)) \<and>
   bps_inv (md_breakpoints (fold md_step es init_debugger))"
  using md_inv_fold [OF md_inv_init, of es] by (simp add: md_inv_def)

end
