(* ===== verification/Managed_Debugger.thy ===== *)
theory Managed_Debugger imports Callbacks Shell_Args begin

text \<open>
  Process control (\<open>manageddebugger.cpp\<close>): starting, attaching to, stepping, pausing, detaching from and
  ending the debuggee.  An operation that waits for the runtime is given the callbacks that arrive
  while it waits; None means that it is still waiting.
\<close>

section \<open>Steppers and breakpoints of the runtime\<close>

text \<open>An application domain: its breakpoints and its steppers, None when they cannot be enumerated.\<close>

record app_domain =
  ad_breakpoints :: "nat list option"
  ad_steppers :: "nat list option"

definition DisableAllSteppersInAppDomain :: "app_domain \<Rightarrow> rt_call list" where
  "DisableAllSteppersInAppDomain d =
     (case ad_steppers d of None \<Rightarrow> [] | Some ss \<Rightarrow> map Rt_Deactivate_Stepper ss)"

definition DisableAllSteppers :: "app_domain list option \<Rightarrow> rt_call list" where
  "DisableAllSteppers domains =
     (case domains of None \<Rightarrow> [] | Some ds \<Rightarrow> concat (map DisableAllSteppersInAppDomain ds))"

definition DisableAllBreakpointsAndSteppersInAppDomain :: "app_domain \<Rightarrow> rt_call list" where
  "DisableAllBreakpointsAndSteppersInAppDomain d =
     (case ad_breakpoints d of None \<Rightarrow> [] | Some bs \<Rightarrow> map Rt_Deactivate_Breakpoint bs) @
     DisableAllSteppersInAppDomain d"

definition DisableAllBreakpointsAndSteppers :: "app_domain list option \<Rightarrow> rt_call list" where
  "DisableAllBreakpointsAndSteppers domains =
     (case domains of None \<Rightarrow> [] | Some ds \<Rightarrow> concat (map DisableAllBreakpointsAndSteppersInAppDomain ds))"

section \<open>Finding the runtime\<close>

text \<open>One answer of \<open>EnumerateCLRs\<close>: its result, the array of handles (None for a null pointer; True for a
  valid handle), and the paths.\<close>

record clr_answer =
  ca_hr :: hresult
  ca_handles :: "bool list option"
  ca_paths :: "string list"

definition AreAllHandlesValid :: "bool list \<Rightarrow> bool" where
  "AreAllHandlesValid hs = list_all id hs"

definition ERROR_TIMEOUT_HR :: hresult where "ERROR_TIMEOUT_HR = HR_Other 0x800705B4"

text \<open>\<open>tries\<close> is the number of attempts left; the result comes with the number of pauses made.\<close>

fun InternalEnumerateCLRs :: "(nat \<Rightarrow> clr_answer) \<Rightarrow> nat \<Rightarrow> nat \<Rightarrow> (hresult \<times> clr_answer option) \<times> nat" where
  "InternalEnumerateCLRs answer numTries 0 = ((ERROR_TIMEOUT_HR, None), 0)"
| "InternalEnumerateCLRs answer numTries (Suc tries) =
     (let a = answer numTries in
      if succeeded (ca_hr a) \<and> (case ca_handles a of None \<Rightarrow> False | Some hs \<Rightarrow> hs \<noteq> [] \<and> AreAllHandlesValid hs)
      then ((ca_hr a, Some a), 0)
      else if ca_hr a = E_INVALIDARG \<or> ca_hr a = E_FAIL then ((ca_hr a, None), 0)
      else (case InternalEnumerateCLRs answer (numTries + 1) tries of (r, pauses) \<Rightarrow> (r, pauses + 1)))"

definition GetCLRPath :: "(nat \<Rightarrow> clr_answer) \<Rightarrow> nat \<Rightarrow> string" where
  "GetCLRPath answer timeoutSec =
     (case fst (InternalEnumerateCLRs answer 0 (timeoutSec * 10)) of
        (hr, Some a) \<Rightarrow> if succeeded hr then (case ca_paths a of [] \<Rightarrow> [] | p # _ \<Rightarrow> p) else []
      | (hr, None) \<Rightarrow> [])"

section \<open>Attaching\<close>

text \<open>The answers to the calls of \<open>Startup\<close>: the \<open>ICorDebug\<close> interface, its initialisation, the callback
  handler, the search for the runtime, and \<open>DebugActiveProcess\<close>.\<close>

record startup_answers =
  su_cordebug :: hresult
  su_initialize :: hresult
  su_handler :: hresult
  su_clr :: "nat \<Rightarrow> clr_answer"
  su_attach :: hresult

definition Startup :: "startup_answers \<Rightarrow> nat \<Rightarrow> md_state \<Rightarrow> hresult \<times> md_state" where
  "Startup a pid st =
     (if \<not> succeeded (su_cordebug a) then (su_cordebug a, st)
      else if \<not> succeeded (su_initialize a) then (su_initialize a, st)
      else if \<not> succeeded (su_handler a) then (su_handler a, emit [Runtime Rt_Debug_Terminate] st)
      else
        let st1 = st\<lparr>md_clrPath := (if md_clrPath st = [] then GetCLRPath (su_clr a) 3 else md_clrPath st)\<rparr>
        in if \<not> succeeded (su_attach a) then (su_attach a, emit [Runtime Rt_Debug_Terminate] st1)
           else (S_OK, st1\<lparr>md_pProcess := True, md_pDebug := True, md_processId := pid\<rparr>))"

definition StartupCallback :: "startup_answers \<Rightarrow> hresult \<Rightarrow> md_state \<Rightarrow> md_state" where
  "StartupCallback a hr st =
     (case (if \<not> succeeded hr then (hr, st) else Startup a (md_processId st) st) of
        (result, st1) \<Rightarrow> st1\<lparr>md_startupResult := result, md_startupReady := True, md_unregisterToken := None\<rparr>)"

section \<open>Ending\<close>

definition md_cleanup :: "md_state \<Rightarrow> md_state" where
  "md_cleanup st = emit [Protocol_Cleanup] (st\<lparr>md_modules := CleanupAllModules (md_modules st)\<rparr>)"

text \<open>The released functions of the evaluator are no state of the model.\<close>

text \<open>\<open>WaitProcessExited\<close>: the callbacks that arrive are handled until the process is no longer attached.\<close>

fun WaitProcessExited :: "md_callback list \<Rightarrow> md_state \<Rightarrow> md_state option" where
  "WaitProcessExited [] st = (if md_attached st then None else Some st)"
| "WaitProcessExited (c # cs) st =
     (if md_attached st then WaitProcessExited cs (snd (run_callback c st)) else Some st)"

text \<open>The answers of the process: \<open>Stop\<close>, and its application domains.\<close>

record process_answers =
  pa_stop :: hresult
  pa_domains :: "app_domain list option"

definition release_process :: "md_state \<Rightarrow> md_state" where
  "release_process st = emit [Runtime Rt_Debug_Terminate] (st\<lparr>md_pProcess := False, md_pDebug := False\<rparr>)"

definition TerminateProcess ::
  "process_answers \<Rightarrow> md_callback list \<Rightarrow> md_state \<Rightarrow> (hresult \<times> md_state) option" where
  "TerminateProcess a arriving st =
     (if \<not> md_pProcess st \<or> \<not> md_pDebug st then Some (E_FAIL, st)
      else
        let st1 = (if succeeded (pa_stop a)
                   then emit (Runtime Rt_Stop # map Runtime (DisableAllBreakpointsAndSteppers (pa_domains a))) st else st);
            st2 = emit [Runtime Rt_Terminate] (md_cleanup st1)
        in map_option (\<lambda>st3. (S_OK, release_process st3)) (WaitProcessExited arriving st2))"

definition DetachFromProcess :: "process_answers \<Rightarrow> md_state \<Rightarrow> hresult \<times> md_state" where
  "DetachFromProcess a st =
     (if \<not> md_pProcess st \<or> \<not> md_pDebug st then (E_FAIL, st)
      else
        let st1 = (if succeeded (pa_stop a)
                   then emit (Runtime Rt_Stop # map Runtime (DisableAllBreakpointsAndSteppers (pa_domains a)) @ [Runtime Rt_Detach])
                          (st\<lparr>md_breakpoints := DeleteAllBreakpoints (md_breakpoints st)\<rparr>)
                   else st)
        in (S_OK, release_process (md_cleanup st1)))"

definition CheckNoProcess ::
  "process_answers \<Rightarrow> md_callback list \<Rightarrow> md_state \<Rightarrow> (hresult \<times> md_state) option" where
  "CheckNoProcess a arriving st =
     (if md_pProcess st \<or> md_pDebug st then
        (if md_attached st then Some (E_FAIL, st)
         else map_option (\<lambda>(_, st'). (S_OK, st')) (TerminateProcess a arriving st))
      else Some (S_OK, st))"

section \<open>Starting\<close>

text \<open>The answers of \<open>dbgshim\<close>: the process created for a command line, the token of the registration, the
  resumption, and the startup callback that arrives within the timeout, if one does.\<close>

record launch_answers =
  la_create :: "string \<Rightarrow> hresult + nat"
  la_register :: "hresult + nat"
  la_resume :: hresult
  la_callback :: "(startup_answers \<times> hresult) option"

definition RunProcess ::
  "process_answers \<Rightarrow> md_callback list \<Rightarrow> launch_answers \<Rightarrow> string \<Rightarrow> string list \<Rightarrow> md_state \<Rightarrow>
     (hresult \<times> md_state) option" where
  "RunProcess pa arriving a fileExec execArgs st =
     (case CheckNoProcess pa arriving st of
        None \<Rightarrow> None
      | Some (status, st0) \<Rightarrow>
          if \<not> succeeded status then Some (status, st0)
          else
            let st1 = st0\<lparr>md_startupReady := False, md_clrPath := []\<rparr> in
            (case la_create a (launch_command_line fileExec execArgs) of
               Inl hr \<Rightarrow> Some (hr, st1)
             | Inr pid \<Rightarrow>
                 let st2 = st1\<lparr>md_processId := pid\<rparr> in
                 (case la_register a of
                    Inl hr \<Rightarrow> Some (hr, st2)
                  | Inr token \<Rightarrow>
                      let st3 = st2\<lparr>md_unregisterToken := Some token\<rparr> in
                      if \<not> succeeded (la_resume a) then Some (la_resume a, st3)
                      else (case la_callback a of
                              None \<Rightarrow> Some (E_FAIL, st3\<lparr>md_unregisterToken := None\<rparr>)
                            | Some (su, hr) \<Rightarrow>
                                let st4 = StartupCallback su hr st3 in Some (md_startupResult st4, st4)))))"

text \<open>The answers for attaching: the search for the runtime, its version string, the debugging interface,
  and those of \<open>Startup\<close>.\<close>

record attach_answers =
  aa_clr :: "nat \<Rightarrow> clr_answer"
  aa_version :: hresult
  aa_interface :: hresult
  aa_startup :: startup_answers

definition AttachToProcess ::
  "process_answers \<Rightarrow> md_callback list \<Rightarrow> attach_answers \<Rightarrow> nat \<Rightarrow> md_state \<Rightarrow> (hresult \<times> md_state) option" where
  "AttachToProcess pa arriving a pid st =
     (case CheckNoProcess pa arriving st of
        None \<Rightarrow> None
      | Some (status, st0) \<Rightarrow>
          if \<not> succeeded status then Some (status, st0)
          else
            let st1 = st0\<lparr>md_clrPath := GetCLRPath (aa_clr a) 3\<rparr> in
            if md_clrPath st1 = [] then Some (E_INVALIDARG, st1)
            else if \<not> succeeded (aa_version a) then Some (aa_version a, st1)
            else if \<not> succeeded (aa_interface a) then Some (aa_interface a, st1)
            else Some (Startup (aa_startup a) pid (st1\<lparr>md_unregisterToken := None\<rparr>)))"

section \<open>The session\<close>

text \<open>Everything the runtime answers while a session starts.\<close>

record run_answers =
  ra_process :: process_answers
  ra_arriving :: "md_callback list"
  ra_launch :: launch_answers
  ra_attach :: attach_answers

definition Initialize :: "md_state \<Rightarrow> hresult \<times> md_state" where
  "Initialize st = (S_OK, emit [Emit_Initialized] (st\<lparr>md_startMethod := StartNone\<rparr>))"

definition RunIfReady :: "run_answers \<Rightarrow> md_state \<Rightarrow> (hresult \<times> md_state) option" where
  "RunIfReady ra st =
     (if md_startMethod st = StartNone \<or> \<not> md_configurationDone st then Some (S_OK, st)
      else (case md_startMethod st of
              StartLaunch \<Rightarrow> RunProcess (ra_process ra) (ra_arriving ra) (ra_launch ra) (md_execPath st) (md_execArgs st) st
            | StartAttach \<Rightarrow> AttachToProcess (ra_process ra) (ra_arriving ra) (ra_attach ra) (md_processId st) st
            | StartNone \<Rightarrow> Some (E_FAIL, st)))"

definition Attach :: "run_answers \<Rightarrow> nat \<Rightarrow> md_state \<Rightarrow> (hresult \<times> md_state) option" where
  "Attach ra pid st = RunIfReady ra (st\<lparr>md_startMethod := StartAttach, md_processId := pid\<rparr>)"

definition Launch :: "run_answers \<Rightarrow> string \<Rightarrow> string list \<Rightarrow> bool \<Rightarrow> md_state \<Rightarrow> (hresult \<times> md_state) option" where
  "Launch ra fileExec execArgs stopAtEntry st =
     RunIfReady ra (st\<lparr>md_startMethod := StartLaunch, md_execPath := fileExec, md_execArgs := execArgs,
                       md_stopAtEntry := stopAtEntry, md_breakpoints := SetStopAtEntry stopAtEntry (md_breakpoints st)\<rparr>)"

definition ConfigurationDone :: "run_answers \<Rightarrow> md_state \<Rightarrow> (hresult \<times> md_state) option" where
  "ConfigurationDone ra st = RunIfReady ra (st\<lparr>md_configurationDone := True\<rparr>)"

fun disconnect_terminates :: "disconnect_action \<Rightarrow> start_method \<Rightarrow> bool option" where
  "disconnect_terminates DisconnectDefault StartLaunch = Some True"
| "disconnect_terminates DisconnectDefault StartAttach = Some False"
| "disconnect_terminates DisconnectDefault StartNone = None"
| "disconnect_terminates DisconnectTerminate m = Some True"
| "disconnect_terminates DisconnectDetach m = Some False"

definition Disconnect ::
  "process_answers \<Rightarrow> md_callback list \<Rightarrow> disconnect_action \<Rightarrow> md_state \<Rightarrow> (hresult \<times> md_state) option" where
  "Disconnect a arriving action st =
     (case disconnect_terminates action (md_startMethod st) of
        None \<Rightarrow> Some (E_FAIL, st)
      | Some terminate \<Rightarrow>
          if \<not> terminate then
            (case DetachFromProcess a st of
               (status, st') \<Rightarrow> Some (status, if succeeded status then emit [Emit_Terminated] st' else st'))
          else TerminateProcess a arriving st)"

section \<open>Running\<close>

text \<open>\<open>StepCommand\<close> looks for the thread in the process without a check that there is one.\<close>

datatype md_fault = Null_Process

definition md_StepCommand ::
  "int \<Rightarrow> md_thread option \<Rightarrow> app_domain list option \<Rightarrow> stepper_answers \<Rightarrow> hresult \<Rightarrow> step_type \<Rightarrow> md_state \<Rightarrow>
     md_fault + hresult \<times> md_state" where
  "md_StepCommand threadId thread domains a continued stepType st =
     (if \<not> md_pProcess st then Inl Null_Process
      else (case thread of
              None \<Rightarrow> Inr (E_FAIL, st)
            | Some t \<Rightarrow>
                (case SetupStep t a stepType (emit (map Runtime (DisableAllSteppers domains)) st) of
                   (status, st1) \<Rightarrow>
                     if \<not> succeeded status then Inr (status, st1)
                     else
                       let st2 = emit [Clear_Variables] st1 in
                       if \<not> succeeded continued then Inr (continued, st2)
                       else Inr (continued, (emit [Runtime Rt_Continue, Emit_Continued threadId] st2)
                                  \<lparr>md_stopCounter := md_stopCounter st2 - 1\<rparr>))))"

definition Continue :: "int \<Rightarrow> hresult \<Rightarrow> hresult \<Rightarrow> md_state \<Rightarrow> hresult \<times> md_state" where
  "Continue threadId runAll continued st =
     (if \<not> md_pProcess st then (E_FAIL, st)
      else
        let st1 = (if \<not> IsEvalRunning (md_evaluator st) \<and> is_empty_eval_queue (md_evaluator st)
                   then (if succeeded runAll then emit [Runtime Rt_Run_All] st else st) else st)
        in if \<not> succeeded continued then (continued, st1)
           else (continued, (emit [Runtime Rt_Continue, Emit_Continued threadId] st1)
                              \<lparr>md_stopCounter := md_stopCounter st1 - 1\<rparr>))"

definition GetThreads :: "thread_answer list option \<Rightarrow> md_state \<Rightarrow> hresult \<times> thread list" where
  "GetThreads enum st = (if \<not> md_pProcess st then (E_FAIL, []) else GetThreadsState enum)"

text \<open>The stack of a thread, by its number; None when \<open>GetThread\<close> fails.\<close>

definition GetStackTraceOf ::
  "(int \<Rightarrow> (nat \<times> walk_item list option) option) \<Rightarrow> int \<Rightarrow> int \<Rightarrow> int \<Rightarrow> md_state \<Rightarrow>
     hresult \<times> stack_frame list \<times> int option" where
  "GetStackTraceOf stacks threadId startFrame levels st =
     (if \<not> md_pProcess st then (E_FAIL, [], None)
      else (case stacks threadId of
              None \<Rightarrow> (E_FAIL, [], None)
            | Some (tid, stack) \<Rightarrow> GetStackTrace (md_modules st) tid stack startFrame levels))"

text \<open>\<open>std::swap(threads[0], threads[i])\<close> for the first \<open>i\<close> with the number of the last stopped thread.\<close>

definition bring_front :: "int \<Rightarrow> thread list \<Rightarrow> thread list" where
  "bring_front lastStoppedId threads =
     (case dropWhile (\<lambda>i. t_id (threads ! i) \<noteq> lastStoppedId) [0..<length threads] of
        [] \<Rightarrow> threads
      | i # _ \<Rightarrow> threads[0 := threads ! i, i := threads ! 0])"

fun first_located :: "(int \<Rightarrow> hresult \<times> stack_frame list) \<Rightarrow> thread list \<Rightarrow> (int \<times> stack_frame) option" where
  "first_located trace [] = None"
| "first_located trace (t # ts) =
     (case trace (t_id t) of
        (status, frames) \<Rightarrow>
          if \<not> succeeded status then first_located trace ts
          else (case filter (\<lambda>f. \<not> Source_IsNull (sf_source f)) frames of
                  f # _ \<Rightarrow> Some (t_id t, f)
                | [] \<Rightarrow> first_located trace ts))"

definition Pause ::
  "hresult \<times> bool \<Rightarrow> hresult \<Rightarrow> thread_answer list option \<Rightarrow>
     (int \<Rightarrow> (nat \<times> walk_item list option) option) \<Rightarrow> md_state \<Rightarrow> hresult \<times> md_state" where
  "Pause running stopped enum stacks st =
     (if \<not> md_pProcess st then (E_FAIL, st)
      else if fst running \<noteq> S_OK then (fst running, st)
      else if \<not> snd running then (S_OK, st)
      else if stopped \<noteq> S_OK then (stopped, st)
      else
        let st1 = emit [Runtime Rt_Stop] st;
            threads = bring_front (GetLastStoppedThreadId st1) (snd (GetThreads enum st1));
            trace = (\<lambda>tid. case GetStackTraceOf stacks tid 0 0 st1 of (status, frames, _) \<Rightarrow> (status, frames))
        in (case first_located trace threads of
              Some (tid, f) \<Rightarrow>
                (S_OK, emit [Emit_Stopped ((new_stopped_event StopPause 0)\<lparr>se_threadId := tid, se_frame := f\<rparr>)] st1)
            | None \<Rightarrow> (S_OK, emit [Emit_Stopped (new_stopped_event StopPause 0)] st1)))"

section \<open>Facts: waiting\<close>

lemma attached_run_calls [simp]: "md_attached (snd (run_calls calls st)) = md_attached st"
  using run_calls_frame [of calls st] by (auto simp: emit_def)

lemma attached_Exception: "md_attached (snd (cb_Exception a st)) = md_attached st"
  by (auto simp: cb_Exception_def Let_def interrupt_evaluation_def Stop_def stop_loop_eq emit_def
      SetLastStoppedThread_def record_unhandled_def split: option.split prod.split)

lemma attached_callback:
  "md_attached (snd (run_callback c st)) =
     (if c = Cb_ExitProcess then False else if c = Cb_CreateProcess then True else md_attached st)"
  by (cases c)
    (simp_all add: callback_defs SetupStep_def cb_EvalComplete_def cb_EvalException_def cb_ExceptionUnwind_def
      not_implemented_def attached_Exception attached_run_calls [unfolded emit_def] Let_def
      split: prod.split option.split)

lemma WaitProcessExited_iff:
  "WaitProcessExited cs st \<noteq> None \<longleftrightarrow> \<not> md_attached st \<or> Cb_ExitProcess \<in> set cs"
proof (induction cs arbitrary: st)
  case (Cons c cs)
  show ?case
  proof (cases "md_attached st")
    case True
    have "WaitProcessExited (c # cs) st = WaitProcessExited cs (snd (run_callback c st))" using True by simp
    also have "\<dots> \<noteq> None \<longleftrightarrow> \<not> md_attached (snd (run_callback c st)) \<or> Cb_ExitProcess \<in> set cs" by (rule Cons.IH)
    finally show ?thesis using True by (auto simp: attached_callback)
  qed simp
qed simp

lemma WaitProcessExited_done: "WaitProcessExited cs st = Some st' \<Longrightarrow> \<not> md_attached st'"
  by (induction cs arbitrary: st) (auto split: if_splits)

lemma md_inv_Wait: "WaitProcessExited cs st = Some st' \<Longrightarrow> md_inv st \<Longrightarrow> md_inv st'"
  by (induction cs arbitrary: st) (auto split: if_splits intro: md_inv_callback)

section \<open>Facts: finding the runtime\<close>

lemma EnumerateCLRs_pauses: "snd (InternalEnumerateCLRs answer k n) \<le> n"
  by (induction answer k n rule: InternalEnumerateCLRs.induct) (auto simp: Let_def split: prod.splits)

lemma EnumerateCLRs_found:
  "fst (InternalEnumerateCLRs answer k n) = (hr, Some a) \<Longrightarrow>
     succeeded hr \<and> (\<exists>hs. ca_handles a = Some hs \<and> hs \<noteq> [] \<and> (\<forall>h \<in> set hs. h)) \<and> (\<exists>j. k \<le> j \<and> j < k + n \<and> a = answer j)"
proof (induction answer k n rule: InternalEnumerateCLRs.induct)
  case (2 answer k n)
  let ?a = "answer k"
  show ?case
  proof (cases "succeeded (ca_hr ?a) \<and> (case ca_handles ?a of None \<Rightarrow> False | Some hs \<Rightarrow> hs \<noteq> [] \<and> AreAllHandlesValid hs)")
    case True
    with "2.prems" have "hr = ca_hr ?a" "a = ?a" by (auto simp: Let_def)
    with True show ?thesis
      by (auto simp: AreAllHandlesValid_def list_all_iff split: option.splits intro!: exI [of _ k])
  next
    case False
    with "2.prems" have no: "\<not> (ca_hr ?a = E_INVALIDARG \<or> ca_hr ?a = E_FAIL)"
      by (auto simp: Let_def)
    obtain r p where rec: "InternalEnumerateCLRs answer (k + 1) n = (r, p)" by fastforce
    then have step: "InternalEnumerateCLRs answer k (Suc n) = (r, p + 1)"
      using False no by (simp only: InternalEnumerateCLRs.simps Let_def rec if_False prod.case)
    have "fst (InternalEnumerateCLRs answer (k + 1) n) = (hr, Some a)"
      using "2.prems" by (simp only: step rec fst_conv)
    from "2.IH" [OF refl False no this] show ?thesis by (metis Suc_leD add_Suc_right add_Suc_shift Suc_eq_plus1)
  qed
qed simp

section \<open>Facts: pausing\<close>

lemma bring_front_hd:
  assumes "t \<in> set threads" and "t_id t = l"
  shows "bring_front l threads \<noteq> [] \<and> t_id (hd (bring_front l threads)) = l"
proof -
  let ?P = "\<lambda>i. t_id (threads ! i) \<noteq> l"
  from assms obtain j where j: "j < length threads" "\<not> ?P j" by (auto simp: in_set_conv_nth)
  then have "dropWhile ?P [0..<length threads] \<noteq> []" by (auto simp: dropWhile_eq_Nil_conv)
  then obtain i js where d: "dropWhile ?P [0..<length threads] = i # js" by (cases "dropWhile ?P [0..<length threads]") auto
  have i: "\<not> ?P i" using hd_dropWhile [of ?P "[0..<length threads]"] d by simp
  have "i \<in> set [0..<length threads]" using d by (metis list.set_intros(1) set_dropWhileD)
  then have "i < length threads" by simp
  with i d j show ?thesis by (cases threads; cases i) (auto simp: bring_front_def)
qed

lemma first_located_hd:
  "ts \<noteq> [] \<Longrightarrow> trace (t_id (hd ts)) = (status, frames) \<Longrightarrow> succeeded status \<Longrightarrow>
     filter (\<lambda>f. \<not> Source_IsNull (sf_source f)) frames = f # fs \<Longrightarrow> first_located trace ts = Some (t_id (hd ts), f)"
  by (cases ts) simp_all

section \<open>Properties\<close>

text \<open>A session starts when it is both configured and told what to run, in either order: the command that comes
  first only notes what it was given, and the one that comes second starts the debuggee.\<close>

theorem launch_and_configuration_commute:
  assumes "md_startMethod st = StartNone" and "\<not> md_configurationDone st"
  shows "\<exists>st1 st2. Launch ra fileExec execArgs stopAtEntry st = Some (S_OK, st1) \<and> md_trace st1 = md_trace st \<and>
    ConfigurationDone ra st = Some (S_OK, st2) \<and> md_trace st2 = md_trace st \<and>
    ConfigurationDone ra st1 = Launch ra fileExec execArgs stopAtEntry st2 \<and>
    ConfigurationDone ra st1 =
      RunProcess (ra_process ra) (ra_arriving ra) (ra_launch ra) fileExec execArgs (st1\<lparr>md_configurationDone := True\<rparr>)"
proof -
  have swap: "st\<lparr>md_configurationDone := True, md_startMethod := StartLaunch, md_execPath := fileExec, md_execArgs := execArgs,
      md_stopAtEntry := stopAtEntry, md_breakpoints := SetStopAtEntry stopAtEntry (md_breakpoints st)\<rparr> =
    st\<lparr>md_startMethod := StartLaunch, md_execPath := fileExec, md_execArgs := execArgs,
      md_stopAtEntry := stopAtEntry, md_breakpoints := SetStopAtEntry stopAtEntry (md_breakpoints st),
      md_configurationDone := True\<rparr>"
    by (rule md_state.equality) simp_all
  show ?thesis using assms by (simp add: Launch_def ConfigurationDone_def RunIfReady_def swap)
qed

theorem launch_and_configuration_commute_witness:
  "\<forall>ra. \<exists>st1. Launch ra ''dotnet'' [''app.dll''] False init_debugger = Some (S_OK, st1) \<and> md_trace st1 = []"
proof
  fix ra
  show "\<exists>st1. Launch ra ''dotnet'' [''app.dll''] False init_debugger = Some (S_OK, st1) \<and> md_trace st1 = []"
    using launch_and_configuration_commute [of init_debugger ra "''dotnet''" "[''app.dll'']" False]
    by (auto simp: init_debugger_def)
qed

text \<open>C32. Terminating an attached debuggee returns exactly when the callback for its exit arrives; it then returns
  success, with no process, not attached.\<close>

theorem terminate_waits_for_exit:
  assumes "md_attached st" and "md_pProcess st" and "md_pDebug st"
  shows "(TerminateProcess a arriving st \<noteq> None) = (Cb_ExitProcess \<in> set arriving) \<and>
    (case TerminateProcess a arriving st of
       None \<Rightarrow> True
     | Some (status, st') \<Rightarrow> status = S_OK \<and> \<not> md_attached st' \<and> \<not> md_pProcess st' \<and> \<not> md_pDebug st')"
proof -
  define st2 where "st2 = emit [Runtime Rt_Terminate] (md_cleanup (if succeeded (pa_stop a)
    then emit (Runtime Rt_Stop # map Runtime (DisableAllBreakpointsAndSteppers (pa_domains a))) st else st))"
  have T: "TerminateProcess a arriving st = map_option (\<lambda>st3. (S_OK, release_process st3)) (WaitProcessExited arriving st2)"
    using assms by (simp add: TerminateProcess_def st2_def Let_def)
  have "md_attached st2" using assms by (simp add: st2_def md_cleanup_def emit_def)
  with WaitProcessExited_iff [of arriving st2]
  have "(TerminateProcess a arriving st \<noteq> None) = (Cb_ExitProcess \<in> set arriving)" by (simp add: T)
  then show ?thesis
    using WaitProcessExited_done [of arriving st2]
    by (auto simp: T release_process_def emit_def split: option.split)
qed

definition demo_attached :: md_state where
  "demo_attached = init_debugger\<lparr>md_attached := True, md_pProcess := True, md_pDebug := True,
                                 md_startMethod := StartAttach\<rparr>"

theorem terminate_waits_for_exit_witness:
  "TerminateProcess \<lparr>pa_stop = S_OK, pa_domains = None\<rparr> [Cb_ExitProcess] demo_attached \<noteq> None \<and>
   TerminateProcess \<lparr>pa_stop = S_OK, pa_domains = None\<rparr> [] demo_attached = None"
proof -
  have demo: "md_attached demo_attached" "md_pProcess demo_attached" "md_pDebug demo_attached"
    by (simp_all add: demo_attached_def)
  show ?thesis
    using terminate_waits_for_exit [OF demo, THEN conjunct1, of "\<lparr>pa_stop = S_OK, pa_domains = None\<rparr>" "[Cb_ExitProcess]"]
      terminate_waits_for_exit [OF demo, THEN conjunct1, of "\<lparr>pa_stop = S_OK, pa_domains = None\<rparr>" "[]"]
    by (simp del: not_None_eq)
qed

text \<open>Ending a session that was attached, by default, leaves the debuggee running and silent: it is stopped, every
  breakpoint and every stepper of every application domain is deactivated, and only then is it let go; it is
  never terminated.\<close>

theorem disconnect_detaches_silenced:
  assumes "md_startMethod st = StartAttach" and "md_pProcess st" and "md_pDebug st"
    and "succeeded (pa_stop a)" and "pa_domains a = Some ds"
  shows "\<exists>calls st'. Disconnect a arriving DisconnectDefault st = Some (S_OK, st') \<and>
    md_trace st' = md_trace st @ [Runtime Rt_Stop] @ map Runtime calls @
      [Runtime Rt_Detach, Protocol_Cleanup, Runtime Rt_Debug_Terminate, Emit_Terminated] \<and>
    set calls = {Rt_Deactivate_Breakpoint b | b. \<exists>d bs. d \<in> set ds \<and> ad_breakpoints d = Some bs \<and> b \<in> set bs} \<union>
                {Rt_Deactivate_Stepper s | s. \<exists>d ss. d \<in> set ds \<and> ad_steppers d = Some ss \<and> s \<in> set ss} \<and>
    \<not> md_pProcess st' \<and> bs_files (md_breakpoints st') = []"
proof -
  let ?calls = "DisableAllBreakpointsAndSteppers (Some ds)"
  have dom: "x \<in> set (DisableAllBreakpointsAndSteppersInAppDomain d) \<longleftrightarrow>
      (\<exists>b bs. x = Rt_Deactivate_Breakpoint b \<and> ad_breakpoints d = Some bs \<and> b \<in> set bs) \<or>
      (\<exists>s ss. x = Rt_Deactivate_Stepper s \<and> ad_steppers d = Some ss \<and> s \<in> set ss)" for x d
    by (auto simp: DisableAllBreakpointsAndSteppersInAppDomain_def DisableAllSteppersInAppDomain_def split: option.splits)
  have calls: "set ?calls =
      {Rt_Deactivate_Breakpoint b | b. \<exists>d bs. d \<in> set ds \<and> ad_breakpoints d = Some bs \<and> b \<in> set bs} \<union>
      {Rt_Deactivate_Stepper s | s. \<exists>d ss. d \<in> set ds \<and> ad_steppers d = Some ss \<and> s \<in> set ss}"
    by (intro set_eqI) (simp add: DisableAllBreakpointsAndSteppers_def dom; blast)
  have "\<exists>st'. Disconnect a arriving DisconnectDefault st = Some (S_OK, st') \<and>
      md_trace st' = md_trace st @ [Runtime Rt_Stop] @ map Runtime ?calls @
        [Runtime Rt_Detach, Protocol_Cleanup, Runtime Rt_Debug_Terminate, Emit_Terminated] \<and>
      \<not> md_pProcess st' \<and> bs_files (md_breakpoints st') = []"
    using assms by (simp add: Disconnect_def DetachFromProcess_def release_process_def md_cleanup_def emit_def
        DeleteAllBreakpoints_def)
  with calls show ?thesis by blast
qed

theorem disconnect_detaches_silenced_witness:
  "\<exists>st'. Disconnect \<lparr>pa_stop = S_OK, pa_domains = Some [\<lparr>ad_breakpoints = Some [4], ad_steppers = Some [7]\<rparr>]\<rparr> []
     DisconnectDefault demo_attached = Some (S_OK, st') \<and> \<not> md_pProcess st'"
  using disconnect_detaches_silenced [of demo_attached
      "\<lparr>pa_stop = S_OK, pa_domains = Some [\<lparr>ad_breakpoints = Some [4], ad_steppers = Some [7]\<rparr>]\<rparr>"
      "[\<lparr>ad_breakpoints = Some [4], ad_steppers = Some [7]\<rparr>]" "[]"]
  by (auto simp: demo_attached_def)

text \<open>Pausing reports the thread that stopped last, if it still has a frame with a source: whatever the other
  threads are, the stop names that thread and the first such frame of its stack.\<close>

theorem pause_prefers_last_stopped:
  assumes "md_pProcess st" and "GetThreads enum st = (status, threads)"
    and "t \<in> set threads" and "t_id t = md_lastStoppedThreadId st"
    and "GetStackTraceOf stacks (md_lastStoppedThreadId st) 0 0 st = (ok, frames, n)" and "succeeded ok"
    and "filter (\<lambda>f. \<not> Source_IsNull (sf_source f)) frames = f # fs"
  shows "Pause (S_OK, True) S_OK enum stacks st =
    (S_OK, emit [Runtime Rt_Stop, Emit_Stopped ((new_stopped_event StopPause 0)
             \<lparr>se_threadId := md_lastStoppedThreadId st, se_frame := f\<rparr>)] st)"
proof -
  let ?st1 = "emit [Runtime Rt_Stop] st"
  have same: "GetThreads enum ?st1 = GetThreads enum st" "GetStackTraceOf stacks tid 0 0 ?st1 = GetStackTraceOf stacks tid 0 0 st"
    "md_lastStoppedThreadId ?st1 = md_lastStoppedThreadId st" for tid
    by (simp_all add: emit_def GetThreads_def GetStackTraceOf_def split: option.split prod.split)
  define trace where "trace = (\<lambda>tid. case GetStackTraceOf stacks tid 0 0 st of (status, frames, _) \<Rightarrow> (status, frames))"
  let ?front = "bring_front (md_lastStoppedThreadId st) threads"
  have front: "?front \<noteq> []" "t_id (hd ?front) = md_lastStoppedThreadId st"
    using bring_front_hd [OF assms(3,4)] by simp_all
  have "trace (t_id (hd ?front)) = (ok, frames)" using assms(5) front by (simp add: trace_def)
  from first_located_hd [of ?front trace, OF front(1) this assms(6,7)]
  have "first_located trace ?front = Some (md_lastStoppedThreadId st, f)" using front by simp
  then show ?thesis
    using assms(1,2) by (simp add: Pause_def Let_def GetLastStoppedThreadId_def same flip: trace_def del: append_assoc)
qed

theorem pause_prefers_last_stopped_witness:
  "\<exists>event. Pause (S_OK, True) S_OK
       (Some [\<lparr>ta_id = Some 1, ta_process = True, ta_running = Some True, ta_background = Some False\<rparr>,
              \<lparr>ta_id = Some 2, ta_process = True, ta_running = Some True, ta_background = Some False\<rparr>])
       (\<lambda>tid. Some (1, demo_stack))
       (demo_attached\<lparr>md_modules := demo_modules, md_lastStoppedThreadId := 2\<rparr>) =
     (S_OK, emit [Runtime Rt_Stop, Emit_Stopped event]
              (demo_attached\<lparr>md_modules := demo_modules, md_lastStoppedThreadId := 2\<rparr>)) \<and> se_threadId event = 2"
proof -
  let ?enum = "Some [\<lparr>ta_id = Some 1, ta_process = True, ta_running = Some True, ta_background = Some False\<rparr>,
              \<lparr>ta_id = Some 2, ta_process = True, ta_running = Some True, ta_background = Some False\<rparr>]"
  let ?st = "demo_attached\<lparr>md_modules := demo_modules, md_lastStoppedThreadId := 2\<rparr>"
  let ?f = "snd (GetFrameLocation demo_modules (demo_walk_frame ''Inner'') 1 0)"
  have st: "md_pProcess ?st" "md_modules ?st = demo_modules" "md_lastStoppedThreadId ?st = 2"
    by (simp_all add: demo_attached_def)
  have threads: "GetThreads ?enum ?st =
      (S_OK, [\<lparr>t_id = 1, t_name = ''<No name>'', t_running = True\<rparr>, \<lparr>t_id = 2, t_name = ''<No name>'', t_running = True\<rparr>])"
    by (simp add: GetThreads_def st GetThreadsState_def)
  note trace = demo_trace [of demo_modules]
  have stacks: "GetStackTraceOf (\<lambda>tid. Some (1, demo_stack)) (md_lastStoppedThreadId ?st) 0 0 ?st =
      GetStackTrace demo_modules 1 demo_stack 0 0"
    by (simp add: GetStackTraceOf_def st)
  have "sf_source ?f = Source ''/src/a.cs''"
    by (simp add: GetFrameLocation_def GetFrameILAndSequencePoint_def loaded_info_def demo_walk_frame_def demo_defs
        um_find_Cons Let_def)
  then have "\<not> Source_IsNull (sf_source ?f)" by (simp add: Source_IsNull_def Source_def)
  with pause_prefers_last_stopped [OF st(1) threads, of "\<lparr>t_id = 2, t_name = ''<No name>'', t_running = True\<rparr>",
      OF _ _ stacks [unfolded trace]]
  show ?thesis by (auto simp: st)
qed

text \<open>The search for the runtime ends: it pauses at most once for each attempt it may make, and what it finds is the
  answer to one of these attempts, successful, with at least one runtime and only valid handles.\<close>

theorem runtime_search_bounded:
  "case InternalEnumerateCLRs answer numTries tries of ((hr, found), pauses) \<Rightarrow>
     pauses \<le> tries \<and>
     (case found of
        None \<Rightarrow> True
      | Some a \<Rightarrow> succeeded hr \<and> (\<exists>hs. ca_handles a = Some hs \<and> hs \<noteq> [] \<and> False \<notin> set hs) \<and>
                  (\<exists>j. numTries \<le> j \<and> j < numTries + tries \<and> a = answer j))"
  using EnumerateCLRs_pauses [of answer numTries tries] EnumerateCLRs_found [of answer numTries tries]
  by (fastforce split: prod.split option.split)

text \<open>Stepping needs a process: without one the command runs into a null pointer, while continuing, pausing and
  asking for threads and stacks return an error and change nothing.\<close>

theorem no_process_errors:
  assumes "\<not> md_pProcess st"
  shows "md_StepCommand tid thread domains sa continued ty st = Inl Null_Process \<and>
    Continue tid runAll continued st = (E_FAIL, st) \<and> Pause running stopped enum stacks st = (E_FAIL, st) \<and>
    GetThreads enum st = (E_FAIL, []) \<and> GetStackTraceOf stacks tid startFrame levels st = (E_FAIL, [], None)"
  using assms by (simp add: md_StepCommand_def Continue_def Pause_def GetThreads_def GetStackTraceOf_def)

theorem no_process_errors_witness:
  "md_StepCommand 1 None None \<lparr>sa_create = S_OK, sa_intercept = S_OK, sa_unmapped = S_OK, sa_stepper2 = S_OK,
     sa_jmc = S_OK, sa_step = S_OK\<rparr> S_OK STEP_OVER init_debugger = Inl Null_Process"
  using no_process_errors [of init_debugger] by (simp add: init_debugger_def)

end
