(* ===== verification/Managed_Session.thy ===== *)
theory Managed_Session imports Managed_Debugger begin

text \<open>
  Whole sessions of the debugger as a step relation: every operation of \<open>class ManagedDebugger\<close> that is
  modelled, every callback, every pending task and every change of the breakpoints is a step, in any
  order; with the invariant of the reachable states.
\<close>

section \<open>Steps\<close>

inductive session_step :: "md_state \<Rightarrow> md_state \<Rightarrow> bool" where
  s_event: "session_step st (md_step e st)"
| s_initialize: "Initialize st = (status, st') \<Longrightarrow> session_step st st'"
| s_attach: "Attach ra pid st = Some (status, st') \<Longrightarrow> session_step st st'"
| s_launch: "Launch ra f args stopAtEntry st = Some (status, st') \<Longrightarrow> session_step st st'"
| s_configured: "ConfigurationDone ra st = Some (status, st') \<Longrightarrow> session_step st st'"
| s_disconnect: "Disconnect pa arriving action st = Some (status, st') \<Longrightarrow> session_step st st'"
| s_step: "md_StepCommand tid t domains sa continued ty st = Inr (status, st') \<Longrightarrow> session_step st st'"
| s_continue: "Continue tid runAll continued st = (status, st') \<Longrightarrow> session_step st st'"
| s_pause: "Pause running stopped enum stacks st = (status, st') \<Longrightarrow> session_step st st'"
| s_just_my_code: "session_step st (st\<lparr>md_justMyCode := enable\<rparr>)"
| s_eval: "EvalFunction create eval2 called tid process continued (md_evaluator st) = (r, ev, calls) \<Longrightarrow>
     session_step st (emit (map Runtime calls) (st\<lparr>md_evaluator := ev\<rparr>))"
| s_breakpoints: "bs_next (md_breakpoints st) + op_requests op < 2 ^ 32 \<Longrightarrow>
     session_step st (st\<lparr>md_breakpoints := bps_step op (md_breakpoints st)\<rparr>)"

inductive_cases session_stepE: "session_step st st'"

section \<open>The invariant\<close>

definition session_inv :: "md_state \<Rightarrow> bool" where
  "session_inv st \<longleftrightarrow> md_inv st \<and> md_pProcess st = md_pDebug st \<and> md_stopCounter st \<le> 1"

lemma session_inv_init: "session_inv init_debugger"
  using md_inv_init by (simp add: session_inv_def) (simp add: init_debugger_def)

text \<open>What the part of the invariant beside the tables depends on.\<close>

definition control :: "md_state \<Rightarrow> bool \<times> bool \<times> int" where
  "control st = (md_pProcess st, md_pDebug st, md_stopCounter st)"

lemma control_emit [simp]: "control (emit os st) = control st"
  by (simp add: control_def emit_def)

lemma control_run_calls [simp]: "control (snd (run_calls calls st)) = control st"
  using run_calls_frame [of calls st] by auto

lemma session_inv_control: "md_inv st' \<Longrightarrow> control st' = control st \<Longrightarrow> session_inv st \<Longrightarrow> session_inv st'"
  by (simp add: session_inv_def control_def)

lemma control_update [simp]:
  "control (st\<lparr>md_tasks := ts\<rparr>) = control st" "control (st\<lparr>md_evaluator := ev\<rparr>) = control st"
  "control (st\<lparr>md_attached := a\<rparr>) = control st" "control (st\<lparr>md_modules := ms\<rparr>) = control st"
  "control (st\<lparr>md_breakpoints := bs\<rparr>) = control st" "control (st\<lparr>md_unhandledThreads := us\<rparr>) = control st"
  "control (st\<lparr>md_lastStoppedThreadId := l\<rparr>) = control st" "control (st\<lparr>md_trace := tr\<rparr>) = control st"
  by (simp_all add: control_def)

lemma control_Exception:
  "control (snd (cb_Exception a st)) = control st \<or>
   control (snd (cb_Exception a st)) = (md_pProcess st, md_pDebug st, 1)"
proof (cases "mt_id (xa_thread a) = None \<or> xa_info a = None")
  case True
  then show ?thesis by (cases "mt_id (xa_thread a)"; cases "xa_info a") (simp_all add: cb_Exception_def)
next
  case False
  then obtain tid ty m where x: "mt_id (xa_thread a) = Some tid" "xa_info a = Some (ty, m)" by auto
  define st2 where "st2 = SetLastStoppedThread (xa_thread a)
    (record_unhandled (exc_unhandled (xa_event a) (md_breakpoints st)) tid st)"
  have c: "control (record_unhandled (exc_unhandled (xa_event a) (md_breakpoints st)) tid st) = control st"
    by (simp add: record_unhandled_def)
  have 2: "control st2 = control st" by (simp add: st2_def SetLastStoppedThread_def c)
  then have 3: "control (snd (Stop event st2)) = (md_pProcess st, md_pDebug st, 1)" for event
    by (simp add: Stop_def stop_loop_eq emit_def control_def)
  show ?thesis
    using 2 3 by (simp add: cb_Exception_def x Let_def c interrupt_evaluation_def flip: st2_def
        split: option.split del: emit_emit)
qed

lemma control_callback:
  "control (snd (run_callback c st)) = control st \<or> control (snd (run_callback c st)) = (md_pProcess st, md_pDebug st, 1)"
proof (cases c)
  case (Cb_Exception a)
  then show ?thesis using control_Exception [of a st] by auto
next
  case (Cb_StepComplete t a)
  have "control (snd (SetupStep t a STEP_OVER st)) = control st" by (simp add: SetupStep_def)
  then show ?thesis
    by (auto simp: Cb_StepComplete cb_StepComplete_def continue_debuggee_def SetLastStoppedThread_def split: prod.splits)
next
  case (Cb_LoadModule ld files)
  then show ?thesis
    by (auto simp: cb_LoadModule_def continue_debuggee_def Let_def split: prod.splits)
qed (simp_all add: cb_Breakpoint_def cb_CreateProcess_def cb_ExitProcess_def cb_CreateThread_def cb_ExitThread_def
    continue_debuggee_def NotifyProcessCreated_def NotifyProcessExited_def cb_EvalComplete_def cb_EvalException_def
    cb_ExceptionUnwind_def not_implemented_def Let_def)

lemma session_inv_callback: "session_inv st \<Longrightarrow> session_inv (snd (run_callback c st))"
  using control_callback [of c st] md_inv_callback [of st c] by (auto simp: session_inv_def control_def)

lemma control_task: "control (breakpoint_task task st) = control st"
  by (auto simp: breakpoint_task_def Let_def continue_debuggee_def SetLastStoppedThread_def
      split: prod.splits hit_result.splits)

lemma session_inv_event: "session_inv st \<Longrightarrow> session_inv (md_step e st)"
proof (cases e)
  case (Run_Task i)
  moreover assume "session_inv st"
  moreover from this have "md_inv (md_step e st)" using md_inv_step by (simp add: session_inv_def)
  ultimately show ?thesis by (auto intro: session_inv_control simp: control_task)
qed (simp add: session_inv_callback)

section \<open>The operations\<close>

lemma session_inv_emit [simp]: "session_inv (emit os st) = session_inv st"
  by (simp add: session_inv_def) (simp add: emit_def)

lemma session_inv_counter:
  "session_inv st \<Longrightarrow> session_inv ((emit os st)\<lparr>md_stopCounter := md_stopCounter (emit os' st) - 1\<rparr>)"
  by (simp add: session_inv_def md_inv_def emit_def)

lemma session_inv_set:
  "session_inv (st\<lparr>md_startMethod := sm\<rparr>) = session_inv st" "session_inv (st\<lparr>md_processId := pid\<rparr>) = session_inv st"
  "session_inv (st\<lparr>md_execPath := f\<rparr>) = session_inv st" "session_inv (st\<lparr>md_execArgs := args\<rparr>) = session_inv st"
  "session_inv (st\<lparr>md_stopAtEntry := b\<rparr>) = session_inv st" "session_inv (st\<lparr>md_configurationDone := b\<rparr>) = session_inv st"
  "session_inv (st\<lparr>md_clrPath := f\<rparr>) = session_inv st" "session_inv (st\<lparr>md_startupReady := b\<rparr>) = session_inv st"
  "session_inv (st\<lparr>md_startupResult := hr\<rparr>) = session_inv st" "session_inv (st\<lparr>md_justMyCode := b\<rparr>) = session_inv st"
  "session_inv (st\<lparr>md_unregisterToken := tok\<rparr>) = session_inv st"
  by (simp_all add: session_inv_def md_inv_def)

lemma session_inv_Startup: "Startup a pid st = (status, st') \<Longrightarrow> session_inv st \<Longrightarrow> session_inv st'"
  by (auto simp: Startup_def Let_def session_inv_def md_inv_def emit_def split: if_splits)

lemma session_inv_StartupCallback: "session_inv st \<Longrightarrow> session_inv (StartupCallback a hr st)"
  using session_inv_Startup [of a "md_processId st" st]
  by (auto simp: StartupCallback_def session_inv_set split: prod.split)

lemma session_inv_cleanup: "session_inv st \<Longrightarrow> session_inv (md_cleanup st)"
  by (simp add: md_cleanup_def session_inv_def md_inv_def CleanupAllModules_def um_wf_def emit_def)

lemma session_inv_release: "session_inv st \<Longrightarrow> session_inv (release_process st)"
  by (simp add: release_process_def session_inv_def md_inv_def emit_def)

lemma session_inv_Wait: "WaitProcessExited cs st = Some st' \<Longrightarrow> session_inv st \<Longrightarrow> session_inv st'"
  by (induction cs arbitrary: st) (auto split: if_splits intro: session_inv_callback)

lemma session_inv_Terminate: "TerminateProcess a cs st = Some (status, st') \<Longrightarrow> session_inv st \<Longrightarrow> session_inv st'"
  by (auto simp: TerminateProcess_def Let_def session_inv_cleanup split: if_splits
      intro!: session_inv_release elim!: session_inv_Wait)

lemma session_inv_Detach: "DetachFromProcess a st = (status, st') \<Longrightarrow> session_inv st \<Longrightarrow> session_inv st'"
proof -
  assume D: "DetachFromProcess a st = (status, st')" and inv: "session_inv st"
  have "session_inv (st\<lparr>md_breakpoints := DeleteAllBreakpoints (md_breakpoints st)\<rparr>)"
    using inv DeleteAll_inv by (simp add: session_inv_def md_inv_def)
  with D inv show ?thesis
    by (auto simp: DetachFromProcess_def Let_def split: if_splits intro!: session_inv_release session_inv_cleanup)
qed

lemma session_inv_CheckNoProcess: "CheckNoProcess a cs st = Some (status, st') \<Longrightarrow> session_inv st \<Longrightarrow> session_inv st'"
  by (auto simp: CheckNoProcess_def split: if_splits elim: session_inv_Terminate)

lemma session_inv_Run: "RunProcess pa cs a f args st = Some (status, st') \<Longrightarrow> session_inv st \<Longrightarrow> session_inv st'"
  using session_inv_CheckNoProcess [of pa cs st]
  by (auto simp: RunProcess_def Let_def session_inv_set session_inv_StartupCallback
      split: option.splits if_splits sum.splits prod.splits)

lemma session_inv_AttachTo: "AttachToProcess pa cs a pid st = Some (status, st') \<Longrightarrow> session_inv st \<Longrightarrow> session_inv st'"
  using session_inv_CheckNoProcess [of pa cs st]
  by (auto simp: AttachToProcess_def Let_def session_inv_set elim!: session_inv_Startup
      split: option.splits if_splits prod.splits)

lemma session_inv_RunIfReady: "RunIfReady ra st = Some (status, st') \<Longrightarrow> session_inv st \<Longrightarrow> session_inv st'"
  by (auto simp: RunIfReady_def split: if_splits start_method.splits intro: session_inv_Run session_inv_AttachTo)

lemma session_inv_Launch: "Launch ra f args b st = Some (status, st') \<Longrightarrow> session_inv st \<Longrightarrow> session_inv st'"
proof -
  assume L: "Launch ra f args b st = Some (status, st')" and inv: "session_inv st"
  from inv have "session_inv (st\<lparr>md_breakpoints := SetStopAtEntry b (md_breakpoints st)\<rparr>)"
    using SetStopAtEntry_inv by (simp add: session_inv_def md_inv_def)
  then have "session_inv (st\<lparr>md_startMethod := StartLaunch, md_execPath := f, md_execArgs := args,
      md_stopAtEntry := b, md_breakpoints := SetStopAtEntry b (md_breakpoints st)\<rparr>)"
    by (simp add: session_inv_def md_inv_def)
  with L show ?thesis unfolding Launch_def by (rule session_inv_RunIfReady)
qed

lemma session_inv_Disconnect: "Disconnect pa cs action st = Some (status, st') \<Longrightarrow> session_inv st \<Longrightarrow> session_inv st'"
  by (auto simp: Disconnect_def split: option.splits if_splits prod.splits
      intro: session_inv_Detach session_inv_Terminate)

lemma session_inv_Step: "md_StepCommand tid t ds sa c ty st = Inr (status, st') \<Longrightarrow> session_inv st \<Longrightarrow> session_inv st'"
proof -
  assume S: "md_StepCommand tid t ds sa c ty st = Inr (status, st')" and inv: "session_inv st"
  let ?st0 = "emit (map Runtime (DisableAllSteppers ds)) st"
  have "session_inv (snd (SetupStep th sa ty ?st0))" for th
  proof (rule session_inv_control)
    show "md_inv (snd (SetupStep th sa ty ?st0))" by (rule md_inv_SetupStep) (use inv in \<open>simp add: session_inv_def\<close>)
    show "control (snd (SetupStep th sa ty ?st0)) = control st" by (simp add: SetupStep_def del: run_calls.simps)
  qed (rule inv)
  then have "session_inv st1" if "SetupStep th sa ty ?st0 = (status1, st1)" for th status1 st1
    using that by (metis snd_conv)
  with S inv show ?thesis
    by (auto simp: md_StepCommand_def Let_def session_inv_counter split: if_splits option.splits prod.splits)
qed

lemma session_inv_Continue: "Continue tid r c st = (status, st') \<Longrightarrow> session_inv st \<Longrightarrow> session_inv st'"
  by (auto simp: Continue_def Let_def session_inv_def md_inv_def emit_def split: if_splits)

lemma session_inv_Pause: "Pause r s e stacks st = (status, st') \<Longrightarrow> session_inv st \<Longrightarrow> session_inv st'"
  by (auto simp: Pause_def Let_def split: if_splits option.splits prod.splits)

lemma session_inv_step: "session_step st st' \<Longrightarrow> session_inv st \<Longrightarrow> session_inv st'"
proof (induction rule: session_step.induct)
  case (s_eval create eval2 called tid process continued st r ev calls)
  then have "ev_inv ev" using ev_inv_step [OF step_eval [OF s_eval(1)]] by (simp add: session_inv_def md_inv_def)
  with s_eval have "session_inv (st\<lparr>md_evaluator := ev\<rparr>)" by (simp add: session_inv_def md_inv_def)
  then show ?case by simp
next
  case (s_breakpoints st op)
  then show ?case using bps_step_inv by (auto simp: session_inv_def md_inv_def)
next
  case (s_attach ra pid st status st')
  then show ?case unfolding Attach_def by (elim session_inv_RunIfReady) (simp add: session_inv_def md_inv_def)
next
  case (s_configured ra st status st')
  then show ?case unfolding ConfigurationDone_def by (elim session_inv_RunIfReady) (simp add: session_inv_set)
qed (auto simp: session_inv_event Initialize_def session_inv_set intro: session_inv_Launch session_inv_Disconnect
    session_inv_Step session_inv_Continue session_inv_Pause)

section \<open>Property\<close>

text \<open>C2. In every session the tables of modules, evaluations and breakpoints stay well formed, there is a process
  exactly when there is a debugging interface, and the counter of stops is at most one.  Only the stops at
  exceptions are counted (by \<open>Stop\<close>, which sets it to one): it says nothing of the stops at breakpoints, after steps and
  for a pause.\<close>

theorem session_invariant:
  assumes "session_step\<^sup>*\<^sup>* init_debugger st"
  shows "um_wf (md_modules st) \<and> ev_inv (md_evaluator st) \<and> bps_inv (md_breakpoints st) \<and>
    md_pProcess st = md_pDebug st \<and> md_stopCounter st \<le> 1"
proof -
  from assms have "session_inv st"
    by (induction rule: rtranclp_induct) (auto intro: session_inv_init session_inv_step)
  then show ?thesis by (simp add: session_inv_def md_inv_def)
qed

theorem session_invariant_witness:
  "bps_inv (md_breakpoints (snd (Initialize (snd (Continue 1 S_OK S_OK init_debugger)))))"
proof -
  let ?st = "snd (Continue 1 S_OK S_OK init_debugger)"
  have "session_step init_debugger ?st" by (rule s_continue) (rule prod.collapse [symmetric])
  moreover have "session_step ?st (snd (Initialize ?st))" by (rule s_initialize) (rule prod.collapse [symmetric])
  ultimately have "session_step\<^sup>*\<^sup>* init_debugger (snd (Initialize ?st))"
    by (meson r_into_rtranclp rtranclp.rtrancl_into_rtrancl)
  from session_invariant [OF this] show ?thesis by simp
qed

end
