(* ===== verification/Array_Index.thy ===== *)
theory Array_Index imports Protocol_Types begin

text \<open>
  The elements of an array value: the order in which \<open>WalkMembers\<close> counts through the indices
  (\<open>IncIndicies\<close>), the name it gives to each (\<open>IndiciesToStr\<close>, both \<open>valuewalk.cpp\<close>), and the reader of
  such names (\<open>ParseIndices\<close>, \<open>expr.cpp\<close>).
\<close>

section \<open>Counting\<close>

text \<open>The loop of \<open>IncIndicies\<close>; its counter is one more than the index it looks at.\<close>

primrec inc_loop :: "u32 list \<Rightarrow> nat \<Rightarrow> u32 list \<Rightarrow> u32 list" where
  "inc_loop dims 0 ind = ind"
| "inc_loop dims (Suc i) ind =
     (let x = ind ! i + 1 in
      if x < dims ! i then ind[i := x] else inc_loop dims i (ind[i := 0]))"

definition IncIndicies :: "u32 list \<Rightarrow> u32 list \<Rightarrow> u32 list" where
  "IncIndicies ind dims = inc_loop dims (length ind) ind"

section \<open>Names\<close>

text \<open>The pairs of a base and an index, with the separator that stands before the first of them.\<close>

fun indices_loop :: "string \<Rightarrow> (u32 \<times> u32) list \<Rightarrow> string" where
  "indices_loop sep [] = []"
| "indices_loop sep ((b, i) # rest) = sep @ to_string (unat (b + i)) @ indices_loop '', '' rest"

definition IndiciesToStr :: "u32 list \<Rightarrow> u32 list \<Rightarrow> string" where
  "IndiciesToStr ind base =
     (if length ind < 1 \<or> length base \<noteq> length ind then [] else indices_loop [] (zip base ind))"

fun parse_indices_loop :: "u32 \<Rightarrow> u32 list \<Rightarrow> string \<Rightarrow> u32 list option" where
  "parse_indices_loop currentVal indices [] = Some indices"
| "parse_indices_loop currentVal indices (c # s) =
     (if \<not> is_digit c then
        (if c = CHR '' '' then parse_indices_loop currentVal indices s
         else if c = CHR '','' \<or> c = CHR '']'' then parse_indices_loop 0 (indices @ [currentVal]) s
         else None)
      else parse_indices_loop (currentVal * 10 + of_nat (digit_val c)) indices s)"

definition ParseIndices :: "string \<Rightarrow> u32 list option" where
  "ParseIndices s = parse_indices_loop 0 [] s"

section \<open>Facts: counting\<close>

text \<open>The row-major position of an index, and the indices inside the bounds.\<close>

definition row_major :: "u32 list \<Rightarrow> u32 list \<Rightarrow> nat" where
  "row_major dims ind = foldl (\<lambda>k (d, i). k * unat d + unat i) 0 (zip dims ind)"

definition inside :: "u32 list \<Rightarrow> u32 list \<Rightarrow> bool" where
  "inside dims ind = list_all2 (\<lambda>d i. i < d) dims ind"

lemma inc_loop_snoc:
  "n \<le> length ind \<Longrightarrow> length dims = length ind \<Longrightarrow> inc_loop (dims @ [d]) n (ind @ [y]) = inc_loop dims n ind @ [y]"
  by (induction n arbitrary: ind) (auto simp: Let_def nth_append list_update_append)

lemma IncIndicies_snoc:
  "length dims = length ind \<Longrightarrow>
     IncIndicies (ind @ [x]) (dims @ [d]) = (if x + 1 < d then ind @ [x + 1] else IncIndicies ind dims @ [0])"
  by (simp add: IncIndicies_def Let_def nth_append list_update_append inc_loop_snoc)

lemma row_major_snoc:
  "length dims = length ind \<Longrightarrow> row_major (dims @ [d]) (ind @ [x]) = row_major dims ind * unat d + unat x"
  by (simp add: row_major_def)

lemma inside_snoc: "length dims = length ind \<Longrightarrow> inside (dims @ [d]) (ind @ [x]) = (inside dims ind \<and> x < d)"
  by (simp add: inside_def list_all2_append)

lemma next_word: "x < d \<Longrightarrow> unat (x + 1) = unat x + 1" for x d :: u32
proof -
  assume "x < d"
  moreover have "unat d < 2 ^ 32" by (rule order_less_le_trans [OF unsigned_less]) simp
  ultimately show ?thesis by (simp add: word_less_nat_alt unat_word_ariths)
qed

lemma next_index:
  assumes "inside dims ind" and "row_major dims ind + 1 < prod_list (map unat dims)"
  shows "inside dims (IncIndicies ind dims) \<and> row_major dims (IncIndicies ind dims) = row_major dims ind + 1"
  using assms
proof (induction dims arbitrary: ind rule: rev_induct)
  case Nil
  then show ?case by (simp add: row_major_def)
next
  case (snoc d dims)
  have "length ind = Suc (length dims)" using snoc.prems(1) by (simp add: inside_def list_all2_lengthD [symmetric])
  then obtain js x where ind: "ind = js @ [x]" "length dims = length js"
    by (metis length_Suc_conv_rev nat.inject)
  have x: "x < d" "inside dims js" using snoc.prems(1) ind by (simp_all add: inside_snoc)
  have len: "length dims = length (IncIndicies js dims)" if "inside dims (IncIndicies js dims)"
    using that by (simp add: inside_def list_all2_lengthD)
  show ?case
  proof (cases "x + 1 < d")
    case True
    then show ?thesis using next_word [OF x(1)] x ind by (simp add: IncIndicies_snoc row_major_snoc inside_snoc)
  next
    case False
    have d: "unat d = unat x + 1"
      using False x(1) next_word [OF x(1)] by (simp add: word_less_nat_alt)
    have "(row_major dims js + 1) * unat d < prod_list (map unat dims) * unat d"
      using snoc.prems(2) ind by (simp add: row_major_snoc d algebra_simps)
    then have "row_major dims js + 1 < prod_list (map unat dims)" using mult_less_cancel2 by blast
    from snoc.IH [OF x(2) this]
    have IH: "inside dims (IncIndicies js dims)" "row_major dims (IncIndicies js dims) = row_major dims js + 1" by simp_all
    have "0 < d" using d by (simp add: word_less_nat_alt)
    then show ?thesis
      using False IH len [OF IH(1)] ind d
      by (simp add: IncIndicies_snoc row_major_snoc inside_snoc algebra_simps)
  qed
qed

lemma first_index:
  "0 < prod_list (map unat dims) \<Longrightarrow>
     inside dims (replicate (length dims) 0) \<and> row_major dims (replicate (length dims) 0) = 0"
proof (induction dims rule: rev_induct)
  case Nil
  show ?case by (simp add: inside_def row_major_def)
next
  case (snoc d dims)
  then have "0 < unat d" "0 < prod_list (map unat dims)" by simp_all
  with snoc.IH show ?case
    by (simp add: replicate_append_same [symmetric] inside_snoc row_major_snoc word_less_nat_alt)
qed

lemma kth_index:
  "k < prod_list (map unat dims) \<Longrightarrow>
     inside dims (((\<lambda>ind. IncIndicies ind dims) ^^ k) (replicate (length dims) 0)) \<and>
     row_major dims (((\<lambda>ind. IncIndicies ind dims) ^^ k) (replicate (length dims) 0)) = k"
proof (induction k)
  case 0
  then show ?case using first_index [of dims] by simp
next
  case (Suc k)
  then show ?case using next_index [of dims "((\<lambda>ind. IncIndicies ind dims) ^^ k) (replicate (length dims) 0)"] by simp
qed

section \<open>Facts: names\<close>

lemma parse_digits:
  "\<forall>c \<in> set ds. is_digit c \<Longrightarrow>
     parse_indices_loop v is (ds @ s) = parse_indices_loop (foldl (\<lambda>a c. a * 10 + of_nat (digit_val c)) v ds) is s"
  by (induction ds arbitrary: v) auto

lemma word_digits:
  "foldl (\<lambda>a c. a * 10 + of_nat (digit_val c)) (of_nat v) ds =
     (of_nat (foldl (\<lambda>a c. 10 * a + digit_val c) v ds) :: u32)"
proof (induction ds arbitrary: v)
  case (Cons c ds)
  show ?case using Cons [of "10 * v + digit_val c"] by (simp add: mult.commute)
qed simp

lemma parse_number:
  "parse_indices_loop 0 is (to_string n @ s) = parse_indices_loop (of_nat n) is s"
  using parse_digits [OF digits_to_string] word_digits [of 0 "to_string n"] digits_val_to_string [of n]
  by (simp add: digits_val_def)

lemma parse_indices_text:
  "parse_indices_loop v is (indices_loop '', '' ps @ '']'') = Some (is @ v # map (\<lambda>(b, i). b + i) ps)"
proof (induction ps arbitrary: v "is")
  case (Cons p ps)
  obtain b i where p: "p = (b, i)" by (cases p)
  have "parse_indices_loop v is (indices_loop '', '' (p # ps) @ '']'') =
      parse_indices_loop 0 (is @ [v]) (to_string (unat (b + i)) @ indices_loop '', '' ps @ '']'')"
    by (simp add: p is_digit_def)
  then show ?case using Cons [of "b + i" "is @ [v]"] by (simp add: p parse_number)
qed (simp add: is_digit_def)

section \<open>Properties\<close>

text \<open>The elements of an array are named in row-major order: the index reached after counting to the position of
  an element lies inside the bounds, and its row-major position is that position.\<close>

theorem array_elements_row_major:
  assumes "k < prod_list (map unat dims)"
  shows "(let ind = ((\<lambda>ind. IncIndicies ind dims) ^^ k) (replicate (length dims) 0) in
    list_all2 (\<lambda>d i. i < d) dims ind \<and> foldl (\<lambda>k (d, i). k * unat d + unat i) 0 (zip dims ind) = k)"
  using kth_index [OF assms] by (simp add: inside_def row_major_def Let_def)

theorem array_elements_row_major_witness:
  "((\<lambda>ind. IncIndicies ind [2, 3]) ^^ 4) [0, 0] = [1, 1] \<and>
   foldl (\<lambda>k (d, i). k * unat d + unat i) 0 (zip [2, 3 :: u32] (((\<lambda>ind. IncIndicies ind [2, 3]) ^^ 4) [0, 0])) = 4"
proof -
  have "((\<lambda>ind. IncIndicies ind [2, 3]) ^^ 4) [0, 0] = [1, 1]"
    by code_simp
  then show ?thesis
    using array_elements_row_major [of 4 "[2, 3]"] by (simp add: Let_def)
qed

text \<open>The name of an array element reads back as its index, counted from the bases of the array.\<close>

theorem array_name_roundtrip:
  assumes "ind \<noteq> []" and "length base = length ind"
  shows "ParseIndices (IndiciesToStr ind base @ '']'') = Some (map (\<lambda>(b, i). b + i) (zip base ind))"
proof -
  obtain b bs i js where "base = b # bs" "ind = i # js" using assms by (cases base; cases ind) simp_all
  then show ?thesis
    using assms(2) by (simp add: ParseIndices_def IndiciesToStr_def parse_number parse_indices_text)
qed

theorem array_name_roundtrip_witness: "ParseIndices (IndiciesToStr [1, 12] [0, 5] @ '']'') = Some [1, 17]"
  using array_name_roundtrip [of "[1, 12]" "[0, 5]"] by simp

end
