(* ===== verification/Value_Walk.thy ===== *)
theory Value_Walk imports Array_Index begin

text \<open>
  The members of a value and the variables of a frame (\<open>WalkMembers\<close>, \<open>WalkStackVars\<close> and the two
  handlers of compiler-generated variables, \<open>valuewalk.cpp\<close>).  A value of the debuggee is a number;
  what the runtime and the metadata answer about it is a record.  A callback is a function on the
  state of the caller.
\<close>

section \<open>What the runtime answers\<close>

type_synonym val = nat

text \<open>A field: whether its properties can be read, its name and attributes, the literal value (for a call
  with and without a thread), and its value as a static and as an instance field.\<close>

record field_answer =
  fa_props :: bool
  fa_name :: string
  fa_static :: bool
  fa_literal :: bool
  fa_literal_value :: "bool \<Rightarrow> hresult \<times> val option"
  fa_static_value :: "val option"
  fa_value :: "val option"

text \<open>A property: whether its properties can be read, its name, its getter, and whether the getter is static
  (None when the method cannot be read).\<close>

record prop_answer =
  pp_props :: bool
  pp_name :: string
  pp_getter :: nat
  pp_static :: "bool option"

text \<open>A type: \<open>GetType\<close> and whether it is the string type, the calls that reach its metadata (the first
  failure), its printed name, its fields and its properties; then the name and the type of its base.\<close>

record type_head =
  tn_elem :: "hresult \<times> bool"
  tn_open :: hresult
  tn_name :: string
  tn_fields :: "field_answer list"
  tn_props :: "prop_answer list"

datatype type_info = Type_Info type_head "(string \<times> type_info) option"

text \<open>An array: its rank, length, dimensions and bases, its elements by position and by index.\<close>

record array_answer =
  ar_rank :: "hresult \<times> nat"
  ar_count :: "hresult \<times> nat"
  ar_dims :: "hresult \<times> u32 list"
  ar_has_base :: bool
  ar_base :: "hresult \<times> u32 list"
  ar_element :: "nat \<Rightarrow> val option"
  ar_get :: "u32 list \<Rightarrow> hresult \<times> val option"

text \<open>A value: \<open>DereferenceAndUnboxValue\<close>, whether it is null, what it points to, whether it is a pointer,
  its array interface, and its exact type.\<close>

record value_answer =
  va_deref :: hresult
  va_null :: bool
  va_target :: "val option"
  va_pointer :: "hresult \<times> bool"
  va_array :: "array_answer option"
  va_value2 :: hresult
  va_exact :: "hresult \<times> type_info"

section \<open>Members\<close>

text \<open>What \<open>WalkMembers\<close> passes to its callback: the getter (nil for a field), the name of the type, the
  value, whether it is static, and the name.\<close>

record member =
  me_getter :: nat
  me_type :: "string option"
  me_value :: "val option"
  me_static :: bool
  me_name :: string

type_synonym 's member_callback = "member \<Rightarrow> 's \<Rightarrow> hresult \<times> 's"

primrec array_loop ::
  "array_answer \<Rightarrow> u32 list \<Rightarrow> u32 list \<Rightarrow> 's member_callback \<Rightarrow> nat \<Rightarrow> nat \<Rightarrow> u32 list \<Rightarrow> 's \<Rightarrow> hresult \<times> 's" where
  "array_loop ar base dims cb 0 i ind s = (S_OK, s)"
| "array_loop ar base dims cb (Suc n) i ind s =
     (case cb \<lparr>me_getter = mdMethodDefNil, me_type = None, me_value = ar_element ar i, me_static = False,
               me_name = ''['' @ IndiciesToStr ind base @ '']''\<rparr> s of
        (st, s') \<Rightarrow> if \<not> succeeded st then (st, s')
                   else array_loop ar base dims cb n (i + 1) (IncIndicies ind dims) s')"

definition walk_array :: "array_answer \<Rightarrow> 's member_callback \<Rightarrow> 's \<Rightarrow> hresult \<times> 's" where
  "walk_array ar cb s =
     (if \<not> succeeded (fst (ar_rank ar)) then (fst (ar_rank ar), s)
      else if \<not> succeeded (fst (ar_count ar)) then (fst (ar_count ar), s)
      else if \<not> succeeded (fst (ar_dims ar)) then (fst (ar_dims ar), s)
      else if ar_has_base ar \<and> \<not> succeeded (fst (ar_base ar)) then (fst (ar_base ar), s)
      else
        let zeros = replicate (snd (ar_rank ar)) 0;
            base = (if ar_has_base ar then snd (ar_base ar) else zeros)
        in array_loop ar base (snd (ar_dims ar)) cb (snd (ar_count ar)) 0 zeros s)"

text \<open>The value of a field, and the name of the property behind a compiler-generated field.\<close>

definition field_value :: "bool \<Rightarrow> bool \<Rightarrow> field_answer \<Rightarrow> hresult \<times> val option" where
  "field_value thread frame f =
     (if fa_literal f then fa_literal_value f thread
      else if fa_static f then (S_OK, if frame then fa_static_value f else None)
      else (S_OK, fa_value f))"

definition generated :: "string \<Rightarrow> bool" where
  "generated name = (case name of [] \<Rightarrow> False | c # _ \<Rightarrow> c = CHR ''<'')"

definition property_behind :: "string \<Rightarrow> string" where
  "property_behind name =
     (case str_rfind (CHR ''>'') name of None \<Rightarrow> drop 1 name | Some endOffset \<Rightarrow> take (endOffset - 1) (drop 1 name))"

fun fields_loop ::
  "bool \<Rightarrow> bool \<Rightarrow> bool \<Rightarrow> string \<Rightarrow> 's member_callback \<Rightarrow> field_answer list \<Rightarrow> string list \<Rightarrow> 's \<Rightarrow>
     hresult \<times> string list \<times> 's" where
  "fields_loop thread frame isNull ty cb [] backed s = (S_OK, backed, s)"
| "fields_loop thread frame isNull ty cb (f # fs) backed s =
     (if \<not> fa_props f then fields_loop thread frame isNull ty cb fs backed s
      else (case field_value thread frame f of
        (st, v) \<Rightarrow>
          if \<not> succeeded st then (st, backed, s)
          else if v = None \<and> generated (fa_name f) then fields_loop thread frame isNull ty cb fs backed s
          else
            let name = (if generated (fa_name f) then property_behind (fa_name f) else fa_name f);
                backed' = (if generated (fa_name f) then List.insert name backed else backed)
            in if isNull \<and> \<not> fa_static f then fields_loop thread frame isNull ty cb fs backed' s
               else (case cb \<lparr>me_getter = mdMethodDefNil, me_type = Some ty, me_value = v,
                             me_static = fa_static f, me_name = name\<rparr> s of
                       (st, s') \<Rightarrow> if \<not> succeeded st then (st, backed', s')
                                  else fields_loop thread frame isNull ty cb fs backed' s')))"

fun props_loop ::
  "bool \<Rightarrow> string \<Rightarrow> string list \<Rightarrow> 's member_callback \<Rightarrow> prop_answer list \<Rightarrow> 's \<Rightarrow> hresult \<times> 's" where
  "props_loop isNull ty backed cb [] s = (S_OK, s)"
| "props_loop isNull ty backed cb (p # ps) s =
     (case (pp_props p, pp_static p) of
        (True, Some is_static) \<Rightarrow>
          if pp_name p \<in> set backed \<or> isNull \<and> \<not> is_static then props_loop isNull ty backed cb ps s
          else (case cb \<lparr>me_getter = pp_getter p, me_type = Some ty, me_value = None,
                        me_static = is_static, me_name = pp_name p\<rparr> s of
                  (st, s') \<Rightarrow> if \<not> succeeded st then (st, s') else props_loop isNull ty backed cb ps s')
      | _ \<Rightarrow> props_loop isNull ty backed cb ps s)"

text \<open>What every call of \<open>WalkMembers\<close> begins with; \<open>rest\<close> is what it does with an object.\<close>

definition walk_value :: "value_answer \<Rightarrow> 's member_callback \<Rightarrow> ('s \<Rightarrow> hresult \<times> 's) \<Rightarrow> 's \<Rightarrow> hresult \<times> 's" where
  "walk_value a cb rest s =
     (if \<not> succeeded (va_deref a) then (va_deref a, s)
      else if va_null a \<and> va_target a = None then (S_OK, s)
      else if \<not> succeeded (fst (va_pointer a)) then (fst (va_pointer a), s)
      else if snd (va_pointer a)
      then cb \<lparr>me_getter = mdMethodDefNil, me_type = None, me_value = va_target a, me_static = False, me_name = []\<rparr> s
      else (case va_array a of
              Some ar \<Rightarrow> walk_array ar cb s
            | None \<Rightarrow> if \<not> succeeded (va_value2 a) then (va_value2 a, s) else rest s))"

text \<open>The members of a type; then the call for its base type, which begins anew with the value.\<close>

fun walk_type :: "value_answer \<Rightarrow> bool \<Rightarrow> bool \<Rightarrow> 's member_callback \<Rightarrow> type_info \<Rightarrow> 's \<Rightarrow> hresult \<times> 's" where
  "walk_type a thread frame cb (Type_Info h base) s =
     (if \<not> succeeded (fst (tn_elem h)) then (fst (tn_elem h), s)
      else if snd (tn_elem h) then (S_OK, s)
      else if \<not> succeeded (tn_open h) then (tn_open h, s)
      else if tn_name h = ''decimal'' then (S_OK, s)
      else (case fields_loop thread frame (va_null a) (tn_name h) cb (tn_fields h) [] s of
        (st, backed, s1) \<Rightarrow>
          if \<not> succeeded st then (st, s1)
          else (case props_loop (va_null a) (tn_name h) backed cb (tn_props h) s1 of
            (st, s2) \<Rightarrow>
              if \<not> succeeded st then (st, s2)
              else (case base of
                      None \<Rightarrow> (S_OK, s2)
                    | Some (baseTypeName, t) \<Rightarrow>
                        if baseTypeName = ''System.Enum'' then (S_OK, s2)
                        else if baseTypeName \<noteq> ''System.Object'' \<and> baseTypeName \<noteq> ''System.ValueType''
                        then walk_value a cb (\<lambda>s. walk_type a thread frame cb t s) s2
                        else (S_OK, s2)))))"

definition WalkMembers :: "value_answer \<Rightarrow> bool \<Rightarrow> bool \<Rightarrow> 's member_callback \<Rightarrow> 's \<Rightarrow> hresult \<times> 's" where
  "WalkMembers a thread frame cb s =
     walk_value a cb
       (\<lambda>s. if \<not> succeeded (fst (va_exact a)) then (fst (va_exact a), s)
            else walk_type a thread frame cb (snd (va_exact a)) s) s"

section \<open>Variables of a frame\<close>

type_synonym 's var_callback = "val option \<Rightarrow> string \<Rightarrow> 's \<Rightarrow> hresult \<times> 's"

definition has_prefix :: "string \<Rightarrow> string \<Rightarrow> bool" where
  "has_prefix s p = (length p \<le> length s \<and> take (length p) s = p)"

definition this_or :: "string \<Rightarrow> string" where
  "this_or name = (if name = [] then ''this'' else name)"

text \<open>The fields of a captured local variable stand for it; \<open>env\<close> gives the answers for a value.\<close>

definition capture_member :: "'s var_callback \<Rightarrow> (string list \<times> 's) member_callback" where
  "capture_member cb m ls =
     (if me_static m \<or> has_prefix (me_name m) ''CS$<>'' \<or> me_name m \<in> set (fst ls) then (S_OK, ls)
      else (case cb (me_value m) (this_or (me_name m)) (snd ls) of (st, s') \<Rightarrow> (st, (me_name m # fst ls, s'))))"

definition HandleSpecialLocalVar ::
  "(val option \<Rightarrow> value_answer) \<Rightarrow> string \<Rightarrow> val option \<Rightarrow> 's var_callback \<Rightarrow> string list \<times> 's \<Rightarrow> hresult \<times> string list \<times> 's" where
  "HandleSpecialLocalVar env localName v cb ls =
     (if \<not> has_prefix localName ''CS$<>'' then (S_FALSE, ls)
      else (case WalkMembers (env v) False True (capture_member cb) ls of
              (st, ls') \<Rightarrow> (if succeeded st then S_OK else st, ls')))"

definition this_member :: "(val option \<Rightarrow> value_answer) \<Rightarrow> 's var_callback \<Rightarrow> (string list \<times> 's) member_callback" where
  "this_member env cb m ls =
     (if me_static m then (S_OK, ls)
      else (case HandleSpecialLocalVar env (me_name m) (me_value m) cb ls of
              (st, ls') \<Rightarrow>
                if \<not> succeeded st \<or> st = S_OK then (st, ls')
                else (case cb (me_value m) (this_or (me_name m)) (snd ls') of
                        (st, s'') \<Rightarrow> (st, (List.insert (me_name m) (fst ls'), s'')))))"

definition HandleSpecialThisParam ::
  "(val option \<Rightarrow> value_answer) \<Rightarrow> (val option \<Rightarrow> string) \<Rightarrow> val option \<Rightarrow> 's var_callback \<Rightarrow> string list \<times> 's \<Rightarrow>
     hresult \<times> string list \<times> 's" where
  "HandleSpecialThisParam env type_name v cb ls =
     (case str_rfind (CHR ''.'') (type_name v) of
        None \<Rightarrow> (S_FALSE, ls)
      | Some start \<Rightarrow>
          if \<not> has_prefix (drop (start + 1) (type_name v)) ''<>c__DisplayClass'' then (S_FALSE, ls)
          else (case WalkMembers (env v) False True (this_member env cb) ls of
                  (st, ls') \<Rightarrow> (if succeeded st then S_OK else st, ls')))"

text \<open>A local variable: \<open>GetFrameNamedLocalVariable\<close>, its name, value and range of offsets.\<close>

record local_answer =
  lo_status :: hresult
  lo_name :: string
  lo_value :: "val option"
  lo_start :: nat
  lo_end :: nat

text \<open>A frame: its IL interface, the calls that reach the metadata and the arguments (the first failure), the attributes of the
  method, the arguments, the names of parameters by index, the current offset, the local variables.\<close>

record frame_answer =
  fv_il :: hresult
  fv_open :: hresult
  fv_static :: "hresult \<times> bool"
  fv_args :: "(hresult \<times> val option) list"
  fv_param_name :: "nat \<Rightarrow> string option"
  fv_ip :: "hresult \<times> nat"
  fv_enum_locals :: hresult
  fv_locals :: "local_answer list"

definition param_name :: "frame_answer \<Rightarrow> nat \<Rightarrow> string" where
  "param_name fv i =
     (let name = (if i = 0 \<and> \<not> snd (fv_static fv) then ''this''
                  else (case fv_param_name fv (if \<not> snd (fv_static fv) then i else i + 1) of None \<Rightarrow> [] | Some n \<Rightarrow> n))
      in if name = [] then ''param_'' @ to_string i else name)"

fun params_loop ::
  "(val option \<Rightarrow> value_answer) \<Rightarrow> (val option \<Rightarrow> string) \<Rightarrow> frame_answer \<Rightarrow> 's var_callback \<Rightarrow>
     (hresult \<times> val option) list \<Rightarrow> nat \<Rightarrow> string list \<times> 's \<Rightarrow> hresult \<times> string list \<times> 's" where
  "params_loop env type_name fv cb [] i ls = (S_OK, ls)"
| "params_loop env type_name fv cb ((status, v) # args) i ls =
     (if \<not> succeeded status then params_loop env type_name fv cb args (i + 1) ls
      else if status = S_FALSE then (S_OK, ls)
      else (case (if i = 0 \<and> \<not> snd (fv_static fv) then HandleSpecialThisParam env type_name v cb ls else (S_FALSE, ls)) of
              (st, (locals, s)) \<Rightarrow>
                if \<not> succeeded st then (st, (locals, s))
                else if st = S_OK then params_loop env type_name fv cb args (i + 1) (locals, s)
                else (case cb v (param_name fv i) s of
                        (st, s') \<Rightarrow>
                          if \<not> succeeded st then (st, (List.insert (param_name fv i) locals, s'))
                          else params_loop env type_name fv cb args (i + 1) (List.insert (param_name fv i) locals, s'))))"

fun locals_loop ::
  "(val option \<Rightarrow> value_answer) \<Rightarrow> nat \<Rightarrow> 's var_callback \<Rightarrow> local_answer list \<Rightarrow> string list \<times> 's \<Rightarrow>
     hresult \<times> string list \<times> 's" where
  "locals_loop env ip cb [] ls = (S_OK, ls)"
| "locals_loop env ip cb (l # lcs) ls =
     (if \<not> succeeded (lo_status l) then locals_loop env ip cb lcs ls
      else if ip < lo_start l \<or> ip \<ge> lo_end l then locals_loop env ip cb lcs ls
      else if lo_status l = S_FALSE then (S_OK, ls)
      else (case HandleSpecialLocalVar env (lo_name l) (lo_value l) cb ls of
              (st, (locals, s)) \<Rightarrow>
                if \<not> succeeded st then (st, (locals, s))
                else if st = S_OK then locals_loop env ip cb lcs (locals, s)
                else (case cb (lo_value l) (lo_name l) s of
                        (st, s') \<Rightarrow>
                          if \<not> succeeded st then (st, (List.insert (lo_name l) locals, s'))
                          else locals_loop env ip cb lcs (List.insert (lo_name l) locals, s'))))"

definition WalkStackVars ::
  "(val option \<Rightarrow> value_answer) \<Rightarrow> (val option \<Rightarrow> string) \<Rightarrow> frame_answer \<Rightarrow> 's var_callback \<Rightarrow> 's \<Rightarrow> hresult \<times> 's" where
  "WalkStackVars env type_name fv cb s =
     (if \<not> succeeded (fv_il fv) then (fv_il fv, s)
      else if \<not> succeeded (fv_open fv) then (fv_open fv, s)
      else if fv_args fv \<noteq> [] \<and> \<not> succeeded (fst (fv_static fv)) then (fst (fv_static fv), s)
      else (case params_loop env type_name fv cb (fv_args fv) 0 ([], s) of
        (st, (locals, s1)) \<Rightarrow>
          if \<not> succeeded st then (st, s1)
          else if \<not> succeeded (fst (fv_ip fv)) then (fst (fv_ip fv), s1)
          else if \<not> succeeded (fv_enum_locals fv) then (fv_enum_locals fv, s1)
          else (case locals_loop env (snd (fv_ip fv)) cb (fv_locals fv) (locals, s1) of
                  (st, (_, s2)) \<Rightarrow> (st, s2))))"

section \<open>The walk as a list\<close>

text \<open>The members a walk reports, whatever the callback does with them, and how the walk itself ends: the
  reference for the callback-driven loops.\<close>

fun visit :: "'s member_callback \<Rightarrow> member list \<Rightarrow> hresult \<Rightarrow> 's \<Rightarrow> hresult \<times> 's" where
  "visit cb [] final s = (final, s)"
| "visit cb (m # ms) final s =
     (case cb m s of (st, s') \<Rightarrow> if \<not> succeeded st then (st, s') else visit cb ms final s')"

primrec array_members :: "array_answer \<Rightarrow> u32 list \<Rightarrow> u32 list \<Rightarrow> nat \<Rightarrow> nat \<Rightarrow> u32 list \<Rightarrow> member list" where
  "array_members ar base dims 0 i ind = []"
| "array_members ar base dims (Suc n) i ind =
     \<lparr>me_getter = mdMethodDefNil, me_type = None, me_value = ar_element ar i, me_static = False,
      me_name = ''['' @ IndiciesToStr ind base @ '']''\<rparr> # array_members ar base dims n (i + 1) (IncIndicies ind dims)"

definition array_listing :: "array_answer \<Rightarrow> member list \<times> hresult" where
  "array_listing ar =
     (if \<not> succeeded (fst (ar_rank ar)) then ([], fst (ar_rank ar))
      else if \<not> succeeded (fst (ar_count ar)) then ([], fst (ar_count ar))
      else if \<not> succeeded (fst (ar_dims ar)) then ([], fst (ar_dims ar))
      else if ar_has_base ar \<and> \<not> succeeded (fst (ar_base ar)) then ([], fst (ar_base ar))
      else
        let zeros = replicate (snd (ar_rank ar)) 0;
            base = (if ar_has_base ar then snd (ar_base ar) else zeros)
        in (array_members ar base (snd (ar_dims ar)) (snd (ar_count ar)) 0 zeros, S_OK))"

fun field_members ::
  "bool \<Rightarrow> bool \<Rightarrow> bool \<Rightarrow> string \<Rightarrow> field_answer list \<Rightarrow> string list \<Rightarrow> member list \<times> hresult \<times> string list" where
  "field_members thread frame isNull ty [] backed = ([], S_OK, backed)"
| "field_members thread frame isNull ty (f # fs) backed =
     (if \<not> fa_props f then field_members thread frame isNull ty fs backed
      else (case field_value thread frame f of
        (st, v) \<Rightarrow>
          if \<not> succeeded st then ([], st, backed)
          else if v = None \<and> generated (fa_name f) then field_members thread frame isNull ty fs backed
          else
            let name = (if generated (fa_name f) then property_behind (fa_name f) else fa_name f);
                backed' = (if generated (fa_name f) then List.insert name backed else backed)
            in (case field_members thread frame isNull ty fs backed' of
                  (ms, final, b) \<Rightarrow>
                    ((if isNull \<and> \<not> fa_static f then ms
                      else \<lparr>me_getter = mdMethodDefNil, me_type = Some ty, me_value = v,
                            me_static = fa_static f, me_name = name\<rparr> # ms), final, b))))"

definition prop_members :: "bool \<Rightarrow> string \<Rightarrow> string list \<Rightarrow> prop_answer list \<Rightarrow> member list" where
  "prop_members isNull ty backed ps =
     map (\<lambda>p. \<lparr>me_getter = pp_getter p, me_type = Some ty, me_value = None,
               me_static = the (pp_static p), me_name = pp_name p\<rparr>)
       (filter (\<lambda>p. pp_props p \<and> pp_static p \<noteq> None \<and> pp_name p \<notin> set backed \<and> (isNull \<longrightarrow> the (pp_static p))) ps)"

definition value_listing :: "value_answer \<Rightarrow> member list \<times> hresult \<Rightarrow> member list \<times> hresult" where
  "value_listing a rest =
     (if \<not> succeeded (va_deref a) then ([], va_deref a)
      else if va_null a \<and> va_target a = None then ([], S_OK)
      else if \<not> succeeded (fst (va_pointer a)) then ([], fst (va_pointer a))
      else if snd (va_pointer a)
      then ([\<lparr>me_getter = mdMethodDefNil, me_type = None, me_value = va_target a, me_static = False, me_name = []\<rparr>], S_OK)
      else (case va_array a of
              Some ar \<Rightarrow> array_listing ar
            | None \<Rightarrow> if \<not> succeeded (va_value2 a) then ([], va_value2 a) else rest))"

fun type_listing :: "value_answer \<Rightarrow> bool \<Rightarrow> bool \<Rightarrow> type_info \<Rightarrow> member list \<times> hresult" where
  "type_listing a thread frame (Type_Info h base) =
     (if \<not> succeeded (fst (tn_elem h)) then ([], fst (tn_elem h))
      else if snd (tn_elem h) then ([], S_OK)
      else if \<not> succeeded (tn_open h) then ([], tn_open h)
      else if tn_name h = ''decimal'' then ([], S_OK)
      else (case field_members thread frame (va_null a) (tn_name h) (tn_fields h) [] of
        (fs, final, backed) \<Rightarrow>
          if \<not> succeeded final then (fs, final)
          else
            let ms = fs @ prop_members (va_null a) (tn_name h) backed (tn_props h)
            in (case base of
                  None \<Rightarrow> (ms, S_OK)
                | Some (baseTypeName, t) \<Rightarrow>
                    if baseTypeName \<in> {''System.Enum'', ''System.Object'', ''System.ValueType''} then (ms, S_OK)
                    else (case value_listing a (type_listing a thread frame t) of
                            (bs, final) \<Rightarrow> (ms @ bs, final)))))"

definition listing :: "value_answer \<Rightarrow> bool \<Rightarrow> bool \<Rightarrow> member list \<times> hresult" where
  "listing a thread frame =
     value_listing a
       (if \<not> succeeded (fst (va_exact a)) then ([], fst (va_exact a)) else type_listing a thread frame (snd (va_exact a)))"

section \<open>Facts: visiting\<close>

definition plain_callback :: "'s member_callback \<Rightarrow> bool" where
  "plain_callback cb \<longleftrightarrow> (\<forall>m s. fst (cb m s) \<noteq> S_FALSE)"

lemma plain_ok: "plain_callback cb \<Longrightarrow> cb m s = (st, s') \<Longrightarrow> succeeded st \<Longrightarrow> st = S_OK"
  by (cases st) (auto simp: plain_callback_def dest: spec [of _ m] spec [of _ s], metis fst_conv)

lemma visit_append:
  "visit cb (ms @ ns) final s =
     (case visit cb ms S_OK s of (st, s') \<Rightarrow> if \<not> succeeded st then (st, s') else visit cb ns final s')"
  by (induction ms arbitrary: s) (simp_all split: prod.split)

lemma visit_final:
  "visit cb ms final s = (case visit cb ms S_OK s of (st, s') \<Rightarrow> if \<not> succeeded st then (st, s') else (final, s'))"
  by (induction ms arbitrary: s) (simp_all split: prod.split)

lemma visit_ok: "visit cb ms S_OK s = (st, s') \<Longrightarrow> succeeded st \<Longrightarrow> st = S_OK"
  by (induction ms arbitrary: s) (auto split: prod.splits if_splits)

lemma array_loop_visit: "array_loop ar base dims cb n i ind s = visit cb (array_members ar base dims n i ind) S_OK s"
  by (induction n arbitrary: i ind s) (simp_all split: prod.split)

lemma walk_array_visit: "walk_array ar cb s = (case array_listing ar of (ms, final) \<Rightarrow> visit cb ms final s)"
  by (simp add: walk_array_def array_listing_def array_loop_visit Let_def)

lemma fields_loop_visit:
  assumes "field_members thread frame isNull ty fs backed = (ms, final, b)"
  shows "case fields_loop thread frame isNull ty cb fs backed s of (st, b', s') \<Rightarrow>
     (st, s') = visit cb ms final s \<and> (succeeded st \<longrightarrow> b' = b)"
  using assms
proof (induction fs arbitrary: backed s ms)
  case (Cons f fs)
  show ?case
  proof (cases "fa_props f")
    case False
    then show ?thesis using Cons by simp
  next
    case True
    obtain st v where v: "field_value thread frame f = (st, v)" by (cases "field_value thread frame f")
    define name where "name = (if generated (fa_name f) then property_behind (fa_name f) else fa_name f)"
    define backed' where "backed' = (if generated (fa_name f) then List.insert name backed else backed)"
    define m where "m = \<lparr>me_getter = mdMethodDefNil, me_type = Some ty, me_value = v, me_static = fa_static f, me_name = name\<rparr>"
    note defs = name_def [symmetric] backed'_def [symmetric] m_def [symmetric]
    obtain ms' final' b' where r: "field_members thread frame isNull ty fs backed' = (ms', final', b')"
      by (cases "field_members thread frame isNull ty fs backed'")
    consider "\<not> succeeded st" | "succeeded st" "v = None \<and> generated (fa_name f)"
      | "succeeded st" "\<not> (v = None \<and> generated (fa_name f))" by blast
    then show ?thesis
    proof cases
      case 1
      then show ?thesis using Cons.prems True by (auto simp: v)
    next
      case 2
      then show ?thesis using Cons True by (auto simp: v)
    next
      case 3
      from 3(2) have e: "(v = None \<and> generated (fa_name f)) = False" by simp
      have prem: "((if isNull \<and> \<not> fa_static f then ms' else m # ms'), final', b') = (ms, final, b)"
        using Cons.prems True 3(1) by (simp only: field_members.simps v prod.case e if_False if_True Let_def defs r not_True_eq_False)
      then have IH: "case fields_loop thread frame isNull ty cb fs backed' s of (st, b', s') \<Rightarrow>
          (st, s') = visit cb ms' final s \<and> (succeeded st \<longrightarrow> b' = b)" for s
        using Cons.IH [of backed' ms' s] r by auto
      have L: "fields_loop thread frame isNull ty cb (f # fs) backed s =
          (if isNull \<and> \<not> fa_static f then fields_loop thread frame isNull ty cb fs backed' s
           else (case cb m s of (st, s') \<Rightarrow> if \<not> succeeded st then (st, backed', s')
                 else fields_loop thread frame isNull ty cb fs backed' s'))"
        using True 3(1) by (simp only: fields_loop.simps v prod.case e if_False if_True Let_def defs not_True_eq_False)
      show ?thesis
      proof (cases "isNull \<and> \<not> fa_static f")
        case True
        then show ?thesis unfolding L using prem IH [of s] by simp
      next
        case False
        then have "ms = m # ms'" "final' = final" "b' = b" using prem by auto
        then show ?thesis unfolding L using False IH [of "snd (cb m s)"] by (cases "cb m s") auto
      qed
    qed
  qed
qed simp

lemma props_loop_visit:
  "props_loop isNull ty backed cb ps s = visit cb (prop_members isNull ty backed ps) S_OK s"
  by (induction ps arbitrary: s) (auto simp: prop_members_def split: prod.split bool.split option.split)

lemma walk_value_visit:
  assumes "plain_callback cb" and "\<And>s. rest s = (case r of (ms, final) \<Rightarrow> visit cb ms final s)"
  shows "walk_value a cb rest s = (case value_listing a r of (ms, final) \<Rightarrow> visit cb ms final s)"
  using plain_ok [OF assms(1)]
  by (auto simp: walk_value_def value_listing_def walk_array_visit assms(2) split: prod.split option.split)

lemma walk_type_visit:
  assumes "plain_callback cb"
  shows "walk_type a thread frame cb t s = (case type_listing a thread frame t of (ms, final) \<Rightarrow> visit cb ms final s)"
proof (induction a thread frame t arbitrary: s rule: type_listing.induct)
  case (1 a thread frame h base)
  show ?case
  proof (cases "succeeded (fst (tn_elem h)) \<and> \<not> snd (tn_elem h) \<and> succeeded (tn_open h) \<and> tn_name h \<noteq> ''decimal''")
    case False
    then show ?thesis by auto
  next
    case True
    obtain fs final backed where F: "field_members thread frame (va_null a) (tn_name h) (tn_fields h) [] = (fs, final, backed)"
      by (cases "field_members thread frame (va_null a) (tn_name h) (tn_fields h) []")
    obtain st b s1 where L: "fields_loop thread frame (va_null a) (tn_name h) cb (tn_fields h) [] s = (st, b, s1)"
      by (cases "fields_loop thread frame (va_null a) (tn_name h) cb (tn_fields h) [] s")
    have LV: "visit cb fs final s = (st, s1)" "succeeded st \<Longrightarrow> b = backed"
      using fields_loop_visit [OF F, of cb s] by (simp_all add: L)
    let ?ps = "prop_members (va_null a) (tn_name h) backed (tn_props h)"
    let ?stop = "\<lambda>n. n \<in> {''System.Enum'', ''System.Object'', ''System.ValueType''}"
    show ?thesis
    proof (cases "succeeded final")
      case False
      then have "\<not> succeeded st" using LV(1) visit_final [of cb fs final s] by (auto split: prod.splits if_splits)
      then show ?thesis using True False by (simp add: L F LV)
    next
      case ok: True
      have V: "visit cb fs S_OK s = (st', s1)" if "st' = (if succeeded st then S_OK else st)" for st'
        using LV(1) visit_final [of cb fs final s] visit_ok [of cb fs s] ok that by (auto split: prod.splits if_splits)
      have T: "type_listing a thread frame (Type_Info h base) =
          (case base of None \<Rightarrow> (fs @ ?ps, S_OK)
           | Some (n, t) \<Rightarrow> if ?stop n then (fs @ ?ps, S_OK)
               else (case value_listing a (type_listing a thread frame t) of (bs, final) \<Rightarrow> (fs @ ?ps @ bs, final)))"
        using True ok by (simp add: F Let_def split: option.split prod.split)
      have W: "walk_type a thread frame cb (Type_Info h base) s =
          (if \<not> succeeded st then (st, s1)
           else case visit cb ?ps S_OK s1 of (st, s2) \<Rightarrow>
             if \<not> succeeded st then (st, s2)
             else (case base of None \<Rightarrow> (S_OK, s2)
                   | Some (n, t) \<Rightarrow> if ?stop n then (S_OK, s2)
                       else walk_value a cb (\<lambda>s. walk_type a thread frame cb t s) s2))"
        using True LV(2) by (auto simp: L props_loop_visit split: option.split prod.split)
      have R: "walk_value a cb (\<lambda>s. walk_type a thread frame cb t s) s2 =
          (case value_listing a (type_listing a thread frame t) of (ms, final) \<Rightarrow> visit cb ms final s2)"
        if "base = Some (n, t)" "\<not> ?stop n" for n t s2
      proof (rule walk_value_visit [OF assms])
        fix s
        show "walk_type a thread frame cb t s = (case type_listing a thread frame t of (ms, final) \<Rightarrow> visit cb ms final s)"
          using "1.IH" [OF _ _ _ _ F [symmetric] refl _ refl that(1) refl that(2)] True ok by auto
      qed
      show ?thesis
        unfolding T W
        by (cases "succeeded st")
          (auto simp: V [OF refl] visit_append R split: option.split prod.split dest: visit_ok)
    qed
  qed
qed

lemma WalkMembers_visit:
  assumes "plain_callback cb"
  shows "WalkMembers a thread frame cb s = (case listing a thread frame of (ms, final) \<Rightarrow> visit cb ms final s)"
  unfolding WalkMembers_def listing_def
  by (rule walk_value_visit [OF assms]) (simp add: walk_type_visit [OF assms])

section \<open>Facts: related walks\<close>

text \<open>Two walks whose callbacks succeed and keep a relation between their states end in the same way.\<close>

lemma visit_sim:
  assumes "\<And>m s t. R s t \<Longrightarrow> fst (cb1 m s) = fst (cb2 m t) \<and> R (snd (cb1 m s)) (snd (cb2 m t))" and "R s t"
  shows "fst (visit cb1 ms final s) = fst (visit cb2 ms final t) \<and> R (snd (visit cb1 ms final s)) (snd (visit cb2 ms final t))"
  using assms(2)
proof (induction ms arbitrary: s t)
  case (Cons m ms)
  then show ?case using assms(1) [OF Cons.prems, of m] by (cases "cb1 m s"; cases "cb2 m t") auto
qed simp

lemma WalkMembers_sim:
  assumes "plain_callback cb1" and "plain_callback cb2"
    and "\<And>m s t. R s t \<Longrightarrow> fst (cb1 m s) = fst (cb2 m t) \<and> R (snd (cb1 m s)) (snd (cb2 m t))" and "R s t"
  shows "fst (WalkMembers a th fr cb1 s) = fst (WalkMembers a th fr cb2 t) \<and>
    R (snd (WalkMembers a th fr cb1 s)) (snd (WalkMembers a th fr cb2 t))"
  using visit_sim [OF assms(3,4)]
  by (simp add: WalkMembers_visit [OF assms(1)] WalkMembers_visit [OF assms(2)] split: prod.split)

definition total_callback :: "'s var_callback \<Rightarrow> bool" where
  "total_callback cb \<longleftrightarrow> (\<forall>v n s. fst (cb v n s) = S_OK)"

definition kept_by :: "('s \<Rightarrow> 't \<Rightarrow> bool) \<Rightarrow> 's var_callback \<Rightarrow> 't var_callback \<Rightarrow> bool" where
  "kept_by R cb1 cb2 \<longleftrightarrow> total_callback cb1 \<and> total_callback cb2 \<and>
     (\<forall>v n s t. R s t \<longrightarrow> R (snd (cb1 v n s)) (snd (cb2 v n t)))"

definition with_locals :: "('s \<Rightarrow> 't \<Rightarrow> bool) \<Rightarrow> string list \<times> 's \<Rightarrow> string list \<times> 't \<Rightarrow> bool" where
  "with_locals R ls lt \<longleftrightarrow> fst ls = fst lt \<and> R (snd ls) (snd lt)"

lemma kept_stepD: "kept_by R cb1 cb2 \<Longrightarrow> R s t \<Longrightarrow> cb1 v n s = (st, s') \<Longrightarrow> cb2 v n t = (st', t') \<Longrightarrow>
    st = S_OK \<and> st' = S_OK \<and> R s' t'"
  unfolding kept_by_def total_callback_def by (metis fst_conv snd_conv)

lemma capture_member_total: "total_callback cb \<Longrightarrow> fst (capture_member cb m ls) = S_OK"
  by (auto simp: capture_member_def total_callback_def split: prod.split) (metis fst_conv)

lemma capture_member_sim:
  assumes "kept_by R cb1 cb2" and "with_locals R ls lt"
  shows "with_locals R (snd (capture_member cb1 m ls)) (snd (capture_member cb2 m lt))"
proof -
  obtain st s where 1: "cb1 (me_value m) (this_or (me_name m)) (snd ls) = (st, s)" by fastforce
  obtain st' t where 2: "cb2 (me_value m) (this_or (me_name m)) (snd lt) = (st', t)" by fastforce
  have "R s t" using kept_stepD [OF assms(1) _ 1 2] assms(2) by (simp add: with_locals_def)
  then show ?thesis using assms(2) by (simp add: capture_member_def 1 2 with_locals_def)
qed

lemma special_local_sim:
  assumes "kept_by R cb1 cb2" and "with_locals R ls lt"
  shows "fst (HandleSpecialLocalVar env n v cb1 ls) = fst (HandleSpecialLocalVar env n v cb2 lt) \<and>
    with_locals R (snd (HandleSpecialLocalVar env n v cb1 ls)) (snd (HandleSpecialLocalVar env n v cb2 lt))"
proof -
  have tot: "total_callback cb1" "total_callback cb2" using assms(1) by (simp_all add: kept_by_def)
  then have plain: "plain_callback (capture_member cb1)" "plain_callback (capture_member cb2)"
    by (simp_all add: plain_callback_def capture_member_total)
  have "fst (WalkMembers (env v) False True (capture_member cb1) ls) =
      fst (WalkMembers (env v) False True (capture_member cb2) lt) \<and>
    with_locals R (snd (WalkMembers (env v) False True (capture_member cb1) ls))
      (snd (WalkMembers (env v) False True (capture_member cb2) lt))"
    by (rule WalkMembers_sim [where R = "with_locals R", OF plain _ assms(2)])
      (simp add: capture_member_total tot capture_member_sim [OF assms(1)])
  then show ?thesis
    using assms(2) by (auto simp: HandleSpecialLocalVar_def split: prod.split)
qed

lemma this_member_sim:
  assumes "kept_by R cb1 cb2" and "with_locals R ls lt"
  shows "fst (this_member env cb1 m ls) = fst (this_member env cb2 m lt) \<and> fst (this_member env cb1 m ls) \<noteq> S_FALSE \<and>
    with_locals R (snd (this_member env cb1 m ls)) (snd (this_member env cb2 m lt))"
proof -
  obtain st ls' where 1: "HandleSpecialLocalVar env (me_name m) (me_value m) cb1 ls = (st, ls')" by (metis surj_pair)
  obtain st' lt' where 2: "HandleSpecialLocalVar env (me_name m) (me_value m) cb2 lt = (st', lt')" by (metis surj_pair)
  have L: "st' = st" "with_locals R ls' lt'" using special_local_sim [OF assms, of env "me_name m" "me_value m"] by (simp_all add: 1 2)
  obtain u s where 3: "cb1 (me_value m) (this_or (me_name m)) (snd ls') = (u, s)" by fastforce
  obtain u' t where 4: "cb2 (me_value m) (this_or (me_name m)) (snd lt') = (u', t)" by fastforce
  have "u = S_OK" "u' = S_OK" "R s t" using kept_stepD [OF assms(1) _ 3 4] L(2) by (simp_all add: with_locals_def)
  then show ?thesis
    using assms(2) L by (cases st) (simp_all add: this_member_def 1 2 3 4 with_locals_def)
qed

lemma this_member_plain:
  fixes cb :: "'s var_callback"
  assumes "total_callback cb"
  shows "plain_callback (this_member env cb)"
  unfolding plain_callback_def
proof (intro allI)
  fix m ls
  have "kept_by ((=) :: 's \<Rightarrow> 's \<Rightarrow> bool) cb cb" "with_locals ((=) :: 's \<Rightarrow> 's \<Rightarrow> bool) ls ls" using assms by (simp_all add: kept_by_def with_locals_def)
  from this_member_sim [OF this] show "fst (this_member env cb m ls) \<noteq> S_FALSE" by blast
qed

lemma special_this_sim:
  assumes "kept_by R cb1 cb2" and "with_locals R ls lt"
  shows "fst (HandleSpecialThisParam env ty v cb1 ls) = fst (HandleSpecialThisParam env ty v cb2 lt) \<and>
    with_locals R (snd (HandleSpecialThisParam env ty v cb1 ls)) (snd (HandleSpecialThisParam env ty v cb2 lt))"
proof -
  have tot: "total_callback cb1" "total_callback cb2" using assms(1) by (simp_all add: kept_by_def)
  have "fst (WalkMembers (env v) False True (this_member env cb1) ls) =
      fst (WalkMembers (env v) False True (this_member env cb2) lt) \<and>
    with_locals R (snd (WalkMembers (env v) False True (this_member env cb1) ls))
      (snd (WalkMembers (env v) False True (this_member env cb2) lt))"
    by (rule WalkMembers_sim [where R = "with_locals R", OF this_member_plain [OF tot(1)] this_member_plain [OF tot(2)] _ assms(2)])
      (use this_member_sim [OF assms(1)] in blast)
  then show ?thesis
    using assms(2) by (auto simp: HandleSpecialThisParam_def split: prod.split option.split)
qed

lemma params_sim:
  assumes "kept_by R cb1 cb2" and "with_locals R ls lt"
  shows "fst (params_loop env ty fv cb1 args i ls) = fst (params_loop env ty fv cb2 args i lt) \<and>
    with_locals R (snd (params_loop env ty fv cb1 args i ls)) (snd (params_loop env ty fv cb2 args i lt))"
  using assms(2)
proof (induction args arbitrary: i ls lt)
  case (Cons arg args)
  obtain status v where arg: "arg = (status, v)" by (cases arg)
  let ?h = "\<lambda>cb ls. if i = 0 \<and> \<not> snd (fv_static fv) then HandleSpecialThisParam env ty v cb ls else (S_FALSE, ls)"
  obtain st ls' where 1: "?h cb1 ls = (st, ls')" by (metis surj_pair)
  obtain st' lt' where 2: "?h cb2 lt = (st', lt')" by (metis surj_pair)
  have L: "st' = st" "with_locals R ls' lt'"
    using special_this_sim [OF assms(1) Cons.prems, of env ty v] Cons.prems 1 2 by (auto split: if_splits)
  obtain u s where 3: "cb1 v (param_name fv i) (snd ls') = (u, s)" by fastforce
  obtain u' t where 4: "cb2 v (param_name fv i) (snd lt') = (u', t)" by fastforce
  have U: "u = S_OK" "u' = S_OK" "R s t" using kept_stepD [OF assms(1) _ 3 4] L(2) by (simp_all add: with_locals_def)
  then have new: "with_locals R (List.insert (param_name fv i) (fst ls'), s) (List.insert (param_name fv i) (fst lt'), t)"
    using L(2) by (simp add: with_locals_def)
  show ?case
  proof (cases "\<not> succeeded status \<or> status = S_FALSE")
    case True
    then show ?thesis using Cons.IH Cons.prems by (auto simp: arg)
  next
    case False
    have "params_loop env ty fv cb1 (arg # args) i ls =
        (if \<not> succeeded st then (st, ls') else if st = S_OK then params_loop env ty fv cb1 args (i + 1) ls'
         else params_loop env ty fv cb1 args (i + 1) (List.insert (param_name fv i) (fst ls'), s))"
      using False by (simp only: arg params_loop.simps 1) (cases ls', use 3 U in simp)
    moreover have "params_loop env ty fv cb2 (arg # args) i lt =
        (if \<not> succeeded st then (st, lt') else if st = S_OK then params_loop env ty fv cb2 args (i + 1) lt'
         else params_loop env ty fv cb2 args (i + 1) (List.insert (param_name fv i) (fst lt'), t))"
      using False by (simp only: arg params_loop.simps 2) (cases lt', use 4 U L(1) in simp)
    ultimately show ?thesis using Cons.IH [OF L(2), of "i + 1"] Cons.IH [OF new, of "i + 1"] L(2) by simp
  qed
qed simp

lemma locals_sim:
  assumes "kept_by R cb1 cb2" and "with_locals R ls lt"
  shows "fst (locals_loop env ip cb1 lcs ls) = fst (locals_loop env ip cb2 lcs lt) \<and>
    with_locals R (snd (locals_loop env ip cb1 lcs ls)) (snd (locals_loop env ip cb2 lcs lt))"
  using assms(2)
proof (induction lcs arbitrary: ls lt)
  case (Cons l lcs)
  obtain st ls' where 1: "HandleSpecialLocalVar env (lo_name l) (lo_value l) cb1 ls = (st, ls')" by (metis surj_pair)
  obtain st' lt' where 2: "HandleSpecialLocalVar env (lo_name l) (lo_value l) cb2 lt = (st', lt')" by (metis surj_pair)
  have L: "st' = st" "with_locals R ls' lt'"
    using special_local_sim [OF assms(1) Cons.prems, of env "lo_name l" "lo_value l"] by (simp_all add: 1 2)
  obtain u s where 3: "cb1 (lo_value l) (lo_name l) (snd ls') = (u, s)" by fastforce
  obtain u' t where 4: "cb2 (lo_value l) (lo_name l) (snd lt') = (u', t)" by fastforce
  have U: "u = S_OK" "u' = S_OK" "R s t" using kept_stepD [OF assms(1) _ 3 4] L(2) by (simp_all add: with_locals_def)
  then have new: "with_locals R (List.insert (lo_name l) (fst ls'), s) (List.insert (lo_name l) (fst lt'), t)"
    using L(2) by (simp add: with_locals_def)
  show ?case
  proof (cases "\<not> succeeded (lo_status l) \<or> ip < lo_start l \<or> ip \<ge> lo_end l \<or> lo_status l = S_FALSE")
    case True
    then show ?thesis using Cons.IH Cons.prems by auto
  next
    case False
    have "locals_loop env ip cb1 (l # lcs) ls =
        (if \<not> succeeded st then (st, ls') else if st = S_OK then locals_loop env ip cb1 lcs ls'
         else locals_loop env ip cb1 lcs (List.insert (lo_name l) (fst ls'), s))"
      using False by (simp only: locals_loop.simps 1) (cases ls', use 3 U in simp)
    moreover have "locals_loop env ip cb2 (l # lcs) lt =
        (if \<not> succeeded st then (st, lt') else if st = S_OK then locals_loop env ip cb2 lcs lt'
         else locals_loop env ip cb2 lcs (List.insert (lo_name l) (fst lt'), t))"
      using False by (simp only: locals_loop.simps 2) (cases lt', use 4 U L(1) in simp)
    ultimately show ?thesis using Cons.IH [OF L(2)] Cons.IH [OF new] L(2) by simp
  qed
qed simp

lemma WalkStackVars_sim:
  assumes "kept_by R cb1 cb2" and "R s t"
  shows "fst (WalkStackVars env ty fv cb1 s) = fst (WalkStackVars env ty fv cb2 t) \<and>
    R (snd (WalkStackVars env ty fv cb1 s)) (snd (WalkStackVars env ty fv cb2 t))"
proof -
  obtain st l s1 where 1: "params_loop env ty fv cb1 (fv_args fv) 0 ([], s) = (st, (l, s1))" by (metis prod.collapse)
  obtain st' l' t1 where 2: "params_loop env ty fv cb2 (fv_args fv) 0 ([], t) = (st', (l', t1))" by (metis prod.collapse)
  have P: "st' = st" "l' = l" "R s1 t1"
    using params_sim [OF assms(1), of "([], s)" "([], t)" env ty fv "fv_args fv" 0] assms(2)
    by (simp_all add: 1 2 with_locals_def)
  obtain u l2 s2 where 3: "locals_loop env (snd (fv_ip fv)) cb1 (fv_locals fv) (l, s1) = (u, (l2, s2))" by (metis prod.collapse)
  obtain u' l2' t2 where 4: "locals_loop env (snd (fv_ip fv)) cb2 (fv_locals fv) (l, t1) = (u', (l2', t2))" by (metis prod.collapse)
  have "u' = u" "R s2 t2"
    using locals_sim [OF assms(1), of "(l, s1)" "(l, t1)" env "snd (fv_ip fv)" "fv_locals fv"] P
    by (simp_all add: 3 4 with_locals_def)
  then show ?thesis using P assms(2) unfolding WalkStackVars_def 1 2 P(1,2) prod.case 3 4 by simp
qed

end
