(* ===== verification/Expressions.thy ===== *)
theory Expressions imports Value_Walk begin

text \<open>
  The evaluator of simple expressions (\<open>expr.cpp\<close>): splitting an expression and a type name into parts,
  generic arguments, the search for a type, and following the parts through the members of a value.
\<close>

section \<open>Splitting\<close>

text \<open>\<open>result.back() += c\<close>\<close>

definition push_char :: "char \<Rightarrow> string list \<Rightarrow> string list" where
  "push_char c r = butlast r @ [List.last r @ [c]]"

fun parse_expression_loop :: "int \<Rightarrow> string list \<Rightarrow> string \<Rightarrow> string list" where
  "parse_expression_loop paramDepth r [] = r"
| "parse_expression_loop paramDepth r (c # s) =
     (if (c = CHR ''.'' \<or> c = CHR ''['') \<and> paramDepth = 0 then parse_expression_loop paramDepth (r @ [[]]) s
      else if c = CHR ''<'' then parse_expression_loop (paramDepth + 1) (push_char c r) s
      else if c = CHR ''>'' then parse_expression_loop (paramDepth - 1) (push_char c r) s
      else if c = CHR '' '' then parse_expression_loop paramDepth r s
      else parse_expression_loop paramDepth (push_char c r) s)"

definition ParseExpression :: "string \<Rightarrow> string list" where
  "ParseExpression expression = parse_expression_loop 0 [[]] expression"

fun parse_type_loop :: "int \<Rightarrow> int list \<Rightarrow> string list \<Rightarrow> string \<Rightarrow> string list \<times> int list" where
  "parse_type_loop paramDepth ranks r [] = (r, ranks)"
| "parse_type_loop paramDepth ranks r (c # s) =
     (if c = CHR ''.'' \<and> paramDepth = 0 then parse_type_loop paramDepth ranks (r @ [[]]) s
      else if c = CHR ''['' \<and> paramDepth = 0 then parse_type_loop paramDepth (ranks @ [1]) r s
      else if c = CHR '']'' \<and> paramDepth = 0 then parse_type_loop paramDepth ranks r s
      else if c = CHR '','' \<and> paramDepth = 0
      then parse_type_loop paramDepth (if ranks = [] then [] else butlast ranks @ [List.last ranks + 1]) r s
      else if c = CHR ''<'' then parse_type_loop (paramDepth + 1) ranks (push_char c r) s
      else if c = CHR ''>'' then parse_type_loop (paramDepth - 1) ranks (push_char c r) s
      else if c = CHR '' '' then parse_type_loop paramDepth ranks r s
      else parse_type_loop paramDepth ranks (push_char c r) s)"

definition ParseType :: "string \<Rightarrow> string list \<times> int list" where
  "ParseType expression = parse_type_loop 0 [] [[]] expression"

fun generic_params_loop :: "int \<Rightarrow> bool \<Rightarrow> string list \<Rightarrow> string \<Rightarrow> string list" where
  "generic_params_loop paramDepth inArray r [] = r"
| "generic_params_loop paramDepth inArray r (c # s) =
     (if c = CHR '','' \<and> paramDepth = 1 \<and> \<not> inArray then generic_params_loop paramDepth inArray (r @ [[]]) s
      else if c = CHR ''['' then generic_params_loop paramDepth True (push_char c r) s
      else if c = CHR '']'' then generic_params_loop paramDepth False (push_char c r) s
      else if c = CHR ''<''
      then generic_params_loop (paramDepth + 1) inArray (if paramDepth + 1 = 1 then r else push_char c r) s
      else if c = CHR ''>''
      then generic_params_loop (paramDepth - 1) inArray (if paramDepth - 1 = 0 then r else push_char c r) s
      else generic_params_loop paramDepth inArray (push_char c r) s)"

text \<open>The generic arguments of a part, and the name of the type with their number.\<close>

definition ParseGenericParams :: "string \<Rightarrow> string list \<times> string" where
  "ParseGenericParams part =
     (case str_find (CHR ''<'') part of
        None \<Rightarrow> ([], part)
      | Some start \<Rightarrow>
          let result = generic_params_loop 0 False [[]] (drop start part)
          in (result, take start part @ CHR 0x60 # to_string (length result)))"

definition GatherParameters :: "string list \<Rightarrow> nat \<Rightarrow> string list" where
  "GatherParameters parts indexEnd = concat (map (\<lambda>part. fst (ParseGenericParams part)) (take indexEnd parts))"

section \<open>Types\<close>

definition mdTypeDefNil :: nat where "mdTypeDefNil = 0x02000000"

text \<open>\<open>findType\<close> is \<open>FindTypeDefByName\<close> of a module: the token of a name inside an enclosing class (nil for
  none), nil when there is none.\<close>

fun find_prefix :: "(nat \<Rightarrow> string \<Rightarrow> nat) \<Rightarrow> string list \<Rightarrow> nat \<Rightarrow> string \<Rightarrow> (nat \<times> nat) option" where
  "find_prefix findType [] i currentTypeName = None"
| "find_prefix findType (part # parts) i currentTypeName =
     (let name = currentTypeName @ (if currentTypeName = [] then [] else ''.'') @ snd (ParseGenericParams part);
          typeToken = findType mdTypeDefNil name
      in if typeToken \<noteq> mdTypeDefNil then Some (typeToken, i + 1) else find_prefix findType parts (i + 1) name)"

fun find_nested :: "(nat \<Rightarrow> string \<Rightarrow> nat) \<Rightarrow> string list \<Rightarrow> nat \<Rightarrow> nat \<Rightarrow> nat \<times> nat" where
  "find_nested findType [] typeToken nextPart = (typeToken, nextPart)"
| "find_nested findType (part # parts) typeToken nextPart =
     (let classToken = findType typeToken (snd (ParseGenericParams part))
      in if classToken = mdTypeDefNil then (typeToken, nextPart)
         else find_nested findType parts classToken (nextPart + 1))"

definition FindTypeInModule :: "(nat \<Rightarrow> string \<Rightarrow> nat) \<Rightarrow> string list \<Rightarrow> nat \<Rightarrow> (nat \<times> nat) option" where
  "FindTypeInModule findType parts nextPart =
     (case find_prefix findType (drop nextPart parts) nextPart [] of
        None \<Rightarrow> None
      | Some (typeToken, next) \<Rightarrow> Some (find_nested findType (drop next parts) typeToken next))"

text \<open>The loaded modules: their searches (None when the metadata cannot be reached), and what the runtime makes
  of a class token with generic arguments.\<close>

record type_answers =
  ta_find :: "(nat \<Rightarrow> string \<Rightarrow> nat) option"
  ta_type :: "nat \<Rightarrow> string list \<Rightarrow> hresult \<times> nat"

fun find_in_modules :: "type_answers list \<Rightarrow> string list \<Rightarrow> nat \<Rightarrow> (type_answers \<times> nat \<times> nat) option" where
  "find_in_modules [] parts nextPart = None"
| "find_in_modules (m # ms) parts nextPart =
     (case (case ta_find m of None \<Rightarrow> None | Some findType \<Rightarrow> FindTypeInModule findType parts nextPart) of
        Some (typeToken, next) \<Rightarrow> Some (m, typeToken, next)
      | None \<Rightarrow> find_in_modules ms parts nextPart)"

text \<open>\<open>FindType\<close> in all the modules, or in the one given; it gives the type, the next part and the module.\<close>

definition FindType :: "type_answers list \<Rightarrow> string list \<Rightarrow> nat \<Rightarrow> hresult \<times> (nat \<times> nat \<times> type_answers) option" where
  "FindType ms parts nextPart =
     (case find_in_modules ms parts nextPart of
        None \<Rightarrow> (E_FAIL, None)
      | Some (m, typeToken, next) \<Rightarrow>
          (case ta_type m typeToken (GatherParameters parts next) of
             (status, ty) \<Rightarrow> if \<not> succeeded status then (status, None) else (S_OK, Some (ty, next, m))))"

section \<open>Members\<close>

datatype value_kind = ValueIsScope | ValueIsClass | ValueIsVariable

text \<open>\<open>getter\<close> evaluates the getter of a property for an object, None for no value.\<close>

definition member_lookup :: "(member \<Rightarrow> val option) \<Rightarrow> value_kind \<Rightarrow> string \<Rightarrow> val option member_callback" where
  "member_lookup getter valueKind name m pResult =
     (S_OK,
      if me_static m \<and> valueKind = ValueIsVariable then pResult
      else if \<not> me_static m \<and> valueKind = ValueIsClass then pResult
      else if pResult \<noteq> None then pResult
      else if me_name m \<noteq> name then pResult
      else if me_getter m \<noteq> mdMethodDefNil then getter m
      else me_value m)"

definition GetFieldOrPropertyWithName ::
  "(val \<Rightarrow> value_answer) \<Rightarrow> (val \<Rightarrow> member \<Rightarrow> val option) \<Rightarrow> val \<Rightarrow> value_kind \<Rightarrow> string \<Rightarrow> hresult \<times> val option" where
  "GetFieldOrPropertyWithName env getter v valueKind name =
     (if name = [] then (E_FAIL, None)
      else if List.last name = CHR '']'' then
        (let a = env v in
         if valueKind = ValueIsClass then (E_FAIL, None)
         else if \<not> succeeded (va_deref a) then (va_deref a, None)
         else if va_null a then (E_FAIL, None)
         else (case va_array a of
                 None \<Rightarrow> (E_FAIL, None)
               | Some ar \<Rightarrow>
                   if \<not> succeeded (fst (ar_rank ar)) then (fst (ar_rank ar), None)
                   else (case ParseIndices name of
                           None \<Rightarrow> (E_FAIL, None)
                         | Some indices \<Rightarrow>
                             if length indices \<noteq> snd (ar_rank ar) then (E_FAIL, None) else ar_get ar indices)))
      else (case WalkMembers (env v) True True (member_lookup (getter v) valueKind name) None of
              (status, pResult) \<Rightarrow>
                if \<not> succeeded status then (status, None)
                else (case pResult of None \<Rightarrow> (E_FAIL, None) | Some r \<Rightarrow> (S_OK, Some r))))"

fun follow_loop ::
  "(val \<Rightarrow> value_answer) \<Rightarrow> (val \<Rightarrow> member \<Rightarrow> val option) \<Rightarrow> value_kind \<Rightarrow> val option \<Rightarrow> string list \<Rightarrow> hresult \<times> val option" where
  "follow_loop env getter valueKind v [] = (S_OK, v)"
| "follow_loop env getter valueKind v (part # parts) =
     (case v of
        None \<Rightarrow> (E_FAIL, None)
      | Some x \<Rightarrow>
          (case GetFieldOrPropertyWithName env getter x valueKind part of
             (status, r) \<Rightarrow> if \<not> succeeded status then (status, None)
                            else follow_loop env getter ValueIsVariable r parts))"

definition FollowFields ::
  "(val \<Rightarrow> value_answer) \<Rightarrow> (val \<Rightarrow> member \<Rightarrow> val option) \<Rightarrow> val \<Rightarrow> value_kind \<Rightarrow> string list \<Rightarrow> nat \<Rightarrow> hresult \<times> val option" where
  "FollowFields env getter v valueKind parts nextPart =
     (if nextPart \<ge> length parts then (E_FAIL, None)
      else follow_loop env getter valueKind (Some v) (drop nextPart parts))"

section \<open>Expressions\<close>

text \<open>Everything an evaluation asks for: the values and their getters, the modules, an object without
  constructor of a type, the current exception, the frame, printed types, and the class of the method.\<close>

record eval_answers =
  ea_env :: "val option \<Rightarrow> value_answer"
  ea_getter :: "val \<Rightarrow> member \<Rightarrow> val option"
  ea_modules :: "type_answers list"
  ea_object :: "nat \<Rightarrow> hresult \<times> val"
  ea_exception :: "val option"
  ea_il_frame :: hresult
  ea_frame :: frame_answer
  ea_type_name :: "val option \<Rightarrow> string"
  ea_method_class :: string

text \<open>The loop of \<open>FollowNested\<close> looks for the parts in the class, then in the classes around it.\<close>

fun nested_loop :: "eval_answers \<Rightarrow> type_answers \<Rightarrow> string list \<Rightarrow> nat \<Rightarrow> string list \<Rightarrow> hresult \<times> val option" where
  "nested_loop ea m parts 0 classParts = (E_FAIL, None)"
| "nested_loop ea m parts (Suc n) classParts =
     (case FindType [m] classParts 0 of
        (status, Some (ty, _, _)) \<Rightarrow>
          (case ea_object ea ty of
             (status, v) \<Rightarrow>
               if \<not> succeeded status then (status, None)
               else (case FollowFields (\<lambda>v. ea_env ea (Some v)) (ea_getter ea) v ValueIsClass parts 0 of
                       (status, r) \<Rightarrow> if succeeded status then (S_OK, r)
                                      else nested_loop ea m parts n (butlast classParts)))
      | (status, None) \<Rightarrow> (E_FAIL, None))"

definition FollowNested :: "eval_answers \<Rightarrow> string list \<Rightarrow> hresult \<times> val option" where
  "FollowNested ea parts =
     (let classParts = fst (ParseType (ea_method_class ea)) in
      case FindType (ea_modules ea) classParts 0 of
        (status, None) \<Rightarrow> (status, None)
      | (status, Some (_, _, m)) \<Rightarrow> nested_loop ea m parts (length classParts) classParts)"

text \<open>The first variable with the name of the first part, and \<open>this\<close>.\<close>

definition variable_lookup :: "string \<Rightarrow> (val option \<times> val option) var_callback" where
  "variable_lookup part v name rt =
     (S_OK,
      case rt of (pResultValue, pThisValue) \<Rightarrow>
        if pResultValue \<noteq> None then (pResultValue, pThisValue)
        else ((if name = part then v else None), (if name = ''this'' \<and> v \<noteq> None then v else pThisValue)))"

definition first_value :: "eval_answers \<Rightarrow> string \<Rightarrow> hresult \<times> val option \<times> val option" where
  "first_value ea part =
     (if part = ''$exception'' then (S_OK, (ea_exception ea, None))
      else WalkStackVars (ea_env ea) (ea_type_name ea) (ea_frame ea) (variable_lookup part) (None, None))"

definition EvalExpr :: "eval_answers \<Rightarrow> string \<Rightarrow> hresult \<times> val option" where
  "EvalExpr ea expression =
     (let parts = ParseExpression expression;
          follow = FollowFields (\<lambda>v. ea_env ea (Some v)) (ea_getter ea)
      in if \<not> succeeded (ea_il_frame ea) then (ea_il_frame ea, None)
         else (case first_value ea (parts ! 0) of
           (status, (Some v, _)) \<Rightarrow>
             if \<not> succeeded status then (status, None)
             else if length parts = 1 then (S_OK, Some v)
             else (case follow v ValueIsVariable parts 1 of
                     (status, r) \<Rightarrow> if \<not> succeeded status then (status, None) else (S_OK, r))
         | (status, (None, pThisValue)) \<Rightarrow>
             if \<not> succeeded status then (status, None)
             else (case (case pThisValue of None \<Rightarrow> (E_FAIL, None) | Some t \<Rightarrow> follow t ValueIsVariable parts 0) of
               (status, r) \<Rightarrow>
                 if succeeded status then (S_OK, r)
                 else (case FollowNested ea parts of
                   (status, r) \<Rightarrow>
                     if succeeded status then (S_OK, r)
                     else (case FindType (ea_modules ea) parts 0 of
                       (status, None) \<Rightarrow> (status, None)
                     | (status, Some (ty, nextPart, _)) \<Rightarrow>
                         (case ea_object ea ty of
                            (status, v) \<Rightarrow>
                              if \<not> succeeded status then (status, None)
                              else (case follow v ValueIsClass parts nextPart of
                                      (status, r) \<Rightarrow> if \<not> succeeded status then (status, None) else (S_OK, r))))))))"

section \<open>Facts: splitting\<close>

text \<open>The depth of angle brackets at the end of a text.\<close>

definition depth :: "string \<Rightarrow> int" where
  "depth s = int (count_list s (CHR ''<'')) - int (count_list s (CHR ''>''))"

lemma depth_simps [simp]:
  "depth [] = 0"
  "depth (c # s) = (if c = CHR ''<'' then 1 else if c = CHR ''>'' then - 1 else 0) + depth s"
  by (simp_all add: depth_def)

lemma parse_expression_append:
  "parse_expression_loop d r (s @ t) = parse_expression_loop (d + depth s) (parse_expression_loop d r s) t"
  by (induction d r s rule: parse_expression_loop.induct) (auto simp: algebra_simps)

text \<open>A name without the characters that the splitting looks at.\<close>

definition plain_name :: "string \<Rightarrow> bool" where
  "plain_name n \<longleftrightarrow> n \<noteq> [] \<and> set n \<inter> {CHR ''.'', CHR ''['', CHR '']'', CHR ''<'', CHR ''>'', CHR '','', CHR '' ''} = {}"

lemma push_char_snoc [simp]: "push_char c (r @ [x]) = r @ [x @ [c]]"
  by (simp add: push_char_def)

lemma parse_plain: "set n \<inter> {CHR ''.'', CHR ''['', CHR ''<'', CHR ''>'', CHR '' ''} = {} \<Longrightarrow>
    parse_expression_loop d (r @ [x]) n = r @ [x @ n]"
  by (induction n arbitrary: x) auto

lemma ParseExpression_child:
  "depth e = 0 \<Longrightarrow> plain_name n \<Longrightarrow> ParseExpression (e @ CHR ''.'' # n) = ParseExpression e @ [n]"
  using parse_plain [of n 0 "ParseExpression e" "[]"]
  by (auto simp: ParseExpression_def parse_expression_append plain_name_def)

lemma parse_expression_nonempty: "r \<noteq> [] \<Longrightarrow> parse_expression_loop d r s \<noteq> []"
  by (induction d r s rule: parse_expression_loop.induct) (auto simp: push_char_def)

lemma ParseExpression_nonempty: "ParseExpression e \<noteq> []"
  by (simp add: ParseExpression_def parse_expression_nonempty)

section \<open>Facts: generic arguments\<close>

text \<open>A type with generic arguments, and its text.\<close>

datatype generic_type = Generic_Type string "generic_type list"

fun comma_list :: "string list \<Rightarrow> string" where
  "comma_list [] = []"
| "comma_list [t] = t"
| "comma_list (t # ts) = t @ CHR '','' # comma_list ts"

fun type_text :: "generic_type \<Rightarrow> string" where
  "type_text (Generic_Type n args) =
     n @ (if args = [] then [] else CHR ''<'' # comma_list (map type_text args) @ ''>'')"

fun plain_type :: "generic_type \<Rightarrow> bool" where
  "plain_type (Generic_Type n args) = (plain_name n \<and> (\<forall>t \<in> set args. plain_type t))"

lemma generic_params_plain:
  "set n \<inter> {CHR ''['', CHR '']'', CHR ''<'', CHR ''>'', CHR '',''} = {} \<Longrightarrow>
     generic_params_loop d a (r @ [x]) (n @ s) = generic_params_loop d a (r @ [x @ n]) s"
  by (induction n arbitrary: x) auto

text \<open>Inside other arguments a type is copied as it is.\<close>

definition copied :: "string \<Rightarrow> bool" where
  "copied t \<longleftrightarrow> (\<forall>d r x s. 1 \<le> d \<longrightarrow> generic_params_loop d False (r @ [x]) (t @ s) = generic_params_loop d False (r @ [x @ t]) s)"

lemma copiedD:
  "copied t \<Longrightarrow> 1 \<le> d \<Longrightarrow> generic_params_loop d False (r @ [x]) (t @ s) = generic_params_loop d False (r @ [x @ t]) s"
  by (simp add: copied_def)

lemma commas_inner:
  "\<forall>t \<in> set ts. copied t \<Longrightarrow> 2 \<le> d \<Longrightarrow>
     generic_params_loop d False (r @ [x]) (comma_list ts @ s) = generic_params_loop d False (r @ [x @ comma_list ts]) s"
proof (induction ts arbitrary: x rule: comma_list.induct)
  case (3 t u ts)
  have "generic_params_loop d False (r @ [x]) (t @ CHR '','' # comma_list (u # ts) @ s) =
      generic_params_loop d False (r @ [x @ t]) (CHR '','' # comma_list (u # ts) @ s)"
    using 3 by (intro copiedD) simp_all
  then show ?case using 3 by simp
qed (simp_all add: copiedD)

lemma commas_outer:
  "\<forall>t \<in> set ts. copied t \<Longrightarrow> ts \<noteq> [] \<Longrightarrow>
     generic_params_loop 1 False (r @ [[]]) (comma_list ts @ s) = generic_params_loop 1 False (r @ ts) s"
proof (induction ts arbitrary: r rule: comma_list.induct)
  case (3 t u ts)
  have "generic_params_loop 1 False (r @ [[]]) (t @ CHR '','' # comma_list (u # ts) @ s) =
      generic_params_loop 1 False (r @ [t]) (CHR '','' # comma_list (u # ts) @ s)"
    using 3 copiedD [of t 1 r "[]"] by simp
  then show ?case using 3 by (simp add: "3.IH" [of "r @ [t]", simplified])
next
  case (2 t)
  then show ?case using copiedD [of t 1 r "[]"] by simp
qed simp

lemma type_text_copied: "plain_type g \<Longrightarrow> copied (type_text g)"
proof (induction g rule: type_text.induct)
  case (1 n args)
  have n: "generic_params_loop d False (r @ [x]) (n @ t) = generic_params_loop d False (r @ [x @ n]) t" for d r x t
    using "1.prems" by (intro generic_params_plain) (auto simp: plain_name_def)
  have "copied (type_text t)" if "t \<in> set args" for t
    using that "1.prems" by (intro "1.IH") auto
  then have args: "\<forall>t \<in> set (map type_text args). copied t" by simp
  show ?case
    by (auto simp: copied_def n commas_inner [OF args])
qed

lemma ParseGenericParams_text:
  assumes "plain_type (Generic_Type n args)"
  shows "ParseGenericParams (type_text (Generic_Type n args)) =
    (map type_text args, if args = [] then n else n @ CHR 0x60 # to_string (length args))"
proof -
  have n: "CHR ''<'' \<notin> set n" using assms by (auto simp: plain_name_def)
  show ?thesis
  proof (cases "args = []")
    case True
    then have "str_find (CHR ''<'') n = None" using n by (simp add: str_find_None_iff)
    then show ?thesis using True by (simp add: ParseGenericParams_def)
  next
    case False
    have args: "\<forall>t \<in> set (map type_text args). copied t" using assms type_text_copied by auto
    have "generic_params_loop 0 False [[]] (CHR ''<'' # comma_list (map type_text args) @ ''>'') = map type_text args"
      using commas_outer [OF args, of "[]" "''>''"] False by simp
    then show ?thesis using False n by (simp add: ParseGenericParams_def str_find_append_notin)
  qed
qed

section \<open>Facts: members\<close>

fun first_some :: "'a option list \<Rightarrow> 'a option" where
  "first_some [] = None"
| "first_some (x # xs) = (case x of None \<Rightarrow> first_some xs | Some y \<Rightarrow> Some y)"

text \<open>The members of a kind with a name, and the value of a member.\<close>

definition named_members :: "value_kind \<Rightarrow> string \<Rightarrow> member list \<Rightarrow> member list" where
  "named_members valueKind name ms =
     filter (\<lambda>m. me_name m = name \<and> \<not> (me_static m \<and> valueKind = ValueIsVariable) \<and>
                 \<not> (\<not> me_static m \<and> valueKind = ValueIsClass)) ms"

definition member_value :: "(member \<Rightarrow> val option) \<Rightarrow> member \<Rightarrow> val option" where
  "member_value getter m = (if me_getter m \<noteq> mdMethodDefNil then getter m else me_value m)"

lemma visit_lookup:
  "visit (member_lookup getter kind name) ms final r =
     (final, case r of Some x \<Rightarrow> Some x | None \<Rightarrow> first_some (map (member_value getter) (named_members kind name ms)))"
  by (induction ms arbitrary: r)
    (auto simp: member_lookup_def named_members_def member_value_def split: option.split)

lemma plain_lookup: "plain_callback (member_lookup getter kind name)"
  by (simp add: plain_callback_def member_lookup_def)

lemma follow_append:
  "follow_loop env getter ValueIsVariable v (parts @ [p]) =
     (case follow_loop env getter ValueIsVariable v parts of
        (status, r) \<Rightarrow>
          if \<not> succeeded status then (status, None)
          else (case r of None \<Rightarrow> (E_FAIL, None)
                | Some x \<Rightarrow> (case GetFieldOrPropertyWithName env getter x ValueIsVariable p of
                               (status, r) \<Rightarrow> if \<not> succeeded status then (status, None) else (S_OK, r))))"
proof (induction env getter "ValueIsVariable" v parts rule: follow_loop.induct)
  case (2 env getter v part parts)
  then show ?case by (cases v) (auto split: prod.split)
qed (simp split: option.split prod.split)

lemma follow_ok: "follow_loop env getter kind v parts = (status, r) \<Longrightarrow> succeeded status \<Longrightarrow> status = S_OK"
  by (induction env getter kind v parts rule: follow_loop.induct) (auto split: option.splits prod.splits if_splits)

section \<open>Properties\<close>

text \<open>Generic arguments are read back from the text of a type, at every depth of nesting: the arguments of
  the outermost list, and the name with their number.\<close>

theorem generic_params_roundtrip:
  assumes "plain_type (Generic_Type n args)" and "args \<noteq> []"
  shows "ParseGenericParams (type_text (Generic_Type n args)) = (map type_text args, n @ CHR 0x60 # to_string (length args))"
  using ParseGenericParams_text [OF assms(1)] assms(2) by simp

theorem generic_params_roundtrip_witness:
  "ParseGenericParams ''Map<Key,List<Map<A,B>>>'' = ([''Key'', ''List<Map<A,B>>''], ''Map'' @ CHR 0x60 # ''2'')"
  using generic_params_roundtrip [of "''Map''" "[Generic_Type ''Key'' [], Generic_Type ''List''
      [Generic_Type ''Map'' [Generic_Type ''A'' [], Generic_Type ''B'' []]]]"]
  by (simp add: plain_name_def to_string.simps digit_char_numerals flip: numeral_2_eq_2)

text \<open>A member is found by name as the first one, in the order of the walk, that has the name, the wanted kind
  and a value: a member of a class hides those of its bases.\<close>

theorem member_lookup_first:
  assumes "name \<noteq> []" and "List.last name \<noteq> CHR '']''"
  shows "GetFieldOrPropertyWithName env getter v valueKind name =
    (case listing (env v) True True of
       (ms, final) \<Rightarrow>
         if \<not> succeeded final then (final, None)
         else (case first_some (map (member_value (getter v)) (named_members valueKind name ms)) of
                 None \<Rightarrow> (E_FAIL, None) | Some r \<Rightarrow> (S_OK, Some r)))"
  using assms
  by (simp add: GetFieldOrPropertyWithName_def WalkMembers_visit [OF plain_lookup] visit_lookup split: prod.split)

definition two_members :: value_answer where
  "two_members = \<lparr>va_deref = S_OK, va_null = False, va_target = Some 1, va_pointer = (S_OK, False), va_array = None,
     va_value2 = S_OK,
     va_exact = (S_OK, Type_Info \<lparr>tn_elem = (S_OK, False), tn_open = S_OK, tn_name = ''C'',
       tn_fields = [\<lparr>fa_props = True, fa_name = ''x'', fa_static = False, fa_literal = False,
                     fa_literal_value = (\<lambda>_. (S_FALSE, None)), fa_static_value = None, fa_value = Some 7\<rparr>],
       tn_props = []\<rparr> (Some (''B'', Type_Info \<lparr>tn_elem = (S_OK, False), tn_open = S_OK, tn_name = ''B'',
         tn_fields = [\<lparr>fa_props = True, fa_name = ''x'', fa_static = False, fa_literal = False,
                     fa_literal_value = (\<lambda>_. (S_FALSE, None)), fa_static_value = None, fa_value = Some 8\<rparr>],
         tn_props = []\<rparr> None)))\<rparr>"

lemma two_members_listing:
  "listing two_members True True =
     ([\<lparr>me_getter = mdMethodDefNil, me_type = Some ''C'', me_value = Some 7, me_static = False, me_name = ''x''\<rparr>,
       \<lparr>me_getter = mdMethodDefNil, me_type = Some ''B'', me_value = Some 8, me_static = False, me_name = ''x''\<rparr>], S_OK)"
  by (simp add: listing_def value_listing_def two_members_def field_value_def generated_def prop_members_def Let_def)

theorem member_lookup_first_witness:
  "GetFieldOrPropertyWithName (\<lambda>_. two_members) (\<lambda>_ _. None) 1 ValueIsVariable ''x'' = (S_OK, Some 7)"
  using member_lookup_first [of "''x''" "\<lambda>_. two_members" "\<lambda>_ _. None" 1 ValueIsVariable]
  by (simp add: two_members_listing named_members_def member_value_def)

text \<open>An expression that starts at a variable of the frame extends to its members: when it evaluates to a
  value, the expression with a name added evaluates to the member of that value with that name.\<close>

theorem member_expression:
  assumes "depth e = 0" and "plain_name name"
    and "first_value ea (ParseExpression e ! 0) = (S_OK, (Some v0, this))" and "EvalExpr ea e = (S_OK, Some v)"
  shows "EvalExpr ea (e @ CHR ''.'' # name) =
    (case GetFieldOrPropertyWithName (\<lambda>v. ea_env ea (Some v)) (ea_getter ea) v ValueIsVariable name of
       (status, r) \<Rightarrow> if \<not> succeeded status then (status, None) else (S_OK, r))"
proof -
  let ?parts = "ParseExpression e"
  let ?follow = "follow_loop (\<lambda>v. ea_env ea (Some v)) (ea_getter ea) ValueIsVariable"
  obtain p ps where parts: "?parts = p # ps" using ParseExpression_nonempty [of e] by (cases ?parts) auto
  have new: "ParseExpression (e @ CHR ''.'' # name) = p # ps @ [name]"
    using ParseExpression_child [OF assms(1,2)] by (simp add: parts)
  have first: "first_value ea p = (S_OK, (Some v0, this))" using assms(3) by (simp add: parts)
  have il: "succeeded (ea_il_frame ea)" using assms(4) by (auto simp: EvalExpr_def Let_def split: if_splits)
  have "?follow (Some v0) ps = (S_OK, Some v)"
    using assms(4) first il
    by (auto simp: EvalExpr_def Let_def parts FollowFields_def split: if_splits prod.splits dest: follow_ok)
  then show ?thesis
    using first il by (simp add: EvalExpr_def Let_def new FollowFields_def follow_append split: prod.split)
qed

definition demo_eval :: eval_answers where
  "demo_eval =
     \<lparr>ea_env = (\<lambda>_. two_members), ea_getter = (\<lambda>_ _. None), ea_modules = [], ea_object = (\<lambda>_. (E_FAIL, 0)),
      ea_exception = None, ea_il_frame = S_OK,
      ea_frame = \<lparr>fv_il = S_OK, fv_open = S_OK, fv_static = (S_OK, True), fv_args = [], fv_param_name = (\<lambda>_. None), fv_ip = (S_OK, 0),
        fv_enum_locals = S_OK,
        fv_locals = [\<lparr>lo_status = S_OK, lo_name = ''a'', lo_value = Some 1, lo_start = 0, lo_end = 9\<rparr>]\<rparr>,
      ea_type_name = (\<lambda>_. []), ea_method_class = ''C''\<rparr>"

theorem member_expression_witness: "EvalExpr demo_eval ''a.x'' = (S_OK, Some 7)"
proof -
  have parts: "ParseExpression ''a'' = [''a'']" by (simp add: ParseExpression_def push_char_def)
  have first: "first_value demo_eval ''a'' = (S_OK, (Some 1, None))"
    by (simp add: first_value_def demo_eval_def WalkStackVars_def HandleSpecialLocalVar_def has_prefix_def variable_lookup_def)
  have a: "EvalExpr demo_eval ''a'' = (S_OK, Some 1)"
    using first by (simp add: EvalExpr_def parts) (simp add: demo_eval_def)
  have x: "GetFieldOrPropertyWithName (\<lambda>v. ea_env demo_eval (Some v)) (ea_getter demo_eval) 1 ValueIsVariable ''x'' =
      (S_OK, Some 7)"
    by (simp add: GetFieldOrPropertyWithName_def WalkMembers_visit [OF plain_lookup] visit_lookup demo_eval_def
        two_members_listing named_members_def member_value_def)
  from member_expression [of "''a''" "''x''" demo_eval 1 None 1] first a x show ?thesis
    by (simp add: parts plain_name_def)
qed

end
