(* ===== verification/Cor_Types.thy ===== *)
theory Cor_Types imports Prelude begin

text \<open>
  The element types of the runtime (\<open>CorElementType\<close>, \<open>corhdr.h\<close>), with their numbers, and the little-endian
  numbers in the buffers that the debugger copies out of the debuggee.
\<close>

section \<open>Element types\<close>

datatype cor_element =
    ELEMENT_TYPE_END | ELEMENT_TYPE_VOID | ELEMENT_TYPE_BOOLEAN | ELEMENT_TYPE_CHAR | ELEMENT_TYPE_I1 | ELEMENT_TYPE_U1
  | ELEMENT_TYPE_I2 | ELEMENT_TYPE_U2 | ELEMENT_TYPE_I4 | ELEMENT_TYPE_U4 | ELEMENT_TYPE_I8 | ELEMENT_TYPE_U8
  | ELEMENT_TYPE_R4 | ELEMENT_TYPE_R8 | ELEMENT_TYPE_STRING | ELEMENT_TYPE_PTR | ELEMENT_TYPE_BYREF
  | ELEMENT_TYPE_VALUETYPE | ELEMENT_TYPE_CLASS | ELEMENT_TYPE_VAR | ELEMENT_TYPE_ARRAY | ELEMENT_TYPE_GENERICINST
  | ELEMENT_TYPE_TYPEDBYREF | ELEMENT_TYPE_I | ELEMENT_TYPE_U | ELEMENT_TYPE_FNPTR | ELEMENT_TYPE_OBJECT
  | ELEMENT_TYPE_SZARRAY | ELEMENT_TYPE_MVAR | ELEMENT_TYPE_CMOD_REQD | ELEMENT_TYPE_CMOD_OPT | ELEMENT_TYPE_INTERNAL
  | ELEMENT_TYPE_MAX | ELEMENT_TYPE_MODIFIER | ELEMENT_TYPE_SENTINEL | ELEMENT_TYPE_PINNED

fun element_code :: "cor_element \<Rightarrow> nat" where
  "element_code ELEMENT_TYPE_END = 0x00"
| "element_code ELEMENT_TYPE_VOID = 0x01"
| "element_code ELEMENT_TYPE_BOOLEAN = 0x02"
| "element_code ELEMENT_TYPE_CHAR = 0x03"
| "element_code ELEMENT_TYPE_I1 = 0x04"
| "element_code ELEMENT_TYPE_U1 = 0x05"
| "element_code ELEMENT_TYPE_I2 = 0x06"
| "element_code ELEMENT_TYPE_U2 = 0x07"
| "element_code ELEMENT_TYPE_I4 = 0x08"
| "element_code ELEMENT_TYPE_U4 = 0x09"
| "element_code ELEMENT_TYPE_I8 = 0x0a"
| "element_code ELEMENT_TYPE_U8 = 0x0b"
| "element_code ELEMENT_TYPE_R4 = 0x0c"
| "element_code ELEMENT_TYPE_R8 = 0x0d"
| "element_code ELEMENT_TYPE_STRING = 0x0e"
| "element_code ELEMENT_TYPE_PTR = 0x0f"
| "element_code ELEMENT_TYPE_BYREF = 0x10"
| "element_code ELEMENT_TYPE_VALUETYPE = 0x11"
| "element_code ELEMENT_TYPE_CLASS = 0x12"
| "element_code ELEMENT_TYPE_VAR = 0x13"
| "element_code ELEMENT_TYPE_ARRAY = 0x14"
| "element_code ELEMENT_TYPE_GENERICINST = 0x15"
| "element_code ELEMENT_TYPE_TYPEDBYREF = 0x16"
| "element_code ELEMENT_TYPE_I = 0x18"
| "element_code ELEMENT_TYPE_U = 0x19"
| "element_code ELEMENT_TYPE_FNPTR = 0x1b"
| "element_code ELEMENT_TYPE_OBJECT = 0x1c"
| "element_code ELEMENT_TYPE_SZARRAY = 0x1d"
| "element_code ELEMENT_TYPE_MVAR = 0x1e"
| "element_code ELEMENT_TYPE_CMOD_REQD = 0x1f"
| "element_code ELEMENT_TYPE_CMOD_OPT = 0x20"
| "element_code ELEMENT_TYPE_INTERNAL = 0x21"
| "element_code ELEMENT_TYPE_MAX = 0x22"
| "element_code ELEMENT_TYPE_MODIFIER = 0x40"
| "element_code ELEMENT_TYPE_SENTINEL = 0x41"
| "element_code ELEMENT_TYPE_PINNED = 0x45"

text \<open>The further results that the printers of values return.\<close>

definition E_UNEXPECTED :: hresult where "E_UNEXPECTED = HR_Other 0x8000FFFF"
definition E_NOINTERFACE :: hresult where "E_NOINTERFACE = HR_Other 0x80004002"

lemma failed_constants [simp]: "\<not> succeeded E_UNEXPECTED" "\<not> succeeded E_NOINTERFACE"
  by (simp_all add: E_UNEXPECTED_def E_NOINTERFACE_def)

end
