(* ===== verification/Variables.thy ===== *)
theory Variables imports Expressions Cor_Types begin

text \<open>
  The variables shown to the front end (\<open>class Variables\<close>, \<open>variables.cpp\<close>; \<open>WriteValue\<close>,
  \<open>valuewrite.cpp\<close>): the table of references, scopes, stack variables, children in pages, and setting a
  value.  Printing a value, the evaluation of a getter and the compiler service are answers.
\<close>

section \<open>State\<close>

datatype variables_filter = VariablesNamed | VariablesIndexed | VariablesBoth

record scope =
  sc_name :: string
  sc_variablesReference :: nat
  sc_namedVariables :: int

record variable_reference =
  vr_namedVariables :: int
  vr_evaluateName :: string
  vr_valueKind :: value_kind
  vr_value :: "val option"
  vr_frameId :: u64

record variables_state =
  vs_variables :: "(u32, variable_reference) umap"
  vs_next :: u32

definition init_variables :: variables_state where
  "init_variables = \<lparr>vs_variables = [], vs_next = 1\<rparr>"

definition Clear_variables :: "variables_state \<Rightarrow> variables_state" where
  "Clear_variables st = st\<lparr>vs_variables := [], vs_next := 1\<rparr>"

definition IsScope :: "variable_reference \<Rightarrow> bool" where
  "IsScope r = (vr_valueKind r = ValueIsScope)"

text \<open>What the runtime answers: values, getters, printed values and types; for a thread (None: no such thread)
  the current exception, the name of the module of its active frame, and the frame at a level: the
  result of \<open>GetFrameAt\<close> and, unless the frame is null, its variables.\<close>

record thread_view =
  tv_exception :: "val option"
  tv_module :: "hresult \<times> string"
  tv_frame :: "u32 \<Rightarrow> hresult \<times> frame_answer option"

record var_answers =
  vn_env :: "val option \<Rightarrow> value_answer"
  vn_getter :: "val \<Rightarrow> member \<Rightarrow> val option"
  vn_print :: "val option \<Rightarrow> string"
  vn_type :: "val option \<Rightarrow> string"
  vn_thread :: "u32 \<Rightarrow> thread_view option"

text \<open>A call through a null pointer.\<close>

datatype var_fault = Null_Frame | Null_Value

definition empty_variable :: variable where
  "empty_variable = \<lparr>v_name = [], v_value = [], v_type = [], v_evaluateName = [], v_variablesReference = 0, v_namedVariables = 0\<rparr>"

section \<open>References\<close>

definition count_members :: "member \<Rightarrow> u32 \<times> u32 \<Rightarrow> hresult \<times> u32 \<times> u32" where
  "count_members m c = (S_OK, if me_static m then (fst c + 1, snd c) else (fst c, snd c + 1))"

definition GetNumChild :: "var_answers \<Rightarrow> val option \<Rightarrow> bool \<Rightarrow> hresult \<times> u32" where
  "GetNumChild va v static_members =
     (if v = None then (S_OK, 0)
      else (case WalkMembers (vn_env va v) False False count_members (0, 0) of
              (status, (numstatic, numinstance)) \<Rightarrow>
                if \<not> succeeded status then (status, 0)
                else (S_OK, if static_members then numstatic
                            else if numstatic > 0 then numinstance + 1 else numinstance)))"

definition AddVariableReference ::
  "var_answers \<Rightarrow> variable \<Rightarrow> u64 \<Rightarrow> val option \<Rightarrow> value_kind \<Rightarrow> variables_state \<Rightarrow> variable \<times> variables_state" where
  "AddVariableReference va var frameId v kind st =
     (let numChild = snd (GetNumChild va v (kind = ValueIsClass)) in
      if numChild = 0 then (var, st)
      else
        let var' = var\<lparr>v_namedVariables := to_s32 (unat numChild), v_variablesReference := unat (vs_next st)\<rparr>
        in (var', st\<lparr>vs_next := vs_next st + 1,
                     vs_variables := um_emplace (vs_next st)
                       \<lparr>vr_namedVariables = v_namedVariables var', vr_evaluateName = v_evaluateName var',
                        vr_valueKind = kind, vr_value = v, vr_frameId = frameId\<rparr> (vs_variables st)\<rparr>))"

definition GetNamedVariables :: "u32 \<Rightarrow> variables_state \<Rightarrow> int" where
  "GetNamedVariables ref st = (case um_find (vs_variables st) ref of None \<Rightarrow> 0 | Some r \<Rightarrow> vr_namedVariables r)"

section \<open>Members\<close>

record fetched_member =
  fm_name :: string
  fm_ownerType :: string
  fm_value :: "val option"

text \<open>The state of the callback: the current index, the members, and whether there are static ones.\<close>

definition fetch_member ::
  "(member \<Rightarrow> val option) \<Rightarrow> bool \<Rightarrow> int \<Rightarrow> int \<Rightarrow> (int \<times> fetched_member list \<times> bool) member_callback" where
  "fetch_member getter fetchOnlyStatic childStart childEnd m s =
     (S_OK,
      case s of (currentIndex, members, hasStatic) \<Rightarrow>
        let hasStatic' = (hasStatic \<or> me_static m) in
        if \<not> (if fetchOnlyStatic then me_static m else \<not> me_static m) then (currentIndex, members, hasStatic')
        else if currentIndex + 1 < childStart \<or> currentIndex + 1 \<ge> childEnd then (currentIndex + 1, members, hasStatic')
        else (currentIndex + 1,
              members @ [\<lparr>fm_name = me_name m, fm_ownerType = (case me_type m of None \<Rightarrow> [] | Some t \<Rightarrow> t),
                          fm_value = (if me_getter m \<noteq> mdMethodDefNil then getter m else me_value m)\<rparr>],
              hasStatic'))"

definition FetchFieldsAndProperties ::
  "var_answers \<Rightarrow> val \<Rightarrow> bool \<Rightarrow> bool \<Rightarrow> int \<Rightarrow> int \<Rightarrow> hresult \<times> fetched_member list \<times> bool" where
  "FetchFieldsAndProperties va v frame fetchOnlyStatic childStart childEnd =
     (case WalkMembers (vn_env va (Some v)) True frame (fetch_member (vn_getter va v) fetchOnlyStatic childStart childEnd)
             (- 1, [], False) of
        (status, (_, members, hasStatic)) \<Rightarrow> (if succeeded status then S_OK else status, members, hasStatic))"

fun fixup_loop :: "string list \<Rightarrow> fetched_member list \<Rightarrow> fetched_member list" where
  "fixup_loop names [] = []"
| "fixup_loop names (m # ms) =
     (if fm_name m \<in> set names then m\<lparr>fm_name := fm_name m @ '' ('' @ fm_ownerType m @ '')''\<rparr> # fixup_loop names ms
      else m # fixup_loop (fm_name m # names) ms)"

definition FixupInheritedFieldNames :: "fetched_member list \<Rightarrow> fetched_member list" where
  "FixupInheritedFieldNames members = fixup_loop [] members"

definition FillValueAndType :: "var_answers \<Rightarrow> fetched_member \<Rightarrow> variable \<Rightarrow> variable" where
  "FillValueAndType va m var =
     (if fm_value m = None then var\<lparr>v_value := ''<error>''\<rparr>
      else var\<lparr>v_value := vn_print va (fm_value m), v_type := vn_type va (fm_value m)\<rparr>)"

section \<open>Children\<close>

definition INT_MAX :: int where "INT_MAX = 2147483647"

definition child_variable ::
  "var_answers \<Rightarrow> variable_reference \<Rightarrow> fetched_member \<Rightarrow> variables_state \<Rightarrow> variable \<times> variables_state" where
  "child_variable va ref m st =
     (let isIndex = (case fm_name m of [] \<Rightarrow> False | c # _ \<Rightarrow> c = CHR ''['');
          var = empty_variable\<lparr>v_name := fm_name m,
                  v_evaluateName := (if CHR ''('' \<in> set (fm_name m) then []
                                     else vr_evaluateName ref @ (if isIndex then [] else ''.'') @ fm_name m)\<rparr>
      in AddVariableReference va (FillValueAndType va m var) (vr_frameId ref) (fm_value m) ValueIsVariable st)"

fun child_variables ::
  "var_answers \<Rightarrow> variable_reference \<Rightarrow> fetched_member list \<Rightarrow> variables_state \<Rightarrow> variable list \<times> variables_state" where
  "child_variables va ref [] st = ([], st)"
| "child_variables va ref (m # ms) st =
     (case child_variable va ref m st of
        (var, st1) \<Rightarrow> (case child_variables va ref ms st1 of (vars, st2) \<Rightarrow> (var # vars, st2)))"

text \<open>The IL interface of the frame, when there is a frame.\<close>

definition il_frame :: "frame_answer option \<Rightarrow> hresult" where
  "il_frame frame = (case frame of None \<Rightarrow> S_OK | Some fv \<Rightarrow> fv_il fv)"

definition GetChildren ::
  "var_answers \<Rightarrow> variable_reference \<Rightarrow> frame_answer option \<Rightarrow> int \<Rightarrow> int \<Rightarrow> variables_state \<Rightarrow>
     hresult \<times> variable list \<times> variables_state" where
  "GetChildren va ref frame start count st =
     (if IsScope ref then (E_INVALIDARG, [], st)
      else if \<not> succeeded (il_frame frame) then (il_frame frame, [], st)
      else (case vr_value ref of
        None \<Rightarrow> (S_OK, [], st)
      | Some v \<Rightarrow>
          (case FetchFieldsAndProperties va v (frame \<noteq> None) (vr_valueKind ref = ValueIsClass) start
                  (if count = 0 then INT_MAX else c_int (start + count)) of
             (status, members, hasStatic) \<Rightarrow>
               if \<not> succeeded status then (status, [], st)
               else (case child_variables va ref (FixupInheritedFieldNames members) st of
                 (vars, st1) \<Rightarrow>
                   if vr_valueKind ref = ValueIsVariable \<and> hasStatic \<and>
                      start < vr_namedVariables ref \<and> (count = 0 \<or> c_int (start + count) \<ge> vr_namedVariables ref)
                   then (case AddVariableReference va
                           (empty_variable\<lparr>v_name := ''Static members'', v_evaluateName := vn_type va (Some v)\<rparr>)
                           (vr_frameId ref) (Some v) ValueIsClass st1 of
                           (var, st2) \<Rightarrow> (S_OK, vars @ [var], st2))
                   else (S_OK, vars, st1)))))"

section \<open>Stack variables\<close>

text \<open>The exception as a variable; the reference stays also when the name of the module cannot be found.\<close>

definition GetExceptionVariable ::
  "var_answers \<Rightarrow> u64 \<Rightarrow> thread_view \<Rightarrow> variables_state \<Rightarrow> (hresult \<times> variable) \<times> variables_state" where
  "GetExceptionVariable va frameId th st =
     (case tv_exception th of
        None \<Rightarrow> ((E_FAIL, empty_variable), st)
      | Some v \<Rightarrow>
          (case AddVariableReference va
                  (empty_variable\<lparr>v_name := ''$exception'', v_evaluateName := ''$exception'',
                                  v_value := vn_print va (Some v), v_type := vn_type va (Some v)\<rparr>)
                  frameId (Some v) ValueIsVariable st of
             (var, st1) \<Rightarrow> ((if succeeded (fst (tv_module th)) then S_OK else fst (tv_module th), var), st1)))"

definition stack_variable ::
  "var_answers \<Rightarrow> u64 \<Rightarrow> int \<Rightarrow> int \<Rightarrow> (int \<times> variable list \<times> variables_state) var_callback" where
  "stack_variable va frameId start count v name s =
     (S_OK,
      case s of (currentIndex, vars, st) \<Rightarrow>
        if currentIndex + 1 < start \<or> count \<noteq> 0 \<and> currentIndex + 1 \<ge> c_int (start + count) then (currentIndex + 1, vars, st)
        else (case AddVariableReference va
                (empty_variable\<lparr>v_name := name, v_evaluateName := name, v_value := vn_print va v, v_type := vn_type va v\<rparr>)
                frameId v ValueIsVariable st of
                (var, st1) \<Rightarrow> (currentIndex + 1, vars @ [var], st1)))"

definition GetStackVariables ::
  "var_answers \<Rightarrow> u64 \<Rightarrow> thread_view \<Rightarrow> frame_answer option \<Rightarrow> int \<Rightarrow> int \<Rightarrow> variables_state \<Rightarrow>
     var_fault + hresult \<times> variable list \<times> variables_state" where
  "GetStackVariables va frameId th frame start count st =
     (case GetExceptionVariable va frameId th st of
        ((status, var), st1) \<Rightarrow>
          let first = (if status = S_OK then (0, [var]) else (- 1, [])) in
          (case frame of
             None \<Rightarrow> Inl Null_Frame
           | Some fv \<Rightarrow>
               (case WalkStackVars (vn_env va) (vn_type va) fv (stack_variable va frameId start count)
                       (fst first, snd first, st1) of
                  (status, (_, vars, st2)) \<Rightarrow> Inr (if succeeded status then S_OK else status, vars, st2))))"

text \<open>The thread and the frame of an identifier.\<close>

definition frame_of_id :: "var_answers \<Rightarrow> u64 \<Rightarrow> hresult + thread_view \<times> frame_answer option" where
  "frame_of_id va frameId =
     (case vn_thread va (GetThreadId frameId) of
        None \<Rightarrow> Inl E_FAIL
      | Some th \<Rightarrow> (case tv_frame th (GetLevel frameId) of
                      (status, fv) \<Rightarrow> if \<not> succeeded status then Inl status else Inr (th, fv)))"

definition GetVariables ::
  "var_answers \<Rightarrow> bool \<Rightarrow> u32 \<Rightarrow> variables_filter \<Rightarrow> int \<Rightarrow> int \<Rightarrow> variables_state \<Rightarrow>
     var_fault + hresult \<times> variable list \<times> variables_state" where
  "GetVariables va process ref filt start count st =
     (if \<not> process then Inr (E_FAIL, [], st)
      else (case um_find (vs_variables st) ref of
        None \<Rightarrow> Inr (E_FAIL, [], st)
      | Some r \<Rightarrow>
          (case frame_of_id va (vr_frameId r) of
             Inl status \<Rightarrow> Inr (status, [], st)
           | Inr (th, frame) \<Rightarrow>
               let named = vr_namedVariables r;
                   count' = (if filt = VariablesNamed \<and> (c_int (start + count) > named \<or> count = 0) then c_int (named - start) else count);
                   start' = (if filt = VariablesIndexed then c_int (start + named) else start)
               in if IsScope r then GetStackVariables va (vr_frameId r) th frame start' count' st
                  else Inr (GetChildren va r frame start' count' st))))"

definition count_variable :: "int var_callback" where
  "count_variable v name n = (S_OK, n + 1)"

definition GetScopes ::
  "var_answers \<Rightarrow> bool \<Rightarrow> u64 \<Rightarrow> variables_state \<Rightarrow> var_fault + hresult \<times> scope list \<times> variables_state" where
  "GetScopes va process frameId st =
     (if \<not> process then Inr (E_FAIL, [], st)
      else (case frame_of_id va frameId of
        Inl status \<Rightarrow> Inr (status, [], st)
      | Inr (th, None) \<Rightarrow> Inl Null_Frame
      | Inr (th, Some fv) \<Rightarrow>
          (case WalkStackVars (vn_env va) (vn_type va) fv count_variable (if tv_exception th = None then 0 else 1) of
             (status, n) \<Rightarrow>
               if \<not> succeeded status then Inr (status, [], st)
               else if n > 0
               then Inr (S_OK, [\<lparr>sc_name = ''Locals'', sc_variablesReference = unat (vs_next st), sc_namedVariables = n\<rparr>],
                     st\<lparr>vs_next := vs_next st + 1,
                        vs_variables := um_emplace (vs_next st)
                          \<lparr>vr_namedVariables = n, vr_evaluateName = [], vr_valueKind = ValueIsScope, vr_value = None,
                           vr_frameId = frameId\<rparr> (vs_variables st)\<rparr>)
               else Inr (S_OK, [\<lparr>sc_name = ''Locals'', sc_variablesReference = 0, sc_namedVariables = n\<rparr>], st))))"

section \<open>Setting a value\<close>

text \<open>The element types that \<open>WriteValue\<close> has a name for.\<close>

fun cor2name :: "cor_element \<Rightarrow> string option" where
  "cor2name ELEMENT_TYPE_BOOLEAN = Some ''System.Boolean''"
| "cor2name ELEMENT_TYPE_U1 = Some ''System.Byte''"
| "cor2name ELEMENT_TYPE_I1 = Some ''System.SByte''"
| "cor2name ELEMENT_TYPE_CHAR = Some ''System.Char''"
| "cor2name ELEMENT_TYPE_R8 = Some ''System.Double''"
| "cor2name ELEMENT_TYPE_R4 = Some ''System.Single''"
| "cor2name ELEMENT_TYPE_I4 = Some ''System.Int32''"
| "cor2name ELEMENT_TYPE_U4 = Some ''System.UInt32''"
| "cor2name ELEMENT_TYPE_I8 = Some ''System.Int64''"
| "cor2name ELEMENT_TYPE_U8 = Some ''System.UInt64''"
| "cor2name ELEMENT_TYPE_I2 = Some ''System.Int16''"
| "cor2name ELEMENT_TYPE_U2 = Some ''System.UInt16''"
| "cor2name ELEMENT_TYPE_I = Some ''System.IntPtr''"
| "cor2name ELEMENT_TYPE_U = Some ''System.UIntPtr''"
| "cor2name _ = None"

text \<open>The answers for the value written to: its size, its element type, the compiler service (result, data,
  error text) for a type name and a text, the creation of a string and its exchange, and \<open>SetValue\<close>.\<close>

record write_answers =
  wa_size :: "hresult \<times> nat"
  wa_type :: "hresult \<times> cor_element"
  wa_type_name :: string
  wa_parse :: "string \<Rightarrow> string \<Rightarrow> hresult \<times> string \<times> string"
  wa_string :: "string \<Rightarrow> hresult"
  wa_set :: "string \<Rightarrow> hresult"

datatype written = Written_Bytes string | Written_String string

text \<open>The result, the text for the error, and what was written.\<close>

definition write_bytes :: "write_answers \<Rightarrow> string \<Rightarrow> string \<Rightarrow> hresult \<times> string \<times> written option" where
  "write_bytes wa ty value =
     (case wa_parse wa ty value of
        (status, data, err) \<Rightarrow>
          if \<not> succeeded status then (status, err, None)
          else if snd (wa_size wa) \<noteq> length data
          then (E_FAIL, ''Marshalling size mismatch: '' @ to_string (snd (wa_size wa)) @ '' != '' @ to_string (length data), None)
          else if \<not> succeeded (wa_set wa data) then (wa_set wa data, err, None)
          else (S_OK, err, Some (Written_Bytes data)))"

definition WriteValue :: "write_answers \<Rightarrow> string \<Rightarrow> hresult \<times> string \<times> written option" where
  "WriteValue wa value =
     (if \<not> succeeded (fst (wa_size wa)) then (fst (wa_size wa), [], None)
      else if \<not> succeeded (fst (wa_type wa)) then (fst (wa_type wa), [], None)
      else (case cor2name (snd (wa_type wa)) of
        Some ty \<Rightarrow> write_bytes wa ty value
      | None \<Rightarrow>
          if snd (wa_type wa) = ELEMENT_TYPE_STRING then
            (case wa_parse wa ''System.String'' value of
               (status, data, err) \<Rightarrow>
                 if \<not> succeeded status then (status, err, None)
                 else if \<not> succeeded (wa_string wa data) then (wa_string wa data, err, None)
                 else (S_OK, err, Some (Written_String data)))
          else if snd (wa_type wa) = ELEMENT_TYPE_VALUETYPE \<or> snd (wa_type wa) = ELEMENT_TYPE_CLASS then
            (if wa_type_name wa \<noteq> ''decimal''
             then (E_FAIL, ''Unable to set value of type '' @ CHR 0x27 # wa_type_name wa @ [CHR 0x27], None)
             else write_bytes wa ''System.Decimal'' value)
          else (E_FAIL, ''Unable to set value'', None)))"

text \<open>Setting by name: every variable or member with the name is written; the state of the walk is a fault, the
  output, and what was written where.\<close>

type_synonym set_state = "var_fault option \<times> string \<times> (val \<times> written) list"

definition set_named ::
  "var_answers \<Rightarrow> (val \<Rightarrow> write_answers) \<Rightarrow> string \<Rightarrow> string \<Rightarrow> val option \<Rightarrow> string \<Rightarrow> set_state \<Rightarrow> hresult \<times> set_state" where
  "set_named va wr name value v varName s =
     (if varName \<noteq> name then (S_OK, s)
      else (case v of
        None \<Rightarrow> (E_FAIL, (Some Null_Value, snd s))
      | Some x \<Rightarrow>
          (case WriteValue (wr x) value of
             (status, err, w) \<Rightarrow>
               if \<not> succeeded status then (status, (fst s, (if err = [] then fst (snd s) else err), snd (snd s)))
               else (S_OK, (fst s, vn_print va v, snd (snd s) @ (case w of None \<Rightarrow> [] | Some y \<Rightarrow> [(x, y)]))))))"

definition set_result :: "hresult \<times> set_state \<Rightarrow> var_fault + hresult \<times> string \<times> (val \<times> written) list" where
  "set_result r =
     (case r of (status, (fault, output)) \<Rightarrow>
        (case fault of Some f \<Rightarrow> Inl f | None \<Rightarrow> Inr (if succeeded status then S_OK else status, output)))"

definition SetStackVariable ::
  "var_answers \<Rightarrow> (val \<Rightarrow> write_answers) \<Rightarrow> frame_answer option \<Rightarrow> string \<Rightarrow> string \<Rightarrow>
     var_fault + hresult \<times> string \<times> (val \<times> written) list" where
  "SetStackVariable va wr frame name value =
     (case frame of
        None \<Rightarrow> Inl Null_Frame
      | Some fv \<Rightarrow> set_result (WalkStackVars (vn_env va) (vn_type va) fv (set_named va wr name value) (None, [], [])))"

definition SetChild ::
  "var_answers \<Rightarrow> (val \<Rightarrow> write_answers) \<Rightarrow> variable_reference \<Rightarrow> frame_answer option \<Rightarrow> string \<Rightarrow> string \<Rightarrow>
     var_fault + hresult \<times> string \<times> (val \<times> written) list" where
  "SetChild va wr ref frame name value =
     (if IsScope ref then Inr (E_INVALIDARG, [], [])
      else (case vr_value ref of
        None \<Rightarrow> Inr (S_OK, [], [])
      | Some v \<Rightarrow>
          if \<not> succeeded (il_frame frame) then Inr (il_frame frame, [], [])
          else set_result (WalkMembers (vn_env va (Some v)) True (frame \<noteq> None)
                     (\<lambda>m. set_named va wr name value (me_value m) (me_name m)) (None, [], []))))"

definition SetVariable ::
  "var_answers \<Rightarrow> (val \<Rightarrow> write_answers) \<Rightarrow> bool \<Rightarrow> string \<Rightarrow> string \<Rightarrow> u32 \<Rightarrow> variables_state \<Rightarrow>
     var_fault + hresult \<times> string \<times> (val \<times> written) list" where
  "SetVariable va wr process name value ref st =
     (if \<not> process then Inr (E_FAIL, [], [])
      else (case um_find (vs_variables st) ref of
        None \<Rightarrow> Inr (E_FAIL, [], [])
      | Some r \<Rightarrow>
          (case frame_of_id va (vr_frameId r) of
             Inl status \<Rightarrow> Inr (status, [], [])
           | Inr (th, frame) \<Rightarrow>
               if IsScope r then SetStackVariable va wr frame name value
               else SetChild va wr r frame name value)))"

section \<open>Facts: counting and fetching\<close>

lemma plain_count: "plain_callback count_members"
  by (simp add: plain_callback_def count_members_def)

lemma visit_count:
  "visit count_members ms final (a, b) =
     (final, (a + of_nat (length (filter me_static ms)), b + of_nat (length (filter (\<lambda>m. \<not> me_static m) ms))))"
  by (induction ms arbitrary: a b) (simp_all add: count_members_def algebra_simps)

lemma GetNumChild_listing:
  assumes "listing (vn_env va (Some v)) False False = (ms, S_OK)"
  shows "GetNumChild va (Some v) static_members =
    (S_OK, if static_members then of_nat (length (filter me_static ms))
           else if (of_nat (length (filter me_static ms)) :: u32) > 0 then of_nat (length (filter (\<lambda>m. \<not> me_static m) ms)) + 1
           else of_nat (length (filter (\<lambda>m. \<not> me_static m) ms)))"
  by (simp add: GetNumChild_def WalkMembers_visit [OF plain_count] assms visit_count)

text \<open>The members of the wanted kind, and the part of a list with indices in a range.\<close>

definition kept_members :: "bool \<Rightarrow> member list \<Rightarrow> member list" where
  "kept_members fetchOnlyStatic ms = filter (\<lambda>m. if fetchOnlyStatic then me_static m else \<not> me_static m) ms"

fun in_window :: "int \<Rightarrow> int \<Rightarrow> int \<Rightarrow> 'a list \<Rightarrow> 'a list" where
  "in_window i a b [] = []"
| "in_window i a b (x # xs) = (if i < a \<or> i \<ge> b then in_window (i + 1) a b xs else x # in_window (i + 1) a b xs)"

lemma in_window_take_drop: "in_window (int i) (int s) (int e) xs = drop (s - i) (take (e - i) xs)"
proof (induction xs arbitrary: i)
  case (Cons x xs)
  have "in_window (int i + 1) (int s) (int e) xs = drop (s - Suc i) (take (e - Suc i) xs)"
    using Cons [of "Suc i"] by (simp add: add.commute)
  then show ?case by (cases "e - i"; cases "s - i") (auto simp: diff_Suc split: nat.splits)
qed simp

definition fetched :: "(member \<Rightarrow> val option) \<Rightarrow> member \<Rightarrow> fetched_member" where
  "fetched getter m =
     \<lparr>fm_name = me_name m, fm_ownerType = (case me_type m of None \<Rightarrow> [] | Some t \<Rightarrow> t), fm_value = member_value getter m\<rparr>"

lemma plain_fetch: "plain_callback (fetch_member getter only a b)"
  by (simp add: plain_callback_def fetch_member_def)

lemma visit_fetch:
  "visit (fetch_member getter only a b) ms final (i, acc, hs) =
     (final, (i + int (length (kept_members only ms)),
              acc @ map (fetched getter) (in_window (i + 1) a b (kept_members only ms)),
              hs \<or> (\<exists>m \<in> set ms. me_static m)))"
  by (induction ms arbitrary: i acc hs)
    (auto simp: fetch_member_def kept_members_def fetched_def member_value_def Let_def algebra_simps)

lemma Fetch_listing:
  assumes "listing (vn_env va (Some v)) True frame = (ms, S_OK)"
  shows "FetchFieldsAndProperties va v frame only a b =
    (S_OK, map (fetched (vn_getter va v)) (in_window 0 a b (kept_members only ms)), \<exists>m \<in> set ms. me_static m)"
  by (simp add: FetchFieldsAndProperties_def WalkMembers_visit [OF plain_fetch] assms visit_fetch)

text \<open>The window of a page; a count of 0 is everything.\<close>

lemma page_window:
  assumes "length xs < 2147483647"
  shows "in_window 0 (int start) (if count = 0 then INT_MAX else int start + int count) xs =
    (if count = 0 then drop start xs else take count (drop start xs))"
  using in_window_take_drop [of 0 start 2147483647 xs] in_window_take_drop [of 0 start "start + count" xs] assms
  by (simp add: INT_MAX_def take_drop add.commute)

lemma fixup_length [simp]: "length (fixup_loop names ms) = length ms"
  by (induction names ms rule: fixup_loop.induct) auto

lemma fixup_distinct:
  "distinct (map fm_name ms) \<Longrightarrow> set names \<inter> set (map fm_name ms) = {} \<Longrightarrow> fixup_loop names ms = ms"
  by (induction names ms rule: fixup_loop.induct) auto

lemma AddVariableReference_name [simp]:
  "v_name (fst (AddVariableReference va var fid v kind st)) = v_name var"
  "v_evaluateName (fst (AddVariableReference va var fid v kind st)) = v_evaluateName var"
  by (simp_all add: AddVariableReference_def Let_def)

lemma Fill_name [simp]: "v_name (FillValueAndType va m var) = v_name var"
  "v_evaluateName (FillValueAndType va m var) = v_evaluateName var"
  by (simp_all add: FillValueAndType_def)

lemma child_variable_name: "v_name (fst (child_variable va r m st)) = fm_name m"
  by (simp add: child_variable_def Let_def)

lemma child_variables_names: "map v_name (fst (child_variables va r ms st)) = map fm_name ms"
  by (induction ms arbitrary: st) (simp_all add: case_prod_beta child_variable_name)

lemma child_variables_length: "length (fst (child_variables va r ms st)) = length ms"
  using arg_cong [OF child_variables_names, of length] by simp

section \<open>Facts: the table\<close>

definition reference_ok :: "variable_reference \<Rightarrow> bool" where
  "reference_ok r \<longleftrightarrow> vr_namedVariables r \<noteq> 0 \<and> (IsScope r \<longleftrightarrow> vr_value r = None)"

definition references_ok :: "variables_state \<Rightarrow> bool" where
  "references_ok st \<longleftrightarrow> um_wf (vs_variables st) \<and> (\<forall>k r. um_find (vs_variables st) k = Some r \<longrightarrow> reference_ok r)"

lemma references_emplace:
  "references_ok st \<Longrightarrow> reference_ok r \<Longrightarrow>
     references_ok (st\<lparr>vs_next := n, vs_variables := um_emplace k r (vs_variables st)\<rparr>)"
  by (auto simp: references_ok_def um_find_emplace split: option.splits if_splits)

lemma to_s32_nonzero: "n < 2 ^ 32 \<Longrightarrow> n \<noteq> 0 \<Longrightarrow> to_s32 n \<noteq> 0"
  by (auto simp: to_s32_def)

lemma references_Add:
  assumes "references_ok st" and "kind \<noteq> ValueIsScope"
  shows "references_ok (snd (AddVariableReference va var fid v kind st))"
proof -
  let ?n = "snd (GetNumChild va v (kind = ValueIsClass))"
  show ?thesis
  proof (cases "?n = 0")
    case True
    then show ?thesis using assms by (simp add: AddVariableReference_def)
  next
    case False
    have "unat ?n < 2 ^ 32" by (rule order_less_le_trans [OF unsigned_less]) simp
    then have "to_s32 (unat ?n) \<noteq> 0" using False by (intro to_s32_nonzero) (simp_all add: unat_eq_0)
    moreover have "v \<noteq> None" using False by (cases v) (simp_all add: GetNumChild_def)
    ultimately show ?thesis
      using False assms by (simp add: AddVariableReference_def Let_def references_emplace reference_ok_def IsScope_def)
  qed
qed

lemma references_child: "references_ok st \<Longrightarrow> references_ok (snd (child_variable va r m st))"
  by (simp add: child_variable_def Let_def references_Add)

lemma references_children: "references_ok st \<Longrightarrow> references_ok (snd (child_variables va r ms st))"
  by (induction ms arbitrary: st) (simp_all add: case_prod_beta references_child)

lemma references_GetChildren:
  "references_ok st \<Longrightarrow> references_ok (snd (snd (GetChildren va r frame start count st)))"
  by (simp add: GetChildren_def case_prod_beta references_children references_Add split: option.split)

lemma references_GetChildrenD:
  "GetChildren va r frame start count st = (status, vars, st') \<Longrightarrow> references_ok st \<Longrightarrow> references_ok st'"
  using references_GetChildren [of st va r frame start count] by simp

lemma total_stack_variable: "total_callback (stack_variable va fid start count)"
  by (simp add: total_callback_def stack_variable_def)

lemma references_Exception: "references_ok st \<Longrightarrow> references_ok (snd (GetExceptionVariable va fid th st))"
  by (simp add: GetExceptionVariable_def case_prod_beta references_Add split: option.split)

lemma references_walk:
  assumes "references_ok st"
  shows "references_ok (snd (snd (snd (WalkStackVars env ty fv (stack_variable va fid start count) (i, vars, st)))))"
proof -
  let ?R = "\<lambda>(i :: int, vars :: variable list, st) (u :: unit). references_ok st"
  have "kept_by ?R (stack_variable va fid start count) (\<lambda>_ _ u. (S_OK, u))"
    by (auto simp: kept_by_def total_stack_variable)
      (auto simp: total_callback_def stack_variable_def case_prod_beta references_Add split: if_splits)
  from WalkStackVars_sim [OF this, of "(i, vars, st)" "()"] assms show ?thesis by (simp add: case_prod_beta)
qed

lemma references_stack:
  assumes "GetStackVariables va fid th frame start count st = Inr (status, vars, st')" and "references_ok st"
  shows "references_ok st'"
proof -
  obtain s var st1 where E: "GetExceptionVariable va fid th st = ((s, var), st1)" by (metis prod.collapse)
  then have st1: "references_ok st1" using references_Exception [OF assms(2), of va fid th] by simp
  obtain fv where fv: "frame = Some fv" using assms(1) by (cases frame) (simp_all add: GetStackVariables_def E Let_def)
  let ?first = "if s = S_OK then (0 :: int, [var]) else (- 1, [])"
  have "st' = snd (snd (snd (WalkStackVars (vn_env va) (vn_type va) fv (stack_variable va fid start count)
      (fst ?first, snd ?first, st1))))"
    using assms(1) by (simp only: GetStackVariables_def E fv prod.case option.case Let_def) (auto split: prod.splits)
  then show ?thesis using references_walk [OF st1] by simp
qed

text \<open>What happens to the table: the four operations on it.\<close>

inductive variables_step :: "variables_state \<Rightarrow> variables_state \<Rightarrow> bool" where
  v_variables: "GetVariables va process ref filt start count st = Inr (status, vars, st') \<Longrightarrow> variables_step st st'"
| v_scopes: "GetScopes va process frameId st = Inr (status, scopes, st') \<Longrightarrow> variables_step st st'"
| v_evaluated: "variables_step st (snd (AddVariableReference va var frameId v ValueIsVariable st))"
| v_clear: "variables_step st (Clear_variables st)"

lemma references_step: "variables_step st st' \<Longrightarrow> references_ok st \<Longrightarrow> references_ok st'"
proof (induction rule: variables_step.induct)
  case (v_variables va process ref filt start count st status vars st')
  then show ?case
    by (auto simp: GetVariables_def Let_def split: if_splits option.splits sum.splits prod.splits
        dest: references_stack references_GetChildrenD)
next
  case (v_scopes va process frameId st status scopes st')
  then show ?case
    by (auto simp: GetScopes_def reference_ok_def IsScope_def split: if_splits option.splits sum.splits prod.splits
        intro!: references_emplace)
next
  case (v_clear st)
  then show ?case by (simp add: Clear_variables_def references_ok_def)
qed (simp add: references_Add)

section \<open>Facts: setting\<close>

lemma visit_set_named:
  assumes "\<forall>m \<in> set ms. me_name m \<noteq> name"
  shows "visit (\<lambda>m. set_named va wr name value (me_value m) (me_name m)) ms final s = (final, s)"
  using assms by (induction ms) (auto simp: set_named_def)

lemma write_ok: "WriteValue wa value = (S_FALSE, err, w) \<Longrightarrow> False"
  by (auto simp: WriteValue_def write_bytes_def split: if_splits option.splits prod.splits)

lemma plain_set: "plain_callback (\<lambda>m. set_named va wr name value (me_value m) (me_name m))"
  by (auto simp: plain_callback_def set_named_def split: option.split prod.split)

lemma frame_child_reference:
  "GetChildren va r frame start count st = (S_OK, vars, st') \<Longrightarrow> succeeded (il_frame frame)"
  by (auto simp: GetChildren_def split: if_splits)

section \<open>Properties\<close>

text \<open>C9. The references given to the front end stay well formed through scopes, variables, evaluations and clearing:
  no number has two entries, every entry announces a number of children other than 0, and an entry holds a value exactly
  when it is not a scope.\<close>

theorem references_wellformed:
  assumes "variables_step\<^sup>*\<^sup>* init_variables st"
  shows "um_wf (vs_variables st) \<and>
    (\<forall>k r. um_find (vs_variables st) k = Some r \<longrightarrow> vr_namedVariables r \<noteq> 0 \<and> (IsScope r \<longleftrightarrow> vr_value r = None))"
proof -
  have "references_ok init_variables" by (simp add: references_ok_def init_variables_def)
  with assms have "references_ok st" by (induction rule: rtranclp_induct) (auto intro: references_step)
  then show ?thesis by (simp add: references_ok_def reference_ok_def)
qed

theorem references_wellformed_witness:
  "\<forall>va. um_wf (vs_variables (snd (AddVariableReference va empty_variable 0 (Some 1) ValueIsVariable init_variables)))"
  using references_wellformed [OF r_into_rtranclp [of variables_step, OF v_evaluated]] by blast

text \<open>C10. The number of children announced for a value is the number of children listed for it: members of the
  wanted kind, and one more for the static members, when the walk with a thread and a frame finds as many
  static and other members as the walk without them.\<close>

theorem children_announced:
  assumes "listing (vn_env va (Some v)) False False = (ms0, S_OK)"
    and "listing (vn_env va (Some v)) True (frame \<noteq> None) = (ms, S_OK)"
    and "length (filter me_static ms0) = length (filter me_static ms)" and "length ms0 = length ms"
    and "length ms < 2147483647" and "succeeded (il_frame frame)"
    and "vr_value r = Some v" and "vr_valueKind r = kind" and "kind \<noteq> ValueIsScope"
    and "vr_namedVariables r = to_s32 (unat (snd (GetNumChild va (Some v) (kind = ValueIsClass))))"
  shows "\<exists>vars st'. GetChildren va r frame 0 0 st = (S_OK, vars, st') \<and> int (length vars) = vr_namedVariables r"
proof -
  let ?s = "filter me_static ms" and ?i = "filter (\<lambda>m. \<not> me_static m) ms"
  have total: "length ?s + length ?i = length ms" by (rule sum_length_filter_compl)
  have "length ?i = length (filter (\<lambda>m. \<not> me_static m) ms0)"
    using assms(3,4) sum_length_filter_compl [of me_static ms] sum_length_filter_compl [of me_static ms0] by linarith
  note num = GetNumChild_listing [OF assms(1), unfolded assms(3) this [symmetric]]
  have unat: "unat (of_nat n :: u32) = n" if "n < 2 ^ 32" for n using that by (simp add: unsigned_of_nat take_bit_nat_eq_self)
  have nums: "unat (of_nat (length ?s) :: u32) = length ?s" "unat (of_nat (length ?i) :: u32) = length ?i"
    "unat (of_nat (length ?i) + 1 :: u32) = length ?i + 1"
    using total assms(5) unat [of "length ?s"] unat [of "length ?i"] unat [of "length ?i + 1"] by (simp_all add: add.commute)
  have pos: "((of_nat (length ?s) :: u32) > 0) = (length ?s > 0)"
    using nums(1) by (simp add: word_less_nat_alt)
  define n where "n = (if kind = ValueIsClass then length ?s else if length ?s > 0 then length ?i + 1 else length ?i)"
  have "unat (snd (GetNumChild va (Some v) (kind = ValueIsClass))) = n"
    by (cases "kind = ValueIsClass"; cases "length ?s > 0") (simp_all only: num pos nums n_def snd_conv refl if_True if_False)
  moreover have "n < 2 ^ 31" using total assms(5) by (simp add: n_def)
  ultimately have named: "vr_namedVariables r = int n" using assms(10) by (simp add: to_s32_def)
  have kept: "length (kept_members only ms) < 2147483647" for only
    using assms(5) by (simp add: kept_members_def order_le_less_trans [OF length_filter_le])
  note fetch = Fetch_listing [OF assms(2)]
  note win = page_window [OF kept, of 0 0, simplified]
  have static: "(\<exists>m \<in> set ms. me_static m) = (length ?s > 0)" by (auto simp: filter_empty_conv)
  define only where "only = (kind = ValueIsClass)"
  define fs where "fs = FixupInheritedFieldNames (map (fetched (vn_getter va v)) (kept_members only ms))"
  have fs: "length fs = (if only then length ?s else length ?i)"
    by (simp add: fs_def FixupInheritedFieldNames_def kept_members_def)
  obtain vars st1 where C: "child_variables va r fs st = (vars, st1)" by (cases "child_variables va r fs st")
  then have len: "length vars = length fs" using child_variables_length [of va r fs st] by simp
  obtain sv st2 where A: "AddVariableReference va (empty_variable\<lparr>v_name := ''Static members'', v_evaluateName := vn_type va (Some v)\<rparr>)
      (vr_frameId r) (Some v) ValueIsClass st1 = (sv, st2)" by (metis prod.collapse)
  have "GetChildren va r frame 0 0 st =
      (if kind = ValueIsVariable \<and> length ?s > 0 \<and> 0 < vr_namedVariables r then (S_OK, vars @ [sv], st2) else (S_OK, vars, st1))"
    using assms(6-9) by (simp add: GetChildren_def IsScope_def fetch win C A static del: not_None_eq flip: only_def fs_def)
  then show ?thesis
    using named fs len assms(9) by (cases kind) (auto simp: only_def n_def)
qed

text \<open>An object with two fields and a static one; every other value is a string.\<close>

definition demo_field :: "string \<Rightarrow> bool \<Rightarrow> val \<Rightarrow> field_answer" where
  "demo_field n s v = \<lparr>fa_props = True, fa_name = n, fa_static = s, fa_literal = False,
     fa_literal_value = (\<lambda>_. (S_FALSE, None)), fa_static_value = Some v, fa_value = Some v\<rparr>"

definition demo_value :: "val option \<Rightarrow> value_answer" where
  "demo_value v = \<lparr>va_deref = S_OK, va_null = False, va_target = v, va_pointer = (S_OK, False), va_array = None, va_value2 = S_OK,
     va_exact = (S_OK, Type_Info \<lparr>tn_elem = (S_OK, v \<noteq> Some 1), tn_open = S_OK, tn_name = ''C'',
       tn_fields = [demo_field ''x'' False 7, demo_field ''z'' True 9, demo_field ''y'' False 8],
       tn_props = [\<lparr>pp_props = True, pp_name = ''P'', pp_getter = 100663297, pp_static = Some False\<rparr>]\<rparr> None)\<rparr>"

definition demo_answers :: var_answers where
  "demo_answers = \<lparr>vn_env = demo_value, vn_getter = (\<lambda>_ _. Some 5), vn_print = (\<lambda>_. ''v''), vn_type = (\<lambda>_. ''C''),
                   vn_thread = (\<lambda>_. None)\<rparr>"

definition demo_members :: "bool \<Rightarrow> member list" where
  "demo_members frame =
     [\<lparr>me_getter = mdMethodDefNil, me_type = Some ''C'', me_value = Some 7, me_static = False, me_name = ''x''\<rparr>,
      \<lparr>me_getter = mdMethodDefNil, me_type = Some ''C'', me_value = (if frame then Some 9 else None), me_static = True, me_name = ''z''\<rparr>,
      \<lparr>me_getter = mdMethodDefNil, me_type = Some ''C'', me_value = Some 8, me_static = False, me_name = ''y''\<rparr>,
      \<lparr>me_getter = 100663297, me_type = Some ''C'', me_value = None, me_static = False, me_name = ''P''\<rparr>]"

lemma demo_listing: "listing (vn_env demo_answers (Some 1)) thread frame = (demo_members frame, S_OK)"
  by (simp add: listing_def value_listing_def demo_answers_def demo_value_def demo_field_def demo_members_def field_value_def
      generated_def prop_members_def Let_def) blast

definition demo_reference :: variable_reference where
  "demo_reference = \<lparr>vr_namedVariables = 4, vr_evaluateName = ''a'', vr_valueKind = ValueIsVariable, vr_value = Some 1, vr_frameId = 0\<rparr>"

theorem children_announced_witness:
  "\<exists>vars st'. GetChildren demo_answers demo_reference None 0 0 init_variables = (S_OK, vars, st') \<and> length vars = 4"
  using children_announced [of demo_answers 1 "demo_members False" None "demo_members False" demo_reference ValueIsVariable
      init_variables]
  by (simp add: demo_listing GetNumChild_listing [OF demo_listing] del: One_nat_def)
    (simp add: demo_reference_def demo_members_def il_frame_def to_s32_def)

text \<open>C13. A page of children is the page of the whole list, when no two members have the same name: the members from
  the start on, at most as many as asked for, and the entry for the static members on the page that
  reaches the announced number.  The end of the page is an \<open>int\<close>: it must not pass the largest one.\<close>

theorem children_page:
  assumes "listing (vn_env va (Some v)) True (frame \<noteq> None) = (ms, S_OK)"
    and "distinct (map me_name (kept_members (vr_valueKind r = ValueIsClass) ms))"
    and "length ms < 2147483647" and "succeeded (il_frame frame)"
    and "vr_value r = Some v" and "vr_valueKind r \<noteq> ValueIsScope" and "0 < count"
    and "start + count \<le> 2147483647"
  shows "map v_name (fst (snd (GetChildren va r frame (int start) (int count) st))) =
    map me_name (take count (drop start (kept_members (vr_valueKind r = ValueIsClass) ms))) @
    (if vr_valueKind r = ValueIsVariable \<and> (\<exists>m \<in> set ms. me_static m) \<and>
        int start < vr_namedVariables r \<and> vr_namedVariables r \<le> int start + int count
     then [''Static members''] else [])"
proof -
  define only where "only = (vr_valueKind r = ValueIsClass)"
  let ?page = "take count (drop start (kept_members only ms))"
  have kept: "length (kept_members only ms) < 2147483647"
    using assms(3) by (simp add: kept_members_def order_le_less_trans [OF length_filter_le])
  have names: "map fm_name (map (fetched (vn_getter va v)) xs) = map me_name xs" for xs by (simp add: fetched_def)
  have "distinct (map me_name ?page)"
    using assms(2) by (simp flip: take_map drop_map only_def add: distinct_take distinct_drop)
  then have same: "FixupInheritedFieldNames (map (fetched (vn_getter va v)) ?page) = map (fetched (vn_getter va v)) ?page"
    unfolding FixupInheritedFieldNames_def by (intro fixup_distinct) (simp_all only: names, simp)
  have "in_window 0 (int start) (int start + int count) (kept_members only ms) = ?page"
    using page_window [OF kept, of start count] assms(7) by simp
  then show ?thesis
    using assms(4-8)
    by (simp add: GetChildren_def IsScope_def Fetch_listing [OF assms(1)] same case_prod_beta child_variables_names names
        del: map_map not_None_eq flip: only_def)
qed

theorem children_page_witness:
  "map v_name (fst (snd (GetChildren demo_answers demo_reference None 2 2 init_variables))) = [''P'', ''Static members'']"
  using children_page [of demo_answers 1 None "demo_members False" demo_reference 2 2 init_variables]
  by (simp add: demo_listing demo_reference_def il_frame_def del: One_nat_def)
    (simp add: demo_members_def kept_members_def)

text \<open>Setting a member by name: when no member has the name, the call succeeds, with an empty text and
  nothing written; when the first member with the name is a property, which has no value of its own, the
  value is written through a null pointer.\<close>

theorem set_child_by_name:
  assumes "listing (vn_env va (Some v)) True (frame \<noteq> None) = (ms, S_OK)" and "succeeded (il_frame frame)"
    and "vr_value r = Some v" and "\<not> IsScope r"
  shows "(filter (\<lambda>m. me_name m = name) ms = [] \<longrightarrow> SetChild va wr r frame name value = Inr (S_OK, [], [])) \<and>
    (\<forall>m rest. filter (\<lambda>m. me_name m = name) ms = m # rest \<and> me_value m = None \<longrightarrow>
       SetChild va wr r frame name value = Inl Null_Value)"
proof -
  let ?cb = "\<lambda>m. set_named va wr name value (me_value m) (me_name m)"
  have S: "SetChild va wr r frame name value = set_result (visit ?cb ms S_OK (None, [], []))"
    using assms by (simp add: SetChild_def WalkMembers_visit [OF plain_set] del: not_None_eq)
  have "visit ?cb ms S_OK (None, [], []) = (E_FAIL, (Some Null_Value, [], []))"
    if "filter (\<lambda>m. me_name m = name) ms = m # rest" "me_value m = None" for m rest
  proof -
    from that(1) obtain us vs where ms: "ms = us @ m # vs" "\<forall>u \<in> set us. me_name u \<noteq> name" "me_name m = name"
      by (auto simp: filter_eq_Cons_iff)
    then show ?thesis using that(2) by (simp add: visit_append visit_set_named set_named_def)
  qed
  then show ?thesis
    unfolding S using visit_set_named [of ms name va wr "value"] by (auto simp: set_result_def filter_empty_conv)
qed

theorem set_child_by_name_witness:
  "\<forall>wr. SetChild demo_answers wr demo_reference None ''Q'' ''1'' = Inr (S_OK, [], []) \<and>
        SetChild demo_answers wr demo_reference None ''P'' ''1'' = Inl Null_Value"
  using set_child_by_name [of demo_answers 1 None "demo_members False" demo_reference]
  by (simp add: demo_listing demo_reference_def il_frame_def IsScope_def del: One_nat_def)
    (simp add: demo_members_def)

text \<open>Bytes are written to a value only when there are exactly as many as the value has.\<close>

theorem write_exact_size:
  assumes "WriteValue wa value = (status, err, Some (Written_Bytes data))"
  shows "status = S_OK \<and> length data = snd (wa_size wa)"
  using assms by (auto simp: WriteValue_def write_bytes_def split: if_splits option.splits prod.splits)

theorem write_exact_size_witness:
  "length (''abcd'' :: string) = snd (wa_size \<lparr>wa_size = (S_OK, 4), wa_type = (S_OK, ELEMENT_TYPE_I4), wa_type_name = [],
     wa_parse = (\<lambda>_ _. (S_OK, ''abcd'', [])), wa_string = (\<lambda>_. E_FAIL), wa_set = (\<lambda>_. S_OK)\<rparr>)"
  using write_exact_size [of "\<lparr>wa_size = (S_OK, 4), wa_type = (S_OK, ELEMENT_TYPE_I4), wa_type_name = [],
     wa_parse = (\<lambda>_ _. (S_OK, ''abcd'', [])), wa_string = (\<lambda>_. E_FAIL), wa_set = (\<lambda>_. S_OK)\<rparr>" "''5''" S_OK "[]" "''abcd''"]
  by (simp add: WriteValue_def write_bytes_def)

lemma filter_key_unique: "distinct (map f xs) \<Longrightarrow> x \<in> set xs \<Longrightarrow> filter (\<lambda>y. f y = f x) xs = [x]"
proof (induction xs)
  case (Cons y ys)
  then have "\<forall>z \<in> set ys. f z \<noteq> f y" by (auto simp: image_iff)
  then show ?case using Cons by (cases "x = y") auto
qed simp

text \<open>C11. The name that a member gets for its evaluation leads to it.  The expression of the parent starts at a variable
  of the frame, has its angle brackets closed and evaluates to the parent; the member is not static, and its name is
  one word that no other member that is not static has: there is no dot, comma or angle bracket in it, as in the names of
  explicit implementations of interfaces, no bracket, as in those of array elements, no blank and no parenthesis.  Then evaluating the name of the child gives the value that the list of the children shows for it.\<close>

theorem child_evaluates:
  assumes "depth (vr_evaluateName r) = 0"
    and "first_value ea (ParseExpression (vr_evaluateName r) ! 0) = (S_OK, (Some v0, this))"
    and "EvalExpr ea (vr_evaluateName r) = (S_OK, Some v)"
    and "\<forall>v. ea_env ea v = vn_env va v" and "ea_getter ea = vn_getter va"
    and "listing (vn_env va (Some v)) True True = (ms, S_OK)"
    and "distinct (map me_name (kept_members False ms))" and "m \<in> set (kept_members False ms)"
    and "plain_name (me_name m)" and "CHR ''('' \<notin> set (me_name m)" and "member_value (vn_getter va v) m = Some x"
  shows "EvalExpr ea (v_evaluateName (fst (child_variable va r (fetched (vn_getter va v) m) st))) = (S_OK, Some x)"
proof -
  let ?name = "me_name m"
  obtain c cs where name: "?name = c # cs" "c \<noteq> CHR ''[''" using assms(9) by (cases ?name) (auto simp: plain_name_def)
  have eval: "v_evaluateName (fst (child_variable va r (fetched (vn_getter va v) m) st)) = vr_evaluateName r @ CHR ''.'' # ?name"
    using assms(10) name by (simp add: child_variable_def Let_def fetched_def)
  have l: "?name \<noteq> []" "List.last ?name \<noteq> CHR '']''"
    using assms(9) by (auto simp: plain_name_def dest!: last_in_set)
  have "named_members ValueIsVariable ?name ms = filter (\<lambda>k. me_name k = ?name) (kept_members False ms)"
    by (auto simp: named_members_def kept_members_def conj_commute intro!: filter_cong)
  also have "\<dots> = [m]"
    by (rule filter_key_unique [OF assms(7,8)])
  finally have named: "named_members ValueIsVariable ?name ms = [m]" .
  have "GetFieldOrPropertyWithName (\<lambda>v. ea_env ea (Some v)) (ea_getter ea) v ValueIsVariable ?name = (S_OK, Some x)"
    using assms(4-6,11)
    by (simp add: GetFieldOrPropertyWithName_def l WalkMembers_visit [OF plain_lookup] visit_lookup named)
  then show ?thesis using member_expression [OF assms(1,9,2,3)] by (simp add: eval)
qed

definition demo_child_eval :: eval_answers where
  "demo_child_eval = demo_eval\<lparr>ea_env := demo_value, ea_getter := vn_getter demo_answers\<rparr>"

theorem child_evaluates_witness:
  "EvalExpr demo_child_eval (v_evaluateName (fst (child_variable demo_answers demo_reference
     (fetched (\<lambda>_. None) (hd (demo_members True))) init_variables))) = (S_OK, Some 7)"
proof -
  have parts: "ParseExpression ''a'' = [''a'']" by (simp add: ParseExpression_def push_char_def)
  have first: "first_value demo_child_eval ''a'' = (S_OK, (Some 1, None))"
    by (simp add: first_value_def demo_child_eval_def demo_eval_def WalkStackVars_def HandleSpecialLocalVar_def has_prefix_def
        variable_lookup_def)
  have a: "EvalExpr demo_child_eval ''a'' = (S_OK, Some 1)"
    using first by (simp add: EvalExpr_def parts) (simp add: demo_child_eval_def demo_eval_def)
  have m: "distinct (map me_name (kept_members False (demo_members True)))"
    "hd (demo_members True) \<in> set (kept_members False (demo_members True))"
    "plain_name (me_name (hd (demo_members True)))" "CHR ''('' \<notin> set (me_name (hd (demo_members True)))"
    "member_value (vn_getter demo_answers 1) (hd (demo_members True)) = Some 7"
    by (simp_all add: demo_members_def kept_members_def plain_name_def member_value_def)
  have f: "fetched (vn_getter demo_answers 1) (hd (demo_members True)) = fetched (\<lambda>_. None) (hd (demo_members True))"
    by (simp add: fetched_def member_value_def demo_members_def)
  have e: "\<forall>v. ea_env demo_child_eval v = vn_env demo_answers v" "ea_getter demo_child_eval = vn_getter demo_answers"
    by (simp_all add: demo_child_eval_def demo_answers_def)
  have r: "vr_evaluateName demo_reference = ''a''" by (simp add: demo_reference_def)
  have "depth (vr_evaluateName demo_reference) = 0" by (simp add: r)
  moreover have "first_value demo_child_eval (ParseExpression (vr_evaluateName demo_reference) ! 0) = (S_OK, (Some 1, None))"
    using first by (simp only: r parts nth_Cons_0)
  moreover have "EvalExpr demo_child_eval (vr_evaluateName demo_reference) = (S_OK, Some 1)" using a by (simp only: r)
  ultimately show ?thesis
    using child_evaluates [OF _ _ _ e demo_listing m, of demo_reference 1 None init_variables] by (simp only: f simp_thms)
qed

text \<open>The scope of a frame announces as many variables as are listed for it, when the reference is new and the
  name of the module of an exception can be found.\<close>

theorem scope_announces:
  assumes "GetScopes va True frameId st = Inr (S_OK, [sc], st')" and "0 < sc_namedVariables sc"
    and "um_find (vs_variables st) (vs_next st) = None"
    and "\<forall>th. vn_thread va (GetThreadId frameId) = Some th \<longrightarrow> succeeded (fst (tv_module th))"
  shows "\<exists>vars st''. GetVariables va True (vs_next st) VariablesBoth 0 0 st' = Inr (S_OK, vars, st'') \<and>
    int (length vars) = sc_namedVariables sc"
proof -
  obtain th fv where F: "frame_of_id va frameId = Inr (th, Some fv)"
    using assms(1) by (auto simp: GetScopes_def split: option.splits sum.splits)
  then have th: "vn_thread va (GetThreadId frameId) = Some th"
    by (auto simp: frame_of_id_def split: option.splits prod.splits if_splits)
  obtain status n where W: "WalkStackVars (vn_env va) (vn_type va) fv count_variable (if tv_exception th = None then 0 else 1) =
      (status, n)" by fastforce
  have n: "succeeded status" "n > 0" "sc_namedVariables sc = n"
    and find: "um_find (vs_variables st') (vs_next st) =
      Some \<lparr>vr_namedVariables = n, vr_evaluateName = [], vr_valueKind = ValueIsScope, vr_value = None, vr_frameId = frameId\<rparr>"
    using assms(1-3) by (auto simp: GetScopes_def F W um_find_emplace split: if_splits)
  obtain s var st1 where E: "GetExceptionVariable va frameId th st' = ((s, var), st1)" by (metis prod.collapse)
  have s: "s = (if tv_exception th = None then E_FAIL else S_OK)"
    using E assms(4) th by (auto simp: GetExceptionVariable_def split: option.splits prod.splits)
  let ?first = "if s = S_OK then (0 :: int, [var]) else (- 1, [])"
  let ?R = "\<lambda>(i :: int, vars :: variable list, st :: variables_state) n. int (length vars) = n \<and> i = n - 1"
  have "kept_by ?R (stack_variable va frameId 0 0) count_variable"
    by (auto simp: kept_by_def total_stack_variable) (auto simp: total_callback_def count_variable_def stack_variable_def case_prod_beta)
  from WalkStackVars_sim [OF this, of "(fst ?first, snd ?first, st1)" "if tv_exception th = None then 0 else 1" "vn_env va" "vn_type va" fv]
  obtain i vars st2 where W': "WalkStackVars (vn_env va) (vn_type va) fv (stack_variable va frameId 0 0)
      (fst ?first, snd ?first, st1) = (status, (i, vars, st2))" and len: "int (length vars) = n"
    by (cases "WalkStackVars (vn_env va) (vn_type va) fv (stack_variable va frameId 0 0) (fst ?first, snd ?first, st1)")
      (auto simp: s W split: if_splits)
  then have "GetStackVariables va frameId th (Some fv) 0 0 st' = Inr (S_OK, vars, st2)"
    using n(1) by (simp only: GetStackVariables_def E W' prod.case option.case Let_def if_True)
  then show ?thesis using n(3) len by (simp add: GetVariables_def find F IsScope_def)
qed

definition demo_scopes :: var_answers where
  "demo_scopes = demo_answers\<lparr>vn_thread :=
     (\<lambda>_. Some \<lparr>tv_exception = Some 1, tv_module = (S_OK, ''m''), tv_frame = (\<lambda>_. (S_OK, Some (ea_frame demo_eval)))\<rparr>)\<rparr>"

definition demo_scoped :: variables_state where
  "demo_scoped = \<lparr>vs_variables = um_emplace 1 \<lparr>vr_namedVariables = 2, vr_evaluateName = [], vr_valueKind = ValueIsScope,
     vr_value = None, vr_frameId = 0\<rparr> [], vs_next = 2\<rparr>"

lemma demo_GetScopes: "GetScopes demo_scopes True 0 init_variables =
    Inr (S_OK, [\<lparr>sc_name = ''Locals'', sc_variablesReference = 1, sc_namedVariables = 2\<rparr>], demo_scoped)"
  by (simp add: GetScopes_def frame_of_id_def demo_scopes_def demo_eval_def WalkStackVars_def HandleSpecialLocalVar_def
      has_prefix_def count_variable_def init_variables_def demo_scoped_def)

theorem scope_announces_witness:
  "\<exists>vars st''. GetVariables demo_scopes True 1 VariablesBoth 0 0 demo_scoped = Inr (S_OK, vars, st'') \<and> length vars = 2"
  using scope_announces [OF demo_GetScopes] by (simp add: init_variables_def demo_scopes_def)

end
