(* ===== verification/Decimal_Print.thy ===== *)
theory Decimal_Print imports Protocol_Types begin

text \<open>
  The printing of \<open>System.Decimal\<close> (\<open>valueprint.cpp\<close>): the 96-bit integer is divided by ten in three
  32-bit limbs until it is zero, and the decimal point is set by the scale in the flags.
\<close>

section \<open>Division of 96 bits by 32\<close>

definition Make_64 :: "u32 \<Rightarrow> u32 \<Rightarrow> u64" where
  "Make_64 h l = push_bit 32 (ucast h) OR ucast l"

definition Lo_32 :: "u64 \<Rightarrow> u32" where
  "Lo_32 v = ucast v"

text \<open>\<open>uint32_t v[3]\<close>, the least significant limb first.\<close>

type_synonym u96 = "u32 \<times> u32 \<times> u32"

definition uint96_is_zero :: "u96 \<Rightarrow> bool" where
  "uint96_is_zero v = (case v of (v0, v1, v2) \<Rightarrow> v0 = 0 \<and> v1 = 0 \<and> v2 = 0)"

text \<open>The body of the loop: the new limb and the new remainder.  The product in the last branch is a product of
  32-bit numbers.\<close>

definition udivrem_step :: "u32 \<Rightarrow> u32 \<Rightarrow> u32 \<Rightarrow> u32 \<times> u32" where
  "udivrem_step divisor remainder digit =
     (let partial_dividend = Make_64 remainder digit in
      if partial_dividend = 0 then (0, 0)
      else if partial_dividend < ucast divisor then (0, Lo_32 partial_dividend)
      else if partial_dividend = ucast divisor then (1, 0)
      else let q = Lo_32 (partial_dividend div ucast divisor)
           in (q, Lo_32 (partial_dividend - ucast (q * divisor))))"

definition udivrem96 :: "u96 \<Rightarrow> u32 \<Rightarrow> u96 \<times> u32" where
  "udivrem96 v divisor =
     (case v of (v0, v1, v2) \<Rightarrow>
      case udivrem_step divisor 0 v2 of (q2, r2) \<Rightarrow>
      case udivrem_step divisor r2 v1 of (q1, r1) \<Rightarrow>
      case udivrem_step divisor r1 v0 of (q0, r0) \<Rightarrow> ((q0, q1, q2), r0))"

definition uint96_value :: "u96 \<Rightarrow> nat" where
  "uint96_value v = (case v of (v0, v1, v2) \<Rightarrow> unat v0 + 2 ^ 32 * unat v1 + 2 ^ 64 * unat v2)"

lemma unat_less32: "unat (x :: u32) < 4294967296"
  using unsigned_less [of x, where ?'a = nat] by simp

lemma Make_64_value: "unat (Make_64 h l) = unat h * 4294967296 + unat l"
proof -
  have "push_bit 32 (ucast h) AND ucast l = (0 :: u64)"
    by (rule bit_word_eqI) (auto simp: bit_simps dest: bit_imp_le_length)
  then have "Make_64 h l = push_bit 32 (ucast h) + ucast l"
    by (simp add: Make_64_def disjunctive_add_eq_or)
  moreover have "unat h * 4294967296 + unat l < 2 ^ 64" using unat_less32 [of h] unat_less32 [of l] by simp
  ultimately show ?thesis
    by (simp add: unat_word_ariths push_bit_eq_mult unsigned_ucast_eq take_bit_nat_eq_self)
qed

lemma Lo_32_value: "unat (Lo_32 v) = unat v mod 4294967296"
  by (simp add: Lo_32_def unsigned_ucast_eq take_bit_eq_mod)

lemma udivrem_step_value:
  assumes "remainder < divisor"
  shows "unat (fst (udivrem_step divisor remainder digit)) = (unat remainder * 4294967296 + unat digit) div unat divisor \<and>
    unat (snd (udivrem_step divisor remainder digit)) = (unat remainder * 4294967296 + unat digit) mod unat divisor"
proof -
  let ?p = "Make_64 remainder digit"
  define P where "P = unat remainder * 4294967296 + unat digit"
  define D where "D = unat divisor"
  have p: "unat ?p = P" by (simp add: P_def Make_64_value)
  have d: "unat (ucast divisor :: u64) = D"
    using unat_less32 [of divisor] by (simp add: D_def unsigned_ucast_eq take_bit_nat_eq_self)
  have D: "0 < D" "D < 4294967296" "unat remainder < D"
    using assms unat_less32 [of divisor] by (auto simp: D_def word_less_nat_alt)
  have P: "P < D * 4294967296" unfolding P_def
  proof -
    have "Suc (unat remainder) * 4294967296 \<le> D * 4294967296" using D(3) by (intro mult_le_mono1) simp
    then show "unat remainder * 4294967296 + unat digit < D * 4294967296" using unat_less32 [of digit] by simp
  qed
  then have q: "P div D < 4294967296" using D(1) by (simp add: less_mult_imp_div_less mult.commute)
  have quotient: "unat (Lo_32 (?p div ucast divisor)) = P div D" using q by (simp add: Lo_32_value unat_div p d)
  have m: "unat (ucast (Lo_32 (?p div ucast divisor) * divisor) :: u64) = P div D * D mod 4294967296"
    by (simp add: unsigned_ucast_eq unat_word_ariths quotient D_def take_bit_eq_mod mod_mod_cancel)
  have le: "P div D * D mod 4294967296 \<le> P" by (meson div_times_less_eq_dividend mod_less_eq_dividend order_trans)
  have split: "P - P div D * D mod 4294967296 = P mod D + 4294967296 * (P div D * D div 4294967296)"
    using div_mult_mod_eq [of "P div D * D" 4294967296] div_mult_mod_eq [of P D] by linarith
  have r: "P mod D < 4294967296" using D mod_less_divisor [of D P] by linarith
  have rest: "unat (Lo_32 (?p - ucast (Lo_32 (?p div ucast divisor) * divisor))) = P mod D"
    using le r by (simp add: Lo_32_value unat_sub word_le_nat_alt m p split)
  have "?p = 0 \<longleftrightarrow> P = 0" using p by (metis unat_eq_0)
  moreover have "?p < ucast divisor \<longleftrightarrow> P < D" by (simp add: word_less_nat_alt p d)
  moreover have "?p = ucast divisor \<longleftrightarrow> P = D" by (metis p d word_unat_eq_iff)
  ultimately show ?thesis
    using D by (simp add: udivrem_step_def Let_def quotient rest flip: P_def D_def) (auto simp: Lo_32_value p)
qed

text \<open>Long division: a limb after the other, from the most significant one.\<close>

lemma long_division_step:
  fixes a b d :: nat
  shows "(a * 4294967296 + b) div d = a div d * 4294967296 + (a mod d * 4294967296 + b) div d"
    and "(a * 4294967296 + b) mod d = (a mod d * 4294967296 + b) mod d"
proof -
  define k r where "k = a div d" and "r = a mod d"
  have "a = d * k + r" by (simp add: k_def r_def)
  then have e: "a * 4294967296 + b = d * (k * 4294967296) + (r * 4294967296 + b)" by (simp add: algebra_simps)
  show "(a * 4294967296 + b) mod d = (a mod d * 4294967296 + b) mod d"
    unfolding e r_def [symmetric] by simp
  show "(a * 4294967296 + b) div d = a div d * 4294967296 + (a mod d * 4294967296 + b) div d"
  proof (cases "d = 0")
    case False
    then show ?thesis unfolding e r_def [symmetric] k_def [symmetric] by simp
  qed simp
qed

lemma udivrem96_value:
  assumes "0 < divisor" and "udivrem96 v divisor = (q, r)"
  shows "uint96_value q = uint96_value v div unat divisor \<and> unat r = uint96_value v mod unat divisor"
proof -
  obtain v0 v1 v2 where v: "v = (v0, v1, v2)" by (cases v)
  obtain q2 r2 where 2: "udivrem_step divisor 0 v2 = (q2, r2)" by fastforce
  obtain q1 r1 where 1: "udivrem_step divisor r2 v1 = (q1, r1)" by fastforce
  obtain q0 r0 where 0: "udivrem_step divisor r1 v0 = (q0, r0)" by fastforce
  let ?d = "unat divisor"
  have d: "0 < ?d" using assms(1) by (simp add: word_less_nat_alt)
  have s2: "unat q2 = unat v2 div ?d" "unat r2 = unat v2 mod ?d" using udivrem_step_value [OF assms(1), of v2] by (simp_all add: 2)
  then have "r2 < divisor" using d by (simp add: word_less_nat_alt)
  from udivrem_step_value [OF this, of v1]
  have s1: "unat q1 = (unat r2 * 4294967296 + unat v1) div ?d" "unat r1 = (unat r2 * 4294967296 + unat v1) mod ?d" by (simp_all add: 1)
  then have "r1 < divisor" using d by (simp add: word_less_nat_alt)
  from udivrem_step_value [OF this, of v0]
  have s0: "unat q0 = (unat r1 * 4294967296 + unat v0) div ?d" "unat r0 = (unat r1 * 4294967296 + unat v0) mod ?d" by (simp_all add: 0)
  let ?a = "unat v2 * 4294967296 + unat v1"
  have a: "?a div ?d = unat q2 * 4294967296 + unat q1" "?a mod ?d = unat r1"
    using long_division_step [of "unat v2" "unat v1" ?d] s1 s2 by simp_all
  have "(?a * 4294967296 + unat v0) div ?d = (unat q2 * 4294967296 + unat q1) * 4294967296 + unat q0"
    "(?a * 4294967296 + unat v0) mod ?d = unat r0"
    using long_division_step [of ?a "unat v0" ?d] s0 a by simp_all
  moreover have "uint96_value v = ?a * 4294967296 + unat v0" by (simp add: uint96_value_def v)
  ultimately show ?thesis using assms(2) by (auto simp: udivrem96_def v 2 1 0 uint96_value_def ac_simps)
qed

lemma uint96_is_zero_value: "uint96_is_zero v \<longleftrightarrow> uint96_value v = 0"
  by (cases v) (auto simp: uint96_is_zero_def uint96_value_def unat_eq_0)

lemma uint96_shrinks: "(v', rem) = udivrem96 v 10 \<Longrightarrow> \<not> uint96_is_zero v' \<Longrightarrow> uint96_value v' < uint96_value v"
  using udivrem96_value [of 10 v v' rem] by (simp add: uint96_is_zero_value)

section \<open>Printing\<close>

text \<open>The \<open>do\<close> loop of \<open>uint96_to_string\<close> ends because the value shrinks as long as it is not zero.\<close>

function uint96_string_loop :: "u96 \<Rightarrow> string \<Rightarrow> string" where
  "uint96_string_loop v result =
     (case udivrem96 v 10 of (v', rem) \<Rightarrow>
        let result' = digit_char (unat rem) # result
        in if uint96_is_zero v' then result' else uint96_string_loop v' result')"
  by pat_completeness auto
termination
  by (relation "measure (\<lambda>(v, result). uint96_value v)") (simp_all add: uint96_shrinks)

declare uint96_string_loop.simps [simp del]

definition uint96_to_string :: "u96 \<Rightarrow> string" where
  "uint96_to_string v = uint96_string_loop v []"

definition PrintDecimal :: "u32 \<Rightarrow> u32 \<Rightarrow> u32 \<Rightarrow> u32 \<Rightarrow> string" where
  "PrintDecimal hi mid lo flags =
     (let digits = uint96_to_string (lo, mid, hi);
          scale = unat (drop_bit 16 (flags AND 0x00FF0000));
          is_negative = (flags AND push_bit 31 1 \<noteq> 0);
          len = length digits;
          output = (if len > scale
                    then (if scale \<noteq> 0 then str_insert (len - scale) (CHR ''.'') digits else digits)
                    else ''0.'' @ replicate (scale - len) (CHR ''0'') @ digits)
      in if is_negative then CHR ''-'' # output else output)"

lemma uint96_string_loop_digits: "uint96_string_loop v result = to_string (uint96_value v) @ result"
proof (induction v result rule: uint96_string_loop.induct)
  case (1 v result)
  obtain q r where d: "udivrem96 v 10 = (q, r)" by fastforce
  then have v: "uint96_value q = uint96_value v div 10" "unat r = uint96_value v mod 10"
    using udivrem96_value [of 10 v q r] by simp_all
  show ?case
  proof (cases "uint96_is_zero q")
    case True
    then have "uint96_value v < 10" using v by (simp add: uint96_is_zero_value)
    then show ?thesis using True v by (subst uint96_string_loop.simps) (simp add: d to_string.simps [of "uint96_value v"])
  next
    case False
    then have "\<not> uint96_value v < 10" using v by (simp add: uint96_is_zero_value)
    then show ?thesis
      using False v 1 [OF d [symmetric] refl False]
      by (subst uint96_string_loop.simps) (simp add: d to_string.simps [of "uint96_value v"])
  qed
qed

lemma uint96_to_string_value: "uint96_to_string v = to_string (uint96_value v)"
  by (simp add: uint96_to_string_def uint96_string_loop_digits)

section \<open>Reading the text\<close>

text \<open>The number a decimal text stands for: its sign, its digits as an integer, and the number of digits after the
  point.\<close>

definition read_decimal :: "string \<Rightarrow> bool \<times> nat \<times> nat" where
  "read_decimal s =
     (let t = (if s \<noteq> [] \<and> hd s = CHR ''-'' then tl s else s)
      in (t \<noteq> s, digits_val (filter (\<lambda>c. c \<noteq> CHR ''.'') t),
          case str_find (CHR ''.'') t of None \<Rightarrow> 0 | Some i \<Rightarrow> length t - (i + 1)))"

lemma digits_no_point:
  assumes "\<forall>c \<in> set ds. is_digit c"
  shows "filter (\<lambda>c. c \<noteq> CHR ''.'') ds = ds" and "CHR ''.'' \<notin> set ds" and "ds \<noteq> [] \<Longrightarrow> hd ds \<noteq> CHR ''-''"
proof -
  show "ds \<noteq> [] \<Longrightarrow> hd ds \<noteq> CHR ''-''" using bspec [OF assms hd_in_set] by (auto simp: is_digit_def)
qed (use assms in \<open>auto simp: is_digit_def filter_id_conv\<close>)

lemma digits_val_zeros: "digits_val (replicate n (CHR ''0'') @ ds) = digits_val ds"
  by (induction n) (simp_all add: digits_val_def digit_val_def)

lemma read_plain: "\<forall>c \<in> set ds. is_digit c \<Longrightarrow> read_decimal ds = (False, digits_val ds, 0)"
  using digits_no_point [of ds] str_find_None_iff [of "CHR ''.''" ds] by (auto simp: read_decimal_def)

lemma read_point:
  assumes "\<forall>c \<in> set ds. is_digit c" and "\<forall>c \<in> set es. is_digit c" and "ds \<noteq> []"
  shows "read_decimal (ds @ CHR ''.'' # es) = (False, digits_val (ds @ es), length es)"
  using digits_no_point [OF assms(1)] digits_no_point [OF assms(2)] assms(3) str_find_append_notin [of "CHR ''.''" ds es]
  by (simp add: read_decimal_def)

lemma read_minus: "read_decimal s = (False, n, k) \<Longrightarrow> s \<noteq> [] \<Longrightarrow> hd s \<noteq> CHR ''-'' \<Longrightarrow>
    read_decimal (CHR ''-'' # s) = (True, n, k)"
  by (simp add: read_decimal_def)

section \<open>Properties\<close>

text \<open>C20. A decimal is printed exactly: read back, the text has the sign bit, the 96-bit integer and as many digits
  after the point as the scale of the flags says, for every value of the four words.\<close>

theorem PrintDecimal_exact:
  "read_decimal (PrintDecimal hi mid lo flags) =
     (bit flags 31, unat lo + 2 ^ 32 * unat mid + 2 ^ 64 * unat hi, unat (drop_bit 16 (flags AND 0x00FF0000)))"
proof -
  let ?n = "unat lo + 2 ^ 32 * unat mid + 2 ^ 64 * unat hi"
  define ds where "ds = to_string ?n"
  define k where "k = unat (drop_bit 16 (flags AND 0x00FF0000))"
  have ds: "\<forall>c \<in> set ds. is_digit c" "ds \<noteq> []" "digits_val ds = ?n"
    using digits_to_string [of ?n] to_string_nonempty [of ?n] digits_val_to_string [of ?n] unfolding ds_def by blast+
  define out where "out = (if length ds > k then (if k \<noteq> 0 then str_insert (length ds - k) (CHR ''.'') ds else ds)
                    else ''0.'' @ replicate (k - length ds) (CHR ''0'') @ ds)"
  have P: "PrintDecimal hi mid lo flags = (if flags AND push_bit 31 1 \<noteq> 0 then CHR ''-'' # out else out)"
    by (simp add: PrintDecimal_def uint96_to_string_value uint96_value_def out_def k_def ds_def Let_def)
  have sign: "flags AND push_bit 31 1 \<noteq> 0 \<longleftrightarrow> bit flags 31"
    using and_exp_eq_0_iff_not_bit [of flags 31] by simp
  have take: "\<forall>c \<in> set (take m ds). is_digit c" and drop: "\<forall>c \<in> set (drop m ds). is_digit c" for m
    using ds(1) by (auto dest: in_set_takeD in_set_dropD)
  have zero: "is_digit (CHR ''0'')" by (simp add: is_digit_def)
  have out: "read_decimal out = (False, ?n, k) \<and> out \<noteq> [] \<and> hd out \<noteq> CHR ''-''"
  proof (cases "length ds > k")
    case True
    show ?thesis
    proof (cases "k = 0")
      case True
      then show ?thesis using ds read_plain [OF ds(1)] digits_no_point(3) [OF ds(1)] by (simp add: out_def)
    next
      case False
      have "take (length ds - k) ds \<noteq> []" using True ds(2) by simp
      then show ?thesis
        using True False ds read_point [OF take drop, of "length ds - k" "length ds - k"] digits_no_point(3) [OF take]
        by (simp add: out_def str_insert_def)
    qed
  next
    case False
    have "read_decimal (''0'' @ CHR ''.'' # (replicate (k - length ds) (CHR ''0'') @ ds)) =
        (False, digits_val (''0'' @ (replicate (k - length ds) (CHR ''0'') @ ds)), length (replicate (k - length ds) (CHR ''0'') @ ds))"
      by (rule read_point) (use ds(1) zero in auto)
    moreover have "digits_val (''0'' @ (replicate (k - length ds) (CHR ''0'') @ ds)) = ?n"
      using digits_val_zeros [of "Suc (k - length ds)" ds] ds(3) by simp
    ultimately show ?thesis using False by (simp add: out_def)
  qed
  then show ?thesis unfolding P k_def [symmetric] sign using read_minus [of out ?n k] by auto
qed

end
