(* ===== verification/Value_Print.thy ===== *)
theory Value_Print imports Decimal_Print Value_Walk Mi_Print Entry_Point Cor_Types "HOL-Library.Sublist" begin

text \<open>
  The printing of values (\<open>valueprint.cpp\<close>): dereferencing and unboxing, strings and characters between
  quotes, arrays, enumerations, decimals, numbers; and the marshalling of a value for the compiler
  service, with the printing of what comes back.  The bytes of a value are what \<open>GetValue\<close> copies.
\<close>

section \<open>References and boxes\<close>

text \<open>A value as \<open>DereferenceAndUnboxValue\<close> meets it: a reference with the answer of \<open>IsNull\<close> and what it refers
  to, a box with its content, or anything else; each is the value with a number.  A failed call is a
  result.\<close>

datatype raw_value =
    Raw_Reference val "hresult \<times> bool" "hresult + raw_value"
  | Raw_Box val "hresult + raw_value"
  | Raw_Plain val

text \<open>The result, the value (none on failure), and whether it is null.\<close>

fun DereferenceAndUnboxValue :: "raw_value \<Rightarrow> hresult \<times> val option \<times> bool" where
  "DereferenceAndUnboxValue (Raw_Reference v (status, isNull) target) =
     (if \<not> succeeded status then (status, None, False)
      else if isNull then (S_OK, Some v, True)
      else (case target of Inl st \<Rightarrow> (st, None, False) | Inr t \<Rightarrow> DereferenceAndUnboxValue t))"
| "DereferenceAndUnboxValue (Raw_Box v content) =
     (case content of Inl st \<Rightarrow> (st, None, False) | Inr t \<Rightarrow> DereferenceAndUnboxValue t)"
| "DereferenceAndUnboxValue (Raw_Plain v) = (S_OK, Some v, False)"

section \<open>Numbers in a buffer\<close>

definition le_word :: "nat \<Rightarrow> bytes \<Rightarrow> 'a::len word" where
  "le_word n bs = of_nat (le_nat (take n bs))"

text \<open>What the library makes of a UTF-16 unit, a single and a double: \<open>to_utf8\<close>, and the streams with 8 and 16
  digits.\<close>

record text_answers =
  tx_utf8 :: "16 word \<Rightarrow> string"
  tx_single :: "u32 \<Rightarrow> string"
  tx_double :: "u64 \<Rightarrow> string"

section \<open>Strings\<close>

text \<open>The \<open>switch\<close> of \<open>EscapeString\<close>: the character after the inserted backslash, for the quote \<open>q\<close>; the loop is
  that of \<open>EscapeMIValue\<close>.\<close>

definition escape_string_code :: "char \<Rightarrow> char \<Rightarrow> char option" where
  "escape_string_code q c =
     (if c = CHR 0x27 then (if c \<noteq> q then None else Some (CHR 0x27))
      else if c = CHR 0x22 then (if c \<noteq> q then None else Some (CHR 0x22))
      else if c = CHR 0x5C then Some (CHR 0x5C)
      else if c = CHR 0x00 then Some (CHR ''0'')
      else if c = CHR 0x07 then Some (CHR ''a'')
      else if c = CHR 0x08 then Some (CHR ''b'')
      else if c = CHR 0x0C then Some (CHR ''f'')
      else if c = CHR 0x0A then Some (CHR ''n'')
      else if c = CHR 0x0D then Some (CHR ''r'')
      else if c = CHR 0x09 then Some (CHR ''t'')
      else if c = CHR 0x0B then Some (CHR ''v'')
      else None)"

definition EscapeString :: "string \<Rightarrow> char \<Rightarrow> string" where
  "EscapeString s q = escape_loop (escape_string_code q) s 0"

definition quoted :: "string \<Rightarrow> string" where
  "quoted s = CHR 0x22 # EscapeString s (CHR 0x22) @ [CHR 0x22]"

definition char_text :: "text_answers \<Rightarrow> 16 word \<Rightarrow> string" where
  "char_text tx wc = to_string (unat wc) @ '' '' @ CHR 0x27 # EscapeString (tx_utf8 tx wc) (CHR 0x27) @ [CHR 0x27]"

section \<open>Arrays\<close>

text \<open>\<open>names\<close> is the printed element type and the brackets of the types inside it; both are empty when the type
  cannot be found.\<close>

fun array_bounds :: "(u32 \<times> u32) list \<Rightarrow> string list" where
  "array_bounds [] = []"
| "array_bounds ((base, dim) # bs) =
     (if base > 0 then to_string (unat base) @ ''..'' @ to_string (unat (base + dim - 1)) else to_string (unat dim))
     # array_bounds bs"

fun comma_space :: "string list \<Rightarrow> string" where
  "comma_space [] = []"
| "comma_space [x] = x"
| "comma_space (x # y # ys) = x @ '', '' @ comma_space (y # ys)"

definition PrintArrayValue :: "array_answer option \<Rightarrow> string \<times> string \<Rightarrow> hresult + string" where
  "PrintArrayValue array names =
     (case array of
        None \<Rightarrow> Inl E_NOINTERFACE
      | Some ar \<Rightarrow>
          if \<not> succeeded (fst (ar_rank ar)) then Inl (fst (ar_rank ar))
          else if snd (ar_rank ar) < 1 then Inl E_UNEXPECTED
          else if \<not> succeeded (fst (ar_count ar)) then Inl (fst (ar_count ar))
          else if ar_has_base ar \<and> \<not> succeeded (fst (ar_base ar)) then Inl (fst (ar_base ar))
          else
            let zeros = replicate (snd (ar_rank ar)) 0;
                dims = (if succeeded (fst (ar_dims ar)) then snd (ar_dims ar) else zeros);
                base = (if ar_has_base ar then snd (ar_base ar) else zeros)
            in Inr (''{'' @ fst names @ ''['' @ comma_space (array_bounds (zip base dims)) @ '']'' @ snd names @ ''}''))"

section \<open>Enumerations\<close>

definition fdStatic :: u32 where "fdStatic = 0x0010"
definition fdLiteral :: u32 where "fdLiteral = 0x0040"
definition enum_required :: u32 where "enum_required = 0x0006 OR fdStatic OR fdLiteral OR 0x8000"

text \<open>A field of the type: whether its properties can be read, its attributes, the element type of its signature, its
  name and the bytes of its constant.\<close>

record enum_field =
  ef_props :: bool
  ef_attr :: u32
  ef_type :: cor_element
  ef_name :: string
  ef_raw :: bytes

definition enum_underlying :: "enum_field list \<Rightarrow> cor_element" where
  "enum_underlying fs =
     (case List.find (\<lambda>f. ef_props f \<and> ef_attr f AND fdStatic = 0) fs of None \<Rightarrow> ELEMENT_TYPE_END | Some f \<Rightarrow> ef_type f)"

text \<open>\<open>(ULONG64)(*((T* )pRawValue))\<close>; \<open>LONG\<close> and \<open>ULONG\<close> have 32 bits, \<open>CHAR\<close> is signed.\<close>

definition enum_constant :: "cor_element \<Rightarrow> bytes \<Rightarrow> u64" where
  "enum_constant ty raw =
     (if ty = ELEMENT_TYPE_CHAR \<or> ty = ELEMENT_TYPE_I1 then scast (le_word 1 raw :: 8 word)
      else if ty = ELEMENT_TYPE_U1 then ucast (le_word 1 raw :: 8 word)
      else if ty = ELEMENT_TYPE_I2 then scast (le_word 2 raw :: 16 word)
      else if ty = ELEMENT_TYPE_U2 then ucast (le_word 2 raw :: 16 word)
      else if ty = ELEMENT_TYPE_I4 then scast (le_word 4 raw :: u32)
      else if ty = ELEMENT_TYPE_U4 then ucast (le_word 4 raw :: u32)
      else if ty = ELEMENT_TYPE_I8 then scast (le_word 4 raw :: u32)
      else if ty = ELEMENT_TYPE_U8 then ucast (le_word 4 raw :: u32)
      else if ty = ELEMENT_TYPE_I then scast (le_word 4 raw :: u32)
      else 0)"

definition enum_matches :: "u64 \<Rightarrow> u64 \<Rightarrow> bool" where
  "enum_matches c remaining \<longleftrightarrow> c = remaining \<or> c \<noteq> 0 \<and> c AND remaining = c"

fun enum_loop :: "cor_element \<Rightarrow> enum_field list \<Rightarrow> u64 \<Rightarrow> string \<Rightarrow> string \<Rightarrow> string" where
  "enum_loop ty [] remainingValue sep ss = ss"
| "enum_loop ty (f # fs) remainingValue sep ss =
     (if \<not> ef_props f \<or> ef_attr f AND enum_required \<noteq> enum_required then enum_loop ty fs remainingValue sep ss
      else let c = enum_constant ty (ef_raw f) in
        if enum_matches c remainingValue
        then enum_loop ty fs (remainingValue AND NOT c) '' | '' (ss @ sep @ ef_name f)
        else enum_loop ty fs remainingValue sep ss)"

text \<open>Eight bytes are read from the buffer of the value whatever its size; \<open>beyond\<close> is the memory after it.\<close>

definition PrintEnumValue :: "hresult \<times> enum_field list \<Rightarrow> bytes \<Rightarrow> bytes \<Rightarrow> hresult + string" where
  "PrintEnumValue fs enumValue beyond =
     (if \<not> succeeded (fst fs) then Inl (fst fs)
      else Inr (enum_loop (enum_underlying (snd fs)) (snd fs) (le_word 8 (enumValue @ beyond)) [] []))"

section \<open>Decimals\<close>

text \<open>A field of the decimal: its properties, attributes, the calls that get its value, its name; and what
  \<open>GetUIntValue\<close> asks of the value.\<close>

record uint_answer =
  ui_deref :: "hresult \<times> bool"
  ui_size :: "hresult \<times> nat"
  ui_generic :: "hresult \<times> bytes"
  ui_type :: "hresult \<times> cor_element"

definition GetUIntValue :: "uint_answer \<Rightarrow> hresult + u32" where
  "GetUIntValue u =
     (if \<not> succeeded (fst (ui_deref u)) then Inl (fst (ui_deref u))
      else if snd (ui_deref u) then Inl E_FAIL
      else if \<not> succeeded (fst (ui_size u)) then Inl (fst (ui_size u))
      else if snd (ui_size u) \<noteq> 4 then Inl E_FAIL
      else if \<not> succeeded (fst (ui_generic u)) then Inl (fst (ui_generic u))
      else if \<not> succeeded (fst (ui_type u)) then Inl (fst (ui_type u))
      else if snd (ui_type u) = ELEMENT_TYPE_I4 \<or> snd (ui_type u) = ELEMENT_TYPE_U4 then Inr (le_word 4 (snd (ui_generic u)))
      else Inl E_FAIL)"

record decimal_field =
  df_props :: bool
  df_attr :: u32
  df_get :: hresult
  df_name :: string
  df_value :: uint_answer

record decimal_fields =
  d_hi :: "u32 option"
  d_mid :: "u32 option"
  d_lo :: "u32 option"
  d_flags :: "u32 option"

fun decimal_loop :: "decimal_field list \<Rightarrow> decimal_fields \<Rightarrow> hresult + decimal_fields" where
  "decimal_loop [] d = Inr d"
| "decimal_loop (f # fs) d =
     (if \<not> df_props f \<or> df_attr f AND fdLiteral \<noteq> 0 \<or> df_attr f AND fdStatic \<noteq> 0 then decimal_loop fs d
      else if \<not> succeeded (df_get f) then Inl (df_get f)
      else if df_name f = ''hi'' then
        (case GetUIntValue (df_value f) of Inl st \<Rightarrow> Inl st | Inr x \<Rightarrow> decimal_loop fs (d\<lparr>d_hi := Some x\<rparr>))
      else if df_name f = ''mid'' then
        (case GetUIntValue (df_value f) of Inl st \<Rightarrow> Inl st | Inr x \<Rightarrow> decimal_loop fs (d\<lparr>d_mid := Some x\<rparr>))
      else if df_name f = ''lo'' then
        (case GetUIntValue (df_value f) of Inl st \<Rightarrow> Inl st | Inr x \<Rightarrow> decimal_loop fs (d\<lparr>d_lo := Some x\<rparr>))
      else if df_name f = ''flags'' then
        (case GetUIntValue (df_value f) of Inl st \<Rightarrow> Inl st | Inr x \<Rightarrow> decimal_loop fs (d\<lparr>d_flags := Some x\<rparr>))
      else decimal_loop fs d)"

definition GetDecimalFields :: "hresult \<times> decimal_field list \<Rightarrow> hresult + u32 \<times> u32 \<times> u32 \<times> u32" where
  "GetDecimalFields fs =
     (if \<not> succeeded (fst fs) then Inl (fst fs)
      else (case decimal_loop (snd fs) \<lparr>d_hi = None, d_mid = None, d_lo = None, d_flags = None\<rparr> of
        Inl st \<Rightarrow> Inl st
      | Inr d \<Rightarrow> (case (d_hi d, d_mid d, d_lo d, d_flags d) of
                    (Some hi, Some mid, Some lo, Some flags) \<Rightarrow> Inr (hi, mid, lo, flags)
                  | _ \<Rightarrow> Inl E_FAIL)))"

definition PrintDecimalValue :: "hresult \<times> decimal_field list \<Rightarrow> hresult + string" where
  "PrintDecimalValue fs =
     (case GetDecimalFields fs of Inl st \<Rightarrow> Inl st | Inr (hi, mid, lo, flags) \<Rightarrow> Inr (PrintDecimal hi mid lo flags))"

text \<open>\<open>struct Decimal\<close>: flags, hi, lo, mid.\<close>

definition print_raw_decimal :: "bytes \<Rightarrow> string" where
  "print_raw_decimal raw =
     PrintDecimal (le_word 4 (drop 4 raw)) (le_word 4 (drop 12 raw)) (le_word 4 (drop 8 raw)) (le_word 4 raw)"

section \<open>Printing a value\<close>

text \<open>What the runtime answers about the dereferenced value: size, element type, the string in UTF-8, the array
  interface and the names of its type, the copied bytes, the name of the base type (None when a call on
  the way fails), the fields of the type for an enumeration and for a decimal, the address of a function
  pointer, the printed type, and the memory behind the buffer.\<close>

record print_answers =
  px_size :: hresult
  px_elem :: "hresult \<times> cor_element"
  px_string :: "hresult \<times> string"
  px_array :: "array_answer option"
  px_names :: "string \<times> string"
  px_generic :: "hresult \<times> bytes"
  px_base :: "string option"
  px_enum :: "hresult \<times> enum_field list"
  px_decimal :: "hresult \<times> decimal_field list"
  px_address :: u64
  px_type :: string
  px_beyond :: bytes

definition IsEnum :: "print_answers \<Rightarrow> bool" where
  "IsEnum px = (px_base px = Some ''System.Enum'')"

text \<open>The \<open>switch\<close> on the element type.\<close>

fun print_element :: "text_answers \<Rightarrow> print_answers \<Rightarrow> bool \<Rightarrow> bytes \<Rightarrow> cor_element \<Rightarrow> string" where
  "print_element tx px escape b ELEMENT_TYPE_PTR = ''<pointer>''"
| "print_element tx px escape b ELEMENT_TYPE_FNPTR = ''<function pointer 0x'' @ to_hex (unat (px_address px)) @ ''>''"
| "print_element tx px escape b ELEMENT_TYPE_VALUETYPE =
     (if px_type px = ''decimal'' then (case PrintDecimalValue (px_decimal px) of Inl _ \<Rightarrow> [] | Inr val \<Rightarrow> val)
      else ''{'' @ px_type px @ ''}'')"
| "print_element tx px escape b ELEMENT_TYPE_CLASS =
     (if px_type px = ''decimal'' then (case PrintDecimalValue (px_decimal px) of Inl _ \<Rightarrow> [] | Inr val \<Rightarrow> val)
      else ''{'' @ px_type px @ ''}'')"
| "print_element tx px escape b ELEMENT_TYPE_BOOLEAN = (if (le_word 1 b :: 8 word) = 0 then ''false'' else ''true'')"
| "print_element tx px escape b ELEMENT_TYPE_CHAR =
     (if \<not> escape then tx_utf8 tx (le_word 2 b) else char_text tx (le_word 2 b))"
| "print_element tx px escape b ELEMENT_TYPE_I1 = show_int (sint (le_word 1 b :: 8 word))"
| "print_element tx px escape b ELEMENT_TYPE_U1 = to_string (unat (le_word 1 b :: 8 word))"
| "print_element tx px escape b ELEMENT_TYPE_I2 = show_int (sint (le_word 2 b :: 16 word))"
| "print_element tx px escape b ELEMENT_TYPE_U2 = to_string (unat (le_word 2 b :: 16 word))"
| "print_element tx px escape b ELEMENT_TYPE_I = show_int (sint (le_word 4 b :: u32))"
| "print_element tx px escape b ELEMENT_TYPE_U = to_string (unat (le_word 4 b :: u32))"
| "print_element tx px escape b ELEMENT_TYPE_I4 = show_int (sint (le_word 4 b :: u32))"
| "print_element tx px escape b ELEMENT_TYPE_U4 = to_string (unat (le_word 4 b :: u32))"
| "print_element tx px escape b ELEMENT_TYPE_I8 = show_int (sint (le_word 8 b :: u64))"
| "print_element tx px escape b ELEMENT_TYPE_U8 = to_string (unat (le_word 8 b :: u64))"
| "print_element tx px escape b ELEMENT_TYPE_R4 = tx_single tx (le_word 4 b)"
| "print_element tx px escape b ELEMENT_TYPE_R8 = tx_double tx (le_word 8 b)"
| "print_element tx px escape b ELEMENT_TYPE_OBJECT = ''object''"
| "print_element tx px escape b ty = ''(Unhandled CorElementType: 0x'' @ to_hex (element_code ty) @ '')''"

definition PrintValue :: "text_answers \<Rightarrow> (val \<Rightarrow> print_answers) \<Rightarrow> raw_value \<Rightarrow> bool \<Rightarrow> hresult + string" where
  "PrintValue tx env input escape =
     (case DereferenceAndUnboxValue input of
        (status, None, _) \<Rightarrow> Inl status
      | (status, Some v, isNull) \<Rightarrow>
          if isNull then Inr ''null''
          else
            let px = env v; ty = snd (px_elem px) in
            if \<not> succeeded (px_size px) then Inl (px_size px)
            else if \<not> succeeded (fst (px_elem px)) then Inl (fst (px_elem px))
            else if ty = ELEMENT_TYPE_STRING then
              (if \<not> succeeded (fst (px_string px)) then Inl (fst (px_string px))
               else Inr (if \<not> escape then snd (px_string px) else quoted (snd (px_string px))))
            else if ty = ELEMENT_TYPE_SZARRAY \<or> ty = ELEMENT_TYPE_ARRAY then PrintArrayValue (px_array px) (px_names px)
            else if \<not> succeeded (fst (px_generic px)) then Inl (fst (px_generic px))
            else if IsEnum px then PrintEnumValue (px_enum px) (snd (px_generic px)) (px_beyond px)
            else Inr (print_element tx px escape (snd (px_generic px)) ty))"

section \<open>Values of the compiler service\<close>

datatype basic_type =
    TypeCorValue | TypeObject | TypeBoolean | TypeByte | TypeSByte | TypeChar | TypeDouble | TypeSingle
  | TypeInt32 | TypeUInt32 | TypeInt64 | TypeUInt64 | TypeInt16 | TypeUInt16 | TypeIntPtr | TypeUIntPtr
  | TypeDecimal | TypeString | Type_Unknown int

definition byte_string :: "bytes \<Rightarrow> string" where
  "byte_string bs = map (\<lambda>b. char_of (unat b)) bs"

text \<open>The type name, which keeps what it was where the code sets none, and the text.\<close>

fun PrintBasicValue :: "text_answers \<Rightarrow> basic_type \<Rightarrow> bytes \<Rightarrow> string \<Rightarrow> string \<times> string" where
  "PrintBasicValue tx TypeCorValue raw name = (''object'', ''null'')"
| "PrintBasicValue tx TypeObject raw name = (''object'', ''null'')"
| "PrintBasicValue tx TypeBoolean raw name = (''bool'', if (le_word 1 raw :: 8 word) = 0 then ''false'' else ''true'')"
| "PrintBasicValue tx TypeByte raw name = (''byte'', to_string (unat (le_word 1 raw :: 8 word)))"
| "PrintBasicValue tx TypeSByte raw name = (''sbyte'', show_int (sint (le_word 1 raw :: 8 word)))"
| "PrintBasicValue tx TypeChar raw name = (''char'', char_text tx (le_word 2 raw))"
| "PrintBasicValue tx TypeDouble raw name = (''double'', tx_double tx (le_word 8 raw))"
| "PrintBasicValue tx TypeSingle raw name = (''float'', tx_single tx (le_word 4 raw))"
| "PrintBasicValue tx TypeInt32 raw name = (''int'', show_int (sint (le_word 4 raw :: u32)))"
| "PrintBasicValue tx TypeUInt32 raw name = (''uint'', to_string (unat (le_word 4 raw :: u32)))"
| "PrintBasicValue tx TypeInt64 raw name = (''long'', show_int (sint (le_word 8 raw :: u64)))"
| "PrintBasicValue tx TypeUInt64 raw name = (''ulong'', to_string (unat (le_word 8 raw :: u64)))"
| "PrintBasicValue tx TypeInt16 raw name = (''short'', show_int (sint (le_word 2 raw :: 16 word)))"
| "PrintBasicValue tx TypeUInt16 raw name = (''ushort'', to_string (unat (le_word 2 raw :: 16 word)))"
| "PrintBasicValue tx TypeIntPtr raw name = (''IntPtr'', ''0x'' @ to_hex (unat (le_word 8 raw :: u64)))"
| "PrintBasicValue tx TypeUIntPtr raw name = (''UIntPtr'', ''0x'' @ to_hex (unat (le_word 8 raw :: u64)))"
| "PrintBasicValue tx TypeDecimal raw name = (''decimal'', print_raw_decimal raw)"
| "PrintBasicValue tx TypeString raw name = (name, quoted (byte_string raw))"
| "PrintBasicValue tx (Type_Unknown i) raw name = (name, [])"

text \<open>What is handed to the service: nothing, a string, the value itself, or a copy of its bytes.\<close>

datatype marshalled = Marshal_Null | Marshal_String string | Marshal_Value raw_value | Marshal_Bytes bytes

fun marshal_type :: "cor_element \<Rightarrow> basic_type option" where
  "marshal_type ELEMENT_TYPE_PTR = Some TypeIntPtr"
| "marshal_type ELEMENT_TYPE_FNPTR = Some TypeIntPtr"
| "marshal_type ELEMENT_TYPE_BOOLEAN = Some TypeBoolean"
| "marshal_type ELEMENT_TYPE_CHAR = Some TypeChar"
| "marshal_type ELEMENT_TYPE_I1 = Some TypeSByte"
| "marshal_type ELEMENT_TYPE_U1 = Some TypeByte"
| "marshal_type ELEMENT_TYPE_I2 = Some TypeInt16"
| "marshal_type ELEMENT_TYPE_U2 = Some TypeUInt16"
| "marshal_type ELEMENT_TYPE_I = Some TypeIntPtr"
| "marshal_type ELEMENT_TYPE_U = Some TypeUIntPtr"
| "marshal_type ELEMENT_TYPE_I4 = Some TypeInt32"
| "marshal_type ELEMENT_TYPE_U4 = Some TypeUInt32"
| "marshal_type ELEMENT_TYPE_I8 = Some TypeInt64"
| "marshal_type ELEMENT_TYPE_U8 = Some TypeUInt64"
| "marshal_type ELEMENT_TYPE_R4 = Some TypeSingle"
| "marshal_type ELEMENT_TYPE_R8 = Some TypeDouble"
| "marshal_type _ = None"

definition le_bytes :: "u64 \<Rightarrow> bytes" where
  "le_bytes a = map (\<lambda>i. ucast (drop_bit (8 * i) a)) [0..<8]"

text \<open>\<open>alloc\<close> is whether the service can allocate.\<close>

definition MarshalValue :: "bool \<Rightarrow> (val \<Rightarrow> print_answers) \<Rightarrow> raw_value \<Rightarrow> hresult + basic_type \<times> marshalled" where
  "MarshalValue alloc env input =
     (case DereferenceAndUnboxValue input of
        (status, None, _) \<Rightarrow> Inl status
      | (status, Some v, isNull) \<Rightarrow>
          if isNull then Inr (TypeObject, Marshal_Null)
          else
            let px = env v; ty = snd (px_elem px); b = snd (px_generic px) in
            if \<not> succeeded (px_size px) then Inl (px_size px)
            else if \<not> succeeded (fst (px_elem px)) then Inl (fst (px_elem px))
            else if ty = ELEMENT_TYPE_STRING then
              (if \<not> succeeded (fst (px_string px)) then Inl (fst (px_string px))
               else if snd (px_string px) = [] then Inr (TypeString, Marshal_Null)
               else if alloc then Inr (TypeString, Marshal_String (snd (px_string px))) else Inl E_FAIL)
            else if ty = ELEMENT_TYPE_SZARRAY \<or> ty = ELEMENT_TYPE_ARRAY then Inr (TypeCorValue, Marshal_Value input)
            else if \<not> succeeded (fst (px_generic px)) then Inl (fst (px_generic px))
            else if IsEnum px then Inl E_FAIL
            else if ty = ELEMENT_TYPE_VALUETYPE \<or> ty = ELEMENT_TYPE_CLASS then
              (if px_type px \<noteq> ''decimal'' then Inr (TypeCorValue, Marshal_Value input)
               else if alloc then Inr (TypeDecimal, Marshal_Bytes b) else Inl E_FAIL)
            else (case marshal_type ty of
                    None \<Rightarrow> Inl E_FAIL
                  | Some t \<Rightarrow>
                      if \<not> alloc then Inl E_FAIL
                      else Inr (t, Marshal_Bytes (if ty = ELEMENT_TYPE_FNPTR then le_bytes (px_address px) else b))))"

section \<open>A string field by its name\<close>

text \<open>What \<open>PrintStringField\<close> asks of a type: the calls that reach its metadata, whether it has exactly one field of the
  name (or the enumeration fails), whether the properties of the field can be read, whether the object is
  reached, its field, and the dereferenced value of the field when there is one.\<close>

record string_field =
  sf_open :: hresult
  sf_found :: "hresult \<times> bool"
  sf_props :: bool
  sf_object :: bool
  sf_get :: hresult
  sf_value :: "raw_value option"

datatype string_field_type = SF_Type string_field "(string \<times> string_field_type) option"

fun PrintStringField ::
  "text_answers \<Rightarrow> (val \<Rightarrow> print_answers) \<Rightarrow> string_field_type \<Rightarrow> hresult \<times> string" where
  "PrintStringField tx env (SF_Type h base) =
     (let up = (case base of
                  None \<Rightarrow> (E_FAIL, ''<unknown>'')
                | Some (baseTypeName, t) \<Rightarrow>
                    if baseTypeName = ''System.Enum'' then (E_FAIL, ''<unknown>'')
                    else if baseTypeName \<noteq> ''System.Object'' \<and> baseTypeName \<noteq> ''System.ValueType''
                    then PrintStringField tx env t
                    else (E_FAIL, ''<unknown>''))
      in if \<not> succeeded (sf_open h) then (sf_open h, ''<unknown>'')
         else if \<not> succeeded (fst (sf_found h)) then (fst (sf_found h), ''<unknown>'')
         else if snd (sf_found h) \<and> sf_props h \<and> sf_object h then
           (if \<not> succeeded (sf_get h) then (sf_get h, ''<unknown>'')
            else (case sf_value h of
                    None \<Rightarrow> up
                  | Some v \<Rightarrow> (case PrintValue tx env v True of Inl st \<Rightarrow> (st, ''<unknown>'') | Inr text \<Rightarrow> (S_OK, text))))
         else up)"

section \<open>Facts: strings\<close>

text \<open>The reader of a quoted text, behind its opening quote.\<close>

definition unescape_string_code :: "char \<Rightarrow> char option" where
  "unescape_string_code e = (if e = CHR 0x27 then Some (CHR 0x27) else unescape_code e)"

fun read_quoted :: "char \<Rightarrow> string \<Rightarrow> (string \<times> string) option" where
  "read_quoted q [] = None"
| "read_quoted q (c # cs) =
     (if c = q then Some ([], cs)
      else if c = CHR 0x5C then
        (case cs of
           [] \<Rightarrow> None
         | e # cs' \<Rightarrow>
             (case unescape_string_code e of
                None \<Rightarrow> None
              | Some d \<Rightarrow> map_option (\<lambda>(s, r). (d # s, r)) (read_quoted q cs')))
      else map_option (\<lambda>(s, r). (c # s, r)) (read_quoted q cs))"

lemma unescape_escape_string: "escape_string_code q c = Some e \<Longrightarrow> unescape_string_code e = Some c"
  by (auto simp: escape_string_code_def unescape_string_code_def unescape_code_def split: if_splits)

lemma read_quoted_char:
  assumes "q \<in> {CHR 0x22, CHR 0x27}"
  shows "read_quoted q (escape_char (escape_string_code q) c @ r) = map_option (\<lambda>(s, t). (c # s, t)) (read_quoted q r)"
proof (cases "escape_string_code q c")
  case None
  then have "c \<noteq> q" "c \<noteq> CHR 0x5C" using assms by (auto simp: escape_string_code_def split: if_splits)
  then show ?thesis using None by (simp add: escape_char_def)
next
  case (Some e)
  then show ?thesis using assms by (auto simp: escape_char_def unescape_escape_string)
qed

lemma EscapeString_concat: "EscapeString s q = concat (map (escape_char (escape_string_code q)) s)"
  using escape_loop_concat [of "escape_string_code q" "[]" s] by (simp add: EscapeString_def)

lemma read_quoted_EscapeString:
  "q \<in> {CHR 0x22, CHR 0x27} \<Longrightarrow> read_quoted q (EscapeString s q @ q # r) = Some (s, r)"
proof (induction s)
  case (Cons c s)
  then show ?case using read_quoted_char [OF Cons.prems, of c "EscapeString s q @ q # r"] by (simp add: EscapeString_concat)
qed (simp add: EscapeString_concat)

section \<open>Facts: enumerations\<close>

text \<open>The constants of an enumeration, and the reference: what is printed of them for a value, and what remains.\<close>

definition enum_literals :: "enum_field list \<Rightarrow> enum_field list" where
  "enum_literals fs = filter (\<lambda>f. ef_props f \<and> ef_attr f AND enum_required = enum_required) fs"

fun enum_pick :: "cor_element \<Rightarrow> enum_field list \<Rightarrow> u64 \<Rightarrow> enum_field list \<times> u64" where
  "enum_pick ty [] r = ([], r)"
| "enum_pick ty (f # fs) r =
     (if enum_matches (enum_constant ty (ef_raw f)) r
      then (case enum_pick ty fs (r AND NOT (enum_constant ty (ef_raw f))) of (ps, r') \<Rightarrow> (f # ps, r'))
      else enum_pick ty fs r)"

fun bar_join :: "string list \<Rightarrow> string" where
  "bar_join [] = []"
| "bar_join [x] = x"
| "bar_join (x # y # ys) = x @ '' | '' @ bar_join (y # ys)"

lemma bar_join_Cons: "bar_join (x # xs) = x @ concat (map (\<lambda>y. '' | '' @ y) xs)"
  by (induction xs arbitrary: x) auto

lemma enum_loop_bars:
  "enum_loop ty fs r '' | '' ss = ss @ concat (map (\<lambda>f. '' | '' @ ef_name f) (fst (enum_pick ty (enum_literals fs) r)))"
  by (induction fs arbitrary: r ss) (auto simp: enum_literals_def Let_def split: prod.splits)

lemma enum_loop_pick: "enum_loop ty fs r [] [] = bar_join (map ef_name (fst (enum_pick ty (enum_literals fs) r)))"
  by (induction fs arbitrary: r)
    (auto simp: enum_literals_def enum_loop_bars [unfolded enum_literals_def] bar_join_Cons Let_def o_def split: prod.splits)

lemma enum_pick_subseq: "subseq (fst (enum_pick ty fs r)) fs"
  by (induction fs arbitrary: r) (auto simp: case_prod_beta)

definition or_constants :: "cor_element \<Rightarrow> enum_field list \<Rightarrow> u64" where
  "or_constants ty fs = foldr (\<lambda>f a. enum_constant ty (ef_raw f) OR a) fs 0"

lemma or_constants_simps [simp]:
  "or_constants ty [] = 0" "or_constants ty (f # fs) = enum_constant ty (ef_raw f) OR or_constants ty fs"
  by (simp_all add: or_constants_def)

lemma enum_matches_subset: "enum_matches c r \<Longrightarrow> c AND r = c"
  by (auto simp: enum_matches_def)

lemma enum_pick_rest: "snd (enum_pick ty fs r) = r AND NOT (or_constants ty (fst (enum_pick ty fs r)))"
  by (induction fs arbitrary: r) (auto simp: and.assoc case_prod_beta)

lemma and_subset_trans: "a AND b = a \<Longrightarrow> b AND c = b \<Longrightarrow> a AND c = (a :: u64)"
  by (metis and.assoc)

lemma enum_pick_subset: "or_constants ty (fst (enum_pick ty fs r)) AND r = or_constants ty (fst (enum_pick ty fs r))"
proof (induction fs arbitrary: r)
  case (Cons f fs)
  let ?c = "enum_constant ty (ef_raw f)"
  show ?case
  proof (cases "enum_matches ?c r")
    case True
    obtain ps r' where E: "enum_pick ty fs (r AND NOT ?c) = (ps, r')" by fastforce
    have "or_constants ty ps AND (r AND NOT ?c) = or_constants ty ps" using Cons [of "r AND NOT ?c"] by (simp add: E)
    then have "or_constants ty ps AND r = or_constants ty ps"
      by (rule and_subset_trans) (simp add: and.assoc and.commute and.left_commute)
    then show ?thesis using True enum_matches_subset [OF True] by (simp add: E and.commute [of _ r] bit.conj_disj_distrib)
  qed (simp add: Cons)
qed simp

text \<open>Once a constant does not fit into what remains, it never does.\<close>

lemma enum_pick_complete:
  assumes "f \<in> set fs" and "c = enum_constant ty (ef_raw f)" and "c \<noteq> 0"
  shows "c AND snd (enum_pick ty fs r) \<noteq> c"
  using assms(1)
proof (induction fs arbitrary: r)
  case (Cons g fs)
  let ?d = "enum_constant ty (ef_raw g)"
  have down: "c AND snd (enum_pick ty fs r') = c \<Longrightarrow> c AND r' = c" for r'
    unfolding enum_pick_rest by (erule and_subset_trans) (simp add: and.assoc and.commute and.left_commute)
  show ?case
  proof (cases "enum_matches ?d r")
    case True
    have "c AND (r AND NOT c) = 0" by (subst and.left_commute) simp
    then have "c AND (r AND NOT c) \<noteq> c" using assms(3) by simp
    then show ?thesis
      using Cons True assms(2) down [of "r AND NOT ?d"] by (auto simp: case_prod_beta)
  next
    case False
    then have "c AND r \<noteq> c" if "g = f" using that assms(2,3) by (auto simp: enum_matches_def)
    then show ?thesis using Cons False down [of r] by auto
  qed
qed simp

section \<open>Properties\<close>

text \<open>A string or a character printed between quotes is read back unchanged, up to the closing quote and no
  further, for both kinds of quotes.\<close>

theorem EscapeString_roundtrip:
  "read_quoted (CHR 0x22) (tl (quoted s) @ r) = Some (s, r) \<and>
   read_quoted (CHR 0x27) (EscapeString s (CHR 0x27) @ CHR 0x27 # r) = Some (s, r)"
  using read_quoted_EscapeString [of "CHR 0x22" s r] read_quoted_EscapeString [of "CHR 0x27" s r] by (simp add: quoted_def)


definition demo_enum :: "enum_field list" where
  "demo_enum =
     [\<lparr>ef_props = True, ef_attr = 0x0606, ef_type = ELEMENT_TYPE_I4, ef_name = ''value__'', ef_raw = []\<rparr>,
      \<lparr>ef_props = True, ef_attr = 0x8056, ef_type = ELEMENT_TYPE_VALUETYPE, ef_name = ''None'', ef_raw = [0, 0, 0, 0]\<rparr>,
      \<lparr>ef_props = True, ef_attr = 0x8056, ef_type = ELEMENT_TYPE_VALUETYPE, ef_name = ''Read'', ef_raw = [1, 0, 0, 0]\<rparr>,
      \<lparr>ef_props = True, ef_attr = 0x8056, ef_type = ELEMENT_TYPE_VALUETYPE, ef_name = ''Write'', ef_raw = [2, 0, 0, 0]\<rparr>]"


text \<open>The print depends on the memory behind the value.\<close>

lemma enum_reads_beyond:
  "PrintEnumValue (S_OK, demo_enum) [0, 0, 0, 0] [0, 0, 0, 0] = Inr ''None''"
  "PrintEnumValue (S_OK, demo_enum) [0, 0, 0, 0] [1, 0, 0, 0] = Inr []"
  by (simp_all add: PrintEnumValue_def demo_enum_def enum_underlying_def fdStatic_def enum_required_def fdLiteral_def
      enum_constant_def enum_matches_def le_word_def le_nat_def Let_def)

text \<open>A constant with the sign bit of its four bytes.\<close>

definition negative_constant :: "enum_field \<Rightarrow> bool" where
  "negative_constant f \<longleftrightarrow> ef_attr f AND enum_required = enum_required \<and> bit (le_word 4 (ef_raw f) :: u32) 31"

lemma negative_constant_high:
  assumes "negative_constant f" and "\<not> bit r 63"
  shows "\<not> enum_matches (enum_constant ELEMENT_TYPE_I4 (ef_raw f)) r"
proof
  let ?k = "enum_constant ELEMENT_TYPE_I4 (ef_raw f)"
  assume "enum_matches ?k r"
  then have "?k AND r = ?k" by (rule enum_matches_subset)
  then have "bit (?k AND r) 63 = bit ?k 63" by (rule arg_cong)
  moreover have "bit ?k 63"
    using assms(1) by (simp add: enum_constant_def negative_constant_def bit_signed_iff)
  ultimately show False using assms(2) by (simp add: bit_and_iff)
qed

lemma enum_pick_negative:
  "\<not> bit r 63 \<Longrightarrow>
     enum_pick ELEMENT_TYPE_I4 (filter (\<lambda>f. \<not> negative_constant f) fs) r = enum_pick ELEMENT_TYPE_I4 fs r"
proof (induction fs arbitrary: r)
  case (Cons f fs)
  have "\<not> bit (r AND NOT x) 63" for x using Cons.prems by (simp add: bit_and_iff)
  then show ?case using Cons negative_constant_high [of f r] by (cases "negative_constant f") simp_all
qed simp

lemma enum_literals_negative: "enum_literals (filter (\<lambda>f. \<not> negative_constant f) fs) = filter (\<lambda>f. \<not> negative_constant f) (enum_literals fs)"
  by (simp add: enum_literals_def conj_commute)

lemma enum_underlying_negative: "enum_underlying (filter (\<lambda>f. \<not> negative_constant f) fs) = enum_underlying fs"
proof -
  have static: "enum_required AND fdStatic = fdStatic"
    by (simp add: enum_required_def fdStatic_def fdLiteral_def)
  have instance_field: "\<not> negative_constant f" if "ef_attr f AND fdStatic = 0" for f
  proof
    assume "negative_constant f"
    then have "ef_attr f AND (enum_required AND fdStatic) = enum_required AND fdStatic"
      by (simp add: negative_constant_def flip: and.assoc)
    then show False using that by (simp add: static) (simp add: fdStatic_def)
  qed
  then show ?thesis unfolding enum_underlying_def by (induction fs) auto
qed

lemma le_nat_append: "le_nat (xs @ ys) = le_nat xs + 256 ^ length xs * le_nat ys"
  by (induction xs) (simp_all add: algebra_simps)

lemma le_nat_less: "le_nat xs < 256 ^ length xs"
proof (induction xs)
  case (Cons b xs)
  have "unat b < 256" using unsigned_less [of b, where ?'a = nat] by simp
  then show ?case using Cons by simp
qed simp

text \<open>A negative constant of a 32-bit enumeration is never printed, whatever the value, when the memory behind
  the value is zero: leaving all of them out of the type changes nothing.\<close>

theorem negative_constants_ignored:
  assumes "enum_underlying fs = ELEMENT_TYPE_I4" and "length bs = 4" and "le_nat (take 4 beyond) = 0"
  shows "PrintEnumValue (S_OK, filter (\<lambda>f. \<not> negative_constant f) fs) bs beyond = PrintEnumValue (S_OK, fs) bs beyond"
proof -
  let ?v = "le_word 8 (bs @ beyond) :: u64"
  have n: "le_nat (take 8 (bs @ beyond)) < 4294967296"
    using le_nat_less [of bs] assms(2,3) by (simp add: le_nat_append)
  have "unat ?v < 2 ^ 63"
    unfolding le_word_def by (rule order_le_less_trans [OF _ order_less_trans [OF n]]) (simp_all add: unsigned_of_nat take_bit_nat_less_eq_self)
  then have "\<not> bit (unat ?v) 63" by (simp add: bit_iff_odd)
  then have "\<not> bit ?v 63" by (simp add: bit_unsigned_iff)
  then show ?thesis
    using assms(1) by (simp add: PrintEnumValue_def enum_loop_pick enum_underlying_negative enum_literals_negative enum_pick_negative)
qed

text \<open>An enumeration with a negative constant: the value -1 prints nothing.\<close>

definition signed_enum :: "enum_field list" where
  "signed_enum =
     [\<lparr>ef_props = True, ef_attr = 0x0606, ef_type = ELEMENT_TYPE_I4, ef_name = ''value__'', ef_raw = []\<rparr>,
      \<lparr>ef_props = True, ef_attr = 0x8056, ef_type = ELEMENT_TYPE_VALUETYPE, ef_name = ''Error'', ef_raw = [255, 255, 255, 255]\<rparr>]"

theorem negative_constants_ignored_witness:
  "PrintEnumValue (S_OK, signed_enum) [255, 255, 255, 255] [0, 0, 0, 0] = Inr []"
proof -
  have "filter (\<lambda>f. \<not> negative_constant f) signed_enum = [hd signed_enum]"
    by (simp add: signed_enum_def negative_constant_def enum_required_def fdStatic_def fdLiteral_def le_word_def)
  moreover have "enum_underlying signed_enum = ELEMENT_TYPE_I4"
    by (simp add: signed_enum_def enum_underlying_def fdStatic_def)
  ultimately show ?thesis
    using negative_constants_ignored [of signed_enum "[255, 255, 255, 255]" "[0, 0, 0, 0]"]
    by (simp add: PrintEnumValue_def) (simp add: signed_enum_def enum_required_def fdStatic_def fdLiteral_def)
qed


definition demo_number :: print_answers where
  "demo_number = \<lparr>px_size = S_OK, px_elem = (S_OK, ELEMENT_TYPE_I2), px_string = (E_FAIL, []), px_array = None, px_names = ([], []),
     px_generic = (S_OK, [255, 255]), px_base = Some ''System.ValueType'', px_enum = (E_FAIL, []), px_decimal = (E_FAIL, []),
     px_address = 0, px_type = ''short'', px_beyond = []\<rparr>"


end
