(* ===== verification/Variable_Evaluation.thy ===== *)
theory Variable_Evaluation imports Variables Value_Print begin

text \<open>
  Evaluating and assigning expressions (\<open>variables.cpp\<close>): a name is looked up by the evaluator of \<open>expr.cpp\<close>, anything
  else is given to the compiler service, which asks back for the names it meets.  The service is a parameter; what
  it is given is the modelled callback.  A null pointer that is called is \<open>Inl\<close>, and the service passes it on.
\<close>

section \<open>Members of a value\<close>

datatype reference_fault = Unknown_Reference

definition GetICorDebugValueMembers ::
  "var_answers \<Rightarrow> bool \<Rightarrow> u64 \<Rightarrow> thread_view option \<Rightarrow> val option \<Rightarrow> bool \<Rightarrow> hresult \<times> fetched_member list" where
  "GetICorDebugValueMembers va process frameId thread value fetchOnlyStatic =
     (case (process, thread, value) of
        (True, Some th, Some v) \<Rightarrow>
          (case tv_frame th (GetLevel frameId) of
             (status, frame) \<Rightarrow>
               if \<not> succeeded status then (status, [])
               else if \<not> succeeded (il_frame frame) then (il_frame frame, [])
               else (case FetchFieldsAndProperties va v (frame \<noteq> None) fetchOnlyStatic 0 INT_MAX of
                       (status, members, _) \<Rightarrow> (if succeeded status then S_OK else status, members)))
      | _ \<Rightarrow> (E_FAIL, []))"

text \<open>\<open>m_variables.at\<close> throws for a reference that is not there.\<close>

definition GetVariableMembers ::
  "var_answers \<Rightarrow> bool \<Rightarrow> u64 \<Rightarrow> thread_view option \<Rightarrow> u32 \<Rightarrow> variables_state \<Rightarrow>
     reference_fault + hresult \<times> fetched_member list" where
  "GetVariableMembers va process frameId thread ref st =
     (if \<not> process \<or> thread = None then Inr (E_FAIL, [])
      else (case um_find (vs_variables st) ref of
        None \<Rightarrow> Inl Unknown_Reference
      | Some r \<Rightarrow>
          if IsScope r then Inr (E_INVALIDARG, [])
          else if vr_value r = None then Inr (E_FAIL, [])
          else Inr (GetICorDebugValueMembers va process frameId thread (vr_value r) (vr_valueKind r = ValueIsClass))))"

section \<open>Names for the compiler service\<close>

text \<open>The expression \<open>[[:alpha:]\$_][[:alnum:]_]*\<close>.\<close>

definition is_alpha :: "char \<Rightarrow> bool" where
  "is_alpha c \<longleftrightarrow> (let n = of_char c :: nat in (97 \<le> n \<and> n \<le> 122) \<or> (65 \<le> n \<and> n \<le> 90))"

definition is_name :: "string \<Rightarrow> bool" where
  "is_name e =
     (case e of
        [] \<Rightarrow> False
      | c # s \<Rightarrow> (is_alpha c \<or> c = CHR ''$'' \<or> c = CHR ''_'') \<and>
                 list_all (\<lambda>c. is_alpha c \<or> is_digit c \<or> c = CHR ''_'') s)"

text \<open>What the service gives: the status, its output, and a value or the type of the output.\<close>

type_synonym 'm name_callback = "val option \<Rightarrow> string \<Rightarrow> var_fault + 'm option"

record 'm service_answers =
  sa_marshal :: "val option \<Rightarrow> hresult + 'm"
  sa_service :: "'m name_callback \<Rightarrow> string \<Rightarrow> var_fault + hresult \<times> bytes \<times> basic_type \<times> val option"
  sa_text :: text_answers

text \<open>The walk over the variables of the frame: a fault, \<open>this\<close>, and what has been marshalled.\<close>

type_synonym 'm scope_search = "var_fault option \<times> val option \<times> 'm option"

definition scope_name :: "'m service_answers \<Rightarrow> string \<Rightarrow> 'm scope_search var_callback" where
  "scope_name sa name v varName s =
     (case s of (fault, this, found) \<Rightarrow>
        if found \<noteq> None then (S_OK, s)
        else if varName = ''this'' \<and> v = None then (E_FAIL, (Some Null_Value, this, found))
        else
          let this' = (if varName = ''this'' then v else this) in
          if varName = name then
            (case sa_marshal sa v of
               Inl hr \<Rightarrow> (hr, (fault, this', found))
             | Inr m \<Rightarrow> (S_OK, (fault, this', Some m)))
          else (S_OK, (fault, this', found)))"

definition member_name_of :: "var_answers \<Rightarrow> 'm service_answers \<Rightarrow> bool \<Rightarrow> val \<Rightarrow> string \<Rightarrow> 'm option" where
  "member_name_of va sa frame v name =
     (case FetchFieldsAndProperties va v frame False 0 INT_MAX of
        (status, members, _) \<Rightarrow>
          if \<not> succeeded status then None
          else (case find (\<lambda>m. fm_name m = name) (FixupInheritedFieldNames members) of
                  None \<Rightarrow> None
                | Some m \<Rightarrow>
                    if fm_value m = None then None
                    else (case sa_marshal sa (fm_value m) of Inl _ \<Rightarrow> None | Inr d \<Rightarrow> Some d)))"

text \<open>The callback: a name in a value, or in the scope of the frame.\<close>

definition name_callback :: "var_answers \<Rightarrow> 'm service_answers \<Rightarrow> frame_answer option \<Rightarrow> 'm name_callback" where
  "name_callback va sa frame corValue name =
     (case corValue of
        Some v \<Rightarrow> Inr (member_name_of va sa (frame \<noteq> None) v name)
      | None \<Rightarrow>
          (case frame of
             None \<Rightarrow> Inl Null_Frame
           | Some fv \<Rightarrow>
               (case WalkStackVars (vn_env va) (vn_type va) fv (scope_name sa name) (None, None, None) of
                  (status, (Some f, _, _)) \<Rightarrow> Inl f
                | (status, (None, this, found)) \<Rightarrow>
                    if \<not> succeeded status then Inr None
                    else if found \<noteq> None then Inr found
                    else (case this of None \<Rightarrow> Inr None | Some t \<Rightarrow> Inr (member_name_of va sa True t name)))))"

section \<open>Evaluating\<close>

text \<open>The evaluator for a thread and a frame.\<close>

definition eval_at :: "eval_answers \<Rightarrow> thread_view \<Rightarrow> frame_answer \<Rightarrow> eval_answers" where
  "eval_at ea th fv = ea\<lparr>ea_exception := tv_exception th, ea_il_frame := fv_il fv, ea_frame := fv\<rparr>"

definition eval_name ::
  "eval_answers \<Rightarrow> thread_view \<Rightarrow> frame_answer option \<Rightarrow> string \<Rightarrow> var_fault + hresult \<times> val option" where
  "eval_name ea th frame expression =
     (case frame of None \<Rightarrow> Inl Null_Frame | Some fv \<Rightarrow> Inr (EvalExpr (eval_at ea th fv) expression))"

text \<open>The value, or the type and the bytes, of an expression; with the status and the output of the service.\<close>

definition evaluated ::
  "var_answers \<Rightarrow> eval_answers \<Rightarrow> 'm service_answers \<Rightarrow> thread_view \<Rightarrow> frame_answer option \<Rightarrow> string \<Rightarrow>
     var_fault + hresult \<times> bytes \<times> basic_type \<times> val option" where
  "evaluated va ea sa th frame expression =
     (case (if is_name expression then eval_name ea th frame expression else Inr (S_OK, None)) of
        Inl f \<Rightarrow> Inl f
      | Inr (status, r) \<Rightarrow>
          if \<not> succeeded status then Inr (status, [], Type_Unknown 0, None)
          else if r \<noteq> None then Inr (S_OK, [], Type_Unknown 0, r)
          else sa_service sa (name_callback va sa frame) expression)"

definition Evaluate ::
  "var_answers \<Rightarrow> eval_answers \<Rightarrow> 'm service_answers \<Rightarrow> bool \<Rightarrow> u64 \<Rightarrow> string \<Rightarrow> variables_state \<Rightarrow>
     var_fault + hresult \<times> variable \<times> bytes \<times> variables_state" where
  "Evaluate va ea sa process frameId expression st =
     (if \<not> process then Inr (E_FAIL, empty_variable, [], st)
      else (case frame_of_id va frameId of
        Inl status \<Rightarrow> Inr (status, empty_variable, [], st)
      | Inr (th, frame) \<Rightarrow>
          if \<not> succeeded (il_frame frame) then Inr (il_frame frame, empty_variable, [], st)
          else (case evaluated va ea sa th frame expression of
            Inl f \<Rightarrow> Inl f
          | Inr (status, out, typeId, r) \<Rightarrow>
              if \<not> succeeded status then Inr (status, empty_variable, out, st)
              else
                let (ty, value) = (case r of
                      Some v \<Rightarrow> (vn_type va (Some v), vn_print va (Some v))
                    | None \<Rightarrow> PrintBasicValue (sa_text sa) typeId out []);
                    var = empty_variable\<lparr>v_evaluateName := expression, v_type := ty, v_value := value\<rparr>
                in (case AddVariableReference va var frameId r ValueIsVariable st of
                      (var', st') \<Rightarrow> Inr (S_OK, var', out, st')))))"

section \<open>Assigning\<close>

definition GetValueByExpression ::
  "var_answers \<Rightarrow> eval_answers \<Rightarrow> bool \<Rightarrow> u64 \<Rightarrow> string \<Rightarrow> var_fault + hresult \<times> val option" where
  "GetValueByExpression va ea process frameId expression =
     (if \<not> process then Inr (E_FAIL, None)
      else (case frame_of_id va frameId of
        Inl status \<Rightarrow> Inr (status, None)
      | Inr (th, frame) \<Rightarrow> eval_name ea th frame expression))"

text \<open>\<open>SetVariable\<close> of a value: the status, the output, and what is written.  A write changes the debuggee: its
  answers depend on what has been written so far.\<close>

type_synonym 'a after_writes = "(val \<times> written) list \<Rightarrow> 'a"

definition SetVariable_value ::
  "var_answers after_writes \<Rightarrow> (val \<Rightarrow> write_answers) \<Rightarrow> bool \<Rightarrow> val option \<Rightarrow> string \<Rightarrow> u64 \<Rightarrow>
     var_fault + hresult \<times> string \<times> (val \<times> written) list" where
  "SetVariable_value va wr process pVariable value frameId =
     (if \<not> process then Inr (E_FAIL, [], [])
      else if vn_thread (va []) (GetThreadId frameId) = None then Inr (E_FAIL, [], [])
      else (case pVariable of
        None \<Rightarrow> Inl Null_Value
      | Some v \<Rightarrow>
          (case WriteValue (wr v) value of
             (status, err, w) \<Rightarrow>
               if \<not> succeeded status then Inr (status, err, [])
               else let writes = (case w of None \<Rightarrow> [] | Some y \<Rightarrow> [(v, y)])
                    in Inr (S_OK, vn_print (va writes) (Some v), writes))))"

definition SetVariableByExpression ::
  "var_answers after_writes \<Rightarrow> eval_answers \<Rightarrow> (val \<Rightarrow> write_answers) \<Rightarrow> bool \<Rightarrow> u64 \<Rightarrow> string \<Rightarrow> string \<Rightarrow>
     var_fault + hresult \<times> string \<times> (val \<times> written) list" where
  "SetVariableByExpression va ea wr process frameId expression value =
     (case GetValueByExpression (va []) ea process frameId expression of
        Inl f \<Rightarrow> Inl f
      | Inr (status, pResultValue) \<Rightarrow>
          if \<not> succeeded status then Inr (status, [], [])
          else SetVariable_value va wr process pResultValue value frameId)"

section \<open>Facts\<close>

lemma EvalExpr_frame: "\<not> succeeded (ea_il_frame ea) \<Longrightarrow> EvalExpr ea e = (ea_il_frame ea, None)"
  by (simp add: EvalExpr_def Let_def)

lemma EvalExpr_frame_ok: "EvalExpr ea e = (status, r) \<Longrightarrow> succeeded status \<Longrightarrow> succeeded (ea_il_frame ea)"
  using EvalExpr_frame [of ea e] by auto

lemma eval_at_frame [simp]: "ea_il_frame (eval_at ea th fv) = fv_il fv"
  by (simp add: eval_at_def)

lemma WriteValue_parts: "succeeded (fst (WriteValue wr value)) \<Longrightarrow> \<exists>err w. WriteValue wr value = (S_OK, err, Some w)"
  by (auto simp: WriteValue_def write_bytes_def split: if_splits option.splits prod.splits)

text \<open>The words for truth values and for null are names to the debugger.\<close>

lemma keywords_are_names: "is_name ''true''" "is_name ''false''" "is_name ''null''"
  by (simp_all add: is_name_def is_alpha_def)

section \<open>Properties\<close>

lemma GetValueByExpression_parts:
  assumes "GetValueByExpression va ea process frameId e = Inr (hr, Some v)" and "succeeded hr"
  obtains th fv where "process" "frame_of_id va frameId = Inr (th, Some fv)" "EvalExpr (eval_at ea th fv) e = (hr, Some v)"
  using assms
  by (auto simp: GetValueByExpression_def eval_name_def split: sum.splits option.splits prod.splits if_splits)

text \<open>Evaluating a name that denotes a value.\<close>

lemma Evaluate_name:
  assumes "is_name e" "GetValueByExpression va ea process frameId e = Inr (hr, Some v)" "succeeded hr"
  shows "\<exists>var st'. Evaluate va ea sa process frameId e st = Inr (S_OK, var, [], st') \<and>
    v_value var = vn_print va (Some v) \<and> v_type var = vn_type va (Some v) \<and> v_evaluateName var = e \<and>
    (v_variablesReference var \<noteq> 0 \<longrightarrow> um_find (vs_variables st) (vs_next st) = None \<longrightarrow>
       (\<exists>r. um_find (vs_variables st') (vs_next st) = Some r \<and> vr_value r = Some v \<and> vr_evaluateName r = e))"
proof -
  from assms(2,3) obtain th fv where p: "process" "frame_of_id va frameId = Inr (th, Some fv)"
    and e: "EvalExpr (eval_at ea th fv) e = (hr, Some v)" by (rule GetValueByExpression_parts)
  have il: "succeeded (il_frame (Some fv))" using EvalExpr_frame_ok [OF e assms(3)] by (simp add: il_frame_def)
  then show ?thesis
    using assms(1,3) p(1)
    by (simp add: Evaluate_def p(2) evaluated_def eval_name_def e AddVariableReference_def Let_def empty_variable_def
      um_find_emplace split: prod.splits)
qed

text \<open>C12. What is assigned to is what is shown.  When a value is set through a name, the call writes once, to the
  value that the name denotes before, and its answer is the text that this value has after the write.  If the name still
  denotes the value then (a hypothesis on the debuggee: a name that runs a getter may give another object), evaluating
  it in the same frame shows that text and the type of the value, without the compiler service, and a reference that is
  given with it leads to the value.\<close>

theorem assignment_hits_shown_value:
  assumes "is_name e" and "SetVariableByExpression va (ea []) wr process frameId e value = Inr (status, output, writes)"
    and "succeeded status"
    and "GetValueByExpression (va writes) (ea writes) process frameId e = GetValueByExpression (va []) (ea []) process frameId e"
  shows "\<exists>v w err hr. GetValueByExpression (va []) (ea []) process frameId e = Inr (hr, Some v) \<and>
    writes = [(v, w)] \<and> WriteValue (wr v) value = (S_OK, err, Some w) \<and> output = vn_print (va [(v, w)]) (Some v) \<and>
    (\<forall>sa :: 'm service_answers. \<forall>st. \<exists>var st'.
       Evaluate (va [(v, w)]) (ea [(v, w)]) sa process frameId e st = Inr (S_OK, var, [], st') \<and>
       v_value var = output \<and> v_type var = vn_type (va [(v, w)]) (Some v) \<and> v_evaluateName var = e \<and>
       (v_variablesReference var \<noteq> 0 \<longrightarrow> um_find (vs_variables st) (vs_next st) = None \<longrightarrow>
          (\<exists>r. um_find (vs_variables st') (vs_next st) = Some r \<and> vr_value r = Some v \<and> vr_evaluateName r = e)))"
proof -
  obtain hr r where r: "GetValueByExpression (va []) (ea []) process frameId e = Inr (hr, r)" "succeeded hr"
      "SetVariable_value va wr process r value frameId = Inr (status, output, writes)"
    using assms(2,3) by (auto simp: SetVariableByExpression_def split: sum.splits prod.splits if_splits)
  then obtain v where v: "r = Some v"
    using assms(3) by (auto simp: SetVariable_value_def split: if_splits option.splits)
  have "succeeded (fst (WriteValue (wr v) value))"
    using r(3) assms(3) by (auto simp: SetVariable_value_def v split: if_splits option.splits prod.splits)
  then obtain err w where w: "WriteValue (wr v) value = (S_OK, err, Some w)" using WriteValue_parts by blast
  have out: "writes = [(v, w)]" "output = vn_print (va [(v, w)]) (Some v)"
    using r(3) assms(3) by (auto simp: SetVariable_value_def v w Let_def split: if_splits)
  have "GetValueByExpression (va [(v, w)]) (ea [(v, w)]) process frameId e = Inr (hr, Some v)"
    using assms(4) r(1) by (simp only: out(1) v)
  note shown = Evaluate_name [OF assms(1) this r(2), folded out(2)]
  show ?thesis using r(1) w out shown unfolding v by blast
qed

text \<open>A debuggee whose local shows the bytes that were written to it last.\<close>

definition demo_stopped :: "var_answers after_writes" where
  "demo_stopped writes = demo_answers
     \<lparr>vn_thread := (\<lambda>_. Some \<lparr>tv_exception = None, tv_module = (S_OK, []),
                              tv_frame = (\<lambda>_. (S_OK, Some (ea_frame demo_eval)))\<rparr>),
      vn_print := (\<lambda>_. case writes of (_, Written_Bytes data) # _ \<Rightarrow> data | _ \<Rightarrow> ''old'')\<rparr>"

definition demo_write :: "val \<Rightarrow> write_answers" where
  "demo_write v = \<lparr>wa_size = (S_OK, 1), wa_type = (S_OK, ELEMENT_TYPE_I1), wa_type_name = [],
                   wa_parse = (\<lambda>_ _. (S_OK, ''x'', [])), wa_string = (\<lambda>_. S_OK), wa_set = (\<lambda>_. S_OK)\<rparr>"

lemma demo_value_of: "GetValueByExpression (demo_stopped writes) demo_eval True 0 ''a'' = Inr (S_OK, Some 1)"
proof -
  have parts: "ParseExpression ''a'' = [''a'']" by (simp add: ParseExpression_def push_char_def)
  have same: "eval_at demo_eval (the (vn_thread (demo_stopped writes) 0)) (ea_frame demo_eval) = demo_eval"
    by (simp add: eval_at_def demo_stopped_def demo_eval_def)
  have first: "first_value demo_eval ''a'' = (S_OK, (Some 1, None))"
    by (simp add: first_value_def demo_eval_def WalkStackVars_def HandleSpecialLocalVar_def has_prefix_def variable_lookup_def)
  have a: "EvalExpr demo_eval ''a'' = (S_OK, Some 1)"
    using first by (simp add: EvalExpr_def parts) (simp add: demo_eval_def)
  have th: "vn_thread (demo_stopped writes) i = vn_thread (demo_stopped writes) 0" for i by (simp add: demo_stopped_def)
  obtain t where t: "vn_thread (demo_stopped writes) 0 = Some t" "tv_frame t = (\<lambda>_. (S_OK, Some (ea_frame demo_eval)))"
    by (simp add: demo_stopped_def)
  show ?thesis
    using same a by (simp add: GetValueByExpression_def frame_of_id_def th [of "GetThreadId _"] t eval_name_def)
qed

lemma demo_assigned:
  "is_name ''a''"
  "SetVariableByExpression demo_stopped demo_eval demo_write True 0 ''a'' ''120'' =
     Inr (S_OK, ''x'', [(1, Written_Bytes ''x'')])"
proof -
  have "WriteValue (demo_write 1) ''120'' = (S_OK, [], Some (Written_Bytes ''x''))"
    by (simp add: WriteValue_def write_bytes_def demo_write_def)
  then show "SetVariableByExpression demo_stopped demo_eval demo_write True 0 ''a'' ''120'' =
      Inr (S_OK, ''x'', [(1, Written_Bytes ''x'')])"
    by (simp add: SetVariableByExpression_def SetVariable_value_def demo_value_of) (simp add: demo_stopped_def)
  show "is_name ''a''" by (simp add: is_name_def is_alpha_def)
qed

theorem assignment_hits_shown_value_witness:
  "\<forall>sa :: nat service_answers. \<exists>var st'.
     Evaluate (demo_stopped [(1, Written_Bytes ''x'')]) demo_eval sa True 0 ''a'' init_variables = Inr (S_OK, var, [], st') \<and>
     v_value var = ''x'' \<and> v_evaluateName var = ''a''"
  using assignment_hits_shown_value [of "''a''" demo_stopped "\<lambda>_. demo_eval", OF demo_assigned(1) demo_assigned(2)]
  by (simp add: demo_value_of) blast

end
