(* ===== verification/Json_Text.thy ===== *)
theory Json_Text imports Prelude begin

text \<open>
  JSON values and their text, as the debug adapter uses them: the serializer of
  \<open>third_party/json/json.hpp\<close> (compact output, non-ASCII characters as they are).  A value is a
  datatype with the kinds of \<open>value_t\<close>; objects are \<open>std::map\<close>s, association lists in increasing
  order of their keys.  \<open>number_integer\<close> and \<open>number_unsigned\<close> are printed, compared and converted
  alike and are one constructor here.  Of a \<open>double\<close> the library asks for its integer part and for
  its digits, and these two stand for it.
\<close>

section \<open>Values\<close>

record c_double =
  d_trunc :: int
  d_digits :: string

datatype json =
    JNull
  | JBool bool
  | JInt int
  | JFloat c_double
  | JString string
  | JArray "json list"
  | JObject "(string \<times> json) list"

type_synonym members = "(string \<times> json) list"

text \<open>The exceptions of the library, with their numbers, and those of \<open>std::stoi\<close>, \<open>std::stoul\<close> and
  \<open>std::string\<close>.\<close>

datatype json_exception =
    Parse_Error
  | Type_Error nat
  | Key_Out_Of_Range nat
  | Invalid_Argument
  | Number_Out_Of_Range
  | Length_Error

type_synonym 'a or_throw = "json_exception + 'a"

section \<open>Objects\<close>

text \<open>\<open>operator<\<close> of \<open>std::string\<close> compares bytes.\<close>

fun bytes_less :: "string \<Rightarrow> string \<Rightarrow> bool" where
  "bytes_less s [] = False"
| "bytes_less [] (_ # _) = True"
| "bytes_less (a # s) (b # t) =
     (of_char a < (of_char b :: nat) \<or> a = b \<and> bytes_less s t)"

text \<open>\<open>(*object)[key] = value\<close>, \<open>emplace\<close> (which keeps an existing entry) and \<open>find\<close> of the map.\<close>

fun obj_set :: "string \<Rightarrow> 'v \<Rightarrow> (string \<times> 'v) list \<Rightarrow> (string \<times> 'v) list" where
  "obj_set k v [] = [(k, v)]"
| "obj_set k v ((k', v') # m) =
     (if k = k' then (k, v) # m
      else if bytes_less k k' then (k, v) # (k', v') # m
      else (k', v') # obj_set k v m)"

definition obj_find :: "string \<Rightarrow> (string \<times> 'v) list \<Rightarrow> 'v option" where
  "obj_find k m = map_of m k"

definition obj_emplace :: "string \<Rightarrow> 'v \<Rightarrow> (string \<times> 'v) list \<Rightarrow> (string \<times> 'v) list" where
  "obj_emplace k v m = (case obj_find k m of None \<Rightarrow> obj_set k v m | Some _ \<Rightarrow> m)"

text \<open>An object written as a braced list of pairs, or filled by assignments in this order.\<close>

definition object_of :: "(string \<times> 'v) list \<Rightarrow> (string \<times> 'v) list" where
  "object_of kvs = fold (\<lambda>(k, v). obj_set k v) kvs []"

text \<open>The keys of a map increase strictly.\<close>

definition obj_wf :: "(string \<times> 'v) list \<Rightarrow> bool" where
  "obj_wf m \<longleftrightarrow> sorted_wrt bytes_less (map fst m)"

lemma bytes_less_irrefl [simp]: "\<not> bytes_less s s"
  by (induction s) auto

lemma bytes_less_trans: "bytes_less s t \<Longrightarrow> bytes_less t u \<Longrightarrow> bytes_less s u"
proof (induction s u arbitrary: t rule: bytes_less.induct)
  case (1 s)
  then show ?case by (cases t) auto
next
  case (3 a s b u)
  then show ?case by (cases t) (auto simp: of_char_eq_iff)
qed auto

lemma bytes_less_linear: "s \<noteq> t \<Longrightarrow> \<not> bytes_less s t \<Longrightarrow> bytes_less t s"
proof (induction s t rule: bytes_less.induct)
  case (1 s)
  then show ?case by (cases s) auto
next
  case (3 a s b t)
  have "a = b \<longleftrightarrow> (of_char a :: nat) = of_char b" by simp
  with 3 show ?case by (auto simp del: of_char_eq_iff)
qed auto

lemma bytes_less_asym: "bytes_less s t \<Longrightarrow> \<not> bytes_less t s"
  using bytes_less_trans bytes_less_irrefl by blast

lemma set_keys_obj_set: "set (map fst (obj_set k v m)) = insert k (set (map fst m))"
  by (induction k v m rule: obj_set.induct) auto

lemma obj_wf_Nil [simp]: "obj_wf []"
  by (simp add: obj_wf_def)

lemma obj_wf_set [simp, intro]: "obj_wf m \<Longrightarrow> obj_wf (obj_set k v m)"
proof (induction k v m rule: obj_set.induct)
  case (2 k v k' v' m)
  have m: "sorted_wrt bytes_less (map fst m)" "\<forall>x \<in> set (map fst m). bytes_less k' x"
    using 2(2) by (simp_all add: obj_wf_def)
  consider "k = k'" | "bytes_less k k'" "k \<noteq> k'" | "\<not> bytes_less k k'" "k \<noteq> k'" by blast
  then show ?case
  proof cases
    case 3
    then have "bytes_less k' k" by (simp add: bytes_less_linear)
    with 3 2(1) m show ?thesis
      by (simp add: obj_wf_def set_keys_obj_set del: set_map)
  qed (use m in \<open>auto simp: obj_wf_def intro: bytes_less_trans\<close>)
qed (simp add: obj_wf_def)

lemma obj_wf_emplace [simp, intro]: "obj_wf m \<Longrightarrow> obj_wf (obj_emplace k v m)"
  by (auto simp: obj_emplace_def split: option.splits)

lemma obj_wf_object_of [simp, intro]: "obj_wf (object_of kvs)"
proof -
  have "obj_wf m \<Longrightarrow> obj_wf (fold (\<lambda>(k, v). obj_set k v) kvs m)" for m :: "(string \<times> 'a) list"
    by (induction kvs arbitrary: m) auto
  then show ?thesis by (simp add: object_of_def)
qed

lemma obj_find_set: "obj_find k (obj_set k' v m) = (if k = k' then Some v else obj_find k m)"
  by (induction k' v m rule: obj_set.induct) (auto simp: obj_find_def)

lemma obj_set_nonempty [simp]: "obj_set k v m \<noteq> []"
  by (induction k v m rule: obj_set.induct) auto

lemma obj_wf_distinct: "obj_wf m \<Longrightarrow> distinct (map fst m)"
  unfolding obj_wf_def by (induction m) auto

text \<open>A key above all others goes to the end.\<close>

lemma obj_set_last: "\<forall>k' \<in> fst ` set m. bytes_less k' k \<Longrightarrow> obj_set k v m = m @ [(k, v)]"
  by (induction m) (auto dest: bytes_less_asym)

lemma obj_emplace_last: "\<forall>k' \<in> fst ` set m. bytes_less k' k \<Longrightarrow> obj_emplace k v m = m @ [(k, v)]"
proof -
  assume *: "\<forall>k' \<in> fst ` set m. bytes_less k' k"
  then have "obj_find k m = None" by (auto simp: obj_find_def map_of_eq_None_iff)
  with * show ?thesis by (simp add: obj_emplace_def obj_set_last)
qed

lemma set_obj_set: "set (obj_set k v m) \<subseteq> insert (k, v) (set m)"
  by (induction k v m rule: obj_set.induct) auto

lemma set_obj_emplace: "set (obj_emplace k v m) \<subseteq> insert (k, v) (set m)"
  using set_obj_set [of k v m] by (auto simp: obj_emplace_def split: option.splits)

section \<open>UTF-8\<close>

text \<open>The transition table of the checker: the class of each byte, then the next state for each
  state and class.\<close>

definition utf8d :: "nat list" where
  "utf8d =
    [0, 0, 0, 0, 0, 0, 0, 0, 0, 0, 0, 0, 0, 0, 0, 0, 0, 0, 0, 0, 0, 0, 0, 0, 0, 0, 0, 0, 0, 0, 0, 0,
     0, 0, 0, 0, 0, 0, 0, 0, 0, 0, 0, 0, 0, 0, 0, 0, 0, 0, 0, 0, 0, 0, 0, 0, 0, 0, 0, 0, 0, 0, 0, 0,
     0, 0, 0, 0, 0, 0, 0, 0, 0, 0, 0, 0, 0, 0, 0, 0, 0, 0, 0, 0, 0, 0, 0, 0, 0, 0, 0, 0, 0, 0, 0, 0,
     0, 0, 0, 0, 0, 0, 0, 0, 0, 0, 0, 0, 0, 0, 0, 0, 0, 0, 0, 0, 0, 0, 0, 0, 0, 0, 0, 0, 0, 0, 0, 0,
     1, 1, 1, 1, 1, 1, 1, 1, 1, 1, 1, 1, 1, 1, 1, 1, 9, 9, 9, 9, 9, 9, 9, 9, 9, 9, 9, 9, 9, 9, 9, 9,
     7, 7, 7, 7, 7, 7, 7, 7, 7, 7, 7, 7, 7, 7, 7, 7, 7, 7, 7, 7, 7, 7, 7, 7, 7, 7, 7, 7, 7, 7, 7, 7,
     8, 8, 2, 2, 2, 2, 2, 2, 2, 2, 2, 2, 2, 2, 2, 2, 2, 2, 2, 2, 2, 2, 2, 2, 2, 2, 2, 2, 2, 2, 2, 2,
     0xA, 0x3, 0x3, 0x3, 0x3, 0x3, 0x3, 0x3, 0x3, 0x3, 0x3, 0x3, 0x3, 0x4, 0x3, 0x3,
     0xB, 0x6, 0x6, 0x6, 0x5, 0x8, 0x8, 0x8, 0x8, 0x8, 0x8, 0x8, 0x8, 0x8, 0x8, 0x8,
     0x0, 0x1, 0x2, 0x3, 0x5, 0x8, 0x7, 0x1, 0x1, 0x1, 0x4, 0x6, 0x1, 0x1, 0x1, 0x1,
     1, 1, 1, 1, 1, 1, 1, 1, 1, 1, 1, 1, 1, 1, 1, 1, 1, 0, 1, 1, 1, 1, 1, 0, 1, 0, 1, 1, 1, 1, 1, 1,
     1, 2, 1, 1, 1, 1, 1, 2, 1, 2, 1, 1, 1, 1, 1, 1, 1, 1, 1, 1, 1, 1, 1, 2, 1, 1, 1, 1, 1, 1, 1, 1,
     1, 2, 1, 1, 1, 1, 1, 1, 1, 2, 1, 1, 1, 1, 1, 1, 1, 1, 1, 1, 1, 1, 1, 3, 1, 3, 1, 1, 1, 1, 1, 1,
     1, 3, 1, 1, 1, 1, 1, 3, 1, 3, 1, 1, 1, 1, 1, 1, 1, 3, 1, 1, 1, 1, 1, 1, 1, 1, 1, 1, 1, 1, 1, 1]"

definition decode :: "nat \<Rightarrow> nat \<Rightarrow> nat" where
  "decode state byte = utf8d ! (256 + state * 16 + utf8d ! byte)"

text \<open>\<open>throw_if_invalid_utf8\<close>: a rejected byte, or an unfinished character at the end, throws
  \<open>type_error.316\<close>.\<close>

fun utf8_scan :: "nat \<Rightarrow> string \<Rightarrow> bool" where
  "utf8_scan state [] = (state = 0)"
| "utf8_scan state (c # s) =
     (let state' = decode state (of_char c) in if state' = 1 then False else utf8_scan state' s)"

definition throw_if_invalid_utf8 :: "string \<Rightarrow> unit or_throw" where
  "throw_if_invalid_utf8 str = (if utf8_scan 0 str then Inr () else Inl (Type_Error 316))"

section \<open>The serializer\<close>

definition hexify :: "nat \<Rightarrow> char" where
  "hexify n = ''0123456789abcdef'' ! n"

definition escape_codepoint :: "nat \<Rightarrow> string" where
  "escape_codepoint codepoint =
     [CHR 0x5C, CHR ''u'', hexify (codepoint div 2 ^ 12 mod 16), hexify (codepoint div 2 ^ 8 mod 16),
      hexify (codepoint div 2 ^ 4 mod 16), hexify (codepoint mod 16)]"

text \<open>The \<open>switch\<close> of \<open>dump_escaped\<close>.\<close>

definition dump_char :: "char \<Rightarrow> string" where
  "dump_char c =
     (if c = CHR 0x22 then [CHR 0x5C, CHR 0x22]
      else if c = CHR 0x5C then [CHR 0x5C, CHR 0x5C]
      else if c = CHR 0x08 then [CHR 0x5C, CHR ''b'']
      else if c = CHR 0x0C then [CHR 0x5C, CHR ''f'']
      else if c = CHR 0x0A then [CHR 0x5C, CHR ''n'']
      else if c = CHR 0x0D then [CHR 0x5C, CHR ''r'']
      else if c = CHR 0x09 then [CHR 0x5C, CHR ''t'']
      else if of_char c \<le> (0x1F :: nat) then escape_codepoint (of_char c)
      else [c])"

text \<open>\<open>extra_space\<close> says by how much the escaped string is longer.\<close>

definition extra_char :: "char \<Rightarrow> nat" where
  "extra_char c =
     (if c \<in> {CHR 0x22, CHR 0x5C, CHR 0x08, CHR 0x0C, CHR 0x0A, CHR 0x0D, CHR 0x09} then 1
      else if of_char c \<in> {0x00, 0x01, 0x02, 0x03, 0x04, 0x05, 0x06, 0x07, 0x0B, 0x0E, 0x0F,
                           0x10, 0x11, 0x12, 0x13, 0x14, 0x15, 0x16, 0x17, 0x18, 0x19, 0x1A, 0x1B,
                           0x1C, 0x1D, 0x1E, 0x1F :: nat} then 5
      else 0)"

definition extra_space :: "string \<Rightarrow> nat" where
  "extra_space s = sum_list (map extra_char s)"

text \<open>\<open>dump_escaped\<close> writes into a buffer of \<open>s.size() + space\<close> bytes at a running position; a write
  past the end of the buffer is undefined and is None here.\<close>

fun dump_into :: "string \<Rightarrow> nat \<Rightarrow> string \<Rightarrow> (string \<times> nat) option" where
  "dump_into result pos [] = Some (result, pos)"
| "dump_into result pos (c # s) =
     (let e = dump_char c in
       if pos + length e \<le> length result
       then dump_into (take pos result @ e @ drop (pos + length e) result) (pos + length e) s
       else None)"

definition dump_escaped :: "string \<Rightarrow> string or_throw" where
  "dump_escaped s =
     xbind (throw_if_invalid_utf8 s) (\<lambda>_.
       let space = extra_space s in
         if space = 0 then Inr s
         else Inr (case dump_into (replicate (length s + space) (CHR 0x5C)) 0 s of
                     None \<Rightarrow> [] | Some (result, _) \<Rightarrow> result))"

text \<open>\<open>dump_integer\<close> collects the digits from the last one and reverses the buffer.\<close>

fun digit_loop :: "nat \<Rightarrow> string" where
  "digit_loop x = (if x = 0 then [] else digit_char (x mod 10) # digit_loop (x div 10))"

declare digit_loop.simps [simp del]

definition dump_integer :: "int \<Rightarrow> string" where
  "dump_integer x =
     (if x = 0 then ''0'' else rev (digit_loop (nat \<bar>x\<bar>) @ (if x < 0 then ''-'' else [])))"

definition dump_float :: "c_double \<Rightarrow> string" where
  "dump_float x =
     d_digits x @ (if \<exists>c \<in> set (d_digits x). c = CHR ''.'' \<or> c = CHR ''e'' then [] else ''.0'')"

text \<open>\<open>dump\<close>: the loops write a comma after each element but the last.\<close>

fun dump :: "json \<Rightarrow> string or_throw" and dump_members :: "members \<Rightarrow> string or_throw"
  and dump_elements :: "json list \<Rightarrow> string or_throw" where
  "dump (JObject m) =
     (if m = [] then Inr ''{}'' else xbind (dump_members m) (\<lambda>s. Inr (''{'' @ s @ ''}'')))"
| "dump (JArray a) =
     (if a = [] then Inr ''[]'' else xbind (dump_elements a) (\<lambda>s. Inr (''['' @ s @ '']'')))"
| "dump (JString s) = xbind (dump_escaped s) (\<lambda>e. Inr (CHR 0x22 # e @ [CHR 0x22]))"
| "dump (JBool b) = Inr (if b then ''true'' else ''false'')"
| "dump (JInt i) = Inr (dump_integer i)"
| "dump (JFloat f) = Inr (dump_float f)"
| "dump JNull = Inr ''null''"
| "dump_members [] = Inr []"
| "dump_members ((k, v) # m) =
     xbind (dump_escaped k) (\<lambda>e. xbind (dump v) (\<lambda>t. xbind (dump_members m) (\<lambda>r.
       Inr (CHR 0x22 # e @ [CHR 0x22, CHR '':''] @ t @ (if m = [] then [] else CHR '','' # r)))))"
| "dump_elements [] = Inr []"
| "dump_elements (v # a) =
     xbind (dump v) (\<lambda>t. xbind (dump_elements a) (\<lambda>r. Inr (t @ (if a = [] then [] else CHR '','' # r))))"

section \<open>What the serializer writes\<close>

lemma length_dump_char: "length (dump_char c) = Suc (extra_char c)"
proof -
  have "of_char c \<le> (0x1F :: nat) \<longleftrightarrow>
      (of_char c :: nat) \<in> {0, 1, 2, 3, 4, 5, 6, 7, 8, 9, 10, 11, 12, 13, 14, 15, 16, 17, 18, 19, 20, 21,
                          22, 23, 24, 25, 26, 27, 28, 29, 30, 31}"
  proof -
    have "of_char c \<le> (0x1F :: nat) \<longleftrightarrow> (of_char c :: nat) \<in> set [0..<32]" by auto
    also have "[0..<32] = [0, 1, 2, 3, 4, 5, 6, 7, 8, 9, 10, 11, 12, 13, 14, 15, 16, 17, 18, 19, 20, 21,
                           22, 23, 24, 25, 26, 27, 28, 29, 30, 31]"
      by code_simp
    finally show ?thesis by (simp only: list.set)
  qed
  moreover have "c = CHR 0x08 \<longleftrightarrow> of_char c = (8 :: nat)" "c = CHR 0x0C \<longleftrightarrow> of_char c = (12 :: nat)"
    "c = CHR 0x0A \<longleftrightarrow> of_char c = (10 :: nat)" "c = CHR 0x0D \<longleftrightarrow> of_char c = (13 :: nat)"
    "c = CHR 0x09 \<longleftrightarrow> of_char c = (9 :: nat)"
    by (simp_all flip: of_char_eq_iff [where 'a = nat])
  ultimately show ?thesis
    by (simp add: dump_char_def extra_char_def escape_codepoint_def)
qed

lemma length_dump_chars: "length (concat (map dump_char s)) = length s + extra_space s"
  by (induction s) (simp_all add: extra_space_def length_dump_char)

lemma dump_into_eq:
  "length result = pos + length (concat (map dump_char s)) \<Longrightarrow>
   dump_into result pos s = Some (take pos result @ concat (map dump_char s), length result)"
proof (induction result pos s rule: dump_into.induct)
  case (2 result pos c s)
  let ?e = "dump_char c"
  let ?r = "take pos result @ ?e @ drop (pos + length ?e) result"
  have "length ?r = pos + length ?e + length (concat (map dump_char s))" using 2(2) by simp
  moreover have "take (pos + length ?e) ?r = take pos result @ ?e" using 2(2) by simp
  ultimately show ?case using 2(2) 2(1) [OF refl] by (simp add: Let_def)
qed simp

lemma no_extra: "extra_space s = 0 \<Longrightarrow> concat (map dump_char s) = s"
proof (induction s)
  case (Cons c s)
  then have "length (dump_char c) = 1" "concat (map dump_char s) = s"
    by (simp_all add: extra_space_def length_dump_char)
  moreover from this(1) have "dump_char c = [c]"
    by (auto simp: dump_char_def escape_codepoint_def split: if_splits)
  ultimately show ?case by simp
qed simp

lemma dump_escaped_eq:
  "dump_escaped s = xbind (throw_if_invalid_utf8 s) (\<lambda>_. Inr (concat (map dump_char s)))"
proof -
  have "dump_into (replicate (length s + extra_space s) c) 0 s
        = Some (concat (map dump_char s), length s + extra_space s)" for c
    by (subst dump_into_eq) (simp_all add: length_dump_chars)
  then show ?thesis
    by (simp add: dump_escaped_def Let_def no_extra xbind_def split: sum.splits)
qed

lemma digit_loop_to_string: "x \<noteq> 0 \<Longrightarrow> rev (digit_loop x) = to_string x"
proof (induction x rule: digit_loop.induct)
  case (1 x)
  show ?case
  proof (cases "x < 10")
    case True
    with 1(2) show ?thesis
      by (simp add: digit_loop.simps [of x] digit_loop.simps [of 0] to_string.simps [of x])
  next
    case False
    with 1 show ?thesis by (simp add: digit_loop.simps [of x] to_string.simps [of x])
  qed
qed

lemma dump_integer_eq: "dump_integer x = (if x < 0 then ''-'' else []) @ to_string (nat \<bar>x\<bar>)"
proof (cases "x = 0")
  case True
  then show ?thesis by (simp add: dump_integer_def to_string.simps [of 0] digit_char_numerals)
next
  case False
  then show ?thesis by (simp add: dump_integer_def digit_loop_to_string)
qed

end
