(* ===== verification/Json_Parser.thy ===== *)
theory Json_Parser imports Json_Text begin

text \<open>
  The lexer and the recursive-descent parser of \<open>third_party/json/json.hpp\<close>.  A position in the
  input is the string that remains.  The parser always runs with exceptions and without a callback,
  so that an error ends it and the text of the error is not kept.  \<open>std::strtod\<close> is a parameter:
  None stands for a number that is not finite.
\<close>

section \<open>Tokens\<close>

datatype token =
    literal_true | literal_false | literal_null
  | value_string string
  | value_unsigned nat
  | value_integer int
  | value_float "c_double option"
  | begin_array | begin_object | end_array | end_object
  | name_separator | value_separator
  | parse_error
  | end_of_input

section \<open>Strings\<close>

definition hex_value :: "char \<Rightarrow> nat option" where
  "hex_value c =
     (let n = of_char c :: nat in
       if 0x30 \<le> n \<and> n \<le> 0x39 then Some (n - 0x30)
       else if 0x41 \<le> n \<and> n \<le> 0x46 then Some (n - 0x37)
       else if 0x61 \<le> n \<and> n \<le> 0x66 then Some (n - 0x57)
       else None)"

text \<open>The four digits after \<open>\u\<close>, with the shift of each.\<close>

fun codepoint_loop :: "nat list \<Rightarrow> nat \<Rightarrow> string \<Rightarrow> (nat \<times> string) option" where
  "codepoint_loop [] codepoint s = Some (codepoint, s)"
| "codepoint_loop (f # fs) codepoint [] = None"
| "codepoint_loop (f # fs) codepoint (c # s) =
     (case hex_value c of
        None \<Rightarrow> None
      | Some v \<Rightarrow> codepoint_loop fs (codepoint + v * 2 ^ f) s)"

definition get_codepoint :: "string \<Rightarrow> (nat \<times> string) option" where
  "get_codepoint s = codepoint_loop [12, 8, 4, 0] 0 s"

definition byte_of :: "nat \<Rightarrow> char" where
  "byte_of n = char_of n"

text \<open>The bytes of a code point.\<close>

definition utf8_bytes :: "nat \<Rightarrow> string" where
  "utf8_bytes codepoint =
     (if codepoint < 0x80 then [byte_of codepoint]
      else if codepoint \<le> 0x7FF then
        [byte_of (0xC0 + codepoint div 2 ^ 6), byte_of (0x80 + codepoint mod 2 ^ 6)]
      else if codepoint \<le> 0xFFFF then
        [byte_of (0xE0 + codepoint div 2 ^ 12), byte_of (0x80 + codepoint div 2 ^ 6 mod 2 ^ 6),
         byte_of (0x80 + codepoint mod 2 ^ 6)]
      else
        [byte_of (0xF0 + codepoint div 2 ^ 18), byte_of (0x80 + codepoint div 2 ^ 12 mod 2 ^ 6),
         byte_of (0x80 + codepoint div 2 ^ 6 mod 2 ^ 6), byte_of (0x80 + codepoint mod 2 ^ 6)])"

text \<open>What follows \<open>\u\<close>: one code unit, or a high and a low surrogate.\<close>

definition scan_unicode :: "string \<Rightarrow> (string \<times> string) option" where
  "scan_unicode s =
     (case get_codepoint s of
        None \<Rightarrow> None
      | Some (codepoint1, s1) \<Rightarrow>
          if 0xD800 \<le> codepoint1 \<and> codepoint1 \<le> 0xDBFF then
            (case s1 of
               b # u # s2 \<Rightarrow>
                 if b = CHR 0x5C \<and> u = CHR ''u'' then
                   (case get_codepoint s2 of
                      None \<Rightarrow> None
                    | Some (codepoint2, s3) \<Rightarrow>
                        if 0xDC00 \<le> codepoint2 \<and> codepoint2 \<le> 0xDFFF
                        then Some (utf8_bytes (codepoint1 * 2 ^ 10 + codepoint2 - 0x35FDC00), s3)
                        else None)
                 else None
             | _ \<Rightarrow> None)
          else if 0xDC00 \<le> codepoint1 \<and> codepoint1 \<le> 0xDFFF then None
          else Some (utf8_bytes codepoint1, s1))"

text \<open>The character after a backslash.\<close>

definition scan_escape :: "string \<Rightarrow> (string \<times> string) option" where
  "scan_escape s =
     (case s of
        [] \<Rightarrow> None
      | c # s1 \<Rightarrow>
          if c = CHR 0x22 then Some ([CHR 0x22], s1)
          else if c = CHR 0x5C then Some ([CHR 0x5C], s1)
          else if c = CHR ''/'' then Some ([CHR ''/''], s1)
          else if c = CHR ''b'' then Some ([CHR 0x08], s1)
          else if c = CHR ''f'' then Some ([CHR 0x0C], s1)
          else if c = CHR ''n'' then Some ([CHR 0x0A], s1)
          else if c = CHR ''r'' then Some ([CHR 0x0D], s1)
          else if c = CHR ''t'' then Some ([CHR 0x09], s1)
          else if c = CHR ''u'' then scan_unicode s1
          else None)"

text \<open>The ranges of the bytes that follow a first byte; None for a byte that cannot be first.\<close>

definition utf8_ranges :: "nat \<Rightarrow> (nat \<times> nat) list option" where
  "utf8_ranges n =
     (if n < 0x80 then Some []
      else if 0xC2 \<le> n \<and> n \<le> 0xDF then Some [(0x80, 0xBF)]
      else if n = 0xE0 then Some [(0xA0, 0xBF), (0x80, 0xBF)]
      else if 0xE1 \<le> n \<and> n \<le> 0xEC \<or> n = 0xEE \<or> n = 0xEF then Some [(0x80, 0xBF), (0x80, 0xBF)]
      else if n = 0xED then Some [(0x80, 0x9F), (0x80, 0xBF)]
      else if n = 0xF0 then Some [(0x90, 0xBF), (0x80, 0xBF), (0x80, 0xBF)]
      else if 0xF1 \<le> n \<and> n \<le> 0xF3 then Some [(0x80, 0xBF), (0x80, 0xBF), (0x80, 0xBF)]
      else if n = 0xF4 then Some [(0x80, 0x8F), (0x80, 0xBF), (0x80, 0xBF)]
      else None)"

fun next_byte_in_range :: "(nat \<times> nat) list \<Rightarrow> string \<Rightarrow> (string \<times> string) option" where
  "next_byte_in_range [] s = Some ([], s)"
| "next_byte_in_range (r # rs) [] = None"
| "next_byte_in_range ((lo, hi) # rs) (c # s) =
     (if lo \<le> of_char c \<and> of_char c \<le> hi
      then map_option (\<lambda>(y, s'). (c # y, s')) (next_byte_in_range rs s)
      else None)"

text \<open>One round of the loop of \<open>scan_string\<close> on a character that is not the closing quote: the bytes
  it adds and the input that remains.\<close>

definition scan_char :: "char \<Rightarrow> string \<Rightarrow> (string \<times> string) option" where
  "scan_char c s =
     (if c = CHR 0x5C then scan_escape s
      else if of_char c \<le> (0x1F :: nat) then None
      else (case utf8_ranges (of_char c) of
              None \<Rightarrow> None
            | Some rs \<Rightarrow> map_option (\<lambda>(y, s'). (c # y, s')) (next_byte_in_range rs s)))"

lemma codepoint_loop_length:
  "codepoint_loop fs cp s = Some (cp', s') \<Longrightarrow> length s = length s' + length fs"
  by (induction fs cp s rule: codepoint_loop.induct) (auto split: option.splits)

lemma get_codepoint_length: "get_codepoint s = Some (cp, s') \<Longrightarrow> length s = length s' + 4"
  by (auto simp: get_codepoint_def dest: codepoint_loop_length)

lemma scan_unicode_length: "scan_unicode s = Some (y, s') \<Longrightarrow> length s' \<le> length s"
  by (auto simp: scan_unicode_def split: option.splits list.splits if_splits prod.splits
      dest!: get_codepoint_length)

lemma scan_escape_length: "scan_escape s = Some (y, s') \<Longrightarrow> length s' \<le> length s"
  by (auto simp: scan_escape_def split: list.splits if_splits dest: scan_unicode_length)

lemma next_byte_length: "next_byte_in_range rs s = Some (y, s') \<Longrightarrow> s = y @ s' \<and> length y = length rs"
  by (induction rs s arbitrary: y rule: next_byte_in_range.induct) (auto split: if_splits)

lemma scan_char_length: "scan_char c s = Some (y, s') \<Longrightarrow> length s' \<le> length s"
  by (auto simp: scan_char_def split: option.splits if_splits
      dest: scan_escape_length dest!: next_byte_length)

function scan_string :: "string \<Rightarrow> (string \<times> string) option" where
  "scan_string [] = None"
| "scan_string (c # s) =
     (if c = CHR 0x22 then Some ([], s)
      else (case scan_char c s of
              None \<Rightarrow> None
            | Some (y, s') \<Rightarrow> map_option (\<lambda>(y', r). (y @ y', r)) (scan_string s')))"
  by pat_completeness auto
termination
  by (relation "measure length") (auto dest: scan_char_length)

section \<open>Numbers\<close>

datatype number_type = Unsigned | Signed | Floating

text \<open>One function per label of \<open>scan_number\<close>: \<open>y\<close> is \<open>yytext\<close>, the result its final value with the
  type of the number and the input from the first character that does not belong to it.\<close>

type_synonym scanned_number = "(number_type \<times> string \<times> string) option"

fun number_any2 :: "string \<Rightarrow> string \<Rightarrow> scanned_number" where
  "number_any2 y [] = Some (Floating, y, [])"
| "number_any2 y (c # s) =
     (if is_digit c then number_any2 (y @ [c]) s else Some (Floating, y, c # s))"

definition number_sign :: "string \<Rightarrow> string \<Rightarrow> scanned_number" where
  "number_sign y s =
     (case s of [] \<Rightarrow> None | c # s' \<Rightarrow> if is_digit c then number_any2 (y @ [c]) s' else None)"

definition number_exponent :: "string \<Rightarrow> string \<Rightarrow> scanned_number" where
  "number_exponent y s =
     (case s of
        [] \<Rightarrow> None
      | c # s' \<Rightarrow>
          if c = CHR ''+'' \<or> c = CHR ''-'' then number_sign (y @ [c]) s'
          else if is_digit c then number_any2 (y @ [c]) s'
          else None)"

fun number_decimal2 :: "string \<Rightarrow> string \<Rightarrow> scanned_number" where
  "number_decimal2 y [] = Some (Floating, y, [])"
| "number_decimal2 y (c # s) =
     (if is_digit c then number_decimal2 (y @ [c]) s
      else if c = CHR ''e'' \<or> c = CHR ''E'' then number_exponent (y @ [c]) s
      else Some (Floating, y, c # s))"

definition number_decimal1 :: "string \<Rightarrow> string \<Rightarrow> scanned_number" where
  "number_decimal1 y s =
     (case s of [] \<Rightarrow> None | c # s' \<Rightarrow> if is_digit c then number_decimal2 (y @ [c]) s' else None)"

fun number_any1 :: "number_type \<Rightarrow> string \<Rightarrow> string \<Rightarrow> scanned_number" where
  "number_any1 ty y [] = Some (ty, y, [])"
| "number_any1 ty y (c # s) =
     (if is_digit c then number_any1 ty (y @ [c]) s
      else if c = CHR ''.'' then number_decimal1 (y @ [c]) s
      else if c = CHR ''e'' \<or> c = CHR ''E'' then number_exponent (y @ [c]) s
      else Some (ty, y, c # s))"

definition number_zero :: "number_type \<Rightarrow> string \<Rightarrow> string \<Rightarrow> scanned_number" where
  "number_zero ty y s =
     (case s of
        [] \<Rightarrow> Some (ty, y, [])
      | c # s' \<Rightarrow>
          if c = CHR ''.'' then number_decimal1 (y @ [c]) s'
          else if c = CHR ''e'' \<or> c = CHR ''E'' then number_exponent (y @ [c]) s'
          else Some (ty, y, s))"

definition number_minus :: "string \<Rightarrow> string \<Rightarrow> scanned_number" where
  "number_minus y s =
     (case s of
        [] \<Rightarrow> None
      | c # s' \<Rightarrow>
          if c = CHR ''0'' then number_zero Signed (y @ [c]) s'
          else if is_digit c then number_any1 Signed (y @ [c]) s'
          else None)"

text \<open>\<open>std::strtoull\<close> and \<open>std::strtoll\<close> within their ranges; \<open>std::strtod\<close> takes what is left.\<close>

definition number_done :: "(string \<Rightarrow> c_double option) \<Rightarrow> number_type \<Rightarrow> string \<Rightarrow> token" where
  "number_done strtod ty y =
     (case ty of
        Unsigned \<Rightarrow>
          if digits_val y < 2 ^ 64 then value_unsigned (digits_val y) else value_float (strtod y)
      | Signed \<Rightarrow>
          if digits_val (tl y) \<le> 2 ^ 63 then value_integer (- int (digits_val (tl y)))
          else value_float (strtod y)
      | Floating \<Rightarrow> value_float (strtod y))"

definition scan_number :: "(string \<Rightarrow> c_double option) \<Rightarrow> char \<Rightarrow> string \<Rightarrow> token \<times> string" where
  "scan_number strtod c s =
     (case (if c = CHR ''-'' then number_minus [c] s
            else if c = CHR ''0'' then number_zero Unsigned [c] s
            else number_any1 Unsigned [c] s) of
        None \<Rightarrow> (parse_error, [])
      | Some (ty, y, s') \<Rightarrow> (number_done strtod ty y, s'))"

section \<open>The scanner\<close>

definition scan_literal :: "string \<Rightarrow> token \<Rightarrow> string \<Rightarrow> token \<times> string" where
  "scan_literal text tok s =
     (if take (length text) s = text then (tok, drop (length text) s) else (parse_error, []))"

definition json_space :: "char \<Rightarrow> bool" where
  "json_space c \<longleftrightarrow> c = CHR '' '' \<or> c = CHR 0x09 \<or> c = CHR 0x0A \<or> c = CHR 0x0D"

fun scan :: "(string \<Rightarrow> c_double option) \<Rightarrow> string \<Rightarrow> token \<times> string" where
  "scan strtod [] = (end_of_input, [])"
| "scan strtod (c # s) =
     (if json_space c then scan strtod s
      else if c = CHR ''['' then (begin_array, s)
      else if c = CHR '']'' then (end_array, s)
      else if c = CHR ''{'' then (begin_object, s)
      else if c = CHR ''}'' then (end_object, s)
      else if c = CHR '':'' then (name_separator, s)
      else if c = CHR '','' then (value_separator, s)
      else if c = CHR ''t'' then scan_literal ''rue'' literal_true s
      else if c = CHR ''f'' then scan_literal ''alse'' literal_false s
      else if c = CHR ''n'' then scan_literal ''ull'' literal_null s
      else if c = CHR 0x22 then
        (case scan_string s of None \<Rightarrow> (parse_error, []) | Some (y, s') \<Rightarrow> (value_string y, s'))
      else if c = CHR ''-'' \<or> is_digit c then scan_number strtod c s
      else if c = CHR 0x00 then (end_of_input, s)
      else (parse_error, []))"

section \<open>The parser\<close>

definition fbind :: "'a or_throw option \<Rightarrow> ('a \<Rightarrow> 'b or_throw option) \<Rightarrow> 'b or_throw option" where
  "fbind r f = (case r of None \<Rightarrow> None | Some (Inl e) \<Rightarrow> Some (Inl e) | Some (Inr x) \<Rightarrow> f x)"

text \<open>\<open>parse_internal\<close> and its two loops, with fuel; \<open>tok\<close> is \<open>last_token\<close>.  None means that the fuel
  ran out.\<close>

fun parse_internal ::
    "(string \<Rightarrow> c_double option) \<Rightarrow> nat \<Rightarrow> token \<Rightarrow> string \<Rightarrow> (json \<times> string) or_throw option"
  and parse_members ::
    "(string \<Rightarrow> c_double option) \<Rightarrow> nat \<Rightarrow> token \<Rightarrow> string \<Rightarrow> members \<Rightarrow> (json \<times> string) or_throw option"
  and parse_elements ::
    "(string \<Rightarrow> c_double option) \<Rightarrow> nat \<Rightarrow> token \<Rightarrow> string \<Rightarrow> json list \<Rightarrow> (json \<times> string) or_throw option"
  where
  "parse_internal strtod 0 tok s = None"
| "parse_internal strtod (Suc n) tok s =
     (case tok of
        begin_object \<Rightarrow>
          (let (tok1, s1) = scan strtod s in
            if tok1 = end_object then Some (Inr (JObject [], s1))
            else parse_members strtod n tok1 s1 [])
      | begin_array \<Rightarrow>
          (let (tok1, s1) = scan strtod s in
            if tok1 = end_array then Some (Inr (JArray [], s1))
            else parse_elements strtod n tok1 s1 [])
      | literal_null \<Rightarrow> Some (Inr (JNull, s))
      | value_string y \<Rightarrow> Some (Inr (JString y, s))
      | literal_true \<Rightarrow> Some (Inr (JBool True, s))
      | literal_false \<Rightarrow> Some (Inr (JBool False, s))
      | value_unsigned v \<Rightarrow> Some (Inr (JInt (int v), s))
      | value_integer v \<Rightarrow> Some (Inr (JInt v, s))
      | value_float (Some f) \<Rightarrow> Some (Inr (JFloat f, s))
      | value_float None \<Rightarrow> Some (Inl (Key_Out_Of_Range 406))
      | _ \<Rightarrow> Some (Inl Parse_Error))"
| "parse_members strtod 0 tok s m = None"
| "parse_members strtod (Suc n) tok s m =
     (case tok of
        value_string key \<Rightarrow>
          (let (tok1, s1) = scan strtod s in
            if tok1 \<noteq> name_separator then Some (Inl Parse_Error)
            else let (tok2, s2) = scan strtod s1 in
              fbind (parse_internal strtod n tok2 s2) (\<lambda>(v, s3).
                let m' = obj_emplace key v m; (tok4, s4) = scan strtod s3 in
                  if tok4 = value_separator then
                    (let (tok5, s5) = scan strtod s4 in parse_members strtod n tok5 s5 m')
                  else if tok4 = end_object then Some (Inr (JObject m', s4))
                  else Some (Inl Parse_Error)))
      | _ \<Rightarrow> Some (Inl Parse_Error))"
| "parse_elements strtod 0 tok s a = None"
| "parse_elements strtod (Suc n) tok s a =
     fbind (parse_internal strtod n tok s) (\<lambda>(v, s1).
       let (tok2, s2) = scan strtod s1 in
         if tok2 = value_separator then
           (let (tok3, s3) = scan strtod s2 in parse_elements strtod n tok3 s3 (a @ [v]))
         else if tok2 = end_array then Some (Inr (JArray (a @ [v]), s2))
         else Some (Inl Parse_Error))"

text \<open>The input adapter skips a byte order mark.\<close>

definition skip_bom :: "string \<Rightarrow> string" where
  "skip_bom text = (if take 3 text = [CHR 0xEF, CHR 0xBB, CHR 0xBF] then drop 3 text else text)"

definition parse_fuel :: "string \<Rightarrow> nat" where
  "parse_fuel s = 2 * length s + 3"

definition parse_text :: "(string \<Rightarrow> c_double option) \<Rightarrow> string \<Rightarrow> json or_throw option" where
  "parse_text strtod text =
     (let (tok, s) = scan strtod (skip_bom text) in
       fbind (parse_internal strtod (parse_fuel s) tok s) (\<lambda>(v, s').
         if fst (scan strtod s') = end_of_input then Some (Inr v) else Some (Inl Parse_Error)))"

definition json_parse :: "(string \<Rightarrow> c_double option) \<Rightarrow> string \<Rightarrow> json or_throw" where
  "json_parse strtod text = the (parse_text strtod text)"

end
