(* ===== verification/Json_Scan.thy ===== *)
theory Json_Scan imports Json_Parser begin

text \<open>
  The scanner against the serializer: the table-driven UTF-8 checker of the one accepts exactly what
  the byte ranges of the other describe, and the scanner reads printed strings and numbers back.
\<close>

section \<open>The two UTF-8 checkers\<close>

text \<open>The specification: a sequence of characters, each a first byte with the bytes it asks for.\<close>

function utf8_wf :: "string \<Rightarrow> bool" where
  "utf8_wf [] = True"
| "utf8_wf (c # s) =
     (case utf8_ranges (of_char c) of
        None \<Rightarrow> False
      | Some rs \<Rightarrow> (case next_byte_in_range rs s of None \<Rightarrow> False | Some (_, s') \<Rightarrow> utf8_wf s'))"
  by pat_completeness auto
termination
  by (relation "measure length") (auto dest!: next_byte_length)

text \<open>The class of a byte, and the ranges of the bytes still to come in each state.\<close>

definition byte_class :: "nat \<Rightarrow> nat" where
  "byte_class n =
     (if n < 0x80 then 0 else if n < 0x90 then 1 else if n < 0xA0 then 9 else if n < 0xC0 then 7
      else if n < 0xC2 then 8 else if n < 0xE0 then 2 else if n = 0xE0 then 10 else if n = 0xED then 4
      else if n < 0xF0 then 3 else if n = 0xF0 then 11 else if n < 0xF4 then 6 else if n = 0xF4 then 5
      else 8)"

definition state_ranges :: "nat \<Rightarrow> (nat \<times> nat) list" where
  "state_ranges q =
     [[], [], [(0x80, 0xBF)], [(0x80, 0xBF), (0x80, 0xBF)], [(0xA0, 0xBF), (0x80, 0xBF)],
      [(0x80, 0x9F), (0x80, 0xBF)], [(0x90, 0xBF), (0x80, 0xBF), (0x80, 0xBF)],
      [(0x80, 0xBF), (0x80, 0xBF), (0x80, 0xBF)], [(0x80, 0x8F), (0x80, 0xBF), (0x80, 0xBF)]] ! q"

lemma utf8d_classes: "list_all (\<lambda>(i, k). k = byte_class i) (zip [0..<256] utf8d)"
  by code_simp

lemma utf8d_class: "n < 256 \<Longrightarrow> utf8d ! n = byte_class n"
proof -
  assume n: "n < 256"
  have "(n, utf8d ! n) = zip [0..<256] utf8d ! n" using n by (simp add: utf8d_def)
  moreover have "length (zip [0..<256] utf8d) = 256" by (simp add: utf8d_def)
  ultimately have "(n, utf8d ! n) \<in> set (zip [0..<256] utf8d)" using n by (metis nth_mem)
  then show ?thesis using utf8d_classes by (auto simp: list_all_iff)
qed

definition transitions :: "nat \<Rightarrow> nat list" where
  "transitions q =
     [[0, 1, 2, 3, 5, 8, 7, 1, 1, 1, 4, 6], [1, 1, 1, 1, 1, 1, 1, 1, 1, 1, 1, 1],
      [1, 0, 1, 1, 1, 1, 1, 0, 1, 0, 1, 1], [1, 2, 1, 1, 1, 1, 1, 2, 1, 2, 1, 1],
      [1, 1, 1, 1, 1, 1, 1, 2, 1, 1, 1, 1], [1, 2, 1, 1, 1, 1, 1, 1, 1, 2, 1, 1],
      [1, 1, 1, 1, 1, 1, 1, 3, 1, 3, 1, 1], [1, 3, 1, 1, 1, 1, 1, 3, 1, 3, 1, 1],
      [1, 3, 1, 1, 1, 1, 1, 1, 1, 1, 1, 1]] ! q"

lemma utf8d_rows:
  "list_all (\<lambda>q. take 12 (drop (256 + q * 16) utf8d) = transitions q) [0..<9]"
  by code_simp

lemma decode_class: "q < 9 \<Longrightarrow> n < 256 \<Longrightarrow> decode q n = transitions q ! byte_class n"
proof -
  assume q: "q < 9" and n: "n < 256"
  have c: "byte_class n < 12" by (simp add: byte_class_def)
  have l: "length utf8d = 400" by (simp add: utf8d_def)
  have "decode q n = drop (256 + q * 16) utf8d ! byte_class n"
    using q c l by (simp add: decode_def utf8d_class [OF n])
  also have "\<dots> = take 12 (drop (256 + q * 16) utf8d) ! byte_class n"
    using c by simp
  also have "take 12 (drop (256 + q * 16) utf8d) = transitions q"
    using utf8d_rows q by (simp add: list_all_iff)
  finally show ?thesis .
qed

definition ok_state :: "nat \<Rightarrow> bool" where
  "ok_state q \<longleftrightarrow> q < 9 \<and> q \<noteq> 1"

lemma first_bytes:
  "list_all (\<lambda>n. case utf8_ranges n of
                   None \<Rightarrow> transitions 0 ! byte_class n = 1
                 | Some rs \<Rightarrow> ok_state (transitions 0 ! byte_class n) \<and>
                     state_ranges (transitions 0 ! byte_class n) = rs) [0..<256]"
  by code_simp

lemma decode_first:
  assumes "n < 256"
  shows "case utf8_ranges n of None \<Rightarrow> decode 0 n = 1
         | Some rs \<Rightarrow> ok_state (decode 0 n) \<and> state_ranges (decode 0 n) = rs"
  unfolding decode_class [of 0 n, simplified, OF assms]
  using first_bytes assms unfolding list_all_iff by fastforce

text \<open>Only three classes lead on from the middle of a character.\<close>

lemma byte_class_tail:
  "byte_class n = 1 \<longleftrightarrow> 0x80 \<le> n \<and> n < 0x90" "byte_class n = 9 \<longleftrightarrow> 0x90 \<le> n \<and> n < 0xA0"
  "byte_class n = 7 \<longleftrightarrow> 0xA0 \<le> n \<and> n < 0xC0" "byte_class n < 12"
  by (auto simp: byte_class_def)

lemma tail_transitions:
  "list_all (\<lambda>k. transitions 2 ! k = (if k = 1 \<or> k = 9 \<or> k = 7 then 0 else 1)) [0..<12]"
  "list_all (\<lambda>k. transitions 3 ! k = (if k = 1 \<or> k = 9 \<or> k = 7 then 2 else 1)) [0..<12]"
  "list_all (\<lambda>k. transitions 4 ! k = (if k = 7 then 2 else 1)) [0..<12]"
  "list_all (\<lambda>k. transitions 5 ! k = (if k = 1 \<or> k = 9 then 2 else 1)) [0..<12]"
  "list_all (\<lambda>k. transitions 6 ! k = (if k = 9 \<or> k = 7 then 3 else 1)) [0..<12]"
  "list_all (\<lambda>k. transitions 7 ! k = (if k = 1 \<or> k = 9 \<or> k = 7 then 3 else 1)) [0..<12]"
  "list_all (\<lambda>k. transitions 8 ! k = (if k = 1 then 3 else 1)) [0..<12]"
  by code_simp+

lemma decode_next:
  assumes "n < 256" "ok_state q" "q \<noteq> 0"
  shows "\<exists>lo hi rs. state_ranges q = (lo, hi) # rs \<and>
    (if lo \<le> n \<and> n \<le> hi then ok_state (decode q n) \<and> state_ranges (decode q n) = rs else decode q n = 1)"
proof -
  have q: "q \<in> {2, 3, 4, 5, 6, 7, 8}" using assms by (auto simp: ok_state_def)
  note d = decode_class [OF _ assms(1)]
  have k: "byte_class n \<in> set [0..<12]" by (simp add: byte_class_tail)
  note t = tail_transitions [unfolded list_all_iff, THEN bspec, OF k]
  show ?thesis
    using q by (elim insertE emptyE;
      simp add: d t byte_class_tail byte_class_tail(1) [unfolded One_nat_def] state_ranges_def ok_state_def;
      linarith)
qed

lemma state_ranges_0 [simp]: "state_ranges 0 = []"
  by (simp add: state_ranges_def)

lemma utf8_scan_state:
  "ok_state q \<Longrightarrow>
   utf8_scan q s = (case next_byte_in_range (state_ranges q) s of None \<Rightarrow> False | Some (_, s') \<Rightarrow> utf8_scan 0 s')"
proof (induction s arbitrary: q)
  case Nil
  show ?case
  proof (cases "q = 0")
    case False
    obtain lo hi rs where "state_ranges q = (lo, hi) # rs"
      using decode_next [of 0, OF _ Nil False] by (metis zero_less_numeral)
    with False show ?thesis by simp
  qed simp
next
  case (Cons c s)
  show ?case
  proof (cases "q = 0")
    case False
    have c: "of_char c < (256 :: nat)" by simp
    obtain lo hi rs where *: "state_ranges q = (lo, hi) # rs"
      "lo \<le> of_char c \<and> of_char c \<le> hi \<Longrightarrow>
         ok_state (decode q (of_char c)) \<and> state_ranges (decode q (of_char c)) = rs"
      "\<not> (lo \<le> of_char c \<and> of_char c \<le> hi) \<Longrightarrow> decode q (of_char c) = 1"
      using decode_next [OF c Cons(2) False] by metis
    show ?thesis
    proof (cases "lo \<le> of_char c \<and> of_char c \<le> hi")
      case True
      with *(2) Cons(1) [of "decode q (of_char c)"] show ?thesis
        by (auto simp: *(1) Let_def ok_state_def split: option.splits)
    next
      case not_in: False
      with *(3) show ?thesis by (auto simp: *(1) Let_def)
    qed
  qed simp
qed

lemma utf8_scan_wf: "utf8_scan 0 s = utf8_wf s"
proof (induction s rule: utf8_wf.induct)
  case (2 c s)
  have 1: "case utf8_ranges (of_char c) of None \<Rightarrow> decode 0 (of_char c) = 1
        | Some rs \<Rightarrow> ok_state (decode 0 (of_char c)) \<and> state_ranges (decode 0 (of_char c)) = rs"
    by (rule decode_first) simp
  show ?case
  proof (cases "utf8_ranges (of_char c)")
    case None
    with 1 show ?thesis by (simp add: Let_def)
  next
    case (Some rs)
    with 1 have ok: "ok_state (decode 0 (of_char c))" and rs: "state_ranges (decode 0 (of_char c)) = rs"
      by simp_all
    have "utf8_scan 0 (c # s) = utf8_scan (decode 0 (of_char c)) s"
      using ok by (simp add: Let_def ok_state_def)
    also have "\<dots> = (case next_byte_in_range rs s of None \<Rightarrow> False | Some (_, s') \<Rightarrow> utf8_scan 0 s')"
      using utf8_scan_state [OF ok] rs by simp
    also have "\<dots> = (case next_byte_in_range rs s of None \<Rightarrow> False | Some (_, s') \<Rightarrow> utf8_wf s')"
      using 2 [OF Some] by (auto split: option.splits)
    finally show ?thesis using Some by simp
  qed
qed simp

section \<open>Reading back what was printed\<close>

lemma hex_value_hexify: "n < 16 \<Longrightarrow> hex_value (hexify n) = Some n"
proof -
  assume "n < 16"
  then have "n \<in> set [0..<16]" by simp
  moreover have "list_all (\<lambda>n. hex_value (hexify n) = Some n) [0..<16]" by code_simp
  ultimately show ?thesis by (simp add: list_all_iff)
qed

lemma get_codepoint_escape:
  assumes "n < 2 ^ 16" and "escape_codepoint n = b # u # e"
  shows "get_codepoint (e @ t) = Some (n, t)"
proof -
  have e: "e = [hexify (n div 2 ^ 12 mod 16), hexify (n div 2 ^ 8 mod 16),
                hexify (n div 2 ^ 4 mod 16), hexify (n mod 16)]"
    using assms(2) by (simp add: escape_codepoint_def)
  have 1: "n div 2 ^ 12 = n div 16 div 16 div 16" "n div 2 ^ 8 = n div 16 div 16"
    by (simp_all flip: div_mult2_eq)
  have *: "a * 2 ^ 12 + b * 2 ^ 8 + c * 2 ^ 4 + d = ((a * 16 + b) * 16 + c) * 16 + d" for a b c d :: nat
    by (simp add: algebra_simps)
  have 3: "n div 2 ^ 4 = n div 16" by simp
  have "n div 2 ^ 12 * 2 ^ 12 + n div 2 ^ 8 mod 16 * 2 ^ 8 + n div 2 ^ 4 mod 16 * 2 ^ 4 + n mod 16 = n"
    unfolding * 1 3 by (simp only: div_mult_mod_eq)
  then show ?thesis using assms(1) by (simp add: e get_codepoint_def hex_value_hexify)
qed

lemma scan_char_ascii:
  assumes "of_char c < (0x80 :: nat)"
  shows "\<exists>d e. dump_char c = d # e \<and> d \<noteq> CHR 0x22 \<and> scan_char d (e @ t) = Some ([c], t)"
proof -
  have c: "byte_of (of_char c) = c" by (simp add: byte_of_def)
  consider "c \<in> {CHR 0x22, CHR 0x5C, CHR 0x08, CHR 0x0C, CHR 0x0A, CHR 0x0D, CHR 0x09}"
    | "c \<notin> {CHR 0x22, CHR 0x5C, CHR 0x08, CHR 0x0C, CHR 0x0A, CHR 0x0D, CHR 0x09}"
      "of_char c \<le> (0x1F :: nat)"
    | "c \<notin> {CHR 0x22, CHR 0x5C, CHR 0x08, CHR 0x0C, CHR 0x0A, CHR 0x0D, CHR 0x09}"
      "\<not> of_char c \<le> (0x1F :: nat)"
    by blast
  then show ?thesis
  proof cases
    case 1
    then show ?thesis by (auto simp: dump_char_def scan_char_def scan_escape_def)
  next
    case 2
    then obtain e where e: "dump_char c = CHR 0x5C # CHR ''u'' # e"
        "escape_codepoint (of_char c) = CHR 0x5C # CHR ''u'' # e"
      by (simp add: dump_char_def escape_codepoint_def)
    have "get_codepoint (e @ t) = Some (of_char c, t)"
      using 2 e by (intro get_codepoint_escape) simp_all
    then have "scan_unicode (e @ t) = Some ([c], t)"
      using 2 c by (simp add: scan_unicode_def utf8_bytes_def)
    then show ?thesis by (simp add: e scan_char_def scan_escape_def)
  next
    case 3
    then show ?thesis using assms by (simp add: dump_char_def scan_char_def utf8_ranges_def)
  qed
qed

lemma next_byte_append: "next_byte_in_range rs s = Some (y, s') \<Longrightarrow> next_byte_in_range rs (y @ t) = Some (y, t)"
  by (induction rs s arbitrary: y rule: next_byte_in_range.induct) (auto split: if_splits)

lemma next_byte_high:
  "next_byte_in_range rs s = Some (y, s') \<Longrightarrow> \<forall>(lo, hi) \<in> set rs. 0x80 \<le> lo \<Longrightarrow>
   \<forall>c \<in> set y. 0x80 \<le> (of_char c :: nat)"
  by (induction rs s arbitrary: y rule: next_byte_in_range.induct) (auto split: if_splits)

lemma utf8_ranges_high: "utf8_ranges n = Some rs \<Longrightarrow> \<forall>(lo, hi) \<in> set rs. 0x80 \<le> lo"
  by (auto simp: utf8_ranges_def split: if_splits)

lemma utf8_ranges_ascii: "utf8_ranges n = Some rs \<Longrightarrow> rs = [] \<longleftrightarrow> n < 0x80"
  by (auto simp: utf8_ranges_def split: if_splits)

lemma dump_char_high:
  assumes "0x80 \<le> (of_char c :: nat)"
  shows "dump_char c = [c]"
proof -
  have "c \<notin> {CHR 0x22, CHR 0x5C, CHR 0x08, CHR 0x0C, CHR 0x0A, CHR 0x0D, CHR 0x09}"
    using assms by auto
  with assms show ?thesis by (simp add: dump_char_def)
qed

lemma dump_chars_high: "\<forall>c \<in> set y. 0x80 \<le> (of_char c :: nat) \<Longrightarrow> concat (map dump_char y) = y"
  by (induction y) (simp_all add: dump_char_high)

lemma scan_string_dumped:
  "utf8_wf s \<Longrightarrow> scan_string (concat (map dump_char s) @ CHR 0x22 # t) = Some (s, t)"
proof (induction s rule: utf8_wf.induct)
  case (2 c s)
  from 2(2) obtain rs y s' where rs: "utf8_ranges (of_char c) = Some rs"
      and y: "next_byte_in_range rs s = Some (y, s')" and wf: "utf8_wf s'"
    by (auto split: option.splits)
  have s: "s = y @ s'" using y by (simp add: next_byte_length)
  have IH: "scan_string (concat (map dump_char s') @ CHR 0x22 # t) = Some (s', t)"
    using 2(1) [OF rs y refl wf] .
  show ?case
  proof (cases "of_char c < (0x80 :: nat)")
    case True
    then have "rs = []" using rs utf8_ranges_ascii by blast
    with y s have "s' = s" by simp
    moreover obtain d e where "dump_char c = d # e" "d \<noteq> CHR 0x22"
        "scan_char d (e @ concat (map dump_char s) @ CHR 0x22 # t) = Some ([c], concat (map dump_char s) @ CHR 0x22 # t)"
      using scan_char_ascii [OF True] by blast
    ultimately show ?thesis using IH by simp
  next
    case False
    have high: "concat (map dump_char y) = y"
      using next_byte_high [OF y utf8_ranges_high [OF rs]] by (rule dump_chars_high)
    have "scan_char c (y @ concat (map dump_char s') @ CHR 0x22 # t)
          = Some (c # y, concat (map dump_char s') @ CHR 0x22 # t)"
      using False rs next_byte_append [OF y] by (auto simp: scan_char_def)
    with False IH high show ?thesis by (auto simp: s dump_char_high)
  qed
qed simp

section \<open>Numbers\<close>

text \<open>A number ends where no character can belong to it.\<close>

definition number_ends :: "string \<Rightarrow> bool" where
  "number_ends t \<longleftrightarrow>
     (case t of [] \<Rightarrow> True
      | c # _ \<Rightarrow> \<not> is_digit c \<and> c \<noteq> CHR ''.'' \<and> c \<noteq> CHR ''e'' \<and> c \<noteq> CHR ''E'')"

lemma number_any1_digits:
  "\<forall>c \<in> set ds. is_digit c \<Longrightarrow> number_ends t \<Longrightarrow> number_any1 ty y (ds @ t) = Some (ty, y @ ds, t)"
proof (induction ds arbitrary: y)
  case Nil
  then show ?case by (cases t) (auto simp: number_ends_def)
qed simp

lemma number_zero_ends: "number_ends t \<Longrightarrow> number_zero ty y t = Some (ty, y, t)"
  by (cases t) (auto simp: number_zero_def number_ends_def)

lemma to_string_0: "to_string 0 = ''0''"
  by (simp add: to_string.simps [of 0] digit_char_numerals)

lemma digit_char_zero_iff: "d < 10 \<Longrightarrow> digit_char d = CHR ''0'' \<longleftrightarrow> d = 0"
  using digit_val_digit_char [of d] by (auto simp: digit_val_def digit_char_numerals)

lemma to_string_hd: "n \<noteq> 0 \<Longrightarrow> hd (to_string n) \<noteq> CHR ''0''"
proof (induction n rule: to_string.induct)
  case (1 n)
  then show ?case
    by (cases "n < 10") (simp_all add: to_string.simps [of n] digit_char_zero_iff to_string_nonempty)
qed

lemma to_string_Cons: "n \<noteq> 0 \<Longrightarrow> \<exists>c ds. to_string n = c # ds \<and> is_digit c \<and> c \<noteq> CHR ''0'' \<and> (\<forall>d \<in> set ds. is_digit d)"
  using to_string_hd [of n] to_string_nonempty [of n] digits_to_string [of n]
  by (cases "to_string n") auto

lemma digit_not_minus: "is_digit c \<Longrightarrow> c \<noteq> CHR ''-''"
  by (auto simp: is_digit_def)

definition int_ok :: "int \<Rightarrow> bool" where
  "int_ok i \<longleftrightarrow> - (2 ^ 63) \<le> i \<and> i < 2 ^ 64"

lemma scan_number_dumped:
  assumes "int_ok i" "number_ends t"
  obtains c s where "dump_integer i = c # s" "c = CHR ''-'' \<or> is_digit c"
    "scan_number strtod c (s @ t) =
       ((if i < 0 then value_integer i else value_unsigned (nat i)), t)"
proof (cases "i = 0")
  case True
  with assms show ?thesis
    by (intro that [of "CHR ''0''" "[]"])
      (simp_all add: dump_integer_def scan_number_def number_zero_ends number_done_def digits_val_def
        digit_val_def is_digit_def)
next
  case False
  then obtain c ds where c: "to_string (nat \<bar>i\<bar>) = c # ds" "is_digit c" "c \<noteq> CHR ''0''"
      "\<forall>d \<in> set ds. is_digit d"
    using to_string_Cons [of "nat \<bar>i\<bar>"] by auto
  have v: "digits_val (c # ds) = nat \<bar>i\<bar>" using digits_val_to_string [of "nat \<bar>i\<bar>"] c(1) by simp
  show ?thesis
  proof (cases "i < 0")
    case True
    have "nat \<bar>i\<bar> \<le> 2 ^ 63" using assms(1) True by (simp add: int_ok_def)
    with True c v assms(2) show ?thesis
      by (intro that [of "CHR ''-''" "c # ds"])
        (simp_all add: dump_integer_eq scan_number_def number_minus_def number_any1_digits number_done_def)
  next
    case nonneg: False
    have "nat \<bar>i\<bar> < 2 ^ 64" using assms(1) nonneg by (simp add: int_ok_def)
    with nonneg c v assms(2) digit_not_minus [OF c(2)] show ?thesis
      by (intro that [of c ds])
        (simp_all add: dump_integer_eq scan_number_def number_any1_digits number_done_def)
  qed
qed

end
