(* ===== verification/Json_Roundtrip.thy ===== *)
theory Json_Roundtrip imports Json_Scan begin

text \<open>
  The laws of the JSON reader and printer together: the parser ends on every input; what is printed is
  read back; what was read is well-formed and can be printed.
\<close>

section \<open>The parser ends\<close>

text \<open>A token takes at least one character, unless it reports the end or an error.\<close>

definition real_token :: "token \<Rightarrow> bool" where
  "real_token tok \<longleftrightarrow> tok \<noteq> end_of_input \<and> tok \<noteq> parse_error"

lemma number_any2_length: "number_any2 y s = Some (ty, y', s') \<Longrightarrow> length s' \<le> length s"
  by (induction y s rule: number_any2.induct) (auto split: if_splits)

lemma number_sign_length: "number_sign y s = Some (ty, y', s') \<Longrightarrow> length s' \<le> length s"
  by (auto simp: number_sign_def split: list.splits if_splits dest: number_any2_length)

lemma number_exponent_length: "number_exponent y s = Some (ty, y', s') \<Longrightarrow> length s' \<le> length s"
  by (auto simp: number_exponent_def split: list.splits if_splits
      dest: number_any2_length number_sign_length)

lemma number_decimal2_length: "number_decimal2 y s = Some (ty, y', s') \<Longrightarrow> length s' \<le> length s"
  by (induction y s rule: number_decimal2.induct) (auto split: if_splits dest: number_exponent_length)

lemma number_decimal1_length: "number_decimal1 y s = Some (ty, y', s') \<Longrightarrow> length s' \<le> length s"
  by (auto simp: number_decimal1_def split: list.splits if_splits dest: number_decimal2_length)

lemma number_any1_length: "number_any1 ty y s = Some (ty', y', s') \<Longrightarrow> length s' \<le> length s"
  by (induction ty y s rule: number_any1.induct)
    (auto split: if_splits dest: number_decimal1_length number_exponent_length)

lemma number_zero_length: "number_zero ty y s = Some (ty', y', s') \<Longrightarrow> length s' \<le> length s"
  by (auto simp: number_zero_def split: list.splits if_splits
      dest: number_decimal1_length number_exponent_length)

lemma number_minus_length: "number_minus y s = Some (ty', y', s') \<Longrightarrow> length s' \<le> length s"
  by (auto simp: number_minus_def split: list.splits if_splits
      dest: number_zero_length number_any1_length)

lemmas number_lengths = number_minus_length number_zero_length number_any1_length

lemma scan_number_length: "scan_number strtod c s = (tok, s') \<Longrightarrow> length s' \<le> length s"
  by (auto simp: scan_number_def split: option.splits if_splits dest: number_lengths)

lemma scan_string_length: "scan_string s = Some (y, s') \<Longrightarrow> length s' < length s"
proof (induction s arbitrary: y s' rule: scan_string.induct)
  case (2 c s)
  then show ?case
    by (fastforce split: if_splits option.splits dest: scan_char_length)
qed simp

lemma scan_literal_le: "scan_literal text tok s = (tok', s') \<Longrightarrow> length s' \<le> length s"
  by (auto simp: scan_literal_def split: if_splits)

lemma scan_string_le:
  "(case scan_string s of None \<Rightarrow> (parse_error, []) | Some (y, s') \<Rightarrow> (value_string y, s')) = (tok, r) \<Longrightarrow>
   length r \<le> length s"
  by (auto split: option.splits dest: scan_string_length)

lemma scan_token:
  assumes "\<not> json_space c" "scan strtod (c # s) = (tok, s')"
  shows "length s' \<le> length s"
  using assms
  by (simp only: scan.simps if_False split: if_split_asm)
    (erule scan_literal_le scan_string_le scan_number_length Pair_inject, (hypsubst, simp (no_asm))?)+

lemma scan_length:
  "scan strtod s = (tok, s') \<Longrightarrow> length s' \<le> length s \<and> (real_token tok \<longrightarrow> length s' < length s)"
proof (induction s)
  case (Cons c s)
  show ?case
  proof (cases "json_space c")
    case True
    with Cons show ?thesis by auto
  next
    case False
    from scan_token [OF this Cons(2)] show ?thesis by simp
  qed
qed (simp add: real_token_def)

lemma fbind_Some [simp]: "fbind (Some (Inr x)) f = f x" "fbind (Some (Inl e)) f = Some (Inl e)"
  by (simp_all add: fbind_def)

text \<open>With fuel for each character left, every call returns, and leaves no more than it was given.\<close>

definition returns :: "string \<Rightarrow> (json \<times> string) or_throw option \<Rightarrow> bool" where
  "returns s r \<longleftrightarrow> (case r of None \<Rightarrow> False | Some (Inl _) \<Rightarrow> True | Some (Inr (_, s')) \<Rightarrow> length s' \<le> length s)"

lemma returns_simps [simp]:
  "returns s (Some (Inl e))" "returns s (Some (Inr (v, s'))) \<longleftrightarrow> length s' \<le> length s" "\<not> returns s None"
  by (simp_all add: returns_def)

lemma returns_mono: "returns s r \<Longrightarrow> length s \<le> length t \<Longrightarrow> returns t r"
  by (auto simp: returns_def split: option.splits sum.splits)

lemma returns_cases:
  assumes "returns s r"
  obtains e where "r = Some (Inl e)" | v s' where "r = Some (Inr (v, s'))" "length s' \<le> length s"
  using assms by (auto simp: returns_def split: option.splits sum.splits)

lemma parse_returns:
  "(2 * length s + 3 \<le> n \<or> \<not> real_token tok \<and> 1 \<le> n \<longrightarrow> returns s (parse_internal strtod n tok s)) \<and>
   (2 * length s + 2 \<le> n \<longrightarrow> returns s (parse_members strtod n tok s m)) \<and>
   (2 * length s + 4 \<le> n \<or> \<not> real_token tok \<and> 2 \<le> n \<longrightarrow> returns s (parse_elements strtod n tok s a))"
proof (induction n arbitrary: tok s m a)
  case (Suc n)
  have int: "returns s (parse_internal strtod n tok s)"
    if "2 * length s + 3 \<le> n \<or> \<not> real_token tok \<and> 1 \<le> n" for tok s using Suc that by blast
  have mem: "returns s (parse_members strtod n tok s m)" if "2 * length s + 2 \<le> n" for tok s m
    using Suc that by blast
  have elt: "returns s (parse_elements strtod n tok s a)"
    if "2 * length s + 4 \<le> n \<or> \<not> real_token tok \<and> 2 \<le> n" for tok s a using Suc that by blast
  have 1: "returns s (parse_internal strtod (Suc n) tok s)"
    if n: "2 * length s + 3 \<le> Suc n \<or> \<not> real_token tok"
  proof -
    obtain tok1 s1 where sc: "scan strtod s = (tok1, s1)" by fastforce
    note l = scan_length [OF sc]
    show ?thesis
    proof (cases "tok = begin_object \<or> tok = begin_array")
      case True
      then have n: "2 * length s + 2 \<le> n" using n by (auto simp: real_token_def)
      have "returns s (parse_members strtod n tok1 s1 [])"
        by (rule returns_mono [OF mem]) (use n l in simp_all)
      moreover have "returns s (parse_elements strtod n tok1 s1 [])"
        by (rule returns_mono [OF elt]) (use n l in auto)
      ultimately show ?thesis using True sc l by auto
    qed (auto split: token.splits option.splits)
  qed
  have 2: "returns s (parse_members strtod (Suc n) tok s m)" if n: "2 * length s + 2 \<le> Suc n"
  proof (cases tok)
    case (value_string key)
    obtain tok1 s1 where sc1: "scan strtod s = (tok1, s1)" by fastforce
    obtain tok2 s2 where sc2: "scan strtod s1 = (tok2, s2)" by fastforce
    show ?thesis
    proof (cases "tok1 = name_separator")
      case True
      have l: "length s1 < length s" "length s2 \<le> length s1"
        using scan_length [OF sc1] scan_length [OF sc2] True by (auto simp: real_token_def)
      have "returns s2 (parse_internal strtod n tok2 s2)" by (rule int) (use n l in simp)
      then show ?thesis
      proof (cases rule: returns_cases)
        case (2 v s3)
        obtain tok4 s4 where sc4: "scan strtod s3 = (tok4, s4)" by fastforce
        obtain tok5 s5 where sc5: "scan strtod s4 = (tok5, s5)" by fastforce
        have l4: "length s4 \<le> length s3" "length s5 \<le> length s4"
          using scan_length [OF sc4] scan_length [OF sc5] by auto
        have "returns s (parse_members strtod n tok5 s5 (obj_emplace key v m))"
          by (rule returns_mono [OF mem]) (use n l l4 2 in simp_all)
        then show ?thesis using value_string sc1 sc2 sc4 sc5 True 2 l l4 by (auto simp: Let_def)
      qed (use value_string sc1 sc2 True in simp)
    qed (use value_string sc1 in simp)
  qed simp_all
  have 3: "returns s (parse_elements strtod (Suc n) tok s a)"
    if n: "2 * length s + 4 \<le> Suc n \<or> \<not> real_token tok \<and> 2 \<le> Suc n"
  proof -
    have i: "returns s (parse_internal strtod n tok s)" by (rule int) (use n in auto)
    show ?thesis
    proof (cases "real_token tok")
      case False
      then obtain k where "n = Suc k" using n by (cases n) auto
      then have "parse_internal strtod n tok s = Some (Inl Parse_Error)"
        using False by (auto simp: real_token_def)
      then show ?thesis by simp
    next
      case True
      from i show ?thesis
      proof (cases rule: returns_cases)
        case (2 v s1)
        obtain tok2 s2 where sc2: "scan strtod s1 = (tok2, s2)" by fastforce
        obtain tok3 s3 where sc3: "scan strtod s2 = (tok3, s3)" by fastforce
        have l2: "length s2 \<le> length s1" "tok2 = value_separator \<Longrightarrow> length s2 < length s1"
          using scan_length [OF sc2] by (auto simp: real_token_def)
        note l3 = scan_length [OF sc3]
        have "returns s (parse_elements strtod n tok3 s3 (a @ [v]))" if "tok2 = value_separator"
          by (rule returns_mono [OF elt]) (use n True 2 l2 l3 that in auto)
        then show ?thesis using sc2 sc3 2 l2 by auto
      qed simp
    qed
  qed
  show ?case using 1 2 3 by auto
qed (auto simp: real_token_def)

lemma parse_text_returns: "parse_text strtod text \<noteq> None"
proof -
  obtain tok s where sc: "scan strtod (skip_bom text) = (tok, s)" by fastforce
  have "returns s (parse_internal strtod (parse_fuel s) tok s)"
    using parse_returns [of s "parse_fuel s"] by (simp add: parse_fuel_def)
  then show ?thesis
    by (cases rule: returns_cases) (simp_all add: parse_text_def sc)
qed

section \<open>Well-formed values\<close>

text \<open>Objects are sorted maps, integers fit one of the two 64-bit types, strings are UTF-8.\<close>

fun json_wf :: "json \<Rightarrow> bool" where
  "json_wf (JObject m) \<longleftrightarrow> obj_wf m \<and> (\<forall>(k, v) \<in> set m. utf8_wf k \<and> json_wf v)"
| "json_wf (JArray a) \<longleftrightarrow> (\<forall>v \<in> set a. json_wf v)"
| "json_wf (JString s) \<longleftrightarrow> utf8_wf s"
| "json_wf (JInt i) \<longleftrightarrow> int_ok i"
| "json_wf _ \<longleftrightarrow> True"

fun no_float :: "json \<Rightarrow> bool" where
  "no_float (JObject m) \<longleftrightarrow> (\<forall>(k, v) \<in> set m. no_float v)"
| "no_float (JArray a) \<longleftrightarrow> (\<forall>v \<in> set a. no_float v)"
| "no_float (JFloat f) \<longleftrightarrow> False"
| "no_float _ \<longleftrightarrow> True"

lemma dump_escaped_wf: "utf8_wf s \<Longrightarrow> dump_escaped s = Inr (concat (map dump_char s))"
  by (simp add: dump_escaped_eq throw_if_invalid_utf8_def utf8_scan_wf)

text \<open>A well-formed value has a text.\<close>

lemma dump_succeeds:
  "json_wf j \<Longrightarrow> \<exists>d. dump j = Inr d"
  "\<forall>(k, v) \<in> set m. utf8_wf k \<and> json_wf v \<Longrightarrow> \<exists>d. dump_members m = Inr d"
  "\<forall>v \<in> set a. json_wf v \<Longrightarrow> \<exists>d. dump_elements a = Inr d"
proof (induction j and m and a rule: dump_dump_members_dump_elements.induct)
  case (1 m)
  then show ?case by (auto simp: xbind_def)
next
  case (2 a)
  then show ?case by (auto simp: xbind_def)
next
  case (3 s)
  then show ?case by (simp add: dump_escaped_wf)
next
  case (9 k v m)
  then show ?case by (auto simp: dump_escaped_wf)
next
  case (11 v a)
  then show ?case by auto
qed simp_all

section \<open>Reading back\<close>

text \<open>The first token of a printed string or number, whatever follows.\<close>

lemma scan_dumped_string:
  "utf8_wf s \<Longrightarrow> scan strtod (CHR 0x22 # concat (map dump_char s) @ CHR 0x22 # t) = (value_string s, t)"
  by (simp add: json_space_def scan_string_dumped)

lemma digit_start:
  assumes "is_digit c \<or> c = CHR ''-''"
  shows "scan strtod (c # s) = scan_number strtod c s"
proof (cases "is_digit c")
  case True
  then have "c \<notin> {CHR '' '', CHR 0x09, CHR 0x0A, CHR 0x0D, CHR ''['', CHR '']'', CHR ''{'', CHR ''}'',
                    CHR '':'', CHR '','', CHR ''t'', CHR ''f'', CHR ''n'', CHR 0x22}"
    by (auto simp: is_digit_def)
  with True show ?thesis by (simp add: json_space_def)
next
  case False
  with assms show ?thesis by (simp add: json_space_def)
qed

lemma scan_dumped_int:
  assumes "int_ok i" "number_ends t"
  shows "scan strtod (dump_integer i @ t) = ((if i < 0 then value_integer i else value_unsigned (nat i)), t)"
proof -
  obtain c s where "dump_integer i = c # s" "c = CHR ''-'' \<or> is_digit c"
    "scan_number strtod c (s @ t) = ((if i < 0 then value_integer i else value_unsigned (nat i)), t)"
    using scan_number_dumped [OF assms] by metis
  then show ?thesis by (auto simp del: scan.simps simp add: digit_start)
qed

lemma number_ends_punct [simp]:
  "number_ends (CHR '','' # t)" "number_ends (CHR ''}'' # t)" "number_ends (CHR '']'' # t)" "number_ends []"
  by (simp_all add: number_ends_def is_digit_def)

lemma scan_punct [simp]:
  "scan strtod (CHR '','' # t) = (value_separator, t)" "scan strtod (CHR ''}'' # t) = (end_object, t)"
  "scan strtod (CHR '']'' # t) = (end_array, t)" "scan strtod (CHR '':'' # t) = (name_separator, t)"
  "scan strtod (CHR ''{'' # t) = (begin_object, t)" "scan strtod (CHR ''['' # t) = (begin_array, t)"
  by (simp_all add: json_space_def)

lemma scan_literals [simp]:
  "scan strtod (''true'' @ t) = (literal_true, t)" "scan strtod (''false'' @ t) = (literal_false, t)"
  "scan strtod (''null'' @ t) = (literal_null, t)"
  by (simp_all add: json_space_def scan_literal_def)

lemma obj_emplace_append: "obj_wf (acc @ (k, v) # m) \<Longrightarrow> obj_emplace k v acc = acc @ [(k, v)]"
  by (rule obj_emplace_last) (auto simp: obj_wf_def sorted_wrt_append)

definition emplace_all :: "members \<Rightarrow> members \<Rightarrow> members" where
  "emplace_all m acc = fold (\<lambda>(k, v). obj_emplace k v) m acc"

lemma emplace_all_simps [simp]:
  "emplace_all [] acc = acc" "emplace_all ((k, v) # m) acc = emplace_all m (obj_emplace k v acc)"
  by (simp_all add: emplace_all_def)

lemma emplace_all_sorted: "obj_wf (acc @ m) \<Longrightarrow> emplace_all m acc = acc @ m"
proof (induction m arbitrary: acc)
  case (Cons kv m)
  then show ?case by (cases kv) (simp add: obj_emplace_append)
qed simp

lemma no_elements:
  "tok = end_array \<or> \<not> real_token tok \<Longrightarrow> parse_elements strtod n tok s a \<noteq> Some (Inr r)"
  by (cases n; cases "n - 1") (auto simp: fbind_def real_token_def)

lemma parse_dumped:
  "\<lbrakk>dump j = Inr d; json_wf j; no_float j; number_ends t; scan strtod (d @ t) = (tok, s);
    2 * length s + 3 \<le> n\<rbrakk> \<Longrightarrow> parse_internal strtod n tok s = Some (Inr (j, t))"
  "\<lbrakk>dump_members m = Inr d; m \<noteq> []; \<forall>(k, v) \<in> set m. utf8_wf k \<and> json_wf v;
    \<forall>(k, v) \<in> set m. no_float v; scan strtod (d @ CHR ''}'' # t) = (tok, s); 2 * length s + 2 \<le> n\<rbrakk>
   \<Longrightarrow> parse_members strtod n tok s acc = Some (Inr (JObject (emplace_all m acc), t))"
  "\<lbrakk>dump_elements a = Inr d; a \<noteq> []; \<forall>v \<in> set a. json_wf v; \<forall>v \<in> set a. no_float v;
    scan strtod (d @ CHR '']'' # t) = (tok, s); 2 * length s + 4 \<le> n\<rbrakk>
   \<Longrightarrow> parse_elements strtod n tok s acce = Some (Inr (JArray (acce @ a), t))"
proof (induction j and m and a arbitrary: d t tok s n and d t tok s n acc and d t tok s n acce
    rule: dump_dump_members_dump_elements.induct)
  case (1 m)
  from 1(7) obtain k where n: "n = Suc k" by (cases n) auto
  show ?case
  proof (cases "m = []")
    case True
    with 1 n show ?thesis by (auto simp del: scan.simps)
  next
    case False
    from 1(2) False obtain ms where ms: "dump_members m = Inr ms" "d = ''{'' @ ms @ ''}''"
      by (auto simp: xbind_def split: sum.splits)
    then have tok: "tok = begin_object" "s = ms @ CHR ''}'' # t" using 1(6) by (simp_all del: scan.simps)
    obtain tok1 s1 where sc: "scan strtod s = (tok1, s1)" by fastforce
    have l: "length s1 \<le> length s" using scan_length [OF sc] by simp
    have "parse_members strtod k tok1 s1 [] = Some (Inr (JObject (emplace_all m []), t))"
      by (rule 1(1) [OF False ms(1) False]) (use 1 sc tok n l in auto)
    moreover from this have "tok1 \<noteq> end_object" by (cases k) auto
    ultimately show ?thesis using n tok(1) sc 1(3) emplace_all_sorted [of "[]" m] by (simp del: scan.simps)
  qed
next
  case (2 a)
  from 2(7) obtain k where n: "n = Suc k" by (cases n) auto
  show ?case
  proof (cases "a = []")
    case True
    with 2 n show ?thesis by (auto simp del: scan.simps)
  next
    case False
    from 2(2) False obtain es where es: "dump_elements a = Inr es" "d = ''['' @ es @ '']''"
      by (auto simp: xbind_def split: sum.splits)
    then have tok: "tok = begin_array" "s = es @ CHR '']'' # t" using 2(6) by (simp_all del: scan.simps)
    obtain tok1 s1 where sc: "scan strtod s = (tok1, s1)" by fastforce
    have IH: "parse_elements strtod k' tok1 s1 [] = Some (Inr (JArray ([] @ a), t))"
      if "2 * length s1 + 4 \<le> k'" for k'
      by (rule 2(1) [OF False es(1) False]) (use 2 sc tok that in auto)
    from IH [OF order_refl] have real: "real_token tok1" "tok1 \<noteq> end_array" using no_elements by metis+
    have "parse_elements strtod k tok1 s1 [] = Some (Inr (JArray ([] @ a), t))"
      by (rule IH) (use scan_length [OF sc] real n 2(7) in simp)
    moreover note real
    ultimately show ?thesis using n tok(1) sc by (simp del: scan.simps)
  qed
next
  case (3 u)
  then show ?case by (cases n) (auto simp: dump_escaped_wf scan_dumped_string simp del: scan.simps)
next
  case (4 b)
  then show ?case by (cases n) (auto simp del: scan.simps simp add: scan_literals [simplified] split: if_splits)
next
  case (5 i)
  then show ?case by (cases n) (auto simp: scan_dumped_int simp del: scan.simps split: if_splits)
next
  case 7
  then show ?case by (cases n) (auto simp del: scan.simps simp add: scan_literals [simplified])
next
  case (9 k v m)
  from 9(3) 9(5) obtain td r where td: "dump v = Inr td" "dump_members m = Inr r"
      "d = CHR 0x22 # concat (map dump_char k) @ [CHR 0x22, CHR '':''] @ td @ (if m = [] then [] else CHR '','' # r)"
    by (auto simp: dump_escaped_wf xbind_def split: sum.splits)
  let ?t = "(if m = [] then [] else CHR '','' # r) @ CHR ''}'' # t"
  have tok: "tok = value_string k" "s = CHR '':'' # td @ ?t"
    using 9(7) 9(5) scan_dumped_string [of k strtod "CHR '':'' # td @ ?t"]
    by (simp_all add: td(3) del: scan.simps)
  obtain n' where n: "n = Suc n'" using 9(8) by (cases n) auto
  obtain tok2 s2 where sc2: "scan strtod (td @ ?t) = (tok2, s2)" by fastforce
  have l2: "length s2 < length s" using scan_length [OF sc2] by (simp add: tok)
  have v: "parse_internal strtod n' tok2 s2 = Some (Inr (v, ?t))"
    by (rule 9(1) [OF td(1)]) (use 9 sc2 l2 n in \<open>auto simp del: scan.simps\<close>)
  show ?case
  proof (cases "m = []")
    case True
    then show ?thesis using tok sc2 v by (simp add: n del: scan.simps)
  next
    case False
    obtain tok5 s5 where sc5: "scan strtod (r @ CHR ''}'' # t) = (tok5, s5)" by fastforce
    have l5: "length s5 < length s" using scan_length [OF sc5] False by (simp add: tok)
    have "parse_members strtod n' tok5 s5 (obj_emplace k v acc)
          = Some (Inr (JObject (emplace_all m (obj_emplace k v acc)), t))"
      by (rule 9(2) [OF td(2) False]) (use 9 sc5 l5 n in auto)
    then show ?thesis using False tok sc2 v sc5 by (simp add: n del: scan.simps)
  qed
next
  case (11 v a)
  from 11(3) obtain td r where td: "dump v = Inr td" "dump_elements a = Inr r"
      "d = td @ (if a = [] then [] else CHR '','' # r)"
    by (auto simp: xbind_def split: sum.splits)
  let ?t = "(if a = [] then [] else CHR '','' # r) @ CHR '']'' # t"
  obtain n' where n: "n = Suc n'" using 11(8) by (cases n) auto
  have sc: "scan strtod (td @ ?t) = (tok, s)" using 11(7) td(3) by (simp del: scan.simps)
  have v: "parse_internal strtod k tok s = Some (Inr (v, ?t))" if "2 * length s + 3 \<le> k" for k
    by (rule 11(1) [OF td(1)]) (use 11 sc that in \<open>auto simp del: scan.simps\<close>)
  have v': "parse_internal strtod n' tok s = Some (Inr (v, ?t))" by (rule v) (use n 11(8) in simp)
  have lt: "length ?t \<le> length s"
    using v [OF order_refl] parse_returns [of s "2 * length s + 3" tok strtod] by simp
  show ?case
  proof (cases "a = []")
    case True
    then show ?thesis using v' by (simp add: n del: scan.simps)
  next
    case False
    obtain tok3 s3 where sc3: "scan strtod (r @ CHR '']'' # t) = (tok3, s3)" by fastforce
    have l3: "length s3 < length s" using scan_length [OF sc3] False lt by simp
    have IH: "parse_elements strtod k tok3 s3 (acce @ [v]) = Some (Inr (JArray ((acce @ [v]) @ a), t))"
      if "2 * length s3 + 4 \<le> k" for k
      by (rule 11(2) [OF td(2) False]) (use 11 sc3 that in auto)
    have "parse_elements strtod n' tok3 s3 (acce @ [v]) = Some (Inr (JArray ((acce @ [v]) @ a), t))"
      by (rule IH) (use l3 n 11(8) in simp)
    then show ?thesis using False v' sc3 by (simp add: n del: scan.simps)
  qed
qed simp_all

text \<open>A text never starts like a byte order mark.\<close>

lemma dump_no_bom: "dump j = Inr d \<Longrightarrow> no_float j \<Longrightarrow> skip_bom d = d"
proof -
  assume d: "dump j = Inr d" "no_float j"
  have "is_digit (hd (to_string n))" for n
    using digits_to_string [of n] to_string_nonempty [of n] by (cases "to_string n") auto
  moreover have "\<not> is_digit (CHR 0xEF)" by (simp add: is_digit_def)
  ultimately have "hd (to_string n) \<noteq> CHR 0xEF" for n by metis
  then have "hd d \<noteq> CHR 0xEF"
    using d to_string_nonempty
    by (cases j) (auto simp: dump_integer_eq xbind_def hd_append split: sum.splits if_splits)
  then show ?thesis by (cases d) (auto simp: skip_bom_def)
qed

lemma json_parse_dumped: "json_wf j \<Longrightarrow> no_float j \<Longrightarrow> dump j = Inr d \<Longrightarrow> json_parse strtod d = Inr j"
proof -
  assume j: "json_wf j" "no_float j" "dump j = Inr d"
  obtain tok s where sc: "scan strtod (d @ []) = (tok, s)" by fastforce
  have "parse_internal strtod (parse_fuel s) tok s = Some (Inr (j, []))"
    by (rule parse_dumped(1) [OF j(3,1,2) _ sc]) (simp_all add: parse_fuel_def)
  with sc show ?thesis by (simp add: json_parse_def parse_text_def dump_no_bom [OF j(3,2)])
qed

section \<open>What the parser accepts is well-formed\<close>

lemma utf8_wf_append: "utf8_wf s \<Longrightarrow> utf8_wf t \<Longrightarrow> utf8_wf (s @ t)"
proof (induction s rule: utf8_wf.induct)
  case (2 c s)
  from 2(2) obtain rs y s' where y: "utf8_ranges (of_char c) = Some rs"
      "next_byte_in_range rs s = Some (y, s')" "utf8_wf s'"
    by (auto split: option.splits)
  have "next_byte_in_range rs (s @ t) = Some (y, s' @ t)"
    using next_byte_append [OF y(2), of "s' @ t"] next_byte_length [OF y(2)] by simp
  with 2(1) [OF y(1,2) refl y(3) 2(3)] y(1) show ?case by simp
qed simp

lemma of_char_byte_of [simp]: "n < 256 \<Longrightarrow> of_char (byte_of n) = n"
  by (simp add: byte_of_def)

lemma codepoint_digits:
  "a = cp div 2 ^ 18 \<Longrightarrow> b = cp div 2 ^ 12 mod 2 ^ 6 \<Longrightarrow> c = cp div 2 ^ 6 mod 2 ^ 6 \<Longrightarrow> d = cp mod 2 ^ 6 \<Longrightarrow>
   cp = ((a * 64 + b) * 64 + c) * 64 + d \<and> b < 64 \<and> c < 64 \<and> d < (64 :: nat)"
proof -
  assume *: "a = cp div 2 ^ 18" "b = cp div 2 ^ 12 mod 2 ^ 6" "c = cp div 2 ^ 6 mod 2 ^ 6" "d = cp mod 2 ^ 6"
  have 1: "cp div 2 ^ 18 = cp div 64 div 64 div 64" "cp div 2 ^ 12 = cp div 64 div 64" "(2 :: nat) ^ 6 = 64"
    by (simp_all flip: div_mult2_eq)
  have "cp = ((cp div 64 div 64 div 64 * 64 + cp div 64 div 64 mod 64) * 64 + cp div 64 mod 64) * 64 + cp mod 64"
    by (simp only: div_mult_mod_eq)
  then show ?thesis unfolding * 1 by simp
qed

lemma utf8_bytes_wf:
  assumes "cp < 0x110000" "\<not> (0xD800 \<le> cp \<and> cp \<le> 0xDFFF)"
  shows "utf8_wf (utf8_bytes cp)"
proof -
  obtain a b c d where v: "a = cp div 2 ^ 18" "b = cp div 2 ^ 12 mod 2 ^ 6" "c = cp div 2 ^ 6 mod 2 ^ 6"
      "d = cp mod 2 ^ 6" by blast
  have cp: "cp = ((a * 64 + b) * 64 + c) * 64 + d" and lt: "b < 64" "c < 64" "d < 64"
    using codepoint_digits [OF v] by simp_all
  consider "cp < 0x80" | "0x80 \<le> cp" "cp \<le> 0x7FF" | "0x7FF < cp" "cp \<le> 0xFFFF" | "0xFFFF < cp" by linarith
  then show ?thesis
  proof cases
    case 1
    then show ?thesis by (simp add: utf8_bytes_def utf8_ranges_def)
  next
    case 2
    have "cp div 2 ^ 6 = c" using 2 v by simp
    then have u: "utf8_bytes cp = [byte_of (0xC0 + c), byte_of (0x80 + d)]"
      using 2 v by (simp add: utf8_bytes_def)
    have "a = 0" "b = 0" using 2 v by simp_all
    then have "2 \<le> c" "c \<le> 31" using 2 cp lt by simp_all
    then show ?thesis using lt by (simp add: u utf8_ranges_def)
  next
    case 3
    have "cp div 2 ^ 12 = b" using 3 v by simp
    then have u: "utf8_bytes cp = [byte_of (0xE0 + b), byte_of (0x80 + c), byte_of (0x80 + d)]"
      using 3 v by (simp add: utf8_bytes_def)
    have "a = 0" using 3 v by simp
    then have "b \<le> 15" "b = 0 \<Longrightarrow> 32 \<le> c" "b = 13 \<Longrightarrow> c < 32" using 3 cp lt assms(2) by simp_all
    moreover from this(1) have "b \<le> 12 \<or> b = 13 \<or> b = 14 \<or> b = 15" by linarith
    ultimately show ?thesis using lt by (auto simp: u utf8_ranges_def)
  next
    case 4
    have u: "utf8_bytes cp = [byte_of (0xF0 + a), byte_of (0x80 + b), byte_of (0x80 + c), byte_of (0x80 + d)]"
      using 4 v by (simp add: utf8_bytes_def)
    have "a \<le> 4" "a = 0 \<Longrightarrow> 16 \<le> b" "a = 4 \<Longrightarrow> b < 16" using 4 cp lt assms(1) by simp_all
    moreover from this(1) have "a \<le> 3 \<or> a = 4" by linarith
    ultimately show ?thesis using lt by (auto simp: u utf8_ranges_def)
  qed
qed

lemma hex_value_less: "hex_value c = Some v \<Longrightarrow> v < 16"
  by (auto simp: hex_value_def Let_def split: if_splits)

lemma get_codepoint_less: "get_codepoint s = Some (cp, s') \<Longrightarrow> cp < 2 ^ 16"
proof -
  assume "get_codepoint s = Some (cp, s')"
  then obtain c0 c1 c2 c3 v0 v1 v2 v3 where "s = c0 # c1 # c2 # c3 # s'" "hex_value c0 = Some v0"
      "hex_value c1 = Some v1" "hex_value c2 = Some v2" "hex_value c3 = Some v3"
      and cp: "cp = v0 * 2 ^ 12 + v1 * 2 ^ 8 + v2 * 2 ^ 4 + v3"
    unfolding get_codepoint_def
    by (cases s rule: list.exhaust; cases "tl s" rule: list.exhaust; cases "tl (tl s)" rule: list.exhaust;
        cases "tl (tl (tl s))" rule: list.exhaust) (auto split: option.splits)
  then have "v0 < 16" "v1 < 16" "v2 < 16" "v3 < 16" by (auto dest: hex_value_less)
  then show ?thesis by (simp add: cp)
qed

lemma surrogate_pair:
  assumes "0xD800 \<le> a" "a \<le> 0xDBFF" "0xDC00 \<le> b" "b \<le> (0xDFFF :: nat)"
  shows "a * 1024 + b - 0x35FDC00 < 0x110000" "0xFFFF < a * 1024 + b - 0x35FDC00"
  using assms by linarith+

lemma scan_unicode_wf:
  assumes "scan_unicode s = Some (y, s')"
  shows "utf8_wf y"
proof -
  obtain cp s1 where cp: "get_codepoint s = Some (cp, s1)"
    using assms by (auto simp: scan_unicode_def split: option.splits)
  show ?thesis
  proof (cases "0xD800 \<le> cp \<and> cp \<le> 0xDBFF")
    case True
    with assms cp obtain cp2 where "0xDC00 \<le> cp2" "cp2 \<le> 0xDFFF"
        "y = utf8_bytes (cp * 1024 + cp2 - 0x35FDC00)"
      by (auto simp: scan_unicode_def split: option.splits list.splits if_splits)
    with surrogate_pair [of cp cp2] True show ?thesis by (auto intro!: utf8_bytes_wf)
  next
    case False
    with assms cp have "y = utf8_bytes cp" "\<not> (0xD800 \<le> cp \<and> cp \<le> 0xDFFF)"
      by (auto simp: scan_unicode_def split: if_splits)
    with get_codepoint_less [OF cp] show ?thesis by (auto intro!: utf8_bytes_wf)
  qed
qed

lemma scan_escape_wf: "scan_escape s = Some (y, s') \<Longrightarrow> utf8_wf y"
  by (auto simp: scan_escape_def utf8_ranges_def split: list.splits if_splits dest: scan_unicode_wf)

lemma scan_char_wf: "scan_char c s = Some (y, s') \<Longrightarrow> utf8_wf y"
proof (cases "c = CHR 0x5C")
  case False
  assume "scan_char c s = Some (y, s')"
  with False obtain rs y' where "utf8_ranges (of_char c) = Some rs" "next_byte_in_range rs s = Some (y', s')"
      "y = c # y'"
    by (auto simp: scan_char_def split: if_splits option.splits)
  with next_byte_append [of rs s y' s' "[]"] show ?thesis by simp
qed (simp add: scan_char_def scan_escape_wf)

lemma scan_string_wf: "scan_string s = Some (y, s') \<Longrightarrow> utf8_wf y"
proof (induction s arbitrary: y s' rule: scan_string.induct)
  case (2 c s)
  then show ?case
    by (fastforce split: if_splits option.splits dest: scan_char_wf intro: utf8_wf_append)
qed simp

text \<open>What a token may carry.\<close>

definition token_wf :: "token \<Rightarrow> bool" where
  "token_wf tok \<longleftrightarrow>
     (case tok of value_string y \<Rightarrow> utf8_wf y | value_unsigned v \<Rightarrow> int_ok (int v)
      | value_integer v \<Rightarrow> int_ok v | _ \<Rightarrow> True)"

lemma token_wf_simps [simp]:
  "token_wf literal_true" "token_wf literal_false" "token_wf literal_null" "token_wf begin_array"
  "token_wf begin_object" "token_wf end_array" "token_wf end_object" "token_wf name_separator"
  "token_wf value_separator" "token_wf parse_error" "token_wf end_of_input"
  by (simp_all add: token_wf_def)

lemma number_done_wf: "token_wf (number_done strtod ty y)"
  by (cases ty) (auto simp: number_done_def token_wf_def int_ok_def simp flip: of_nat_less_iff)

lemma scan_number_wf: "scan_number strtod c s = (tok, s') \<Longrightarrow> token_wf tok"
  using number_done_wf by (auto simp: scan_number_def token_wf_def split: option.splits)

lemma scan_literal_wf: "scan_literal text k s = (tok, s') \<Longrightarrow> token_wf k \<Longrightarrow> token_wf tok"
  by (auto simp: scan_literal_def token_wf_def split: if_splits)

lemma scan_string_token_wf:
  "(case scan_string s of None \<Rightarrow> (parse_error, []) | Some (y, s') \<Rightarrow> (value_string y, s')) = (tok, r) \<Longrightarrow>
   token_wf tok"
  by (auto simp: token_wf_def dest: scan_string_wf split: option.splits)

lemma scan_wf: "scan strtod s = (tok, s') \<Longrightarrow> token_wf tok"
proof (induction s)
  case (Cons c s)
  show ?case
  proof (cases "json_space c")
    case False
    with Cons(2) show ?thesis
      by (simp only: scan.simps if_False split: if_split_asm)
        (erule scan_literal_wf scan_string_token_wf scan_number_wf Pair_inject,
          (hypsubst)?, (simp (no_asm) only: token_wf_simps)?)+
  next
    case True
    with Cons show ?thesis by simp
  qed
qed (simp add: token_wf_def)

lemma parse_wf:
  "(parse_internal strtod n tok s = Some (Inr (j, t)) \<longrightarrow> token_wf tok \<longrightarrow> json_wf j) \<and>
   (parse_members strtod n tok s m = Some (Inr (j, t)) \<longrightarrow> token_wf tok \<longrightarrow> json_wf (JObject m) \<longrightarrow> json_wf j) \<and>
   (parse_elements strtod n tok s a = Some (Inr (j, t)) \<longrightarrow> token_wf tok \<longrightarrow> json_wf (JArray a) \<longrightarrow> json_wf j)"
proof (induction n arbitrary: tok s m a j t)
  case (Suc n)
  have int: "parse_internal strtod n tok s = Some (Inr (j, t)) \<Longrightarrow> token_wf tok \<Longrightarrow> json_wf j" for tok s j t
    using Suc by blast
  have mem: "parse_members strtod n tok s m = Some (Inr (j, t)) \<Longrightarrow> token_wf tok \<Longrightarrow> json_wf (JObject m) \<Longrightarrow> json_wf j"
    for tok s m j t using Suc by blast
  have elt: "parse_elements strtod n tok s a = Some (Inr (j, t)) \<Longrightarrow> token_wf tok \<Longrightarrow> json_wf (JArray a) \<Longrightarrow> json_wf j"
    for tok s a j t using Suc by blast
  have 1: "json_wf j" if "parse_internal strtod (Suc n) tok s = Some (Inr (j, t))" "token_wf tok"
    using that scan_wf
    by (auto simp: token_wf_def split: token.splits option.splits prod.splits if_splits dest!: mem elt)
  have 2: "json_wf j" if *: "parse_members strtod (Suc n) tok s m = Some (Inr (j, t))" "token_wf tok" "json_wf (JObject m)"
  proof -
    obtain key where tok: "tok = value_string key" "utf8_wf key"
      using * by (cases tok) (auto simp: token_wf_def)
    obtain tok1 s1 tok2 s2 where sc: "scan strtod s = (tok1, s1)" "scan strtod s1 = (tok2, s2)" by fastforce
    obtain v s3 where v: "parse_internal strtod n tok2 s2 = Some (Inr (v, s3))"
      using * tok sc by (auto simp: fbind_def split: if_splits option.splits sum.splits)
    have wf: "json_wf (JObject (obj_emplace key v m))"
      using int [OF v scan_wf [OF sc(2)]] tok(2) *(3) set_obj_emplace by fastforce
    obtain tok4 s4 tok5 s5 where sc4: "scan strtod s3 = (tok4, s4)" "scan strtod s4 = (tok5, s5)" by fastforce
    from *(1) have "parse_members strtod n tok5 s5 (obj_emplace key v m) = Some (Inr (j, t))
        \<or> j = JObject (obj_emplace key v m)"
      using tok sc v sc4 by (simp add: Let_def split: if_splits)
    then show ?thesis using mem [OF _ scan_wf [OF sc4(2)] wf] wf by blast
  qed
  have 3: "json_wf j" if *: "parse_elements strtod (Suc n) tok s a = Some (Inr (j, t))" "token_wf tok" "json_wf (JArray a)"
  proof -
    obtain v s1 where v: "parse_internal strtod n tok s = Some (Inr (v, s1))"
      using * by (auto simp: fbind_def split: if_splits option.splits sum.splits)
    have "json_wf (JArray (a @ [v]))" using int [OF v *(2)] *(3) by auto
    then show ?thesis
      using * v elt [OF _ scan_wf] by (auto simp: Let_def split: if_splits prod.splits)
  qed
  show ?case using 1 2 3 by blast
qed simp

section \<open>Properties\<close>

text \<open>C23. The serializer's table-driven check of a string accepts exactly the well-formed UTF-8 strings, as
  the byte ranges of the scanner describe them: a lone continuation byte, an overlong form, a surrogate
  and a character cut off at the end all throw.\<close>

theorem utf8_check_exact:
  "throw_if_invalid_utf8 s = (if utf8_wf s then Inr () else Inl (Type_Error 316))"
  by (simp add: throw_if_invalid_utf8_def utf8_scan_wf)

text \<open>C24. The buffer that \<open>dump_escaped\<close> allocates from \<open>extra_space\<close> has the right size for every string:
  no write goes past its end, and the last one fills it.\<close>

theorem dump_buffer_exact:
  "dump_into (replicate (length s + extra_space s) fill) 0 s
   = Some (concat (map dump_char s), length s + extra_space s)"
  by (subst dump_into_eq) (simp_all add: length_dump_chars)

text \<open>C22. The parser comes back on every input, well-formed or not: the fuel of the model is never used
  up.\<close>

theorem json_parse_ends: "\<exists>r. parse_text strtod text = Some r"
  using parse_text_returns by auto

text \<open>C7. What is printed is read back.  Every well-formed value without floating-point numbers (sorted
  keys, UTF-8 strings, integers of 64 bits) has a text, and the parser reads that text as the same value.\<close>

theorem json_roundtrip:
  "json_wf j \<Longrightarrow> no_float j \<Longrightarrow> \<exists>d. dump j = Inr d \<and> json_parse strtod d = Inr j"
  using dump_succeeds(1) json_parse_dumped by blast

definition sample_json :: json where
  "sample_json = JObject [(''a'', JArray [JInt (- 7), JBool True, JNull]),
     (''b'', JString [CHR 0x0A, CHR 0x22, CHR 0xC3, CHR 0xA9, CHR 0x01])]"

lemma sample_json_wf: "json_wf sample_json" "no_float sample_json"
  by (simp_all add: sample_json_def obj_wf_def int_ok_def utf8_ranges_def)

theorem json_roundtrip_witness:
  "\<exists>d. dump sample_json = Inr d \<and> json_parse (\<lambda>_. None) d = Inr sample_json"
  by (rule json_roundtrip [OF sample_json_wf])

text \<open>C21. What the parser accepts is well-formed, whatever bytes came in: strings are UTF-8 (escapes
  included), keys are unique and sorted, integers fit; so it can always be printed again without an
  exception.\<close>

theorem json_parse_printable:
  "json_parse strtod text = Inr j \<Longrightarrow> json_wf j \<and> (\<exists>d. dump j = Inr d)"
proof -
  assume "json_parse strtod text = Inr j"
  moreover obtain tok s where sc: "scan strtod (skip_bom text) = (tok, s)" by fastforce
  ultimately obtain t where "parse_internal strtod (parse_fuel s) tok s = Some (Inr (j, t))"
    using parse_text_returns [of strtod "text"]
    by (auto simp: json_parse_def parse_text_def fbind_def split: option.splits sum.splits if_splits)
  then have "json_wf j" using parse_wf scan_wf [OF sc] by blast
  with dump_succeeds(1) show ?thesis by blast
qed

lemma sample_text:
  "json_parse (\<lambda>_. None) [CHR ''['', CHR 0x22, CHR 0x5C, CHR ''n'', CHR 0x22, CHR '']''] = Inr (JArray [JString [CHR 0x0A]])"
  by (simp add: json_parse_def parse_text_def skip_bom_def parse_fuel_def json_space_def scan_char_def
      scan_escape_def eval_nat_numeral)

theorem json_parse_printable_witness:
  "json_wf (JArray [JString [CHR 0x0A]]) \<and> (\<exists>d. dump (JArray [JString [CHR 0x0A]]) = Inr d)"
  by (rule json_parse_printable [OF sample_text])

end
