(* ===== verification/VSCode_Protocol.thy ===== *)
theory VSCode_Protocol imports Json_Roundtrip Callbacks Variables begin

text \<open>
  The second front end (\<open>class VSCodeProtocol\<close>, \<open>vscodeprotocol.cpp\<close>): a process that reads framed JSON
  requests from standard input and writes framed responses and events, numbered in one sequence, to
  standard output.  A handler is a state action that may end with a C++ exception; nothing catches
  one, so that it ends the process.  The debugger behind it is a record of operations; each
  returns its result, the events it emits, in order, and its new state.
\<close>

section \<open>State\<close>

datatype log_output = LogNone | LogConsole | LogFile

record vs_state =
  vs_exit :: bool
  vs_seqCounter :: nat
  vs_fileExec :: string
  vs_execArgs :: "string list"
  vs_engineLogOutput :: log_output
  vs_out :: string
  vs_engineLog :: string

definition init_vs :: vs_state where
  "init_vs = \<lparr>vs_exit = False, vs_seqCounter = 1, vs_fileExec = [], vs_execArgs = [],
              vs_engineLogOutput = LogNone, vs_out = [], vs_engineLog = []\<rparr>"

definition OverrideLaunchCommand :: "string \<Rightarrow> string list \<Rightarrow> vs_state \<Rightarrow> vs_state" where
  "OverrideLaunchCommand fileExec args st = st\<lparr>vs_fileExec := fileExec, vs_execArgs := args\<rparr>"

definition EngineLogging :: "string \<Rightarrow> vs_state \<Rightarrow> vs_state" where
  "EngineLogging path st =
     (if path = [] then st\<lparr>vs_engineLogOutput := LogConsole\<rparr>
      else st\<lparr>vs_engineLogOutput := LogFile, vs_engineLog := []\<rparr>)"

section \<open>Values as JSON\<close>

abbreviation jstr :: "string \<Rightarrow> json" where "jstr \<equiv> JString"

definition jnat :: "nat \<Rightarrow> json" where "jnat n = JInt (int n)"

definition jobj :: "members \<Rightarrow> json" where "jobj kvs = JObject (object_of kvs)"

definition source_json :: "source \<Rightarrow> json" where
  "source_json s = jobj [(''name'', jstr (src_name s)), (''path'', jstr (src_path s))]"

definition breakpoint_json :: "breakpoint \<Rightarrow> json" where
  "breakpoint_json b =
     jobj [(''id'', jnat (bp_id b)), (''line'', JInt (bp_line b)), (''verified'', JBool (bp_verified b)),
           (''message'', jstr (bp_message b))]"

definition stack_frame_json :: "stack_frame \<Rightarrow> json" where
  "stack_frame_json f =
     jobj ([(''id'', JInt (uint (sf_id f))), (''name'', jstr (sf_name f)), (''line'', JInt (sf_line f)),
            (''column'', JInt (sf_column f)), (''endLine'', JInt (sf_endLine f)),
            (''endColumn'', JInt (sf_endColumn f)), (''moduleId'', jstr (sf_moduleId f))] @
           (if \<not> Source_IsNull (sf_source f) then [(''source'', source_json (sf_source f))] else []))"

definition thread_json :: "thread \<Rightarrow> json" where
  "thread_json t = jobj [(''id'', JInt (t_id t)), (''name'', jstr (t_name t))]"

definition scope_json :: "scope \<Rightarrow> json" where
  "scope_json s =
     jobj ([(''name'', jstr (sc_name s)), (''variablesReference'', jnat (sc_variablesReference s))] @
           (if sc_variablesReference s > 0 then [(''namedVariables'', JInt (sc_namedVariables s))] else []))"

definition variable_json :: "variable \<Rightarrow> json" where
  "variable_json v =
     jobj ([(''name'', jstr (v_name v)), (''value'', jstr (v_value v)), (''type'', jstr (v_type v)),
            (''evaluateName'', jstr (v_evaluateName v)), (''variablesReference'', jnat (v_variablesReference v))] @
           (if v_variablesReference v > 0 then [(''namedVariables'', JInt (v_namedVariables v))] else []))"

text \<open>\<open>ExceptionDetails\<close>: message, type name, full type name, expression, stack trace, inner exceptions.\<close>

datatype exception_details =
  Exception_Details string string string string string "exception_details list"

record exception_info =
  ei_exceptionId :: string
  ei_description :: string
  ei_breakMode :: exc_mode
  ei_details :: exception_details

fun getVSCode :: "exception_details \<Rightarrow> json" where
  "getVSCode (Exception_Details message typeName fullTypeName evaluateName stackTrace innerException) =
     jobj [(''message'', jstr message), (''typeName'', jstr typeName), (''fullTypeName'', jstr fullTypeName),
           (''evaluateName'', jstr evaluateName), (''stackTrace'', jstr stackTrace),
           (''innerException'', JArray (case innerException of [] \<Rightarrow> [] | e # _ \<Rightarrow> [getVSCode e]))]"

definition getVSCodeBreakMode :: "exc_mode \<Rightarrow> string" where
  "getVSCodeBreakMode m =
     (if NeverMode m then ''never''
      else if AllModes m then ''always''
      else if OnlyUnhandled m then ''unhandled''
      else if f_user_unhandled m then ''userUnhandled''
      else ''undefined'')"

section \<open>Reading JSON\<close>

text \<open>\<open>at\<close>, \<open>find\<close> and \<open>value\<close> of an object, and the values a loop goes through.\<close>

definition json_at :: "string \<Rightarrow> json \<Rightarrow> json or_throw" where
  "json_at key j =
     (case j of
        JObject m \<Rightarrow> (case obj_find key m of None \<Rightarrow> Inl (Key_Out_Of_Range 403) | Some v \<Rightarrow> Inr v)
      | _ \<Rightarrow> Inl (Type_Error 304))"

definition json_find :: "string \<Rightarrow> json \<Rightarrow> json option" where
  "json_find key j = (case j of JObject m \<Rightarrow> obj_find key m | _ \<Rightarrow> None)"

definition json_value :: "string \<Rightarrow> (json \<Rightarrow> 'a or_throw) \<Rightarrow> 'a \<Rightarrow> json \<Rightarrow> 'a or_throw" where
  "json_value key conv default_value j =
     (case j of
        JObject m \<Rightarrow> (case obj_find key m of None \<Rightarrow> Inr default_value | Some v \<Rightarrow> conv v)
      | _ \<Rightarrow> Inl (Type_Error 306))"

definition json_items :: "json \<Rightarrow> json list" where
  "json_items j = (case j of JArray a \<Rightarrow> a | JObject m \<Rightarrow> map snd m | JNull \<Rightarrow> [] | _ \<Rightarrow> [j])"

text \<open>Conversions: a \<open>static_cast\<close> wraps; the types other than those of the library also take booleans.\<close>

definition s32_of :: "int \<Rightarrow> int" where
  "s32_of i = (i + 2 ^ 31) mod 2 ^ 32 - 2 ^ 31"

definition get_number :: "bool \<Rightarrow> json \<Rightarrow> int or_throw" where
  "get_number booleans j =
     (case j of
        JInt i \<Rightarrow> Inr i
      | JFloat f \<Rightarrow> Inr (d_trunc f)
      | JBool b \<Rightarrow> if booleans then Inr (of_bool b) else Inl (Type_Error 302)
      | _ \<Rightarrow> Inl (Type_Error 302))"

definition get_int :: "json \<Rightarrow> int or_throw" where
  "get_int j = xbind (get_number True j) (\<lambda>i. Inr (s32_of i))"

definition get_u32 :: "json \<Rightarrow> nat or_throw" where
  "get_u32 j = xbind (get_number True j) (\<lambda>i. Inr (nat (i mod 2 ^ 32)))"

definition get_u64 :: "json \<Rightarrow> u64 or_throw" where
  "get_u64 j = xbind (get_number False j) (\<lambda>i. Inr (word_of_int i))"

definition get_bool :: "json \<Rightarrow> bool or_throw" where
  "get_bool j = (case j of JBool b \<Rightarrow> Inr b | _ \<Rightarrow> Inl (Type_Error 302))"

definition get_string :: "json \<Rightarrow> string or_throw" where
  "get_string j = (case j of JString s \<Rightarrow> Inr s | _ \<Rightarrow> Inl (Type_Error 302))"

fun xmap :: "('a \<Rightarrow> 'b or_throw) \<Rightarrow> 'a list \<Rightarrow> 'b list or_throw" where
  "xmap f [] = Inr []"
| "xmap f (x # xs) = xbind (f x) (\<lambda>y. xbind (xmap f xs) (\<lambda>ys. Inr (y # ys)))"

definition get_strings :: "json \<Rightarrow> string list or_throw" where
  "get_strings j = (case j of JArray a \<Rightarrow> xmap get_string a | _ \<Rightarrow> Inl (Type_Error 302))"

text \<open>\<open>arguments.at(key)\<close> converted to the type it initializes.\<close>

definition at_as :: "string \<Rightarrow> (json \<Rightarrow> 'a or_throw) \<Rightarrow> json \<Rightarrow> 'a or_throw" where
  "at_as key conv j = xbind (json_at key j) conv"

section \<open>Writing\<close>

definition TWO_CRLF :: string where
  "TWO_CRLF = [CHR 0x0D, CHR 0x0A, CHR 0x0D, CHR 0x0A]"

definition CONTENT_LENGTH :: string where "CONTENT_LENGTH = ''Content-Length: ''"

definition frame_message :: "string \<Rightarrow> string" where
  "frame_message output = CONTENT_LENGTH @ to_string (length output) @ TWO_CRLF @ output"

definition VSCodeSeq :: "nat \<Rightarrow> string" where
  "VSCodeSeq i = ''{'' @ CHR 0x22 # ''seq'' @ [CHR 0x22, CHR '':''] @ to_string i @ '',''"

text \<open>Printing a message, with its number spliced in after the brace, and sending it.\<close>

definition send_numbered :: "json \<Rightarrow> vs_state \<Rightarrow> string or_throw \<times> vs_state" where
  "send_numbered response st =
     (case dump response of
        Inl e \<Rightarrow> (Inl e, st)
      | Inr d \<Rightarrow>
          let output = VSCodeSeq (vs_seqCounter st) @ drop 1 d in
            (Inr output, st\<lparr>vs_seqCounter := (vs_seqCounter st + 1) mod 2 ^ 64,
                            vs_out := vs_out st @ frame_message output\<rparr>))"

definition LOG_COMMAND :: string where "LOG_COMMAND = ''-> (C) ''"
definition LOG_RESPONSE :: string where "LOG_RESPONSE = ''<- (R) ''"
definition LOG_EVENT :: string where "LOG_EVENT = ''<- (E) ''"

definition event_json :: "string \<Rightarrow> json \<Rightarrow> json" where
  "event_json name body = jobj [(''type'', jstr ''event''), (''event'', jstr name), (''body'', body)]"

definition Log :: "string \<Rightarrow> string \<Rightarrow> vs_state \<Rightarrow> unit or_throw \<times> vs_state" where
  "Log pre message st =
     (case vs_engineLogOutput st of
        LogNone \<Rightarrow> (Inr (), st)
      | LogFile \<Rightarrow> (Inr (), st\<lparr>vs_engineLog := vs_engineLog st @ pre @ message @ [CHR 0x0A]\<rparr>)
      | LogConsole \<Rightarrow>
          (case send_numbered (event_json ''output'' (jobj [(''category'', jstr ''console''),
                    (''output'', jstr (pre @ message @ [CHR 0x0A]))])) st of
             (Inl e, st') \<Rightarrow> (Inl e, st')
           | (Inr _, st') \<Rightarrow> (Inr (), st')))"

text \<open>A message, then the log of it: both under the lock.\<close>

definition send_logged :: "string \<Rightarrow> json \<Rightarrow> vs_state \<Rightarrow> unit or_throw \<times> vs_state" where
  "send_logged pre response st =
     (case send_numbered response st of
        (Inl e, st') \<Rightarrow> (Inl e, st')
      | (Inr output, st') \<Rightarrow> Log pre output st')"

definition EmitEvent :: "string \<Rightarrow> json \<Rightarrow> vs_state \<Rightarrow> unit or_throw \<times> vs_state" where
  "EmitEvent name body st = send_logged LOG_EVENT (event_json name body) st"

section \<open>Events\<close>

datatype output_category = OutputConsole | OutputStdOut | OutputStdErr

datatype vs_event =
    Initialized_Event
  | Stopped_Event stopped_event
  | Exited_Event int
  | Terminated_Event
  | Continued_Event int
  | Thread_Event thread_reason int
  | Module_Event module_reason module_info
  | Output_Event output_category string
  | Breakpoint_Event breakpoint_reason breakpoint

definition EmitContinuedEvent :: "int \<Rightarrow> vs_state \<Rightarrow> unit or_throw \<times> vs_state" where
  "EmitContinuedEvent threadId =
     EmitEvent ''continued''
       (jobj ((if threadId \<noteq> -1 then [(''threadId'', JInt threadId)] else []) @
              [(''allThreadsContinued'', JBool True)]))"

text \<open>\<open>allThreadsStopped\<close> is set by the constructor of the event and by nothing else.\<close>

definition EmitStoppedEvent_vs :: "stopped_event \<Rightarrow> vs_state \<Rightarrow> unit or_throw \<times> vs_state" where
  "EmitStoppedEvent_vs event =
     EmitEvent ''stopped''
       (jobj [(''reason'', jstr (case se_reason event of
                                  StopStep \<Rightarrow> ''step'' | StopBreakpoint \<Rightarrow> ''breakpoint''
                                | StopException \<Rightarrow> ''exception'' | StopPause \<Rightarrow> ''pause'' | StopEntry \<Rightarrow> ''entry'')),
              (''description'', jstr (se_description event)), (''text'', jstr (se_text event)),
              (''threadId'', JInt (se_threadId event)), (''allThreadsStopped'', JBool True)])"

definition EmitExitedEvent_vs :: "int \<Rightarrow> vs_state \<Rightarrow> unit or_throw \<times> vs_state" where
  "EmitExitedEvent_vs exitCode = EmitEvent ''exited'' (jobj [(''exitCode'', JInt exitCode)])"

definition EmitTerminatedEvent :: "vs_state \<Rightarrow> unit or_throw \<times> vs_state" where
  "EmitTerminatedEvent = EmitEvent ''terminated'' (JObject [])"

definition EmitThreadEvent_vs :: "thread_reason \<Rightarrow> int \<Rightarrow> vs_state \<Rightarrow> unit or_throw \<times> vs_state" where
  "EmitThreadEvent_vs reason threadId =
     EmitEvent ''thread''
       (jobj [(''reason'', jstr (case reason of ThreadStarted \<Rightarrow> ''started'' | ThreadExited \<Rightarrow> ''exited'')),
              (''threadId'', JInt threadId)])"

definition EmitModuleEvent_vs :: "module_reason \<Rightarrow> module_info \<Rightarrow> vs_state \<Rightarrow> unit or_throw \<times> vs_state" where
  "EmitModuleEvent_vs reason m =
     EmitEvent ''module''
       (jobj [(''reason'', jstr (case reason of
                                  ModuleNew \<Rightarrow> ''new'' | ModuleChanged \<Rightarrow> ''changed'' | ModuleRemoved \<Rightarrow> ''removed'')),
              (''module'', jobj [(''id'', jstr (mi_id m)), (''name'', jstr (mi_name m)), (''path'', jstr (mi_path m)),
                 (''symbolStatus'', jstr (case mi_symbolStatus m of
                    SymbolsSkipped \<Rightarrow> ''Skipped loading symbols.'' | SymbolsLoaded \<Rightarrow> ''Symbols loaded.''
                  | SymbolsNotFound \<Rightarrow> ''Symbols not found.''))])])"

definition EmitOutputEvent_vs :: "output_category \<Rightarrow> string \<Rightarrow> vs_state \<Rightarrow> unit or_throw \<times> vs_state" where
  "EmitOutputEvent_vs category output =
     EmitEvent ''output''
       (jobj [(''category'', jstr (case category of
                 OutputConsole \<Rightarrow> ''console'' | OutputStdOut \<Rightarrow> ''stdout'' | OutputStdErr \<Rightarrow> ''stderr'')),
              (''output'', jstr output)])"

definition EmitBreakpointEvent_vs :: "breakpoint_reason \<Rightarrow> breakpoint \<Rightarrow> vs_state \<Rightarrow> unit or_throw \<times> vs_state" where
  "EmitBreakpointEvent_vs reason b =
     EmitEvent ''breakpoint''
       (jobj [(''reason'', jstr (case reason of
                 BreakpointNew \<Rightarrow> ''new'' | BreakpointChanged \<Rightarrow> ''changed'' | BreakpointRemoved \<Rightarrow> ''removed'')),
              (''breakpoint'', breakpoint_json b)])"

definition EmitInitializedEvent :: "vs_state \<Rightarrow> unit or_throw \<times> vs_state" where
  "EmitInitializedEvent = EmitEvent ''initialized'' (JObject [])"

definition capabilities :: members where
  "capabilities =
     object_of [(''supportsConfigurationDoneRequest'', JBool True), (''supportsFunctionBreakpoints'', JBool True),
                (''supportsConditionalBreakpoints'', JBool True), (''supportTerminateDebuggee'', JBool True),
                (''supportsExceptionInfoRequest'', JBool True)]"

definition EmitCapabilitiesEvent :: "vs_state \<Rightarrow> unit or_throw \<times> vs_state" where
  "EmitCapabilitiesEvent = EmitEvent ''capabilities'' (jobj [(''capabilities'', JObject capabilities)])"

definition emit_vs :: "vs_event \<Rightarrow> vs_state \<Rightarrow> unit or_throw \<times> vs_state" where
  "emit_vs e =
     (case e of
        Initialized_Event \<Rightarrow> EmitInitializedEvent
      | Stopped_Event event \<Rightarrow> EmitStoppedEvent_vs event
      | Exited_Event exitCode \<Rightarrow> EmitExitedEvent_vs exitCode
      | Terminated_Event \<Rightarrow> EmitTerminatedEvent
      | Continued_Event threadId \<Rightarrow> EmitContinuedEvent threadId
      | Thread_Event reason threadId \<Rightarrow> EmitThreadEvent_vs reason threadId
      | Module_Event reason m \<Rightarrow> EmitModuleEvent_vs reason m
      | Output_Event category output \<Rightarrow> EmitOutputEvent_vs category output
      | Breakpoint_Event reason b \<Rightarrow> EmitBreakpointEvent_vs reason b)"

section \<open>Actions\<close>

text \<open>A handler works on the front end and the debugger; an exception keeps what was done before it.\<close>

type_synonym 'd vs_world = "vs_state \<times> 'd"
type_synonym ('d, 'a) vs_action = "'d vs_world \<Rightarrow> 'a or_throw \<times> 'd vs_world"

definition vs_return :: "'a \<Rightarrow> ('d, 'a) vs_action" where
  "vs_return x w = (Inr x, w)"

definition vs_get :: "'a or_throw \<Rightarrow> ('d, 'a) vs_action" where
  "vs_get r w = (r, w)"

definition vs_bind :: "('d, 'a) vs_action \<Rightarrow> ('a \<Rightarrow> ('d, 'b) vs_action) \<Rightarrow> ('d, 'b) vs_action" where
  "vs_bind m f w = (case m w of (Inl e, w') \<Rightarrow> (Inl e, w') | (Inr x, w') \<Rightarrow> f x w')"

definition on_state :: "(vs_state \<Rightarrow> 'a or_throw \<times> vs_state) \<Rightarrow> ('d, 'a) vs_action" where
  "on_state f w = (case w of (st, d) \<Rightarrow> (case f st of (r, st') \<Rightarrow> (r, (st', d))))"

fun emit_all :: "vs_event list \<Rightarrow> ('d, unit) vs_action" where
  "emit_all [] = vs_return ()"
| "emit_all (e # es) = vs_bind (on_state (emit_vs e)) (\<lambda>_. emit_all es)"

type_synonym ('d, 'r) vd_op = "'d \<Rightarrow> 'r \<times> vs_event list \<times> 'd"

definition call :: "('d, 'r) vd_op \<Rightarrow> ('d, 'r) vs_action" where
  "call f w =
     (case w of (st, d) \<Rightarrow> (case f d of (r, es, d') \<Rightarrow>
        vs_bind (emit_all es) (\<lambda>_. vs_return r) (st, d')))"

record 'd vs_debugger =
  vd_Initialize :: "('d, hresult) vd_op"
  vd_InsertExceptionBreakpoint :: "exc_mode \<Rightarrow> string \<Rightarrow> ('d, hresult) vd_op"
  vd_ConfigurationDone :: "('d, hresult) vd_op"
  vd_GetExceptionInfoResponse :: "int \<Rightarrow> ('d, hresult \<times> exception_info) vd_op"
  vd_SetBreakpoints :: "string \<Rightarrow> source_breakpoint list \<Rightarrow> ('d, hresult \<times> breakpoint list) vd_op"
  vd_Launch :: "string \<Rightarrow> string list \<Rightarrow> bool \<Rightarrow> ('d, hresult) vd_op"
  vd_GetThreads :: "('d, hresult \<times> thread list) vd_op"
  vd_Disconnect :: "disconnect_action \<Rightarrow> ('d, hresult) vd_op"
  vd_GetStackTrace :: "int \<Rightarrow> int \<Rightarrow> int \<Rightarrow> ('d, hresult \<times> stack_frame list \<times> int) vd_op"
  vd_Continue :: "int \<Rightarrow> ('d, hresult) vd_op"
  vd_Pause :: "('d, hresult) vd_op"
  vd_StepCommand :: "int \<Rightarrow> step_type \<Rightarrow> ('d, hresult) vd_op"
  vd_GetScopes :: "u64 \<Rightarrow> ('d, hresult \<times> scope list) vd_op"
  vd_GetVariables :: "nat \<Rightarrow> variables_filter \<Rightarrow> int \<Rightarrow> int \<Rightarrow> ('d, hresult \<times> variable list) vd_op"
  vd_GetLastStoppedThreadId :: "'d \<Rightarrow> int"
  vd_Evaluate :: "u64 \<Rightarrow> string \<Rightarrow> ('d, hresult \<times> variable \<times> string) vd_op"
  vd_Attach :: "int \<Rightarrow> ('d, hresult) vd_op"
  vd_SetVariable :: "string \<Rightarrow> string \<Rightarrow> nat \<Rightarrow> ('d, hresult \<times> string) vd_op"
  vd_SetFunctionBreakpoints :: "function_breakpoint list \<Rightarrow> ('d, hresult \<times> breakpoint list) vd_op"

end
