(* ===== verification/VSCode_Commands.thy ===== *)
theory VSCode_Commands imports VSCode_Protocol Mi_Protocol begin

text \<open>
  The command handlers of \<open>VSCodeProtocol::HandleCommand\<close>, the reader of framed requests, and the command
  loop as a function from the bytes of standard input.
\<close>

section \<open>Handlers\<close>

text \<open>A handler returns its status and the body of the response.\<close>

type_synonym 'd vs_handler = "json \<Rightarrow> ('d, hresult \<times> members) vs_action"

definition reply :: "hresult \<Rightarrow> members \<Rightarrow> ('d, hresult \<times> members) vs_action" where
  "reply status kvs = vs_return (status, object_of kvs)"

text \<open>\<open>IfFailRet\<close> on the status of a call, and a body made of what it gave.\<close>

definition reply_if_ok :: "hresult \<Rightarrow> members \<Rightarrow> ('d, hresult \<times> members) vs_action" where
  "reply_if_ok status kvs = (if succeeded status then reply S_OK kvs else reply status [])"

definition handle_initialize :: "'d vs_debugger \<Rightarrow> 'd vs_handler" where
  "handle_initialize D arguments =
     vs_bind (on_state EmitCapabilitiesEvent) (\<lambda>_.
     vs_bind (call (vd_Initialize D)) (\<lambda>_.
     vs_return (S_OK, capabilities)))"

definition apply_filter :: "string \<Rightarrow> exc_mode \<Rightarrow> exc_mode" where
  "apply_filter f mode =
     (let m1 = (if f = ''all'' \<or> f = ''always'' then setAll mode else mode);
          m2 = (if f = ''userUnhandled'' \<or> f = ''user-unhandled'' then setUserUnhandled m1 else m1)
      in if f = ''never'' then resetAll m2 else m2)"

definition handle_setExceptionBreakpoints :: "'d vs_debugger \<Rightarrow> 'd vs_handler" where
  "handle_setExceptionBreakpoints D arguments =
     vs_bind (vs_get (json_value ''filters'' get_strings [] arguments)) (\<lambda>filters.
     vs_bind (call (vd_InsertExceptionBreakpoint D (fold apply_filter filters default_mode) ''*'')) (\<lambda>_.
     reply S_OK [(''supportsExceptionOptions'', JBool False)]))"

definition handle_configurationDone :: "'d vs_debugger \<Rightarrow> 'd vs_handler" where
  "handle_configurationDone D arguments =
     vs_bind (call (vd_ConfigurationDone D)) (\<lambda>status. reply status [])"

definition handle_exceptionInfo :: "'d vs_debugger \<Rightarrow> 'd vs_handler" where
  "handle_exceptionInfo D arguments =
     vs_bind (vs_get (at_as ''threadId'' get_int arguments)) (\<lambda>threadId.
     vs_bind (call (vd_GetExceptionInfoResponse D threadId)) (\<lambda>(status, r).
     if status = S_OK then
       reply S_OK [(''breakMode'', jstr (getVSCodeBreakMode (ei_breakMode r))),
                   (''exceptionId'', jstr (ei_exceptionId r)), (''description'', jstr (ei_description r)),
                   (''details'', getVSCode (ei_details r))]
     else reply E_FAIL []))"

definition read_source_breakpoint :: "json \<Rightarrow> source_breakpoint or_throw" where
  "read_source_breakpoint b =
     xbind (at_as ''line'' get_int b) (\<lambda>line.
     xbind (json_value ''condition'' get_string [] b) (\<lambda>condition.
     Inr \<lparr>sb_line = line, sb_condition = condition\<rparr>))"

definition handle_setBreakpoints :: "'d vs_debugger \<Rightarrow> 'd vs_handler" where
  "handle_setBreakpoints D arguments =
     vs_bind (vs_get (json_at ''breakpoints'' arguments)) (\<lambda>bs.
     vs_bind (vs_get (xmap read_source_breakpoint (json_items bs))) (\<lambda>srcBreakpoints.
     vs_bind (vs_get (xbind (json_at ''source'' arguments) (at_as ''path'' get_string))) (\<lambda>path.
     vs_bind (call (vd_SetBreakpoints D path srcBreakpoints)) (\<lambda>(status, breakpoints).
     reply_if_ok status [(''breakpoints'', JArray (map breakpoint_json breakpoints))]))))"

definition launch_with :: "'d vs_debugger \<Rightarrow> string \<Rightarrow> string list \<Rightarrow> 'd vs_handler" where
  "launch_with D fileExec execArgs arguments =
     (if fileExec \<noteq> [] then
        vs_bind (vs_get (json_value ''stopAtEntry'' get_bool False arguments)) (\<lambda>stopAtEntry.
        vs_bind (call (vd_Launch D fileExec execArgs stopAtEntry)) (\<lambda>status.
        reply status []))
      else
        vs_bind (vs_get (json_value ''args'' get_strings [] arguments)) (\<lambda>args.
        vs_bind (vs_get (at_as ''program'' get_string arguments)) (\<lambda>program.
        vs_bind (vs_get (json_value ''stopAtEntry'' get_bool False arguments)) (\<lambda>stopAtEntry.
        vs_bind (call (vd_Launch D ''dotnet'' (program # args) stopAtEntry)) (\<lambda>status.
        reply status [])))))"

definition handle_launch :: "'d vs_debugger \<Rightarrow> 'd vs_handler" where
  "handle_launch D arguments w = launch_with D (vs_fileExec (fst w)) (vs_execArgs (fst w)) arguments w"

definition handle_threads :: "'d vs_debugger \<Rightarrow> 'd vs_handler" where
  "handle_threads D arguments =
     vs_bind (call (vd_GetThreads D)) (\<lambda>(status, threads).
     reply_if_ok status [(''threads'', JArray (map thread_json threads))])"

definition handle_disconnect :: "'d vs_debugger \<Rightarrow> 'd vs_handler" where
  "handle_disconnect D arguments =
     vs_bind (vs_get (case json_find ''terminateDebuggee'' arguments of
                        None \<Rightarrow> Inr DisconnectDefault
                      | Some v \<Rightarrow> xbind (get_bool v) (\<lambda>b.
                          Inr (if b then DisconnectTerminate else DisconnectDetach)))) (\<lambda>action.
     vs_bind (call (vd_Disconnect D action)) (\<lambda>_.
     vs_bind (on_state (\<lambda>st. (Inr (), st\<lparr>vs_exit := True\<rparr>))) (\<lambda>_.
     reply S_OK [])))"

definition handle_stackTrace :: "'d vs_debugger \<Rightarrow> 'd vs_handler" where
  "handle_stackTrace D arguments =
     vs_bind (vs_get (at_as ''threadId'' get_int arguments)) (\<lambda>threadId.
     vs_bind (vs_get (json_value ''startFrame'' get_int 0 arguments)) (\<lambda>startFrame.
     vs_bind (vs_get (json_value ''levels'' get_int 0 arguments)) (\<lambda>levels.
     vs_bind (call (vd_GetStackTrace D threadId startFrame levels)) (\<lambda>(status, stackFrames, totalFrames).
     reply_if_ok status [(''stackFrames'', JArray (map stack_frame_json stackFrames)),
                         (''totalFrames'', JInt totalFrames)]))))"

definition handle_continue :: "'d vs_debugger \<Rightarrow> 'd vs_handler" where
  "handle_continue D arguments =
     vs_bind (vs_get (at_as ''threadId'' get_int arguments)) (\<lambda>threadId.
     vs_bind (call (vd_Continue D threadId)) (\<lambda>status.
     reply status [(''allThreadsContinued'', JBool True), (''threadId'', JInt threadId)]))"

definition handle_pause :: "'d vs_debugger \<Rightarrow> 'd vs_handler" where
  "handle_pause D arguments = vs_bind (call (vd_Pause D)) (\<lambda>status. reply status [])"

text \<open>\<open>next\<close>, \<open>stepIn\<close> and \<open>stepOut\<close>.\<close>

definition handle_step :: "step_type \<Rightarrow> 'd vs_debugger \<Rightarrow> 'd vs_handler" where
  "handle_step stepType D arguments =
     vs_bind (vs_get (at_as ''threadId'' get_int arguments)) (\<lambda>threadId.
     vs_bind (call (vd_StepCommand D threadId stepType)) (\<lambda>status. reply status []))"

definition handle_scopes :: "'d vs_debugger \<Rightarrow> 'd vs_handler" where
  "handle_scopes D arguments =
     vs_bind (vs_get (at_as ''frameId'' get_u64 arguments)) (\<lambda>frameId.
     vs_bind (call (vd_GetScopes D frameId)) (\<lambda>(status, scopes).
     reply_if_ok status [(''scopes'', JArray (map scope_json scopes))]))"

definition filter_of :: "string \<Rightarrow> variables_filter" where
  "filter_of filterName =
     (if filterName = ''named'' then VariablesNamed
      else if filterName = ''indexed'' then VariablesIndexed else VariablesBoth)"

definition handle_variables :: "'d vs_debugger \<Rightarrow> 'd vs_handler" where
  "handle_variables D arguments =
     vs_bind (vs_get (json_value ''filter'' get_string [] arguments)) (\<lambda>filterName.
     vs_bind (vs_get (at_as ''variablesReference'' get_u32 arguments)) (\<lambda>ref.
     vs_bind (vs_get (json_value ''start'' get_int 0 arguments)) (\<lambda>start.
     vs_bind (vs_get (json_value ''count'' get_int 0 arguments)) (\<lambda>cnt.
     vs_bind (call (vd_GetVariables D ref (filter_of filterName) start cnt)) (\<lambda>(status, variables).
     reply_if_ok status [(''variables'', JArray (map variable_json variables))])))))"

definition evaluate_with :: "'d vs_debugger \<Rightarrow> int \<Rightarrow> 'd vs_handler" where
  "evaluate_with D threadId arguments =
     vs_bind (vs_get (at_as ''expression'' get_string arguments)) (\<lambda>expression.
     vs_bind (vs_get (case json_find ''frameId'' arguments of
                        None \<Rightarrow> Inr (StackFrame_id (word_of_int threadId) 0)
                      | Some v \<Rightarrow> get_u64 v)) (\<lambda>frameId.
     vs_bind (call (vd_Evaluate D frameId expression)) (\<lambda>(status, variable, output).
     if \<not> succeeded status then reply status [(''message'', jstr output)]
     else reply S_OK
       ([(''result'', jstr (v_value variable)), (''type'', jstr (v_type variable)),
         (''variablesReference'', jnat (v_variablesReference variable))] @
        (if v_variablesReference variable > 0
         then [(''namedVariables'', JInt (v_namedVariables variable))] else [])))))"

definition handle_evaluate :: "'d vs_debugger \<Rightarrow> 'd vs_handler" where
  "handle_evaluate D arguments w = evaluate_with D (vd_GetLastStoppedThreadId D (snd w)) arguments w"

definition stoi_throw :: "string \<Rightarrow> int or_throw" where
  "stoi_throw s =
     (case stoi s of
        Some v \<Rightarrow> Inr v
      | None \<Rightarrow>
          if takeWhile is_digit (snd (stoi_sign (dropWhile is_space s))) = []
          then Inl Invalid_Argument else Inl Number_Out_Of_Range)"

definition handle_attach :: "'d vs_debugger \<Rightarrow> 'd vs_handler" where
  "handle_attach D arguments =
     vs_bind (vs_get (json_at ''processId'' arguments)) (\<lambda>processIdArg.
     case processIdArg of
       JString s \<Rightarrow>
         vs_bind (vs_get (stoi_throw s)) (\<lambda>processId.
         vs_bind (call (vd_Attach D processId)) (\<lambda>status. reply status []))
     | JInt i \<Rightarrow> vs_bind (call (vd_Attach D (s32_of i))) (\<lambda>status. reply status [])
     | JFloat f \<Rightarrow> vs_bind (call (vd_Attach D (s32_of (d_trunc f)))) (\<lambda>status. reply status [])
     | _ \<Rightarrow> reply E_INVALIDARG [])"

definition handle_setVariable :: "'d vs_debugger \<Rightarrow> 'd vs_handler" where
  "handle_setVariable D arguments =
     vs_bind (vs_get (at_as ''name'' get_string arguments)) (\<lambda>name.
     vs_bind (vs_get (at_as ''value'' get_string arguments)) (\<lambda>value.
     vs_bind (vs_get (at_as ''variablesReference'' get_int arguments)) (\<lambda>ref.
     vs_bind (call (vd_SetVariable D name value (to_u32 ref))) (\<lambda>(status, output).
     if \<not> succeeded status then reply status [(''message'', jstr output)]
     else reply S_OK [(''value'', jstr output)]))))"

text \<open>The name of a function breakpoint: \<open>module!name(params)\<close>, with the positions of \<open>std::string\<close> in
  64 bits and \<open>npos\<close> as the largest one.\<close>

definition str_pos :: "char \<Rightarrow> string \<Rightarrow> nat" where
  "str_pos c s = (case str_find c s of None \<Rightarrow> 2 ^ 64 - 1 | Some i \<Rightarrow> i)"

definition split_function_name :: "string \<Rightarrow> string \<times> string \<times> string" where
  "split_function_name name0 =
     (let (module, name1) = (case str_find (CHR ''!'') name0 of
                               None \<Rightarrow> ([], name0) | Some i \<Rightarrow> (take i name0, drop (i + 1) name0))
      in case str_find (CHR ''('') name1 of
           None \<Rightarrow> (module, name1, [])
         | Some i \<Rightarrow>
             let closeBrace = str_pos (CHR '')'') name1;
                 params = take ((closeBrace + 2 ^ 64 - i + 1) mod 2 ^ 64) (drop i name1)
             in (module, take i name1 @ drop (i + closeBrace) name1, params))"

definition read_function_breakpoint :: "json \<Rightarrow> function_breakpoint or_throw" where
  "read_function_breakpoint b =
     xbind (at_as ''name'' get_string b) (\<lambda>name0.
     xbind (json_value ''condition'' get_string [] b) (\<lambda>condition.
     case split_function_name name0 of (module, name, params) \<Rightarrow>
       Inr \<lparr>fbr_module = module, fbr_func = name, fbr_params = params, fbr_condition = condition\<rparr>))"

definition handle_setFunctionBreakpoints :: "'d vs_debugger \<Rightarrow> 'd vs_handler" where
  "handle_setFunctionBreakpoints D arguments =
     vs_bind (vs_get (json_at ''breakpoints'' arguments)) (\<lambda>bs.
     vs_bind (vs_get (xmap read_function_breakpoint (json_items bs))) (\<lambda>funcBreakpoints.
     vs_bind (call (vd_SetFunctionBreakpoints D funcBreakpoints)) (\<lambda>(status, breakpoints).
     reply_if_ok status [(''breakpoints'', JArray (map breakpoint_json breakpoints))])))"

definition commands :: "'d vs_debugger \<Rightarrow> (string \<times> 'd vs_handler) list" where
  "commands D =
     [(''initialize'', handle_initialize D), (''setExceptionBreakpoints'', handle_setExceptionBreakpoints D),
      (''configurationDone'', handle_configurationDone D), (''exceptionInfo'', handle_exceptionInfo D),
      (''setBreakpoints'', handle_setBreakpoints D), (''launch'', handle_launch D),
      (''threads'', handle_threads D), (''disconnect'', handle_disconnect D),
      (''stackTrace'', handle_stackTrace D), (''continue'', handle_continue D), (''pause'', handle_pause D),
      (''next'', handle_step STEP_OVER D), (''stepIn'', handle_step STEP_IN D),
      (''stepOut'', handle_step STEP_OUT D), (''scopes'', handle_scopes D),
      (''variables'', handle_variables D), (''evaluate'', handle_evaluate D), (''attach'', handle_attach D),
      (''setVariable'', handle_setVariable D), (''setFunctionBreakpoints'', handle_setFunctionBreakpoints D)]"

definition HandleCommand_vs :: "'d vs_debugger \<Rightarrow> string \<Rightarrow> 'd vs_handler" where
  "HandleCommand_vs D command arguments =
     (case map_of (commands D) command of
        None \<Rightarrow> reply E_NOTIMPL []
      | Some handler \<Rightarrow> handler arguments)"

section \<open>Requests\<close>

text \<open>\<open>std::stoul\<close>: white space, a sign, digits; a negative number is negated modulo \<open>2 ^ 64\<close>.\<close>

definition stoul :: "string \<Rightarrow> nat or_throw" where
  "stoul s =
     (case stoi_sign (dropWhile is_space s) of (sg, t) \<Rightarrow>
        let ds = takeWhile is_digit t; v = digits_val ds in
          if ds = [] then Inl Invalid_Argument
          else if 2 ^ 64 \<le> v then Inl Number_Out_Of_Range
          else Inr (nat ((sg * int v) mod 2 ^ 64)))"

fun str_search :: "string \<Rightarrow> string \<Rightarrow> nat option" where
  "str_search pat [] = (if pat = [] then Some 0 else None)"
| "str_search pat (c # s) =
     (if take (length pat) (c # s) = pat then Some 0 else map_option Suc (str_search pat s))"

text \<open>\<open>ReadData\<close>: the header grows until it ends with an empty line and holds a length.  The result is
  empty at the end of the input; no string is as long as \<open>2 ^ 63\<close> bytes.\<close>

fun read_header :: "string \<Rightarrow> string \<Rightarrow> string or_throw \<times> string" where
  "read_header header [] = (Inr [], [])"
| "read_header header (c # inp) =
     (let header' = header @ [c] in
       if length header' < length TWO_CRLF then read_header header' inp
       else if drop (length header' - length TWO_CRLF) header' \<noteq> TWO_CRLF then read_header header' inp
       else (case str_search CONTENT_LENGTH header' of
               None \<Rightarrow> read_header header' inp
             | Some lengthIndex \<Rightarrow>
                 (case stoul (drop (lengthIndex + length CONTENT_LENGTH) header') of
                    Inl e \<Rightarrow> (Inl e, inp)
                  | Inr contentLength \<Rightarrow>
                      if 2 ^ 63 \<le> contentLength then (Inl Length_Error, inp)
                      else if length inp < contentLength then (Inr [], [])
                      else (Inr (take contentLength inp), drop contentLength inp))))"

definition ReadData :: "string \<Rightarrow> string or_throw \<times> string" where
  "ReadData inp = read_header [] inp"

section \<open>Responses\<close>

definition failure_message :: "string \<Rightarrow> hresult \<Rightarrow> string" where
  "failure_message command status =
     ''Failed command '' @ CHR 0x27 # command @ CHR 0x27 # '' : '' @ ''0x'' @ zero_pad 8 (to_hex (hr_code status))"

definition response_members :: "string \<Rightarrow> json \<Rightarrow> hresult \<Rightarrow> members \<Rightarrow> members" where
  "response_members command request_seq status body =
     object_of ([(''type'', jstr ''response''), (''command'', jstr command), (''request_seq'', request_seq)] @
       (if succeeded status then [(''success'', JBool True), (''body'', JObject body)]
        else [(''message'', case obj_find ''message'' body of
                              None \<Rightarrow> jstr (failure_message command status) | Some m \<Rightarrow> m),
              (''success'', JBool False)]))"

text \<open>One round of the loop on the text of a request.\<close>

definition handle_request ::
  "(string \<Rightarrow> c_double option) \<Rightarrow> 'd vs_debugger \<Rightarrow> string \<Rightarrow> ('d, unit) vs_action" where
  "handle_request strtod D requestText =
     vs_bind (on_state (Log LOG_COMMAND requestText)) (\<lambda>_.
     vs_bind (vs_get (json_parse strtod requestText)) (\<lambda>request.
     vs_bind (vs_get (at_as ''command'' get_string request)) (\<lambda>command.
     let arguments = (case json_find ''arguments'' request of None \<Rightarrow> JObject [] | Some a \<Rightarrow> a) in
     vs_bind (HandleCommand_vs D command arguments) (\<lambda>(status, body).
     vs_bind (vs_get (json_at ''seq'' request)) (\<lambda>request_seq.
     on_state (send_logged LOG_RESPONSE (JObject (response_members command request_seq status body))))))))"

section \<open>The command loop\<close>

lemma read_header_length: "read_header header inp = (r, rest) \<Longrightarrow> length rest \<le> length inp"
proof (induction inp arbitrary: header)
  case (Cons c inp)
  then show ?case
    by (fastforce simp: Let_def split: if_split_asm option.split_asm sum.split_asm)
qed simp

lemma ReadData_shorter: "ReadData inp = (Inr requestText, rest) \<Longrightarrow> requestText \<noteq> [] \<Longrightarrow> length rest < length inp"
proof (cases inp)
  case (Cons c inp')
  assume *: "ReadData inp = (Inr requestText, rest)" "requestText \<noteq> []"
  then have "read_header [c] inp' = (Inr requestText, rest)"
    by (simp add: ReadData_def Cons TWO_CRLF_def)
  then show ?thesis using read_header_length Cons by fastforce
qed (simp add: ReadData_def)

text \<open>\<open>CommandLoop\<close>: until \<open>m_exit\<close>, or an empty text; then the debugger is disconnected, unless the loop
  was left by \<open>disconnect\<close>.\<close>

function command_loop ::
  "(string \<Rightarrow> c_double option) \<Rightarrow> 'd vs_debugger \<Rightarrow> string \<Rightarrow> ('d, unit) vs_action" where
  "command_loop strtod D inp w =
     (if vs_exit (fst w) then (Inr (), w)
      else (case ReadData inp of
              (Inl e, rest) \<Rightarrow> (Inl e, w)
            | (Inr requestText, rest) \<Rightarrow>
                if requestText = [] then (Inr (), w)
                else (case handle_request strtod D requestText w of
                        (Inl e, w') \<Rightarrow> (Inl e, w')
                      | (Inr _, w') \<Rightarrow> command_loop strtod D rest w')))"
  by pat_completeness auto
termination
  by (relation "measure (\<lambda>(strtod, D, inp, w). length inp)") (auto dest!: ReadData_shorter [OF sym])

declare command_loop.simps [simp del]

definition CommandLoop_vs ::
  "(string \<Rightarrow> c_double option) \<Rightarrow> 'd vs_debugger \<Rightarrow> string \<Rightarrow> ('d, unit) vs_action" where
  "CommandLoop_vs strtod D inp =
     vs_bind (command_loop strtod D inp) (\<lambda>_ w.
       if vs_exit (fst w) then (Inr (), w)
       else vs_bind (call (vd_Disconnect D DisconnectDefault)) (\<lambda>_. vs_return ()) w)"

end
