(* ===== verification/VSCode_Session.thy ===== *)
theory VSCode_Session imports VSCode_Commands begin

text \<open>
  The contract of the VSCode front end with its client: framing, the numbering of all messages, one
  response for each request, and the end of a session.  \<open>sends\<close> is the abstract view of the output: a
  list of JSON values; the actions of the front end are shown to extend it by events only, and each
  request by exactly one response among them.
\<close>

section \<open>The output as a list of messages\<close>

fun number_texts :: "nat \<Rightarrow> string list \<Rightarrow> string list" where
  "number_texts i [] = []"
| "number_texts i (d # ds) = (VSCodeSeq i @ drop 1 d) # number_texts ((i + 1) mod 2 ^ 64) ds"

definition framed :: "string list \<Rightarrow> string" where
  "framed texts = concat (map frame_message texts)"

definition sends :: "vs_state \<Rightarrow> json list \<Rightarrow> vs_state \<Rightarrow> bool" where
  "sends st js st' \<longleftrightarrow>
     (\<exists>ds. xmap dump js = Inr ds \<and>
       vs_out st' = vs_out st @ framed (number_texts (vs_seqCounter st) ds) \<and>
       vs_seqCounter st' = (if js = [] then vs_seqCounter st else (vs_seqCounter st + length js) mod 2 ^ 64))"

definition is_event :: "json \<Rightarrow> bool" where
  "is_event j \<longleftrightarrow> (\<exists>name body. j = event_json name body)"

lemma xmap_append: "xmap f (xs @ ys) = xbind (xmap f xs) (\<lambda>us. xbind (xmap f ys) (\<lambda>vs. Inr (us @ vs)))"
  by (induction xs) (auto simp: xbind_def split: sum.splits)

lemma xmap_length: "xmap f xs = Inr ys \<Longrightarrow> length ys = length xs"
  by (induction xs arbitrary: ys) (auto simp: xbind_def split: sum.splits)

lemma number_texts_append:
  "ds \<noteq> [] \<Longrightarrow>
   number_texts i (ds @ es) = number_texts i ds @ number_texts ((i + length ds) mod 2 ^ 64) es"
proof (induction ds arbitrary: i)
  case (Cons d ds)
  show ?case
  proof (cases "ds = []")
    case False
    have "((i + 1) mod 2 ^ 64 + length ds) mod 2 ^ 64 = (i + length (d # ds)) mod 2 ^ 64"
      by (simp add: mod_add_left_eq)
    with Cons(1) [OF False] show ?thesis by simp
  qed simp
qed simp

lemma framed_append: "framed (xs @ ys) = framed xs @ framed ys"
  by (simp add: framed_def)

lemma sends_nothing: "vs_out st' = vs_out st \<Longrightarrow> vs_seqCounter st' = vs_seqCounter st \<Longrightarrow> sends st [] st'"
  by (simp add: sends_def framed_def)

lemma sends_append:
  assumes "sends st js st1" "sends st1 ks st2"
  shows "sends st (js @ ks) st2"
proof -
  from assms obtain ds es where ds: "xmap dump js = Inr ds" "xmap dump ks = Inr es"
      "vs_out st1 = vs_out st @ framed (number_texts (vs_seqCounter st) ds)"
      "vs_out st2 = vs_out st1 @ framed (number_texts (vs_seqCounter st1) es)"
    by (auto simp: sends_def)
  have len: "length ds = length js" using ds(1) by (rule xmap_length)
  show ?thesis
  proof (cases "js = []")
    case True
    with assms ds len show ?thesis by (auto simp: sends_def framed_def)
  next
    case False
    then have "ds \<noteq> []" using len by auto
    moreover have "vs_seqCounter st1 = (vs_seqCounter st + length ds) mod 2 ^ 64"
      using assms(1) False len by (auto simp: sends_def)
    ultimately have "vs_out st2 = vs_out st @ framed (number_texts (vs_seqCounter st) (ds @ es))"
      using ds by (simp add: number_texts_append framed_append)
    moreover have "vs_seqCounter st2 = (vs_seqCounter st + length (js @ ks)) mod 2 ^ 64"
      using assms False by (auto simp: sends_def mod_add_left_eq add.assoc split: if_splits)
    ultimately show ?thesis using ds False by (auto simp: sends_def xmap_append)
  qed
qed

lemma sends_one: "send_numbered j st = (Inr output, st') \<Longrightarrow> sends st [j] st'"
  by (auto simp: send_numbered_def sends_def framed_def Let_def split: sum.splits)

lemma send_numbered_throws: "send_numbered j st = (Inl e, st') \<Longrightarrow> st' = st"
  by (auto simp: send_numbered_def Let_def split: sum.splits)

section \<open>What the actions send\<close>

text \<open>\<open>sent_by P f\<close>: whatever \<open>f\<close> does, it adds messages that satisfy \<open>P\<close>.\<close>

definition sent_by :: "(json \<Rightarrow> bool) \<Rightarrow> ('d, 'a) vs_action \<Rightarrow> bool" where
  "sent_by P m \<longleftrightarrow> (\<forall>w. \<exists>js. sends (fst w) js (fst (snd (m w))) \<and> (\<forall>j \<in> set js. P j))"

named_theorems sent_intros \<open>what each action sends\<close>

lemma Log_sends: "\<exists>js. sends st js (snd (Log pre message st)) \<and> (\<forall>j \<in> set js. is_event j)"
proof (cases "vs_engineLogOutput st")
  case LogConsole
  let ?j = "event_json ''output'' (jobj [(''category'', jstr ''console''),
              (''output'', jstr (pre @ message @ [CHR 0x0A]))])"
  obtain r st' where s: "send_numbered ?j st = (r, st')" by fastforce
  show ?thesis
  proof (cases r)
    case (Inl e)
    with s LogConsole send_numbered_throws [of ?j st e st'] have "snd (Log pre message st) = st"
      by (simp add: Log_def)
    then show ?thesis using sends_nothing [of st st] by auto
  next
    case (Inr u)
    with s LogConsole have "snd (Log pre message st) = st'" by (simp add: Log_def)
    moreover have "sends st [?j] st'" using s Inr by (simp add: sends_one)
    ultimately show ?thesis by (intro exI [of _ "[?j]"]) (auto simp: is_event_def)
  qed
next
  case LogNone
  then show ?thesis by (intro exI [of _ "[]"]) (simp add: Log_def sends_nothing)
next
  case LogFile
  then show ?thesis by (intro exI [of _ "[]"]) (simp add: Log_def sends_nothing)
qed

lemma send_logged_sends:
  assumes "send_logged pre j st = (r, st')"
  shows "r = Inl e \<Longrightarrow> \<exists>js. sends st js st' \<and> (\<forall>k \<in> set js. k = j \<or> is_event k)"
    and "r = Inr () \<Longrightarrow> \<exists>js. sends st (j # js) st' \<and> (\<forall>k \<in> set js. is_event k)"
proof -
  obtain r1 st1 where s: "send_numbered j st = (r1, st1)" by fastforce
  have 1: "\<exists>js. sends st (j # js) st' \<and> (\<forall>k \<in> set js. is_event k)" if "r1 = Inr u" for u
  proof -
    obtain js where "sends st1 js (snd (Log pre u st1))" "\<forall>k \<in> set js. is_event k"
      using Log_sends by blast
    with s that assms sends_append [OF sends_one, of j st u st1 js st'] show ?thesis
      by (auto simp: send_logged_def)
  qed
  show "r = Inr () \<Longrightarrow> \<exists>js. sends st (j # js) st' \<and> (\<forall>k \<in> set js. is_event k)"
    using 1 assms s by (cases r1) (auto simp: send_logged_def)
  show "\<exists>js. sends st js st' \<and> (\<forall>k \<in> set js. k = j \<or> is_event k)" if "r = Inl e"
  proof (cases r1)
    case (Inl e')
    with s assms send_numbered_throws have "st' = st" by (auto simp: send_logged_def)
    then show ?thesis using sends_nothing [of st st] by auto
  next
    case (Inr u)
    with 1 show ?thesis by fastforce
  qed
qed

lemma EmitEvent_sends: "\<exists>js. sends st js (snd (EmitEvent name body st)) \<and> (\<forall>j \<in> set js. is_event j)"
proof -
  obtain r st' where e: "send_logged LOG_EVENT (event_json name body) st = (r, st')" by fastforce
  then have "snd (EmitEvent name body st) = st'" by (simp add: EmitEvent_def)
  moreover have "\<exists>js. sends st js st' \<and> (\<forall>j \<in> set js. is_event j)"
  proof (cases r)
    case (Inl x)
    with send_logged_sends(1) [OF e] show ?thesis by (fastforce simp: is_event_def)
  next
    case (Inr x)
    with send_logged_sends(2) [OF e] obtain js where
      "sends st (event_json name body # js) st'" "\<forall>k \<in> set js. is_event k" by auto
    then show ?thesis by (intro exI [of _ "event_json name body # js"]) (auto simp: is_event_def)
  qed
  ultimately show ?thesis by simp
qed

lemma emit_sends: "\<exists>js. sends st js (snd (emit_vs e st)) \<and> (\<forall>j \<in> set js. is_event j)"
  by (cases e) (simp_all add: emit_vs_def EmitContinuedEvent_def EmitStoppedEvent_vs_def EmitExitedEvent_vs_def
    EmitTerminatedEvent_def EmitThreadEvent_vs_def EmitModuleEvent_vs_def EmitOutputEvent_vs_def
    EmitBreakpointEvent_vs_def EmitInitializedEvent_def EmitEvent_sends)

lemma sent_return [sent_intros]: "sent_by P (vs_return x)"
  by (auto simp: sent_by_def vs_return_def intro: exI [of _ "[]"] sends_nothing)

lemma sent_get [sent_intros]: "sent_by P (vs_get r)"
  by (auto simp: sent_by_def vs_get_def intro: exI [of _ "[]"] sends_nothing)

lemma sent_bind [sent_intros]:
  assumes "sent_by P m" "\<And>x. sent_by P (f x)"
  shows "sent_by P (vs_bind m f)"
  unfolding sent_by_def
proof
  fix w
  obtain r w1 where m: "m w = (r, w1)" by (meson surj_pair)
  obtain js where js: "sends (fst w) js (fst w1)" "\<forall>j \<in> set js. P j"
    using assms(1) m unfolding sent_by_def by (metis snd_conv)
  show "\<exists>js. sends (fst w) js (fst (snd (vs_bind m f w))) \<and> (\<forall>j \<in> set js. P j)"
  proof (cases r)
    case (Inl e)
    with m js show ?thesis by (auto simp: vs_bind_def)
  next
    case (Inr x)
    obtain ks where "sends (fst w1) ks (fst (snd (f x w1)))" "\<forall>j \<in> set ks. P j"
      using assms(2) unfolding sent_by_def by blast
    with js m Inr sends_append [of "fst w" js "fst w1" ks] show ?thesis
      by (intro exI [of _ "js @ ks"]) (auto simp: vs_bind_def)
  qed
qed

lemma sent_on_state:
  "(\<And>st. \<exists>js. sends st js (snd (f st)) \<and> (\<forall>j \<in> set js. P j)) \<Longrightarrow> sent_by P (on_state f)"
  by (auto simp: sent_by_def on_state_def split: prod.splits) (metis snd_conv)

lemma sent_emit [sent_intros]: "sent_by is_event (on_state (emit_vs e))"
  by (rule sent_on_state) (rule emit_sends)

lemma sent_Log [sent_intros]: "sent_by is_event (on_state (Log pre message))"
  by (rule sent_on_state) (rule Log_sends)

lemma sent_capabilities [sent_intros]: "sent_by is_event (on_state EmitCapabilitiesEvent)"
  by (rule sent_on_state) (simp add: EmitCapabilitiesEvent_def EmitEvent_sends)

lemma sent_exit [sent_intros]: "sent_by P (on_state (\<lambda>st. (Inr (), st\<lparr>vs_exit := True\<rparr>)))"
proof (rule sent_on_state)
  show "\<exists>js. sends st js (snd (Inr (), st\<lparr>vs_exit := True\<rparr>)) \<and> (\<forall>j \<in> set js. P j)" for st
    by (rule exI [of _ "[]"]) (simp add: sends_nothing)
qed

lemma sent_emit_all [sent_intros]: "sent_by is_event (emit_all es)"
  by (induction es) (auto intro: sent_intros)

lemma sent_call [sent_intros]: "sent_by is_event (call f)"
  unfolding sent_by_def
proof
  fix w :: "'a vs_world"
  obtain st d r es d' where w: "w = (st, d)" "f d = (r, es, d')" by (metis prod_cases3 surj_pair)
  have "sent_by is_event (vs_bind (emit_all es) (\<lambda>_. vs_return r) :: ('a, 'b) vs_action)" by (intro sent_intros)
  then show "\<exists>js. sends (fst w) js (fst (snd (call f w))) \<and> (\<forall>j \<in> set js. is_event j)"
    unfolding sent_by_def by (auto simp: w call_def dest: spec [of _ "(st, d')"])
qed

lemma sent_reply [sent_intros]: "sent_by P (reply status kvs)" "sent_by P (reply_if_ok status kvs)"
  by (simp_all add: reply_def reply_if_ok_def sent_return)

lemma sent_if [sent_intros]: "sent_by P m \<Longrightarrow> sent_by P n \<Longrightarrow> sent_by P (if b then m else n)"
  by simp

lemma sent_pair [sent_intros]: "(\<And>x y. sent_by P (f x y)) \<Longrightarrow> sent_by P (case p of (x, y) \<Rightarrow> f x y)"
  by (cases p) simp

lemma sent_pointwise: "(\<And>w. m w = g w w) \<Longrightarrow> (\<And>w. sent_by P (g w)) \<Longrightarrow> sent_by P m"
  by (simp add: sent_by_def)

lemma handlers_send:
  "sent_by is_event (handle_initialize D args)" "sent_by is_event (handle_setExceptionBreakpoints D args)"
  "sent_by is_event (handle_configurationDone D args)" "sent_by is_event (handle_exceptionInfo D args)"
  "sent_by is_event (handle_setBreakpoints D args)" "sent_by is_event (handle_threads D args)"
  "sent_by is_event (handle_disconnect D args)" "sent_by is_event (handle_stackTrace D args)"
  "sent_by is_event (handle_continue D args)" "sent_by is_event (handle_pause D args)"
  "sent_by is_event (handle_step ty D args)" "sent_by is_event (handle_scopes D args)"
  "sent_by is_event (handle_variables D args)" "sent_by is_event (handle_setVariable D args)"
  "sent_by is_event (handle_setFunctionBreakpoints D args)"
  unfolding handle_initialize_def handle_setExceptionBreakpoints_def handle_configurationDone_def
    handle_exceptionInfo_def handle_setBreakpoints_def handle_threads_def handle_disconnect_def
    handle_stackTrace_def handle_continue_def handle_pause_def handle_step_def handle_scopes_def
    handle_variables_def handle_setVariable_def handle_setFunctionBreakpoints_def
  by (intro sent_intros)+

lemma launch_sends: "sent_by is_event (handle_launch D args)"
proof (rule sent_pointwise [where g = "\<lambda>w. launch_with D (vs_fileExec (fst w)) (vs_execArgs (fst w)) args"])
  show "handle_launch D args w = launch_with D (vs_fileExec (fst w)) (vs_execArgs (fst w)) args w" for w
    by (rule handle_launch_def)
  show "sent_by is_event (launch_with D (vs_fileExec (fst w)) (vs_execArgs (fst w)) args)" for w
    unfolding launch_with_def by (intro sent_intros)
qed

lemma evaluate_sends: "sent_by is_event (handle_evaluate D args)"
proof (rule sent_pointwise [where g = "\<lambda>w. evaluate_with D (vd_GetLastStoppedThreadId D (snd w)) args"])
  show "handle_evaluate D args w = evaluate_with D (vd_GetLastStoppedThreadId D (snd w)) args w" for w
    by (rule handle_evaluate_def)
  show "sent_by is_event (evaluate_with D (vd_GetLastStoppedThreadId D (snd w)) args)" for w
    unfolding evaluate_with_def by (intro sent_intros)
qed

lemma attach_sends: "sent_by is_event (handle_attach D args)"
  unfolding handle_attach_def
  by (intro sent_intros, split json.split, intro conjI allI impI sent_intros)

lemma HandleCommand_sends: "sent_by is_event (HandleCommand_vs D command args)"
proof (cases "map_of (commands D) command")
  case (Some h)
  then have "h \<in> snd ` set (commands D)" by (force dest: map_of_SomeD)
  then have "sent_by is_event (h args)"
    by (auto simp: commands_def intro: handlers_send launch_sends evaluate_sends attach_sends)
  with Some show ?thesis by (simp add: HandleCommand_vs_def)
qed (simp add: HandleCommand_vs_def sent_reply)

section \<open>Sessions\<close>

text \<open>A message is an event or a response.\<close>

definition is_response :: "json \<Rightarrow> bool" where
  "is_response j \<longleftrightarrow> (\<exists>command request_seq status body. j = JObject (response_members command request_seq status body))"

lemma sent_mono: "sent_by P m \<Longrightarrow> (\<And>j. P j \<Longrightarrow> Q j) \<Longrightarrow> sent_by Q m"
  unfolding sent_by_def by blast

lemma sent_response:
  "sent_by (\<lambda>j. is_event j \<or> is_response j)
     (on_state (send_logged pre (JObject (response_members command request_seq status body))))"
proof (rule sent_on_state)
  fix st
  let ?j = "JObject (response_members command request_seq status body)"
  obtain r st' where s: "send_logged pre ?j st = (r, st')" by fastforce
  have j: "is_response ?j" by (auto simp: is_response_def)
  show "\<exists>js. sends st js (snd (send_logged pre ?j st)) \<and> (\<forall>j \<in> set js. is_event j \<or> is_response j)"
  proof (cases r)
    case (Inl e)
    then obtain js where "sends st js st'" "\<forall>k \<in> set js. k = ?j \<or> is_event k"
      using send_logged_sends(1) [OF s] by blast
    with s j show ?thesis by auto
  next
    case (Inr u)
    then obtain js where "sends st (?j # js) st'" "\<forall>k \<in> set js. is_event k"
      using send_logged_sends(2) [OF s] by auto
    with s j show ?thesis by (intro exI [of _ "?j # js"]) auto
  qed
qed

lemma handle_request_sends: "sent_by (\<lambda>j. is_event j \<or> is_response j) (handle_request strtod D requestText)"
proof -
  note ev = sent_mono [where P = is_event and Q = "\<lambda>j. is_event j \<or> is_response j"]
  show ?thesis
    unfolding handle_request_def Let_def
    by (intro sent_bind sent_get sent_pair sent_response ev [OF sent_Log] ev [OF HandleCommand_sends] disjI1)
qed

text \<open>Whatever the client sends and whenever events come from other threads.\<close>

inductive vs_reach :: "(string \<Rightarrow> c_double option) \<Rightarrow> 'd vs_debugger \<Rightarrow> 'd vs_world \<Rightarrow> bool"
  for strtod D where
  reach_init: "vs_out st = [] \<Longrightarrow> vs_seqCounter st = 1 \<Longrightarrow> vs_reach strtod D (st, d)"
| reach_request: "vs_reach strtod D w \<Longrightarrow> vs_reach strtod D (snd (handle_request strtod D requestText w))"
| reach_event: "vs_reach strtod D w \<Longrightarrow> vs_reach strtod D (snd (on_state (emit_vs e) w))"

lemma reach_sends:
  "vs_reach strtod D w \<Longrightarrow>
   \<exists>st0 js. vs_out st0 = [] \<and> vs_seqCounter st0 = 1 \<and> sends st0 js (fst w) \<and>
     (\<forall>j \<in> set js. is_event j \<or> is_response j)"
proof (induction rule: vs_reach.induct)
  case (reach_init st d)
  then show ?case by (intro exI [of _ st] exI [of _ "[]"]) (simp add: sends_nothing)
next
  case (reach_request w requestText)
  then obtain st0 js where 1: "vs_out st0 = []" "vs_seqCounter st0 = 1" "sends st0 js (fst w)"
      "\<forall>j \<in> set js. is_event j \<or> is_response j" by blast
  obtain ks where 2: "sends (fst w) ks (fst (snd (handle_request strtod D requestText w)))"
      "\<forall>j \<in> set ks. is_event j \<or> is_response j"
    using handle_request_sends unfolding sent_by_def by blast
  from 1 2 sends_append [OF 1(3) 2(1)] show ?case by (intro exI [of _ st0] exI [of _ "js @ ks"]) auto
next
  case (reach_event w e)
  then obtain st0 js where 1: "vs_out st0 = []" "vs_seqCounter st0 = 1" "sends st0 js (fst w)"
      "\<forall>j \<in> set js. is_event j \<or> is_response j" by blast
  obtain ks where 2: "sends (fst w) ks (fst (snd (on_state (emit_vs e) w)))" "\<forall>j \<in> set ks. is_event j"
    using sent_emit unfolding sent_by_def by blast
  from 1 2 sends_append [OF 1(3) 2(1)] show ?case by (intro exI [of _ st0] exI [of _ "js @ ks"]) auto
qed

section \<open>Framing\<close>

lemma read_header_skip:
  "drop (length (header @ [c]) - length TWO_CRLF) (header @ [c]) \<noteq> TWO_CRLF \<Longrightarrow>
   read_header header (c # inp) = read_header (header @ [c]) inp"
  by (simp add: Let_def)

lemma read_header_step:
  assumes "c \<noteq> CHR 0x0A"
  shows "read_header header (c # inp) = read_header (header @ [c]) inp"
proof -
  have "drop (length (header @ [c]) - length TWO_CRLF) (header @ [c]) \<noteq> TWO_CRLF"
  proof
    assume "drop (length (header @ [c]) - length TWO_CRLF) (header @ [c]) = TWO_CRLF"
    moreover have "last (drop k (header @ [c])) = c" if "k \<le> length header" for k using that by simp
    ultimately show False using assms by (force simp: TWO_CRLF_def)
  qed
  then show ?thesis by (simp add: Let_def)
qed

lemma read_header_prefix:
  "CHR 0x0A \<notin> set h \<Longrightarrow> read_header header (h @ inp) = read_header (header @ h) inp"
proof (induction h arbitrary: header)
  case (Cons c h)
  then have "c \<noteq> CHR 0x0A" by auto
  with Cons show ?case by (simp add: read_header_step del: read_header.simps)
qed simp

lemma digit_not_newline: "is_digit c \<Longrightarrow> c \<noteq> CHR 0x0A"
  by (auto simp: is_digit_def)

lemma digits_stop: "takeWhile is_digit (to_string n @ TWO_CRLF) = to_string n"
  using digits_to_string [of n] by (simp add: takeWhile_all TWO_CRLF_def is_digit_def)

lemma stoul_to_string: "n < 2 ^ 64 \<Longrightarrow> stoul (to_string n @ TWO_CRLF) = Inr n"
proof -
  assume n: "n < 2 ^ 64"
  obtain c ds where c: "to_string n = c # ds" "is_digit c"
    using to_string_nonempty [of n] digits_to_string [of n] by (cases "to_string n") auto
  have "\<not> is_space c" "c \<noteq> CHR ''-''" "c \<noteq> CHR ''+''" using c(2) by (auto simp: is_digit_def is_space_def)
  then have "stoi_sign (dropWhile is_space (to_string n @ TWO_CRLF)) = (1, to_string n @ TWO_CRLF)"
    by (simp add: c(1) stoi_sign_def)
  then show ?thesis
    using n by (simp add: stoul_def digits_stop to_string_nonempty digits_val_to_string)
qed

lemma ReadData_frame:
  assumes "length body < 2 ^ 63"
  shows "ReadData (frame_message body @ rest) = (Inr body, rest)"
proof -
  let ?n = "to_string (length body)" and ?h = "CONTENT_LENGTH @ to_string (length body)"
  have nl: "CHR 0x0A \<notin> set (?h @ [CHR 0x0D])"
    using digits_to_string [of "length body"] by (auto simp: CONTENT_LENGTH_def is_digit_def)
  have "ReadData (frame_message body @ rest)
        = read_header (?h @ [CHR 0x0D]) ([CHR 0x0A, CHR 0x0D, CHR 0x0A] @ body @ rest)"
    unfolding ReadData_def
    using read_header_prefix [OF nl, of "[]" "[CHR 0x0A, CHR 0x0D, CHR 0x0A] @ body @ rest"]
    by (simp add: frame_message_def TWO_CRLF_def del: read_header.simps)
  also have "\<dots> = read_header (?h @ [CHR 0x0D, CHR 0x0A]) ([CHR 0x0D, CHR 0x0A] @ body @ rest)"
  proof -
    obtain ds x where x: "?n = ds @ [x]" "x \<noteq> CHR 0x0A"
      using to_string_nonempty [of "length body"] digits_to_string [of "length body"]
      by (cases ?n rule: rev_cases) (auto dest: digit_not_newline)
    obtain p y where y: "CONTENT_LENGTH @ ds = p @ [y]"
      by (cases "CONTENT_LENGTH @ ds" rule: rev_cases) (auto simp: CONTENT_LENGTH_def)
    have h: "?h @ [CHR 0x0D, CHR 0x0A] = p @ [y, x, CHR 0x0D, CHR 0x0A]" using x y by simp
    have "drop (length ((?h @ [CHR 0x0D]) @ [CHR 0x0A]) - length TWO_CRLF) ((?h @ [CHR 0x0D]) @ [CHR 0x0A]) \<noteq> TWO_CRLF"
      using h x(2) by (simp add: TWO_CRLF_def)
    from read_header_skip [OF this] show ?thesis by (simp del: read_header.simps)
  qed
  also have "\<dots> = read_header (?h @ [CHR 0x0D, CHR 0x0A, CHR 0x0D]) ([CHR 0x0A] @ body @ rest)"
    using read_header_step [of "CHR 0x0D" "?h @ [CHR 0x0D, CHR 0x0A]"] by (simp del: read_header.simps)
  also have "\<dots> = (Inr body, rest)"
  proof -
    have h: "(?h @ [CHR 0x0D, CHR 0x0A, CHR 0x0D]) @ [CHR 0x0A] = CONTENT_LENGTH @ ?n @ TWO_CRLF"
      by (simp add: TWO_CRLF_def)
    have "str_search CONTENT_LENGTH (CONTENT_LENGTH @ t) = Some 0" for t
      by (simp add: CONTENT_LENGTH_def)
    moreover have "stoul (?n @ TWO_CRLF) = Inr (length body)" using assms by (simp add: stoul_to_string)
    moreover have "drop (length (CONTENT_LENGTH @ ?n @ TWO_CRLF) - length TWO_CRLF) (CONTENT_LENGTH @ ?n @ TWO_CRLF)
        = TWO_CRLF" by simp
    ultimately show ?thesis
      using assms unfolding append_Cons read_header.simps Let_def h by simp
  qed
  finally show ?thesis .
qed

section \<open>The client's view\<close>

text \<open>The specification of a client: it reads frames until the stream ends.\<close>

function read_all :: "string \<Rightarrow> string list" where
  "read_all inp =
     (case ReadData inp of
        (Inr body, rest) \<Rightarrow> if body = [] then [] else body # read_all rest
      | (Inl _, _) \<Rightarrow> [])"
  by pat_completeness auto
termination
  by (relation "measure length") (auto dest!: ReadData_shorter [OF sym])

declare read_all.simps [simp del]

lemma read_all_framed:
  "\<forall>t \<in> set texts. t \<noteq> [] \<and> length t < 2 ^ 63 \<Longrightarrow> read_all (framed texts) = texts"
proof (induction texts)
  case Nil
  then show ?case by (simp add: framed_def read_all.simps ReadData_def)
next
  case (Cons t texts)
  then show ?case by (simp add: framed_def read_all.simps [of "frame_message t @ _"] ReadData_frame)
qed

lemma number_texts_zip:
  "i + length ds < 2 ^ 64 \<Longrightarrow>
   number_texts i ds = map (\<lambda>(k, d). VSCodeSeq k @ drop 1 d) (zip [i..<i + length ds] ds)"
proof (induction ds arbitrary: i)
  case (Cons d ds)
  have "[i..<i + length (d # ds)] = i # [i + 1..<(i + 1) + length ds]"
    by (subst upt_conv_Cons) simp_all
  with Cons show ?case by simp
qed simp

lemma number_texts_length: "length (number_texts i ds) = length ds"
  by (induction ds arbitrary: i) simp_all

lemma number_texts_nonempty: "t \<in> set (number_texts i ds) \<Longrightarrow> t \<noteq> []"
  by (induction ds arbitrary: i) (auto simp: VSCodeSeq_def)

lemma framed_length: "length texts \<le> length (framed texts)" "t \<in> set texts \<Longrightarrow> length t \<le> length (framed texts)"
  by (induction texts) (auto simp: framed_def frame_message_def CONTENT_LENGTH_def)

lemma xmap_elem: "xmap f xs = Inr ys \<Longrightarrow> y \<in> set ys \<Longrightarrow> \<exists>x \<in> set xs. f x = Inr y"
  by (induction xs arbitrary: ys) (auto simp: xbind_def split: sum.splits)

section \<open>Responses\<close>

lemma obj_find_object_of: "obj_find k (object_of kvs) = map_of (rev kvs) k"
proof -
  have "obj_find k (fold (\<lambda>(k, v). obj_set k v) kvs m)
        = (case map_of (rev kvs) k of None \<Rightarrow> obj_find k m | Some v \<Rightarrow> Some v)" for m
    by (induction kvs arbitrary: m) (auto simp: obj_find_set map_add_def split: option.splits)
  from this [of "[]"] show ?thesis by (simp add: object_of_def obj_find_def split: option.splits)
qed

lemma response_fields:
  "obj_find ''type'' (response_members command request_seq status body) = Some (JString ''response'')"
  "obj_find ''command'' (response_members command request_seq status body) = Some (JString command)"
  "obj_find ''request_seq'' (response_members command request_seq status body) = Some request_seq"
  "obj_find ''success'' (response_members command request_seq status body) = Some (JBool (succeeded status))"
  "succeeded status \<Longrightarrow> obj_find ''body'' (response_members command request_seq status body) = Some (JObject body)"
  by (simp_all add: response_members_def obj_find_object_of)

lemma vs_bind_InrD:
  "vs_bind m f w = (Inr y, w') \<Longrightarrow> \<exists>x w1. m w = (Inr x, w1) \<and> f x w1 = (Inr y, w')"
  by (auto simp: vs_bind_def split: prod.splits sum.splits)

lemma vs_getD: "vs_get r w = (Inr x, w') \<Longrightarrow> r = Inr x \<and> w' = w"
  by (simp add: vs_get_def)

lemma sent_byE:
  assumes "sent_by P m" "m w = (r, w')"
  obtains js where "sends (fst w) js (fst w')" "\<forall>j \<in> set js. P j"
  using assms unfolding sent_by_def by (metis snd_conv)

lemma request_parts:
  assumes "handle_request strtod D requestText w = (Inr (), w')"
  obtains w1 w2 request command request_seq status body where
    "on_state (Log LOG_COMMAND requestText) w = (Inr (), w1)"
    "json_parse strtod requestText = Inr request" "at_as ''command'' get_string request = Inr command"
    "json_at ''seq'' request = Inr request_seq"
    "HandleCommand_vs D command (case json_find ''arguments'' request of None \<Rightarrow> JObject [] | Some a \<Rightarrow> a) w1
       = (Inr (status, body), w2)"
    "on_state (send_logged LOG_RESPONSE (JObject (response_members command request_seq status body))) w2 = (Inr (), w')"
  using assms unfolding handle_request_def Let_def
  by (auto dest!: vs_bind_InrD vs_getD split: prod.splits)

section \<open>Reading a numbered message\<close>

lemma obj_find_simps [simp]:
  "obj_find k [] = None" "obj_find k ((k', v) # m) = (if k = k' then Some v else obj_find k m)"
  by (simp_all add: obj_find_def)

text \<open>Two maps with the same entries are the same list.\<close>

lemma obj_ext: "obj_wf m \<Longrightarrow> obj_wf m' \<Longrightarrow> (\<And>k. obj_find k m = obj_find k m') \<Longrightarrow> m = m'"
proof (induction m arbitrary: m')
  case Nil
  then have "obj_find (fst (hd m')) m' = None" by (metis obj_find_simps(1))
  then show ?case by (cases m') auto
next
  case (Cons kv m)
  obtain k v where kv: "kv = (k, v)" by fastforce
  show ?case
  proof (cases m')
    case Nil
    then show ?thesis using Cons.prems(3) [of k] by (simp add: kv obj_find_def)
  next
    case (Cons kv' n)
    obtain k' v' where kv': "kv' = (k', v')" by fastforce
    note wf = Cons.prems(1,2) [unfolded Cons kv kv' obj_wf_def, simplified]
    note find = Cons.prems(3) [unfolded Cons kv kv' obj_find_def]
    have k: "k = k'"
    proof (rule ccontr)
      assume ne: "k \<noteq> k'"
      have "map_of n k = Some v" using find [of k] ne by simp
      then have 1: "bytes_less k' k" using wf by (force dest: map_of_SomeD)
      have "map_of m k' = Some v'" using find [of k'] ne by simp
      then have "bytes_less k k'" using wf by (force dest: map_of_SomeD)
      with 1 bytes_less_asym show False by blast
    qed
    have v: "v = v'" using find [of k] k by simp
    have "obj_find x m = obj_find x n" for x
    proof (cases "x = k")
      case True
      have "map_of m k = None" "map_of n k = None"
        using wf k by (auto simp: map_of_eq_None_iff)
      with True show ?thesis by (simp add: obj_find_def)
    next
      case False
      with find [of x] k show ?thesis by (simp add: obj_find_def)
    qed
    moreover have "obj_wf m" "obj_wf n" using wf by (simp_all add: obj_wf_def)
    ultimately have "m = n" using Cons.IH by blast
    with k v show ?thesis by (simp add: Cons kv kv')
  qed
qed

lemma obj_find_emplace:
  "obj_find k (obj_emplace k' v m) = (case obj_find k m of None \<Rightarrow> if k = k' then Some v else None | Some u \<Rightarrow> Some u)"
  by (auto simp: obj_emplace_def obj_find_set split: option.splits)

lemma emplace_all_find:
  "obj_find k (emplace_all m acc) = (case obj_find k acc of None \<Rightarrow> obj_find k m | Some u \<Rightarrow> Some u)"
proof (induction m arbitrary: acc)
  case Nil
  then show ?case by (simp split: option.splits)
next
  case (Cons kv m)
  then show ?case by (cases kv) (auto simp: obj_find_emplace split: option.splits)
qed

lemma emplace_all_wf: "obj_wf acc \<Longrightarrow> obj_wf (emplace_all m acc)"
proof (induction m arbitrary: acc)
  case (Cons kv m)
  then show ?case by (cases kv) auto
qed simp

lemma emplace_all_seq:
  assumes "obj_wf m" "obj_find k m = None"
  shows "emplace_all m [(k, v)] = obj_set k v m"
proof (rule obj_ext)
  show "obj_wf (emplace_all m [(k, v)])" by (rule emplace_all_wf) (simp add: obj_wf_def)
  show "obj_wf (obj_set k v m)" using assms(1) by simp
  show "obj_find x (emplace_all m [(k, v)]) = obj_find x (obj_set k v m)" for x
    using assms(2) by (auto simp: emplace_all_find obj_find_set)
qed

lemma parse_object_text:
  assumes "dump_members m = Inr ms" "m \<noteq> []" "\<forall>(k, v) \<in> set m. utf8_wf k \<and> json_wf v"
    "\<forall>(k, v) \<in> set m. no_float v"
  shows "json_parse strtod (''{'' @ ms @ ''}'') = Inr (JObject (emplace_all m []))"
proof -
  obtain tok s where sc: "scan strtod (ms @ CHR ''}'' # []) = (tok, s)" by fastforce
  let ?r = "ms @ ''}''"
  have l: "length s \<le> length ?r" using scan_length [OF sc] by simp
  obtain n where n: "parse_fuel ?r = Suc n" by (simp add: parse_fuel_def)
  have "parse_members strtod n tok s [] = Some (Inr (JObject (emplace_all m []), []))"
    by (rule parse_dumped(2) [OF assms sc]) (use l n in \<open>simp add: parse_fuel_def\<close>)
  moreover from this have "tok \<noteq> end_object" by (cases n) auto
  moreover have "skip_bom (''{'' @ ?r) = ''{'' @ ?r" by (simp add: skip_bom_def)
  ultimately show ?thesis
    using sc by (simp add: json_parse_def parse_text_def n del: scan.simps add: scan.simps(1))
qed

lemma numbered_message:
  assumes "json_wf (JObject m)" "no_float (JObject m)" "m \<noteq> []" "obj_find ''seq'' m = None"
    "dump (JObject m) = Inr d" "i < 2 ^ 64"
  shows "json_parse strtod (VSCodeSeq i @ drop 1 d) = Inr (JObject (obj_set ''seq'' (jnat i) m))"
proof -
  obtain ms where ms: "dump_members m = Inr ms" "d = ''{'' @ ms @ ''}''"
    using assms(3,5) by (auto simp: xbind_def split: sum.splits)
  let ?m = "(''seq'', jnat i) # m"
  have wf: "utf8_wf ''seq''" by (simp add: utf8_ranges_def)
  have "dump_members ?m = Inr (CHR 0x22 # ''seq'' @ [CHR 0x22, CHR '':''] @ to_string i @ CHR '','' # ms)"
    using ms(1) assms(3) by (simp add: dump_escaped_wf [OF wf] dump_char_def jnat_def dump_integer_eq)
  then have "json_parse strtod (''{'' @ (CHR 0x22 # ''seq'' @ [CHR 0x22, CHR '':''] @ to_string i @ CHR '','' # ms) @ ''}'')
      = Inr (JObject (emplace_all ?m []))"
    using assms(1,2,6) wf by (intro parse_object_text) (auto simp: jnat_def int_ok_def)
  moreover have "emplace_all ?m [] = obj_set ''seq'' (jnat i) m"
    using assms(1,4) emplace_all_seq by (simp add: obj_emplace_def)
  ultimately show ?thesis by (simp add: VSCodeSeq_def ms(2))
qed

end
