(* ===== verification/VSCode_Laws.thy ===== *)
theory VSCode_Laws imports VSCode_Session begin

text \<open>
  The properties of the VSCode front end: what a client can read from its output, what each request is
  answered with, what reaches the debugger, and how a session ends.
\<close>

section \<open>A debugger for the instances\<close>

text \<open>It counts the calls made to it and answers with success and nothing else.\<close>

definition sample_debugger :: "nat vs_debugger" where
  "sample_debugger =
     \<lparr>vd_Initialize = (\<lambda>d. (S_OK, [Initialized_Event], d + 1)),
      vd_InsertExceptionBreakpoint = (\<lambda>mode name d. (S_OK, [], d + 1)),
      vd_ConfigurationDone = (\<lambda>d. (S_OK, [], d + 1)),
      vd_GetExceptionInfoResponse = (\<lambda>threadId d. ((E_FAIL, \<lparr>ei_exceptionId = [], ei_description = [],
        ei_breakMode = default_mode, ei_details = Exception_Details [] [] [] [] [] []\<rparr>), [], d + 1)),
      vd_SetBreakpoints = (\<lambda>path bs d. ((S_OK, []), [], d + 1)),
      vd_Launch = (\<lambda>file args stop d. (S_OK, [], d + 1)),
      vd_GetThreads = (\<lambda>d. ((S_OK, []), [], d + 1)),
      vd_Disconnect = (\<lambda>action d. (S_OK, [Terminated_Event], d + 100)),
      vd_GetStackTrace = (\<lambda>threadId start levels d. ((S_OK, [], 0), [], d + 1)),
      vd_Continue = (\<lambda>threadId d. (S_OK, [Continued_Event threadId], d + 1)),
      vd_Pause = (\<lambda>d. (S_OK, [], d + 1)),
      vd_StepCommand = (\<lambda>threadId ty d. (S_OK, [], d + 1)),
      vd_GetScopes = (\<lambda>frameId d. ((S_OK, []), [], d + 1)),
      vd_GetVariables = (\<lambda>ref f start cnt d. ((S_OK, []), [], d + 1)),
      vd_GetLastStoppedThreadId = (\<lambda>d. 1),
      vd_Evaluate = (\<lambda>frameId e d. ((E_FAIL, empty_variable, ''error''), [], d + 1)),
      vd_Attach = (\<lambda>pid d. (S_OK, [], d + 1)),
      vd_SetVariable = (\<lambda>name value ref d. ((S_OK, value), [], d + 1)),
      vd_SetFunctionBreakpoints = (\<lambda>bs d. ((S_OK, []), [], d + 1))\<rparr>"

section \<open>The stream\<close>

text \<open>A frame that is sent is read as it was, and what follows it stays in the stream: \<open>ReadData\<close> is
  the inverse of the framing of every message.\<close>

theorem frame_roundtrip:
  "length body < 2 ^ 63 \<Longrightarrow> ReadData (frame_message body @ rest) = (Inr body, rest)"
  by (rule ReadData_frame)

theorem frame_roundtrip_witness:
  "ReadData (frame_message ''{}'' @ ''rest'') = (Inr ''{}'', ''rest'')"
  by (rule frame_roundtrip) simp

text \<open>C5. In every reachable state of a session, whatever the client sent, whatever exceptions ended a request
  and whenever events came from other threads, a client that reads the output frame by frame finds exactly
  the messages sent: the \<open>k\<close>-th starts with the sequence number \<open>k\<close>, none is missing or repeated, and each
  is the text of an event or of a response.\<close>

theorem session_stream:
  "vs_reach strtod D w \<Longrightarrow> length (vs_out (fst w)) < 2 ^ 63 \<Longrightarrow>
   \<exists>ds. read_all (vs_out (fst w)) = map (\<lambda>(k, d). VSCodeSeq k @ drop 1 d) (zip [1..<Suc (length ds)] ds) \<and>
        (\<forall>d \<in> set ds. \<exists>j. dump j = Inr d \<and> (is_event j \<or> is_response j)) \<and>
        vs_seqCounter (fst w) = Suc (length ds)"
proof -
  assume "vs_reach strtod D w" and len: "length (vs_out (fst w)) < 2 ^ 63"
  then obtain st0 js where st0: "vs_out st0 = []" "vs_seqCounter st0 = 1" "sends st0 js (fst w)"
      and js: "\<forall>j \<in> set js. is_event j \<or> is_response j"
    using reach_sends by blast
  then obtain ds where ds: "xmap dump js = Inr ds" "vs_out (fst w) = framed (number_texts 1 ds)"
      "vs_seqCounter (fst w) = (if js = [] then 1 else (1 + length js) mod 2 ^ 64)"
    by (auto simp: sends_def)
  have l: "length ds = length js" using ds(1) by (rule xmap_length)
  have small: "length ds < 2 ^ 63"
    using framed_length(1) [of "number_texts 1 ds"] len ds(2) by (simp add: number_texts_length)
  then have "number_texts 1 ds = map (\<lambda>(k, d). VSCodeSeq k @ drop 1 d) (zip [1..<1 + length ds] ds)"
    by (intro number_texts_zip) simp
  moreover have "read_all (vs_out (fst w)) = number_texts 1 ds"
    unfolding ds(2)
    by (rule read_all_framed)
      (use framed_length(2) number_texts_nonempty len ds(2) in \<open>auto intro: le_less_trans\<close>)
  moreover have "vs_seqCounter (fst w) = Suc (length ds)" using ds(3) l small by auto
  moreover have "\<forall>d \<in> set ds. \<exists>j. dump j = Inr d \<and> (is_event j \<or> is_response j)"
    using xmap_elem [OF ds(1)] js by blast
  ultimately show ?thesis by (intro exI [of _ ds]) simp
qed

lemma to_string_length: "length (to_string n) \<le> Suc n"
proof (induction n rule: to_string.induct)
  case (1 n)
  show ?case
  proof (cases "n < 10")
    case False
    with 1 have "length (to_string (n div 10)) \<le> Suc (n div 10)" by simp
    with False show ?thesis by (simp add: to_string.simps [of n])
  qed (simp add: to_string.simps [of n])
qed

lemma terminated_output:
  "length (vs_out (fst (snd (on_state (emit_vs Terminated_Event) (init_vs, 0 :: nat))))) < 2 ^ 63"
proof -
  obtain d where d: "dump (event_json ''terminated'' (JObject [])) = Inr d" "length d < 100"
    by (simp add: event_json_def jobj_def object_of_def dump_escaped_wf utf8_ranges_def dump_char_def)
  have "length (VSCodeSeq 1 @ drop 1 d) < 120"
    using d(2) to_string_length [of 1] by (simp add: VSCodeSeq_def)
  then have "length (frame_message (VSCodeSeq 1 @ drop 1 d)) < 400"
    using to_string_length [of "length (VSCodeSeq 1 @ drop 1 d)"]
    by (simp add: frame_message_def CONTENT_LENGTH_def TWO_CRLF_def)
  moreover have "vs_out (fst (snd (on_state (emit_vs Terminated_Event) (init_vs, 0 :: nat))))
      = frame_message (VSCodeSeq 1 @ drop 1 d)"
    by (simp add: on_state_def emit_vs_def EmitTerminatedEvent_def EmitEvent_def send_logged_def send_numbered_def
      init_vs_def Log_def d(1) Let_def del: dump.simps)
  ultimately show ?thesis by simp
qed

theorem session_stream_witness:
  "\<exists>ds. read_all (vs_out (fst (snd (on_state (emit_vs Terminated_Event) (init_vs, 0 :: nat)))))
        = map (\<lambda>(k, d). VSCodeSeq k @ drop 1 d) (zip [1..<Suc (length ds)] ds) \<and>
        (\<forall>d \<in> set ds. \<exists>j. dump j = Inr d \<and> (is_event j \<or> is_response j)) \<and>
        vs_seqCounter (fst (snd (on_state (emit_vs Terminated_Event) (init_vs, 0 :: nat)))) = Suc (length ds)"
  by (rule session_stream [OF _ terminated_output, of "\<lambda>_. None" sample_debugger])
    (intro reach_event reach_init, simp_all add: init_vs_def)

text \<open>A numbered message is still one JSON object: splicing \<open>"seq":i\<close> into the printed text gives the
  text that the parser reads as the object with that entry added.\<close>

theorem message_reads:
  "json_wf (JObject m) \<Longrightarrow> no_float (JObject m) \<Longrightarrow> m \<noteq> [] \<Longrightarrow> obj_find ''seq'' m = None \<Longrightarrow>
   dump (JObject m) = Inr d \<Longrightarrow> i < 2 ^ 64 \<Longrightarrow>
   json_parse strtod (VSCodeSeq i @ drop 1 d) = Inr (JObject (obj_set ''seq'' (jnat i) m))"
  by (rule numbered_message)

theorem message_reads_witness:
  "json_parse (\<lambda>_. None) (VSCodeSeq 7 @ drop 1 (''{'' @ CHR 0x22 # ''z'' @ CHR 0x22 # '':true}''))
   = Inr (JObject (obj_set ''seq'' (jnat 7) [(''z'', JBool True)]))"
proof (rule message_reads)
  show "dump (JObject [(''z'', JBool True)]) = Inr (''{'' @ CHR 0x22 # ''z'' @ CHR 0x22 # '':true}'')"
    by (simp add: dump_escaped_wf utf8_ranges_def dump_char_def)
qed (simp_all add: obj_wf_def utf8_ranges_def)

section \<open>Requests\<close>

text \<open>C6. A request that does not end the process is answered exactly once.  The messages it causes are events
  and one response, which carries the command and the number of the request; \<open>success\<close> is the success of
  the handler, whose body is the body of the response.\<close>

theorem one_response:
  "handle_request strtod D requestText w = (Inr (), w') \<Longrightarrow>
   \<exists>request command request_seq w1 w2 status body events1 m events2.
     json_parse strtod requestText = Inr request \<and>
     json_at ''command'' request = Inr (JString command) \<and> json_at ''seq'' request = Inr request_seq \<and>
     HandleCommand_vs D command (case json_find ''arguments'' request of None \<Rightarrow> JObject [] | Some a \<Rightarrow> a) w1
       = (Inr (status, body), w2) \<and>
     sends (fst w) (events1 @ JObject m # events2) (fst w') \<and>
     (\<forall>j \<in> set (events1 @ events2). is_event j) \<and>
     obj_find ''type'' m = Some (JString ''response'') \<and> obj_find ''command'' m = Some (JString command) \<and>
     obj_find ''request_seq'' m = Some request_seq \<and>
     obj_find ''success'' m = Some (JBool (succeeded status)) \<and>
     (succeeded status \<longrightarrow> obj_find ''body'' m = Some (JObject body))"
proof -
  assume "handle_request strtod D requestText w = (Inr (), w')"
  then obtain w1 w2 request command request_seq status body where
      p: "on_state (Log LOG_COMMAND requestText) w = (Inr (), w1)"
        "json_parse strtod requestText = Inr request" "at_as ''command'' get_string request = Inr command"
        "json_at ''seq'' request = Inr request_seq"
        "HandleCommand_vs D command (case json_find ''arguments'' request of None \<Rightarrow> JObject [] | Some a \<Rightarrow> a) w1
           = (Inr (status, body), w2)"
        "on_state (send_logged LOG_RESPONSE (JObject (response_members command request_seq status body))) w2
           = (Inr (), w')"
    by (rule request_parts)
  have c: "json_at ''command'' request = Inr (JString command)"
    using p(3) by (auto simp: at_as_def get_string_def xbind_def split: sum.splits json.splits)
  obtain js1 where 1: "sends (fst w) js1 (fst w1)" "\<forall>j \<in> set js1. is_event j"
    using sent_byE [OF sent_Log p(1)] by blast
  obtain js2 where 2: "sends (fst w1) js2 (fst w2)" "\<forall>j \<in> set js2. is_event j"
    using sent_byE [OF HandleCommand_sends p(5)] by blast
  have "send_logged LOG_RESPONSE (JObject (response_members command request_seq status body)) (fst w2) = (Inr (), fst w')"
    using p(6) by (auto simp: on_state_def split: prod.splits)
  then obtain js3 where 3: "sends (fst w2) (JObject (response_members command request_seq status body) # js3) (fst w')"
      "\<forall>j \<in> set js3. is_event j"
    using send_logged_sends(2) by blast
  have "sends (fst w) ((js1 @ js2) @ JObject (response_members command request_seq status body) # js3) (fst w')"
    by (rule sends_append [OF sends_append [OF 1(1) 2(1)] 3(1)])
  note S = this
  have E: "\<forall>j \<in> set ((js1 @ js2) @ js3). is_event j" using 1 2 3 by auto
  show ?thesis
    by (intro exI conjI impI, rule p(2), rule c, rule p(4), rule p(5), rule S, rule E,
      (rule response_fields)+, assumption)
qed

lemma sample_request:
  "\<exists>requestText w'. handle_request (\<lambda>_. None) sample_debugger requestText (init_vs, 0) = (Inr (), w')"
proof -
  let ?j = "JObject [(''command'', JString ''pause''), (''seq'', JInt 4)]"
  let ?r = "JObject (response_members ''pause'' (JInt 4) S_OK [])"
  have wf: "json_wf ?j" by (simp add: obj_wf_def int_ok_def utf8_ranges_def)
  obtain d where "dump ?j = Inr d" using dump_succeeds(1) [OF wf] by blast
  with wf have d: "json_parse (\<lambda>_. None) d = Inr ?j" by (intro json_parse_dumped) simp_all
  have "json_wf ?r"
    by (simp add: response_members_def object_of_def obj_wf_def int_ok_def utf8_ranges_def)
  then obtain t where t: "dump ?r = Inr t" using dump_succeeds(1) by blast
  have "fst (handle_request (\<lambda>_. None) sample_debugger d (init_vs, 0)) = Inr ()"
    by (simp add: handle_request_def vs_bind_def on_state_def Log_def init_vs_def vs_get_def d at_as_def json_at_def
      get_string_def json_find_def HandleCommand_vs_def commands_def handle_pause_def call_def sample_debugger_def
      vs_return_def reply_def object_of_def send_logged_def send_numbered_def t Let_def del: dump.simps)
  then show ?thesis by (metis prod.collapse)
qed

theorem one_response_witness:
  "\<exists>requestText (w' :: nat vs_world). \<exists>request command request_seq w1 w2 status body events1 m events2.
     json_parse (\<lambda>_. None) requestText = Inr request \<and>
     json_at ''command'' request = Inr (JString command) \<and> json_at ''seq'' request = Inr request_seq \<and>
     HandleCommand_vs sample_debugger command (case json_find ''arguments'' request of None \<Rightarrow> JObject [] | Some a \<Rightarrow> a) w1
       = (Inr (status, body), w2) \<and>
     sends (fst (init_vs, 0 :: nat)) (events1 @ JObject m # events2) (fst w') \<and>
     (\<forall>j \<in> set (events1 @ events2). is_event j) \<and>
     obj_find ''type'' m = Some (JString ''response'') \<and> obj_find ''command'' m = Some (JString command) \<and>
     obj_find ''request_seq'' m = Some request_seq \<and>
     obj_find ''success'' m = Some (JBool (succeeded status)) \<and>
     (succeeded status \<longrightarrow> obj_find ''body'' m = Some (JObject body))"
proof -
  obtain requestText and w' :: "nat vs_world"
    where "handle_request (\<lambda>_. None) sample_debugger requestText (init_vs, 0) = (Inr (), w')"
    using sample_request by blast
  from one_response [OF this] show ?thesis by (intro exI [of _ requestText] exI [of _ w'])
qed

text \<open>A request without \<open>seq\<close> is carried out and then ends the process: there is no response.\<close>

lemma request_without_seq:
  assumes "json_parse strtod requestText = Inr (JObject m)" "obj_find ''seq'' m = None"
  shows "fst (handle_request strtod D requestText w) \<noteq> Inr ()"
proof
  assume "fst (handle_request strtod D requestText w) = Inr ()"
  then have "handle_request strtod D requestText w = (Inr (), snd (handle_request strtod D requestText w))"
    by (metis prod.collapse)
  then show False by (rule request_parts) (use assms in \<open>auto simp: json_at_def\<close>)
qed

text \<open>A frame of length 0 reads like the end of the input.\<close>

lemma empty_frame: "ReadData (frame_message [] @ rest) = (Inr [], rest)"
  by (rule ReadData_frame) simp

lemma empty_frame_ends: "\<not> vs_exit (fst w) \<Longrightarrow> command_loop strtod D (frame_message [] @ rest) w = (Inr (), w)"
  by (subst command_loop.simps) (simp add: empty_frame)

text \<open>A command that is not in the table is answered with a failure that says so, and touches neither the
  debugger nor the output.\<close>

theorem unknown_command:
  "command \<notin> set (map fst (commands D)) \<Longrightarrow>
   HandleCommand_vs D command arguments w = (Inr (E_NOTIMPL, []), w) \<and>
   obj_find ''success'' (response_members command request_seq E_NOTIMPL []) = Some (JBool False) \<and>
   obj_find ''message'' (response_members command request_seq E_NOTIMPL [])
     = Some (JString (''Failed command '' @ CHR 0x27 # command @ CHR 0x27 # '' : 0x80004001''))"
proof -
  assume "command \<notin> set (map fst (commands D))"
  then have "map_of (commands D) command = None" by (simp add: map_of_eq_None_iff)
  moreover have "zero_pad 8 (to_hex (hr_code E_NOTIMPL)) = ''80004001''"
    by (simp add: hr_code_def E_NOTIMPL_def zero_pad_def to_hex.simps hex_digit_def) code_simp
  ultimately show ?thesis
    by (simp add: HandleCommand_vs_def reply_def vs_return_def object_of_def response_members_def
      obj_find_object_of failure_message_def E_NOTIMPL_def)
qed

theorem unknown_command_witness:
  "HandleCommand_vs sample_debugger ''restart'' JNull (init_vs, 0) = (Inr (E_NOTIMPL, []), init_vs, 0) \<and>
   obj_find ''success'' (response_members ''restart'' (JInt 3) E_NOTIMPL []) = Some (JBool False) \<and>
   obj_find ''message'' (response_members ''restart'' (JInt 3) E_NOTIMPL [])
     = Some (JString (''Failed command '' @ CHR 0x27 # ''restart'' @ CHR 0x27 # '' : 0x80004001''))"
  using unknown_command [of "''restart''" sample_debugger JNull "(init_vs, 0)" "JInt 3"] by (simp add: commands_def)

section \<open>Arguments\<close>

text \<open>The name of a function breakpoint as the client writes it, \<open>module!function(params)\<close>, is split into
  its parts; the parameters keep their parentheses.  The function name must not be empty: the code erases
  from the opening parenthesis a number of characters that is the position of the closing one.\<close>

theorem function_name_roundtrip:
  "CHR ''!'' \<notin> set module \<Longrightarrow> func \<noteq> [] \<Longrightarrow> CHR ''('' \<notin> set func \<Longrightarrow> CHR '')'' \<notin> set func \<Longrightarrow>
   CHR '')'' \<notin> set ps \<Longrightarrow> length func + length ps < 2 ^ 63 \<Longrightarrow>
   split_function_name (module @ ''!'' @ func @ ''('' @ ps @ '')'') = (module, func, ''('' @ ps @ '')'')"
proof -
  assume *: "CHR ''!'' \<notin> set module" "func \<noteq> []" "CHR ''('' \<notin> set func" "CHR '')'' \<notin> set func"
    "CHR '')'' \<notin> set ps" "length func + length ps < 2 ^ 63"
  let ?name = "func @ CHR ''('' # ps @ CHR '')'' # []"
  have 1: "str_find (CHR ''!'') (module @ CHR ''!'' # ?name) = Some (length module)"
    using *(1) by (rule str_find_append_notin)
  have 2: "str_find (CHR ''('') ?name = Some (length func)" using *(3) by (rule str_find_append_notin)
  have "CHR '')'' \<notin> set (func @ CHR ''('' # ps)" using *(4,5) by simp
  from str_find_append_notin [OF this, of "[]"]
  have 3: "str_pos (CHR '')'') ?name = length func + length ps + 1" by (simp add: str_pos_def)
  have "length func + length ps + 1 + 2 ^ 64 - length func + 1 = (length ps + 2) + 2 ^ 64" by simp
  then have 4: "(length func + length ps + 1 + 2 ^ 64 - length func + 1) mod 2 ^ 64 = length ps + 2"
    using *(6) by (simp only: mod_add_self2) simp
  have 5: "drop (length func + (length func + length ps + 1)) ?name = []" using *(2) by (cases func) auto
  have "split_function_name (module @ CHR ''!'' # ?name) = (module, func, CHR ''('' # ps @ CHR '')'' # [])"
  proof -
    have t: "take (length module) (module @ CHR ''!'' # ?name) = module"
      "drop (length module + 1) (module @ CHR ''!'' # ?name) = ?name"
      "take (length func) ?name = func" "drop (length func) ?name = CHR ''('' # ps @ CHR '')'' # []"
      by simp_all
    show ?thesis
      unfolding split_function_name_def 1 Let_def option.case t prod.case 2 3 4 5 by simp
  qed
  then show ?thesis by simp
qed

theorem function_name_roundtrip_witness:
  "split_function_name (''app.dll'' @ ''!'' @ ''Main'' @ ''('' @ ''string'' @ '')'') = (''app.dll'', ''Main'', ''('' @ ''string'' @ '')'')"
  by (rule function_name_roundtrip) simp_all

text \<open>Without a function name the closing parenthesis stays behind.\<close>

lemma function_name_empty: "split_function_name ''(int)'' = ([], '')'', ''(int)'')"
  by (simp add: split_function_name_def str_pos_def)

definition source_breakpoint_arg :: "source_breakpoint \<Rightarrow> json" where
  "source_breakpoint_arg b = jobj [(''line'', JInt (sb_line b)), (''condition'', jstr (sb_condition b))]"

lemma read_source_breakpoint_arg:
  "- (2 ^ 31) \<le> sb_line b \<Longrightarrow> sb_line b < 2 ^ 31 \<Longrightarrow>
   read_source_breakpoint (source_breakpoint_arg b) = Inr b"
  by (simp add: read_source_breakpoint_def source_breakpoint_arg_def jobj_def at_as_def json_at_def json_value_def
    obj_find_object_of get_int_def get_number_def get_string_def s32_of_def)

text \<open>The lines and conditions that the client asks for are those the debugger is given: the arguments
  written by a client for any list of source breakpoints are read back as that list, in order, for the path
  named, and the answer lists the breakpoints that the debugger reports.\<close>

theorem set_breakpoints_reach_debugger:
  "(\<forall>b \<in> set bs. - (2 ^ 31) \<le> sb_line b \<and> sb_line b < 2 ^ 31) \<Longrightarrow>
   HandleCommand_vs D ''setBreakpoints''
     (jobj [(''source'', jobj [(''path'', jstr path)]), (''breakpoints'', JArray (map source_breakpoint_arg bs))])
   = vs_bind (call (vd_SetBreakpoints D path bs)) (\<lambda>(status, breakpoints).
       reply_if_ok status [(''breakpoints'', JArray (map breakpoint_json breakpoints))])"
proof -
  assume "\<forall>b \<in> set bs. - (2 ^ 31) \<le> sb_line b \<and> sb_line b < 2 ^ 31"
  then have "xmap read_source_breakpoint (map source_breakpoint_arg bs) = Inr bs"
    by (induction bs) (simp_all add: read_source_breakpoint_arg)
  then show ?thesis
    by (simp add: HandleCommand_vs_def commands_def handle_setBreakpoints_def jobj_def at_as_def json_at_def
      obj_find_object_of json_items_def get_string_def vs_get_def vs_bind_def fun_eq_iff)
qed

theorem set_breakpoints_reach_debugger_witness:
  "HandleCommand_vs sample_debugger ''setBreakpoints''
     (jobj [(''source'', jobj [(''path'', jstr ''/a.cs'')]),
            (''breakpoints'', JArray (map source_breakpoint_arg [\<lparr>sb_line = 7, sb_condition = ''i>2''\<rparr>]))])
   = vs_bind (call (vd_SetBreakpoints sample_debugger ''/a.cs'' [\<lparr>sb_line = 7, sb_condition = ''i>2''\<rparr>]))
       (\<lambda>(status, breakpoints). reply_if_ok status [(''breakpoints'', JArray (map breakpoint_json breakpoints))])"
  by (rule set_breakpoints_reach_debugger) simp

definition since_never :: "string list \<Rightarrow> string list" where
  "since_never filters = takeWhile (\<lambda>f. f \<noteq> ''never'') (rev filters)"

lemma apply_filter_mode:
  fixes f
  defines "nv \<equiv> f = ''never''" and "al \<equiv> f = ''all'' \<or> f = ''always''"
    and "us \<equiv> f = ''userUnhandled'' \<or> f = ''user-unhandled''"
  shows "apply_filter f (default_mode\<lparr>f_throw := a, f_user_unhandled := b\<rparr>) =
     default_mode\<lparr>f_throw := \<not> nv \<and> (al \<or> a), f_user_unhandled := \<not> nv \<and> (al \<or> us \<or> b)\<rparr>"
  unfolding apply_filter_def nv_def [symmetric] al_def [symmetric] us_def [symmetric]
  by (cases nv; cases al; cases us) (simp_all add: mode_defs)

lemma fold_filters:
  "fold apply_filter fs default_mode =
     default_mode\<lparr>f_throw := (\<exists>f \<in> set (since_never fs). f = ''all'' \<or> f = ''always''),
       f_user_unhandled := (\<exists>f \<in> set (since_never fs). (f = ''all'' \<or> f = ''always'') \<or>
                                                  f = ''userUnhandled'' \<or> f = ''user-unhandled'')\<rparr>"
proof (induction fs rule: rev_induct)
  case Nil
  then show ?case by (simp add: since_never_def default_mode_def)
next
  case (snoc f fs)
  have since: "since_never (fs @ [f]) = (if f = ''never'' then [] else f # since_never fs)"
    by (simp add: since_never_def)
  have "fold apply_filter (fs @ [f]) default_mode = apply_filter f (fold apply_filter fs default_mode)" by simp
  then show ?case
    unfolding snoc apply_filter_mode since by (cases "f = ''never''") simp_all
qed

text \<open>The break mode that is reported for an exception follows from the filters chosen since the last
  \<open>never\<close>: \<open>all\<close> or \<open>always\<close> give \<open>always\<close>; only \<open>userUnhandled\<close> gives \<open>userUnhandled\<close>; otherwise it is
  \<open>unhandled\<close>.  No choice of filters reports \<open>never\<close> or \<open>undefined\<close>.\<close>

theorem filters_break_mode:
  "getVSCodeBreakMode (fold apply_filter filters default_mode) =
     (if \<exists>f \<in> set (since_never filters). f = ''all'' \<or> f = ''always'' then ''always''
      else if \<exists>f \<in> set (since_never filters). f = ''userUnhandled'' \<or> f = ''user-unhandled'' then ''userUnhandled''
      else ''unhandled'')"
  unfolding fold_filters
  by (cases "\<exists>f \<in> set (since_never filters). f = ''all'' \<or> f = ''always''")
    (auto simp: getVSCodeBreakMode_def NeverMode_def AllModes_def OnlyUnhandled_def default_mode_def)

section \<open>The end of a session\<close>

text \<open>Only \<open>disconnect\<close> sets \<open>m_exit\<close>, after the debugger has disconnected.\<close>

definition keeps_exit :: "('d, 'a) vs_action \<Rightarrow> bool" where
  "keeps_exit m \<longleftrightarrow> (\<forall>w. vs_exit (fst (snd (m w))) = vs_exit (fst w))"

definition ends_disconnected :: "'d vs_debugger \<Rightarrow> 'd \<Rightarrow> bool" where
  "ends_disconnected D d \<longleftrightarrow> (\<exists>action d0. d = snd (snd (vd_Disconnect D action d0)))"

definition exits_by :: "'d vs_debugger \<Rightarrow> ('d, 'a) vs_action \<Rightarrow> bool" where
  "exits_by D m \<longleftrightarrow>
     (\<forall>w. \<not> vs_exit (fst w) \<longrightarrow> vs_exit (fst (snd (m w))) \<longrightarrow> ends_disconnected D (snd (snd (m w))))"

named_theorems exit_intros \<open>actions that leave \<open>m_exit\<close> as it is\<close>

lemma send_numbered_exit: "vs_exit (snd (send_numbered j st)) = vs_exit st"
  by (auto simp: send_numbered_def Let_def split: sum.splits)

lemma Log_exit: "vs_exit (snd (Log pre message st)) = vs_exit st"
  by (auto simp: Log_def split: log_output.splits prod.splits sum.splits)
    (metis send_numbered_exit snd_conv)+

lemma send_logged_exit: "vs_exit (snd (send_logged pre j st)) = vs_exit st"
  using send_numbered_exit [of j st] by (auto simp: send_logged_def Log_exit split: prod.splits sum.splits)

lemma emit_exit: "vs_exit (snd (emit_vs e st)) = vs_exit st"
  by (cases e) (simp_all add: emit_vs_def EmitContinuedEvent_def EmitStoppedEvent_vs_def EmitExitedEvent_vs_def
    EmitTerminatedEvent_def EmitThreadEvent_vs_def EmitModuleEvent_vs_def EmitOutputEvent_vs_def
    EmitBreakpointEvent_vs_def EmitInitializedEvent_def EmitEvent_def send_logged_exit)

lemma exit_on_state: "(\<And>st. vs_exit (snd (f st)) = vs_exit st) \<Longrightarrow> keeps_exit (on_state f)"
  by (simp add: keeps_exit_def on_state_def case_prod_beta)

lemma exit_basic [exit_intros]:
  "keeps_exit (vs_return x)" "keeps_exit (vs_get r)" "keeps_exit (reply status kvs)"
  "keeps_exit (reply_if_ok status kvs)"
  by (simp_all add: keeps_exit_def vs_return_def vs_get_def reply_def reply_if_ok_def)

lemma exit_output [exit_intros]:
  "keeps_exit (on_state EmitCapabilitiesEvent)" "keeps_exit (on_state (emit_vs e))"
  "keeps_exit (on_state (Log pre message))" "keeps_exit (on_state (send_logged pre j))"
  by (rule exit_on_state,
    simp add: EmitCapabilitiesEvent_def EmitEvent_def emit_exit Log_exit send_logged_exit)+

lemma exit_bind [exit_intros]:
  "keeps_exit m \<Longrightarrow> (\<And>x. keeps_exit (f x)) \<Longrightarrow> keeps_exit (vs_bind m f)"
  unfolding keeps_exit_def vs_bind_def case_prod_beta
  by (simp split: sum.splits) (metis prod.collapse)

lemma exit_emit_all [exit_intros]: "keeps_exit (emit_all es)"
  by (induction es) (auto intro: exit_intros)

lemma exit_call [exit_intros]: "keeps_exit (call f)"
  unfolding keeps_exit_def call_def case_prod_beta
proof
  fix w :: "'a vs_world"
  have "keeps_exit (vs_bind (emit_all (fst (snd (f (snd w))))) (\<lambda>_. vs_return (fst (f (snd w)))) :: ('a, 'b) vs_action)"
    by (intro exit_intros)
  then show "vs_exit (fst (snd (vs_bind (emit_all (fst (snd (f (snd w))))) (\<lambda>_. vs_return (fst (f (snd w))))
      (fst w, snd (snd (f (snd w))))))) = vs_exit (fst w)"
    unfolding keeps_exit_def by simp
qed

lemma exit_if [exit_intros]: "keeps_exit m \<Longrightarrow> keeps_exit n \<Longrightarrow> keeps_exit (if b then m else n)"
  by simp

lemma exit_pair [exit_intros]: "(\<And>x y. keeps_exit (f x y)) \<Longrightarrow> keeps_exit (case p of (x, y) \<Rightarrow> f x y)"
  by (cases p) simp

lemma exit_pointwise: "(\<And>w. m w = g w w) \<Longrightarrow> (\<And>w. keeps_exit (g w)) \<Longrightarrow> keeps_exit m"
  by (simp add: keeps_exit_def)

lemma handlers_exit:
  "keeps_exit (handle_initialize D args)" "keeps_exit (handle_setExceptionBreakpoints D args)"
  "keeps_exit (handle_configurationDone D args)" "keeps_exit (handle_exceptionInfo D args)"
  "keeps_exit (handle_setBreakpoints D args)" "keeps_exit (handle_threads D args)"
  "keeps_exit (handle_stackTrace D args)" "keeps_exit (handle_continue D args)"
  "keeps_exit (handle_pause D args)" "keeps_exit (handle_step ty D args)" "keeps_exit (handle_scopes D args)"
  "keeps_exit (handle_variables D args)" "keeps_exit (handle_setVariable D args)"
  "keeps_exit (handle_setFunctionBreakpoints D args)" "keeps_exit (launch_with D fileExec execArgs args)"
  "keeps_exit (evaluate_with D i args)"
  unfolding handle_initialize_def handle_setExceptionBreakpoints_def handle_configurationDone_def
    handle_exceptionInfo_def handle_setBreakpoints_def handle_threads_def
    handle_stackTrace_def handle_continue_def handle_pause_def handle_step_def handle_scopes_def
    handle_variables_def handle_setVariable_def handle_setFunctionBreakpoints_def launch_with_def evaluate_with_def
  by (intro exit_intros)+

lemma launch_exit: "keeps_exit (handle_launch D args)" "keeps_exit (handle_evaluate D args)"
  by (simp_all add: keeps_exit_def handle_launch_def handle_evaluate_def
      handlers_exit(15,16) [unfolded keeps_exit_def, rule_format])

lemma attach_exit: "keeps_exit (handle_attach D args)"
  unfolding handle_attach_def
  by (intro exit_intros, split json.split, intro conjI allI impI exit_intros)

lemma keeps_exits_by: "keeps_exit m \<Longrightarrow> exits_by D m"
  by (simp add: keeps_exit_def exits_by_def)

lemma emit_all_debuggee: "snd (snd (emit_all es w)) = snd w"
  by (induction es arbitrary: w)
    (simp_all add: vs_return_def vs_bind_def on_state_def case_prod_beta split: sum.splits)

lemma call_debuggee: "snd (snd (call f w)) = snd (snd (f (snd w)))"
  by (auto simp: call_def vs_bind_def vs_return_def emit_all_debuggee case_prod_beta split: sum.splits)

lemma disconnect_exits: "exits_by D (handle_disconnect D args)"
  unfolding exits_by_def
proof (intro allI impI)
  fix w
  assume start: "\<not> vs_exit (fst w)" and fin: "vs_exit (fst (snd (handle_disconnect D args w)))"
  then obtain action where
    w: "handle_disconnect D args w = vs_bind (call (vd_Disconnect D action)) (\<lambda>_.
          vs_bind (on_state (\<lambda>st. (Inr (), st\<lparr>vs_exit := True\<rparr>))) (\<lambda>_. reply S_OK [])) w"
    by (auto simp: handle_disconnect_def vs_bind_def [of "vs_get _"] vs_get_def split: sum.splits)
  have "vs_exit (fst (snd (call (vd_Disconnect D action) w))) = vs_exit (fst w)"
    using exit_call unfolding keeps_exit_def by blast
  with start fin obtain x where "fst (call (vd_Disconnect D action) w) = Inr x"
    by (auto simp: w vs_bind_def case_prod_beta split: sum.splits)
  then have "snd (snd (handle_disconnect D args w)) = snd (snd (call (vd_Disconnect D action) w))"
    by (simp add: w vs_bind_def on_state_def reply_def vs_return_def case_prod_beta)
  then show "ends_disconnected D (snd (snd (handle_disconnect D args w)))"
    by (auto simp: ends_disconnected_def call_debuggee)
qed

lemma HandleCommand_exits: "exits_by D (HandleCommand_vs D command args)"
proof (cases "map_of (commands D) command")
  case (Some h)
  then have "h \<in> snd ` set (commands D)" by (force dest: map_of_SomeD)
  then have "h = handle_disconnect D \<or> keeps_exit (h args)"
    by (auto simp: commands_def handlers_exit launch_exit attach_exit)
  then have "exits_by D (h args)" using disconnect_exits keeps_exits_by by blast
  with Some show ?thesis by (simp add: HandleCommand_vs_def)
qed (simp add: HandleCommand_vs_def keeps_exits_by exit_basic)

lemma exits_bind_late:
  assumes "keeps_exit m" "\<And>x. exits_by D (f x)"
  shows "exits_by D (vs_bind m f)"
  using assms unfolding exits_by_def keeps_exit_def vs_bind_def case_prod_beta
  by (simp split: sum.splits) (metis prod.collapse)

lemma exits_bind_early:
  assumes "exits_by D m" "\<And>x. keeps_exit (f x)" "\<And>x w. snd (snd (f x w)) = snd w"
  shows "exits_by D (vs_bind m f)"
  using assms unfolding exits_by_def keeps_exit_def vs_bind_def case_prod_beta
  by (simp split: sum.splits) (metis prod.collapse)

lemma handle_request_exits: "exits_by D (handle_request strtod D requestText)"
  unfolding handle_request_def Let_def
proof (rule exits_bind_late [OF exit_output(3)], rule exits_bind_late [OF exit_basic(2)],
    rule exits_bind_late [OF exit_basic(2)], rule exits_bind_early [OF HandleCommand_exits])
qed (intro exit_intros, auto simp: vs_bind_def vs_get_def on_state_def case_prod_beta split: sum.splits)

lemma command_loop_exits:
  "command_loop strtod D inp w = (Inr (), w') \<Longrightarrow> \<not> vs_exit (fst w) \<Longrightarrow> vs_exit (fst w') \<Longrightarrow>
   ends_disconnected D (snd w')"
proof (induction strtod D inp w rule: command_loop.induct)
  case (1 strtod D inp w)
  show ?case
  proof (cases "ReadData inp")
    case (Pair r rest)
    show ?thesis
    proof (cases r)
      case (Inl e)
      with 1(2) 1(3) Pair show ?thesis by (simp add: command_loop.simps [of _ _ _ w])
    next
      case (Inr requestText)
      show ?thesis
      proof (cases "requestText = []")
        case True
        with 1(2-4) Pair Inr show ?thesis by (simp add: command_loop.simps [of _ _ _ w])
      next
        case False
        obtain q w1 where q: "handle_request strtod D requestText w = (q, w1)" by (meson surj_pair)
        from 1(2) 1(3) Pair Inr False q obtain u where u: "q = Inr u"
          by (cases q) (simp_all add: command_loop.simps [of _ _ _ w])
        then have rec: "command_loop strtod D rest w1 = (Inr (), w')"
          using 1(2) 1(3) Pair Inr False q by (simp add: command_loop.simps [of _ _ _ w])
        show ?thesis
        proof (cases "vs_exit (fst w1)")
          case True
          then have "w' = w1" using rec by (simp add: command_loop.simps [of _ _ _ w1])
          with True 1(3) q handle_request_exits [of D strtod requestText] show ?thesis
            unfolding exits_by_def by (metis snd_conv)
        next
          case not_exit: False
          then show ?thesis using 1(1) [OF 1(3) Pair [symmetric] Inr False q [symmetric] u] rec 1(4) by simp
        qed
      qed
    qed
  qed
qed

text \<open>C8. A session that is not ended by an exception leaves the debugger disconnected, however the client
  leaves: the last thing done to the debugger is a \<open>Disconnect\<close>, by the client's request, or by the loop when
  the input ends without one.\<close>

theorem session_ends_disconnected:
  "CommandLoop_vs strtod D inp w = (Inr (), w') \<Longrightarrow> \<not> vs_exit (fst w) \<Longrightarrow>
   \<exists>action d. snd w' = snd (snd (vd_Disconnect D action d))"
proof -
  assume l: "CommandLoop_vs strtod D inp w = (Inr (), w')" and s: "\<not> vs_exit (fst w)"
  obtain w1 where 1: "command_loop strtod D inp w = (Inr (), w1)"
      "(if vs_exit (fst w1) then (Inr (), w1)
        else vs_bind (call (vd_Disconnect D DisconnectDefault)) (\<lambda>_. vs_return ()) w1) = (Inr (), w')"
    using vs_bind_InrD [OF l [unfolded CommandLoop_vs_def]] by auto
  show ?thesis
  proof (cases "vs_exit (fst w1)")
    case True
    with 1 command_loop_exits [OF 1(1) s] show ?thesis by (auto simp: ends_disconnected_def)
  next
    case False
    with 1(2) obtain x w2 where "call (vd_Disconnect D DisconnectDefault) w1 = (Inr x, w2)" "w' = w2"
      by (auto simp: vs_return_def dest!: vs_bind_InrD)
    then have "snd w' = snd (snd (vd_Disconnect D DisconnectDefault (snd w1)))"
      using call_debuggee [of "vd_Disconnect D DisconnectDefault" w1] by simp
    then show ?thesis by blast
  qed
qed

lemma empty_session:
  "CommandLoop_vs (\<lambda>_. None) sample_debugger [] (init_vs\<lparr>vs_fileExec := ''a''\<rparr>, 0)
   = (Inr (), snd (CommandLoop_vs (\<lambda>_. None) sample_debugger [] (init_vs\<lparr>vs_fileExec := ''a''\<rparr>, 0)))"
proof -
  obtain d where d: "dump (event_json ''terminated'' (JObject [])) = Inr d"
    using dump_succeeds(1) [of "event_json ''terminated'' (JObject [])"]
    by (auto simp: event_json_def jobj_def object_of_def obj_wf_def utf8_ranges_def)
  have "fst (CommandLoop_vs (\<lambda>_. None) sample_debugger [] (init_vs\<lparr>vs_fileExec := ''a''\<rparr>, 0)) = Inr ()"
    by (simp add: CommandLoop_vs_def vs_bind_def command_loop.simps ReadData_def init_vs_def call_def
      sample_debugger_def vs_return_def on_state_def emit_vs_def EmitTerminatedEvent_def EmitEvent_def send_logged_def
      send_numbered_def d Log_def Let_def del: dump.simps)
  then show ?thesis by (metis prod.collapse)
qed

theorem session_ends_disconnected_witness:
  "\<exists>action d. snd (snd (CommandLoop_vs (\<lambda>_. None) sample_debugger [] (init_vs\<lparr>vs_fileExec := ''a''\<rparr>, 0)))
     = snd (snd (vd_Disconnect sample_debugger action d))"
  by (rule session_ends_disconnected [OF empty_session]) (simp add: init_vs_def)

end
