(* ===== verification/Cor_Sig.thy ===== *)
theory Cor_Sig imports Cor_Types Module_Loading begin

text \<open>
  The compressed numbers, tokens and element types of metadata signatures (\<open>cor.h\<close>): the writers and the
  readers, over bytes and 32-bit words.  A position in a signature is the list of the bytes from there on;
  reading past the last one is undefined and is None.
\<close>

unbundle bit_operations_syntax

type_synonym u8 = "8 word"
type_synonym signature = "u8 list"

definition META_E_BAD_SIGNATURE :: hresult where "META_E_BAD_SIGNATURE = HR_Other 0x80131192"

section \<open>Element types\<close>

definition CorIsPrimitiveType :: "cor_element \<Rightarrow> bool" where
  "CorIsPrimitiveType elementtype \<longleftrightarrow>
     element_code elementtype < element_code ELEMENT_TYPE_PTR \<or>
     elementtype = ELEMENT_TYPE_I \<or> elementtype = ELEMENT_TYPE_U"

definition CorIsModifierElementType :: "cor_element \<Rightarrow> bool" where
  "CorIsModifierElementType elementtype \<longleftrightarrow>
     elementtype = ELEMENT_TYPE_PTR \<or> elementtype = ELEMENT_TYPE_BYREF \<or>
     element_code elementtype AND element_code ELEMENT_TYPE_MODIFIER \<noteq> 0"

section \<open>Reading numbers\<close>

definition CorSigUncompressedDataSize :: "signature \<Rightarrow> nat option" where
  "CorSigUncompressedDataSize pData =
     (case pData of
        [] \<Rightarrow> None
      | b # _ \<Rightarrow> Some (if b AND 0x80 = 0 then 1 else if b AND 0xC0 = 0x80 then 2 else 4))"

definition CorSigUncompressBigData :: "signature \<Rightarrow> (u32 \<times> signature) option" where
  "CorSigUncompressBigData pData =
     (case pData of
        b0 # b1 # rest \<Rightarrow>
          if b0 AND 0xC0 = 0x80 then Some (push_bit 8 (ucast (b0 AND 0x3f)) OR ucast b1, rest)
          else (case rest of
                  b2 # b3 # rest' \<Rightarrow>
                    Some (push_bit 24 (ucast (b0 AND 0x1f)) OR push_bit 16 (ucast b1) OR push_bit 8 (ucast b2)
                          OR ucast b3, rest')
                | _ \<Rightarrow> None)
      | _ \<Rightarrow> None)"

definition CorSigUncompressData :: "signature \<Rightarrow> (u32 \<times> signature) option" where
  "CorSigUncompressData pData =
     (case pData of
        [] \<Rightarrow> None
      | b # rest \<Rightarrow> if b AND 0x80 = 0 then Some (ucast b, rest) else CorSigUncompressBigData pData)"

text \<open>The reader that is told the length \<open>len\<close> of what remains: the status, the number, and how many bytes
  it takes.  The first byte is looked at before the length.\<close>

definition CorSigUncompressData_bounded :: "signature \<Rightarrow> u32 \<Rightarrow> (hresult \<times> u32 \<times> u32) option" where
  "CorSigUncompressData_bounded pData len =
     (case pData of
        [] \<Rightarrow> None
      | b0 # p1 \<Rightarrow>
          if b0 AND 0x80 = 0 then
            Some (if len < 1 then (META_E_BAD_SIGNATURE, 0, 0) else (S_OK, ucast b0, 1))
          else if b0 AND 0xC0 = 0x80 then
            (if len < 2 then Some (META_E_BAD_SIGNATURE, 0, 0)
             else (case p1 of
                     b1 # _ \<Rightarrow> Some (S_OK, push_bit 8 (ucast (b0 AND 0x3f)) OR ucast b1, 2)
                   | _ \<Rightarrow> None))
          else if b0 AND 0xE0 = 0xC0 then
            (if len < 4 then Some (META_E_BAD_SIGNATURE, 0, 0)
             else (case p1 of
                     b1 # b2 # b3 # _ \<Rightarrow>
                       Some (S_OK, push_bit 24 (ucast (b0 AND 0x1f)) OR push_bit 16 (ucast b1)
                                   OR push_bit 8 (ucast b2) OR ucast b3, 4)
                   | _ \<Rightarrow> None))
          else Some (META_E_BAD_SIGNATURE, 0, 0))"

text \<open>The reader that returns the number of bytes, \<open>(ULONG) -1\<close> for a bad signature.\<close>

definition CorSigUncompressData_size :: "signature \<Rightarrow> (u32 \<times> u32) option" where
  "CorSigUncompressData_size pData =
     map_option (\<lambda>(hr, data, size). if \<not> succeeded hr then (- 1, 0) else (size, data))
       (CorSigUncompressData_bounded pData 0xff)"

section \<open>Reading tokens, signed numbers and element types\<close>

definition mdtTypeRef :: nat where "mdtTypeRef = 0x01000000"
definition mdtTypeSpec :: nat where "mdtTypeSpec = 0x1b000000"
definition mdtBaseType :: nat where "mdtBaseType = 0x72000000"

definition g_tkCorEncodeToken :: "u32 list" where
  "g_tkCorEncodeToken = [of_nat mdtTypeDef, of_nat mdtTypeRef, of_nat mdtTypeSpec, of_nat mdtBaseType]"

text \<open>The table row and the kind, which is in the low two bits.\<close>

definition decode_token :: "u32 \<Rightarrow> u32" where
  "decode_token tk = drop_bit 2 tk OR g_tkCorEncodeToken ! unat (tk AND 0x3)"

definition CorSigUncompressToken :: "signature \<Rightarrow> (u32 \<times> signature) option" where
  "CorSigUncompressToken pData = map_option (\<lambda>(tk, rest). (decode_token tk, rest)) (CorSigUncompressData pData)"

definition CorSigUncompressToken_size :: "signature \<Rightarrow> (u32 \<times> u32) option" where
  "CorSigUncompressToken_size pData = map_option (\<lambda>(cb, tk). (cb, decode_token tk)) (CorSigUncompressData_size pData)"

definition CorSigUncompressToken_bounded :: "signature \<Rightarrow> u32 \<Rightarrow> (hresult \<times> u32 \<times> u32) option" where
  "CorSigUncompressToken_bounded pData dwLen =
     map_option (\<lambda>(hr, tk, size). if succeeded hr then (hr, decode_token tk, size) else (hr, 0, size))
       (CorSigUncompressData_bounded pData dwLen)"

definition CorSigUncompressCallingConv :: "signature \<Rightarrow> (u32 \<times> signature) option" where
  "CorSigUncompressCallingConv pData = (case pData of [] \<Rightarrow> None | b # rest \<Rightarrow> Some (ucast b, rest))"

definition CorSigUncompressCallingConv_bounded :: "signature \<Rightarrow> u32 \<Rightarrow> (hresult \<times> u32) option" where
  "CorSigUncompressCallingConv_bounded pData dwLen =
     (if dwLen > 0 then (case pData of [] \<Rightarrow> None | b # _ \<Rightarrow> Some (S_OK, ucast b))
      else Some (META_E_BAD_SIGNATURE, 0))"

definition SIGN_MASK_ONEBYTE :: u32 where "SIGN_MASK_ONEBYTE = 0xffffffc0"
definition SIGN_MASK_TWOBYTE :: u32 where "SIGN_MASK_TWOBYTE = 0xffffe000"
definition SIGN_MASK_FOURBYTE :: u32 where "SIGN_MASK_FOURBYTE = 0xf0000000"

text \<open>The signed number is a word, read as two's complement; a bad signature leaves it as it was.\<close>

definition CorSigUncompressSignedInt :: "signature \<Rightarrow> u32 \<Rightarrow> (u32 \<times> u32) option" where
  "CorSigUncompressSignedInt pData pInt =
     map_option (\<lambda>(cb, iData0).
       if cb = - 1 then (cb, pInt)
       else let iData = drop_bit 1 iData0 in
         (cb, if iData0 AND 0x1 \<noteq> 0
              then (if cb = 1 then iData OR SIGN_MASK_ONEBYTE
                    else if cb = 2 then iData OR SIGN_MASK_TWOBYTE
                    else iData OR SIGN_MASK_FOURBYTE)
              else iData))
       (CorSigUncompressData_size pData)"

definition CorSigUncompressElementType :: "signature \<Rightarrow> (u8 \<times> signature) option" where
  "CorSigUncompressElementType pData = (case pData of [] \<Rightarrow> None | b # rest \<Rightarrow> Some (b, rest))"

definition CorSigUncompressElementType_size :: "signature \<Rightarrow> (u32 \<times> u8) option" where
  "CorSigUncompressElementType_size pData = (case pData of [] \<Rightarrow> None | b # _ \<Rightarrow> Some (1, b AND 0x7f))"

section \<open>Writing\<close>

text \<open>The number of bytes and the bytes; \<open>(ULONG) -1\<close> and none for what cannot be written.\<close>

definition CorSigCompressData :: "u32 \<Rightarrow> u32 \<times> signature" where
  "CorSigCompressData iLen =
     (if iLen \<le> 0x7F then (1, [ucast iLen])
      else if iLen \<le> 0x3FFF then (2, [ucast (drop_bit 8 iLen OR 0x80), ucast (iLen AND 0xff)])
      else if iLen \<le> 0x1FFFFFFF then
        (4, [ucast (drop_bit 24 iLen OR 0xC0), ucast (drop_bit 16 iLen AND 0xff),
             ucast (drop_bit 8 iLen AND 0xff), ucast (iLen AND 0xff)])
      else (- 1, []))"

definition CorSigCompressToken :: "u32 \<Rightarrow> u32 \<times> signature" where
  "CorSigCompressToken tk =
     (let rid = tk AND 0x00ffffff; ulTyp = tk AND 0xff000000 in
       if rid > 0x3FFFFFF then (- 1, [])
       else CorSigCompressData
         (push_bit 2 rid OR (if ulTyp = g_tkCorEncodeToken ! 1 then 0x1
                             else if ulTyp = g_tkCorEncodeToken ! 2 then 0x2
                             else if ulTyp = g_tkCorEncodeToken ! 3 then 0x3 else 0)))"

definition CorSigCompressSignedInt :: "u32 \<Rightarrow> u32 \<times> signature" where
  "CorSigCompressSignedInt iData =
     (let isSigned = (if iData <s 0 then 1 else 0);
          packed = (\<lambda>sign_mask. push_bit 1 (iData AND NOT sign_mask) OR isSigned);
          fits = (\<lambda>sign_mask. iData AND sign_mask = 0 \<or> iData AND sign_mask = sign_mask) in
       if fits SIGN_MASK_ONEBYTE then (1, [ucast (packed SIGN_MASK_ONEBYTE)])
       else if fits SIGN_MASK_TWOBYTE then
         (let d = packed SIGN_MASK_TWOBYTE in (2, [ucast (drop_bit 8 d OR 0x80), ucast (d AND 0xff)]))
       else if fits SIGN_MASK_FOURBYTE then
         (let d = packed SIGN_MASK_FOURBYTE in
           (4, [ucast (drop_bit 24 d OR 0xC0), ucast (drop_bit 16 d AND 0xff),
                ucast (drop_bit 8 d AND 0xff), ucast (d AND 0xff)]))
       else (- 1, []))"

definition CorSigCompressElementType :: "cor_element \<Rightarrow> u32 \<times> signature" where
  "CorSigCompressElementType et = (1, [of_nat (element_code et)])"

section \<open>Bits\<close>

lemma high_bits: "unat (x :: u32) < 2 ^ n \<Longrightarrow> bit x k \<Longrightarrow> k < n"
proof (rule ccontr)
  assume *: "unat x < 2 ^ n" "\<not> k < n" "bit x k"
  then have "bit (unat x) k" by (simp add: bit_unsigned_iff)
  moreover have "unat x < 2 ^ k" using * by (meson not_less one_le_numeral order_less_le_trans power_increasing)
  ultimately show False by (simp add: bit_iff_odd)
qed

text \<open>The bits of the constants; a numeral of a word type is looked at as an integer.\<close>

lemma constant_bits:
  "bit (0x80 :: int) n \<longleftrightarrow> n = 7" "bit (0xC0 :: int) n \<longleftrightarrow> n = 6 \<or> n = 7"
  "bit (0xE0 :: int) n \<longleftrightarrow> n = 5 \<or> n = 6 \<or> n = 7" "bit (0x3f :: int) n \<longleftrightarrow> n < 6"
  "bit (0x1f :: int) n \<longleftrightarrow> n < 5" "bit (0xff :: int) n \<longleftrightarrow> n < 8"
proof -
  have c: "(0x80 :: int) = push_bit 7 (mask 1)" "(0xC0 :: int) = push_bit 6 (mask 2)"
    "(0xE0 :: int) = push_bit 5 (mask 3)" "(0x3f :: int) = mask 6" "(0x1f :: int) = mask 5" "(0xff :: int) = mask 8"
    by (simp_all add: mask_eq_exp_minus_1)
  show "bit (0x80 :: int) n \<longleftrightarrow> n = 7" "bit (0xC0 :: int) n \<longleftrightarrow> n = 6 \<or> n = 7"
    "bit (0xE0 :: int) n \<longleftrightarrow> n = 5 \<or> n = 6 \<or> n = 7" "bit (0x3f :: int) n \<longleftrightarrow> n < 6"
    "bit (0x1f :: int) n \<longleftrightarrow> n < 5" "bit (0xff :: int) n \<longleftrightarrow> n < 8"
    unfolding c bit_push_bit_iff bit_mask_iff by auto
qed

lemma one_byte:
  assumes "(x :: u32) \<le> 0x7F" 
  shows "(ucast x :: u8) AND 0x80 = 0" "ucast (ucast x :: u8) = x"
proof -
  have "unat x < 2 ^ 7" using assms by (simp add: word_le_nat_alt)
  note h = high_bits [OF this]
  show "(ucast x :: u8) AND 0x80 = 0" 
    by (rule bit_word_eqI) (auto simp: bit_simps constant_bits dest: h)
  show "ucast (ucast x :: u8) = x" 
    by (rule bit_word_eqI) (auto simp add: bit_simps dest: h)
qed

lemma two_bytes: 
  assumes "unat (x :: u32) < 2 ^ 14"
  shows "push_bit 8 (ucast ((ucast (drop_bit 8 x OR 0x80) :: u8) AND 0x3f)) OR ucast (ucast (x AND 0xff) :: u8) = x"
    "(ucast (drop_bit 8 x OR 0x80) :: u8) AND 0xC0 = 0x80"
    "(ucast (drop_bit 8 x OR 0x80) :: u8) AND 0x80 \<noteq> 0"
proof -
  note h = high_bits [OF assms]
  show "push_bit 8 (ucast ((ucast (drop_bit 8 x OR 0x80) :: u8) AND 0x3f)) OR ucast (ucast (x AND 0xff) :: u8) = x"
    apply (rule bit_word_eqI) apply (simp add: bit_simps constant_bits)
    subgoal for n using h [of n] by (cases "n < 8"; cases "n < 14") auto 
    done
  show "(ucast (drop_bit 8 x OR 0x80) :: u8) AND 0xC0 = 0x80"
    by (rule bit_word_eqI) (auto simp: bit_simps constant_bits dest: h)
  have "bit ((ucast (drop_bit 8 x OR 0x80) :: u8) AND 0x80) 7" by (simp add: bit_simps constant_bits)
  then show "(ucast (drop_bit 8 x OR 0x80) :: u8) AND 0x80 \<noteq> 0" by (metis bit_0_eq bot_apply bot_bool_def)
qed

lemma four_bytes: 
  assumes "unat (x :: u32) < 2 ^ 29"
  shows "push_bit 24 (ucast ((ucast (drop_bit 24 x OR 0xC0) :: u8) AND 0x1f)) OR push_bit 16 (ucast (ucast (drop_bit 16 x AND 0xff) :: u8)) OR
     push_bit 8 (ucast (ucast (drop_bit 8 x AND 0xff) :: u8)) OR ucast (ucast (x AND 0xff) :: u8) = x"
    "(ucast (drop_bit 24 x OR 0xC0) :: u8) AND 0xE0 = 0xC0"
    "(ucast (drop_bit 24 x OR 0xC0) :: u8) AND 0xC0 = 0xC0"
    "(ucast (drop_bit 24 x OR 0xC0) :: u8) AND 0x80 \<noteq> 0"
proof -
  note h = high_bits [OF assms]
  show "push_bit 24 (ucast ((ucast (drop_bit 24 x OR 0xC0) :: u8) AND 0x1f)) OR push_bit 16 (ucast (ucast (drop_bit 16 x AND 0xff) :: u8)) OR
     push_bit 8 (ucast (ucast (drop_bit 8 x AND 0xff) :: u8)) OR ucast (ucast (x AND 0xff) :: u8) = x"
    apply (rule bit_word_eqI) apply (simp add: bit_simps constant_bits)
    subgoal for n using h [of n] by (cases "n < 8"; cases "n < 16"; cases "n < 24"; cases "n < 29") auto 
    done
  show "(ucast (drop_bit 24 x OR 0xC0) :: u8) AND 0xE0 = 0xC0"
    by (rule bit_word_eqI) (auto simp: bit_simps constant_bits dest: h)
  show "(ucast (drop_bit 24 x OR 0xC0) :: u8) AND 0xC0 = 0xC0"
    by (rule bit_word_eqI) (auto simp: bit_simps constant_bits dest: h)
  have "bit ((ucast (drop_bit 24 x OR 0xC0) :: u8) AND 0x80) 7" by (simp add: bit_simps constant_bits)
  then show "(ucast (drop_bit 24 x OR 0xC0) :: u8) AND 0x80 \<noteq> 0" by (metis bit_0_eq bot_apply bot_bool_def)
qed

section \<open>Reading what is written\<close>

text \<open>\<open>reads bs x\<close>: all readers find the number \<open>x\<close> in the bytes \<open>bs\<close>, whatever follows.\<close>

definition reads :: "signature \<Rightarrow> u32 \<Rightarrow> bool" where
  "reads bs x \<longleftrightarrow>
     (\<forall>rest len. CorSigUncompressData (bs @ rest) = Some (x, rest) \<and>
       (of_nat (length bs) \<le> len \<longrightarrow>
         CorSigUncompressData_bounded (bs @ rest) len = Some (S_OK, x, of_nat (length bs))))"

lemma reads_one_byte: "x \<le> 0x7F \<Longrightarrow> reads [ucast x] x"
  by (auto simp: reads_def CorSigUncompressData_def CorSigUncompressData_bounded_def one_byte)

lemma reads_two_bytes:
  "x \<le> 0x3FFF \<Longrightarrow> reads [ucast (drop_bit 8 x OR 0x80), ucast (x AND 0xff)] x"
proof -
  assume "x \<le> 0x3FFF"
  then have "unat x < 2 ^ 14" by (simp add: word_le_nat_alt)
  note t = two_bytes [OF this]
  show ?thesis
    using t(2,3) unfolding reads_def CorSigUncompressData_def CorSigUncompressData_bounded_def CorSigUncompressBigData_def
    by (auto simp: t(1))
qed

lemma reads_four_bytes:
  "x \<le> 0x1FFFFFFF \<Longrightarrow>
   reads [ucast (drop_bit 24 x OR 0xC0), ucast (drop_bit 16 x AND 0xff), ucast (drop_bit 8 x AND 0xff),
          ucast (x AND 0xff)] x"
proof -
  assume "x \<le> 0x1FFFFFFF"
  then have "unat x < 2 ^ 29" by (simp add: word_le_nat_alt)
  note t = four_bytes [OF this]
  show ?thesis
    using t(2,3,4) unfolding reads_def CorSigUncompressData_def CorSigUncompressData_bounded_def CorSigUncompressBigData_def
    by (auto simp: t(1))
qed

lemma reads_compressed:
  "CorSigCompressData x = (n, bs) \<Longrightarrow> n \<noteq> - 1 \<Longrightarrow> reads bs x \<and> n = of_nat (length bs) \<and> length bs \<in> {1, 2, 4}"
  using reads_one_byte [of x] reads_two_bytes [of x] reads_four_bytes [of x]
  by (auto simp: CorSigCompressData_def split: if_splits)


lemma reads_size: "reads bs x \<Longrightarrow> length bs \<in> {1, 2, 4} \<Longrightarrow> CorSigUncompressData_size (bs @ rest) = Some (of_nat (length bs), x)"
proof -
  assume r: "reads bs x" and "length bs \<in> {1, 2, 4}"
  then have "(of_nat (length bs) :: u32) \<le> 0xff" by auto
  with r show ?thesis by (simp add: reads_def CorSigUncompressData_size_def)
qed

text \<open>A signed number is written without its high bits, which are copies of the sign, and shifted past it.\<close>

lemma packed_bits:
  fixes x s m :: u32
  defines "d \<equiv> push_bit 1 (x AND NOT m) OR s"
  assumes s: "s = (if x <s 0 then 1 else 0)" and fits: "x AND m = 0 \<or> x AND m = m" and sign: "bit m 31"
  shows "d AND 1 = s" "drop_bit 1 d = x AND NOT m" "x = (if s = 1 then drop_bit 1 d OR m else drop_bit 1 d)"
proof -
  have b31: "x <s 0 \<longleftrightarrow> bit x 31" using bit_last_iff [of x] by (simp add: word_sless_alt)
  have n31: "\<not> bit (x AND NOT m) 31" using sign by (simp add: bit_simps)
  show "d AND 1 = s"
    unfolding d_def s by (rule bit_word_eqI) (unfold bit_and_iff bit_or_iff bit_push_bit_iff, auto simp: bit_1_iff)
  show 2: "drop_bit 1 d = x AND NOT m"
  proof (rule bit_word_eqI)
    fix n assume "n < LENGTH(32)"
    with n31 show "bit (drop_bit 1 d) n = bit (x AND NOT m) n"
      unfolding d_def s bit_drop_bit_eq o_def bit_or_iff bit_push_bit_iff by (cases "n = 31") (auto simp: bit_1_iff)
  qed
  have "bit x 31 \<longleftrightarrow> x AND m = m" using fits sign by (metis bit_and_iff bit_0_eq bot_apply bot_bool_def)
  then have "x AND m = (if s = 1 then m else 0)" using fits s b31 sign by (metis (full_types) one_neq_zero zero_neq_one)
  moreover have "x = (x AND NOT m) OR (x AND m)" by (rule bit_word_eqI) (auto simp: bit_simps)
  ultimately show "x = (if s = 1 then drop_bit 1 d OR m else drop_bit 1 d)"
    unfolding 2 by (auto split: if_splits)
qed


lemma low_bits: "(\<And>k. bit x k \<Longrightarrow> k < n) \<Longrightarrow> unat (x :: u32) < 2 ^ n"
proof -
  assume "\<And>k. bit x k \<Longrightarrow> k < n"
  then have "take_bit n x = x" by (intro bit_word_eqI) (auto simp: bit_take_bit_iff)
  then have "unat x = take_bit n (unat x)" by (metis unsigned_take_bit_eq)
  then show ?thesis by (metis take_bit_nat_less_exp)
qed

lemma packed_below:
  "s \<in> {0, 1} \<Longrightarrow> NOT m = mask n \<Longrightarrow> unat (push_bit 1 ((x :: u32) AND NOT m) OR s) < 2 ^ Suc n"
proof (rule low_bits)
  fix k assume s: "s \<in> {0, 1}" "NOT m = mask n" and "bit (push_bit 1 (x AND NOT m) OR s) k"
  then have "k = 0 \<or> bit (mask n :: u32) (k - 1) \<and> 1 \<le> k"
    unfolding bit_or_iff bit_push_bit_iff bit_and_iff by (auto simp: bit_1_iff)
  then show "k < Suc n" by (auto simp: bit_mask_iff)
qed

lemma sign_masks:
  "NOT SIGN_MASK_ONEBYTE = mask 6" "NOT SIGN_MASK_TWOBYTE = mask 13" "NOT SIGN_MASK_FOURBYTE = mask 28"
  "bit SIGN_MASK_ONEBYTE 31" "bit SIGN_MASK_TWOBYTE 31" "bit SIGN_MASK_FOURBYTE 31"
  by (simp_all add: SIGN_MASK_ONEBYTE_def SIGN_MASK_TWOBYTE_def SIGN_MASK_FOURBYTE_def mask_eq_exp_minus_1)

lemma signed_roundtrip:
  assumes "CorSigCompressSignedInt x = (n, bs)" "n \<noteq> - 1"
  shows "CorSigUncompressSignedInt (bs @ rest) p = Some (n, x) \<and> n = of_nat (length bs)"
proof -
  define s :: u32 where "s = (if x <s 0 then 1 else 0)"
  define d where "d = (\<lambda>m. push_bit 1 (x AND NOT m) OR s)"
  define fits where "fits = (\<lambda>m. x AND m = 0 \<or> x AND m = m)"
  have main: "CorSigUncompressSignedInt (bs @ rest) p = Some (of_nat (length bs), x)"
    if f: "fits m" and bs: "reads bs (d m)" "length bs \<in> {1, 2, 4}" and m: "bit m 31"
      "m = (if length bs = 1 then SIGN_MASK_ONEBYTE else if length bs = 2 then SIGN_MASK_TWOBYTE else SIGN_MASK_FOURBYTE)" for m bs
  proof -
    have x: "d m AND 1 = s" "x = (if s = 1 then drop_bit 1 (d m) OR m else drop_bit 1 (d m))"
      using packed_bits [OF s_def, of m] f m(1) unfolding fits_def d_def by blast+
    have "CorSigUncompressData_size (bs @ rest) = Some (of_nat (length bs), d m)"
      using reads_size bs by blast
    then have "CorSigUncompressSignedInt (bs @ rest) p
        = Some (of_nat (length bs), if d m AND 1 \<noteq> 0 then drop_bit 1 (d m) OR m else drop_bit 1 (d m))"
      using bs(2) unfolding CorSigUncompressSignedInt_def m(2) by (auto simp: Let_def)
    also have "(if d m AND 1 \<noteq> 0 then drop_bit 1 (d m) OR m else drop_bit 1 (d m)) = x"
      using x s_def by (metis zero_neq_one)
    finally show ?thesis .
  qed
  have "s \<in> {0, 1}" by (simp add: s_def)
  note b = packed_below [OF this sign_masks(1), of x] packed_below [OF this sign_masks(2), of x]
    packed_below [OF this sign_masks(3), of x]
  have d: "d SIGN_MASK_ONEBYTE \<le> 0x7F" "d SIGN_MASK_TWOBYTE \<le> 0x3FFF" "d SIGN_MASK_FOURBYTE \<le> 0x1FFFFFFF"
    using b by (simp_all add: d_def word_le_nat_alt)
  show ?thesis
    using assms main [OF _ reads_one_byte [OF d(1)]] main [OF _ reads_two_bytes [OF d(2)]] main [OF _ reads_four_bytes [OF d(3)]]
    unfolding CorSigCompressSignedInt_def Let_def s_def [symmetric] fits_def [symmetric] d_def [symmetric]
    by (auto simp: sign_masks d_def split: if_splits)
qed

section \<open>Tokens\<close>

lemma token_number:
  fixes rid j :: u32
  assumes r: "unat rid < 2 ^ 24" and j: "unat j < 2 ^ 2"
  shows "drop_bit 2 (push_bit 2 rid OR j) = rid" "(push_bit 2 rid OR j) AND 3 = j" "push_bit 2 rid OR j \<le> 0x1FFFFFFF"
proof -
  note rb = high_bits [OF r] and jb = high_bits [OF j]
  have three: "(3 :: u32) = mask 2" by (simp add: mask_eq_exp_minus_1)
  show "drop_bit 2 (push_bit 2 rid OR j) = rid"
    by (rule bit_word_eqI, unfold bit_drop_bit_eq o_def bit_or_iff bit_push_bit_iff) (auto dest: rb jb)
  show "(push_bit 2 rid OR j) AND 3 = j"
    unfolding three by (rule bit_word_eqI, unfold bit_and_iff bit_mask_iff bit_or_iff bit_push_bit_iff) (auto dest: rb jb)
  have "unat (push_bit 2 rid OR j) < 2 ^ 26"
    by (rule low_bits, unfold bit_or_iff bit_push_bit_iff) (auto dest!: rb jb)
  then show "push_bit 2 rid OR j \<le> 0x1FFFFFFF" by (simp add: word_le_nat_alt)
qed

lemma encode_token_codes:
  "g_tkCorEncodeToken ! 0 = 0x02000000" "g_tkCorEncodeToken ! 1 = 0x01000000" "g_tkCorEncodeToken ! 2 = 0x1b000000"
  "g_tkCorEncodeToken ! 3 = 0x72000000" "length g_tkCorEncodeToken = 4"
  by (simp_all add: g_tkCorEncodeToken_def mdtTypeDef_def mdtTypeRef_def mdtTypeSpec_def mdtBaseType_def)

lemma token_parts: "(tk :: u32) = (tk AND 0x00ffffff) OR (tk AND 0xff000000)"
proof -
  have "(0xff000000 :: u32) = NOT 0x00ffffff" by simp
  then show ?thesis by (metis bit.conj_disj_distrib bit.disj_cancel_right word_and_max)
qed

lemma token_compressed:
  assumes kind: "tk AND 0xff000000 = g_tkCorEncodeToken ! j" "j < 4"
  obtains x where "CorSigCompressToken tk = CorSigCompressData x" "x \<le> 0x1FFFFFFF" "decode_token x = tk"
proof -
  define rid where "rid = tk AND 0x00ffffff"
  have m: "(0x00ffffff :: u32) = mask 24" by (simp add: mask_eq_exp_minus_1)
  have r: "unat rid < 2 ^ 24"
    unfolding rid_def m by (rule low_bits) (auto simp: bit_and_iff bit_mask_iff)
  have jn: "unat (of_nat j :: u32) = j" using kind(2) by (simp add: unsigned_of_nat take_bit_nat_eq_self)
  then have j: "unat (of_nat j :: u32) < 2 ^ 2" using kind(2) by simp
  note t = token_number [OF r j]
  have "j = 0 \<or> j = 1 \<or> j = 2 \<or> j = 3" using kind(2) by auto
  then have "(if tk AND 0xff000000 = g_tkCorEncodeToken ! 1 then 0x1
      else if tk AND 0xff000000 = g_tkCorEncodeToken ! 2 then 0x2
      else if tk AND 0xff000000 = g_tkCorEncodeToken ! 3 then 0x3 else (0 :: u32)) = of_nat j"
    unfolding kind(1) encode_token_codes by (elim disjE) (simp_all add: encode_token_codes [simplified])
  moreover have "\<not> rid > 0x3FFFFFF" using r by (simp add: word_less_nat_alt)
  ultimately have "CorSigCompressToken tk = CorSigCompressData (push_bit 2 rid OR of_nat j)"
    unfolding CorSigCompressToken_def Let_def rid_def [symmetric] by simp
  moreover have "decode_token (push_bit 2 rid OR of_nat j) = tk"
  proof -
    have "decode_token (push_bit 2 rid OR of_nat j) = rid OR (tk AND 0xff000000)"
      by (simp only: decode_token_def t(1,2) jn kind(1))
    then show ?thesis using token_parts [of tk] by (simp only: rid_def)
  qed
  ultimately show thesis using t(3) that by blast
qed

lemma token_roundtrip:
  assumes kind: "tk AND 0xff000000 = g_tkCorEncodeToken ! j" "j < 4" and c: "CorSigCompressToken tk = (n, bs)"
  shows "CorSigUncompressToken (bs @ rest) = Some (tk, rest)" "CorSigUncompressToken_size (bs @ rest) = Some (n, tk)"
    "n = of_nat (length bs)" "length bs \<in> {1, 2, 4}"
proof -
  obtain x where x: "CorSigCompressToken tk = CorSigCompressData x" "x \<le> 0x1FFFFFFF" "decode_token x = tk"
    using kind by (rule token_compressed)
  have "n \<noteq> - 1" using c x(1,2) by (auto simp: CorSigCompressData_def split: if_splits)
  then have r: "reads bs x" "n = of_nat (length bs)" "length bs \<in> {1, 2, 4}"
    using reads_compressed c x(1) by auto
  from r(1) show "CorSigUncompressToken (bs @ rest) = Some (tk, rest)"
    by (simp add: CorSigUncompressToken_def reads_def x(3))
  from reads_size [OF r(1,3)] show "CorSigUncompressToken_size (bs @ rest) = Some (n, tk)"
    by (simp add: CorSigUncompressToken_size_def x(3) r(2))
  show "n = of_nat (length bs)" "length bs \<in> {1, 2, 4}" by (rule r)+
qed

section \<open>What is refused\<close>

text \<open>The part of a word that a mask selects is constant when the word, or its complement, is small.\<close>

lemma mask_fits:
  assumes "NOT m = mask n"
  shows "(x :: u32) AND m = 0 \<longleftrightarrow> unat x < 2 ^ n" "x AND m = m \<longleftrightarrow> unat (NOT x) < 2 ^ n"
proof -
  have m: "m = NOT (mask n)" using assms by (metis bit.double_compl)
  have zero: "y AND m = 0 \<longleftrightarrow> unat y < 2 ^ n" for y :: u32
  proof
    assume "y AND m = 0"
    then have "\<not> bit (y AND m) k" for k by simp
    then have "k < n" if "bit y k" for k
      using that bit_imp_le_length [OF that] by (auto simp: m bit_simps)
    then show "unat y < 2 ^ n" by (rule low_bits)
  next
    assume "unat y < 2 ^ n"
    note h = high_bits [OF this]
    show "y AND m = 0" by (rule bit_word_eqI) (auto simp: m bit_simps dest: h)
  qed
  show "x AND m = 0 \<longleftrightarrow> unat x < 2 ^ n" by (rule zero)
  have "x AND m = m \<longleftrightarrow> NOT x AND m = 0"
    by (auto simp: bit_eq_iff bit_simps dest: bit_imp_le_length)
  then show "x AND m = m \<longleftrightarrow> unat (NOT x) < 2 ^ n" by (simp only: zero)
qed

lemma signed_range: "unat (x :: u32) < 2 ^ 28 \<or> unat (NOT x) < 2 ^ 28 \<longleftrightarrow> - (2 ^ 28) \<le> sint x \<and> sint x < 2 ^ 28"
proof -
  have range: "s = (if i < 2 ^ 31 then i else i - 2 ^ 32) \<Longrightarrow> 0 \<le> i \<Longrightarrow> i < 2 ^ 32 \<Longrightarrow>
      (i < 2 ^ 28 \<or> 2 ^ 32 - 1 - i < 2 ^ 28) = (- (2 ^ 28) \<le> s \<and> s < 2 ^ 28)" for s i :: int
    by (auto split: if_splits)
  have not: "int (unat (NOT x)) = 2 ^ 32 - 1 - uint x"
    using take_bit_int_eq_self [of "uint x" 32] uint_lt2p [of x] uint_ge_0 [of x]
    by (simp add: unsigned_not_eq take_bit_not_eq_mask_diff mask_eq_exp_minus_1 flip: uint_nat)
  have u: "uint x < 2 ^ 32" "0 \<le> uint x" using uint_lt2p [of x] by simp_all
  have "sint x = (uint x + 2 ^ 31) mod 2 ^ 32 - 2 ^ 31"
    by (simp add: sint_uint signed_take_bit_eq_take_bit_shift take_bit_eq_mod)
  moreover have "(uint x + 2 ^ 31) mod 2 ^ 32 = (if uint x < 2 ^ 31 then uint x + 2 ^ 31 else uint x - 2 ^ 31)"
  proof (cases "uint x < 2 ^ 31")
    case False
    then have "(uint x - 2 ^ 31) mod 2 ^ 32 = uint x - 2 ^ 31" using u by (intro mod_pos_pos_trivial) simp_all
    then have "(uint x - 2 ^ 31 + 2 ^ 32) mod 2 ^ 32 = uint x - 2 ^ 31" by (simp only: mod_add_self2)
    with False show ?thesis by (simp add: add.commute)
  qed (use u in \<open>simp add: mod_pos_pos_trivial\<close>)
  ultimately have "sint x = (if uint x < 2 ^ 31 then uint x else uint x - 2 ^ 32)" by simp
  moreover have "unat y < 2 ^ 28 \<longleftrightarrow> int (unat y) < 2 ^ 28" for y :: u32
    using of_nat_less_iff [of "unat y" "2 ^ 28", where 'a = int] by (simp only: of_nat_power of_nat_numeral)
  then have "unat x < 2 ^ 28 \<longleftrightarrow> uint x < 2 ^ 28" "unat (NOT x) < 2 ^ 28 \<longleftrightarrow> 2 ^ 32 - 1 - uint x < 2 ^ 28"
    using not by (simp_all only: uint_nat)
  ultimately show ?thesis using range [OF _ u(2,1)] by (simp only:)
qed

lemma CorSigCompressSignedInt_refuses:
  "fst (CorSigCompressSignedInt x) = - 1 \<longleftrightarrow> \<not> (- (2 ^ 28) \<le> sint x \<and> sint x < 2 ^ 28)"
proof -
  have "unat y < 2 ^ 28" if "unat (y :: u32) < 2 ^ n" "n \<le> 28" for y n
    using that by (meson order_less_le_trans one_le_numeral power_increasing)
  then have fits: "x AND m = 0 \<or> x AND m = m \<Longrightarrow> x AND SIGN_MASK_FOURBYTE = 0 \<or> x AND SIGN_MASK_FOURBYTE = SIGN_MASK_FOURBYTE"
    if "NOT m = mask n" "n \<le> 28" for m n
    using that unfolding mask_fits [OF that(1)] mask_fits [OF sign_masks(3)] by blast
  have "fst (CorSigCompressSignedInt x) = - 1 \<longleftrightarrow> \<not> (x AND SIGN_MASK_FOURBYTE = 0 \<or> x AND SIGN_MASK_FOURBYTE = SIGN_MASK_FOURBYTE)"
    using fits [OF sign_masks(1)] fits [OF sign_masks(2)] by (simp add: CorSigCompressSignedInt_def Let_def)
  also have "\<dots> \<longleftrightarrow> \<not> (- (2 ^ 28) \<le> sint x \<and> sint x < 2 ^ 28)"
    unfolding mask_fits [OF sign_masks(3)] signed_range ..
  finally show ?thesis .
qed

lemma CorSigCompressToken_never_refuses: "fst (CorSigCompressToken tk) \<noteq> - 1"
proof -
  define rid where "rid = tk AND 0x00ffffff"
  have m: "(0x00ffffff :: u32) = mask 24" by (simp add: mask_eq_exp_minus_1)
  have r: "unat rid < 2 ^ 24"
    unfolding rid_def m by (rule low_bits) (auto simp: bit_and_iff bit_mask_iff)
  have "push_bit 2 rid OR j \<le> 0x1FFFFFFF" if "j \<in> {0, 1, 2, 3}" for j :: u32
    using token_number(3) [OF r, of j] that by auto
  moreover have "\<not> rid > 0x3FFFFFF" using r by (simp add: word_less_nat_alt)
  ultimately show ?thesis
    by (auto simp: CorSigCompressToken_def Let_def CorSigCompressData_def simp flip: rid_def)
qed

section \<open>Properties\<close>

text \<open>C16. What is written is read back, by both readers of numbers and of tokens and by the one of signed numbers, with
  the number of bytes that was reported.  The writers refuse exactly the numbers above \<open>0x1FFFFFFF\<close> and the signed
  numbers outside the 29 bits from \<open>-2^28\<close> to \<open>2^28 - 1\<close>, and no token; a token reads back when its kind is one of the
  four that have a code.\<close>

theorem signature_numbers_roundtrip:
  "(CorSigCompressData x = (n, bs) \<and> n \<noteq> - 1 \<longrightarrow>
      CorSigUncompressData (bs @ rest) = Some (x, rest) \<and> CorSigUncompressData_size (bs @ rest) = Some (n, x)) \<and>
   (CorSigCompressSignedInt x = (n, bs) \<and> n \<noteq> - 1 \<longrightarrow>
      CorSigUncompressSignedInt (bs @ rest) p = Some (n, x)) \<and>
   (CorSigCompressToken x = (n, bs) \<and> x AND 0xff000000 \<in> set g_tkCorEncodeToken \<longrightarrow>
      CorSigUncompressToken (bs @ rest) = Some (x, rest) \<and> CorSigUncompressToken_size (bs @ rest) = Some (n, x)) \<and>
   (fst (CorSigCompressData x) = - 1 \<longleftrightarrow> 0x1FFFFFFF < x) \<and>
   (fst (CorSigCompressSignedInt x) = - 1 \<longleftrightarrow> \<not> (- (2 ^ 28) \<le> sint x \<and> sint x < 2 ^ 28)) \<and>
   fst (CorSigCompressToken x) \<noteq> - 1"
proof (intro conjI impI; (elim conjE)?)
  assume "CorSigCompressData x = (n, bs)" "n \<noteq> - 1"
  from reads_compressed [OF this] have r: "reads bs x" "n = of_nat (length bs)" "length bs \<in> {1, 2, 4}" by auto
  from r(1) show "CorSigUncompressData (bs @ rest) = Some (x, rest)" by (simp add: reads_def)
  from reads_size [OF r(1,3)] r(2) show "CorSigUncompressData_size (bs @ rest) = Some (n, x)" by simp
next
  assume "CorSigCompressSignedInt x = (n, bs)" "n \<noteq> - 1"
  from signed_roundtrip [OF this] show "CorSigUncompressSignedInt (bs @ rest) p = Some (n, x)" by blast
next
  assume c: "CorSigCompressToken x = (n, bs)" and "x AND 0xff000000 \<in> set g_tkCorEncodeToken"
  then obtain j where "x AND 0xff000000 = g_tkCorEncodeToken ! j" "j < 4"
    by (metis encode_token_codes(5) in_set_conv_nth)
  note t = token_roundtrip [OF this c]
  show "CorSigUncompressToken (bs @ rest) = Some (x, rest)" by (rule t)
  show "CorSigUncompressToken_size (bs @ rest) = Some (n, x)" by (rule t)
next
  show "fst (CorSigCompressData x) = - 1 \<longleftrightarrow> 0x1FFFFFFF < x"
    by (auto simp: CorSigCompressData_def word_le_nat_alt word_less_nat_alt)
  show "fst (CorSigCompressSignedInt x) = - 1 \<longleftrightarrow> \<not> (- (2 ^ 28) \<le> sint x \<and> sint x < 2 ^ 28)"
    by (rule CorSigCompressSignedInt_refuses)
  show "fst (CorSigCompressToken x) \<noteq> - 1" by (rule CorSigCompressToken_never_refuses)
qed

theorem signature_numbers_roundtrip_witness:
  "CorSigUncompressData ([0x81, 0x2c] @ [7]) = Some (300, [7]) \<and>
   CorSigUncompressSignedInt ([0x81, 0x01] @ [7]) 0 = Some (2, 0xffffe080) \<and>
   CorSigUncompressToken ([0x49] @ [7]) = Some (0x01000012, [7])"
proof -
  have c: "CorSigCompressData 300 = (2, [0x81, 0x2c])" "CorSigCompressSignedInt 0xffffe080 = (2, [0x81, 0x01])"
    "CorSigCompressToken 0x01000012 = (1, [0x49])"
    by (simp_all add: CorSigCompressData_def CorSigCompressSignedInt_def CorSigCompressToken_def encode_token_codes [simplified]
      SIGN_MASK_ONEBYTE_def SIGN_MASK_TWOBYTE_def SIGN_MASK_FOURBYTE_def word_sless_alt)
  have "0x01000012 AND 0xff000000 \<in> set g_tkCorEncodeToken" by (simp add: g_tkCorEncodeToken_def mdtTypeRef_def)
  with signature_numbers_roundtrip [of 300 2 "[0x81, 0x2c]" "[7]"]
    signature_numbers_roundtrip [of "0xffffe080" 2 "[0x81, 0x01]" "[7]" 0]
    signature_numbers_roundtrip [of "0x01000012" 1 "[0x49]" "[7]"]
  show ?thesis by (simp add: c)
qed

lemma first_byte:
  "(b :: u8) AND 0x80 = 0 \<longleftrightarrow> \<not> bit b 7" "b AND 0xC0 = 0x80 \<longleftrightarrow> bit b 7 \<and> \<not> bit b 6"
  "b AND 0xE0 = 0xC0 \<longleftrightarrow> bit b 7 \<and> bit b 6 \<and> \<not> bit b 5" "b AND 0xE0 = 0xE0 \<longleftrightarrow> bit b 7 \<and> bit b 6 \<and> bit b 5"
proof -
  have all: "(\<forall>n < LENGTH(8). P n) \<longleftrightarrow> P 0 \<and> P 1 \<and> P 2 \<and> P 3 \<and> P 4 \<and> P 5 \<and> P 6 \<and> P 7" for P
  proof -
    have "(\<forall>n < LENGTH(8). P n) \<longleftrightarrow> list_all P [0..<8]" by (auto simp: list_all_iff)
    also have "[0..<8] = [0, 1, 2, 3, 4, 5, 6, 7]" by (simp add: upt_conv_Cons)
    finally show ?thesis by simp
  qed
  have eq: "x = y \<longleftrightarrow> (\<forall>n < LENGTH(8). bit x n = bit y n)" for x y :: u8
    by (auto intro: bit_word_eqI)
  show "b AND 0x80 = 0 \<longleftrightarrow> \<not> bit b 7" "b AND 0xC0 = 0x80 \<longleftrightarrow> bit b 7 \<and> \<not> bit b 6"
    "b AND 0xE0 = 0xC0 \<longleftrightarrow> bit b 7 \<and> bit b 6 \<and> \<not> bit b 5" "b AND 0xE0 = 0xE0 \<longleftrightarrow> bit b 7 \<and> bit b 6 \<and> bit b 5"
    unfolding eq all by (auto simp: bit_and_iff constant_bits)
qed

text \<open>C35. The two readers of a number agree except on a first byte that starts no number (\<open>111xxxxx\<close>): there
  the one that reports a length says so, and the one that moves the position reads four bytes.\<close>

theorem readers_agree:
  "CorSigUncompressData pData = Some (x, rest) \<Longrightarrow>
   CorSigUncompressData_size pData =
     Some (if hd pData AND 0xE0 = 0xE0 then (- 1, 0) else (of_nat (length pData - length rest), x))"
  by (cases pData; cases "tl pData"; cases "tl (tl pData)"; cases "tl (tl (tl pData))")
    (auto simp: CorSigUncompressData_size_def CorSigUncompressData_bounded_def CorSigUncompressData_def
      CorSigUncompressBigData_def first_byte META_E_BAD_SIGNATURE_def split: if_splits)

theorem readers_agree_witness:
  "CorSigUncompressData_size [0xC0, 0x01, 0x02, 0x03, 0x07] = Some (4, 0x10203) \<and>
   CorSigUncompressData_size [0xE1, 0x01, 0x02, 0x03, 0x07] = Some (- 1, 0)"
proof -
  have "CorSigUncompressData [0xC0, 0x01, 0x02, 0x03, 0x07] = Some (0x10203, [0x07])"
    "CorSigUncompressData [0xE1, 0x01, 0x02, 0x03, 0x07] = Some (0x1010203, [0x07])"
    by (simp_all add: CorSigUncompressData_def CorSigUncompressBigData_def)
  from readers_agree [OF this(1)] readers_agree [OF this(2)] show ?thesis by simp
qed

text \<open>The reader with a length looks at the first byte of an empty signature.\<close>

lemma bounded_reads_empty: "CorSigUncompressData_bounded [] 0 = None"
  by (simp add: CorSigUncompressData_bounded_def)

end
