(* ===== verification/Type_Printer.thy ===== *)
theory Type_Printer imports Cor_Sig Expressions Mi_Print begin

text \<open>
  The names of types and methods (\<open>typeprinter.cpp\<close>): from metadata tokens, from the types of the runtime,
  and from signatures.  Metadata and types are records of what the runtime answers, the failure of a call
  being \<open>Inl\<close> of its status.  The list of generic arguments is consumed from its front and handed on.
  A result of None stands for undefined behaviour (a read past the end of a signature, a null interface)
  or for a recursion that does not end.
\<close>

section \<open>Generic arguments\<close>

text \<open>\<open>find_last_not_of\<close>; None is \<open>npos\<close>.\<close>

fun find_last_not :: "(char \<Rightarrow> bool) \<Rightarrow> string \<Rightarrow> nat option" where
  "find_last_not P [] = None"
| "find_last_not P (c # s) =
     (case find_last_not P s of Some i \<Rightarrow> Some (Suc i) | None \<Rightarrow> if P c then None else Some 0)"

text \<open>The loop over the arguments; \<open>numArgs\<close> is at most their number.\<close>

fun consume_loop :: "nat \<Rightarrow> string \<Rightarrow> string list \<Rightarrow> string \<times> string list" where
  "consume_loop 0 sep args = ([], args)"
| "consume_loop (Suc n) sep args =
     (case args of
        [] \<Rightarrow> ([], [])
      | a # rest \<Rightarrow> (case consume_loop n '', '' rest of (ss, args') \<Rightarrow> (sep @ a @ ss, args')))"

definition ConsumeGenericArgs :: "string \<Rightarrow> string list \<Rightarrow> string \<times> string list" where
  "ConsumeGenericArgs name args =
     (if args = [] then (name, args)
      else (case find_last_not is_digit name of
              None \<Rightarrow> (name, args)
            | Some offset \<Rightarrow>
                if offset = length name - 1 \<or> name ! offset \<noteq> CHR 0x60 then (name, args)
                else let numArgs = digits_val (drop (offset + 1) name) in
                  if 2 ^ 64 \<le> numArgs then (name, args)
                  else if numArgs = 0 \<or> length args < numArgs then (name, args)
                  else (case consume_loop numArgs [] args of (ss, args') \<Rightarrow>
                          (take offset name @ ''<'' @ ss @ ''>'', args'))))"

section \<open>Names of the built-in types\<close>

definition cs2system :: "(string \<times> string) list" where
  "cs2system =
     [(''bool'', ''System.Boolean''), (''byte'', ''System.Byte''), (''sbyte'', ''System.SByte''),
      (''char'', ''System.Char''), (''decimal'', ''System.Decimal''), (''double'', ''System.Double''),
      (''float'', ''System.Single''), (''int'', ''System.Int32''), (''uint'', ''System.UInt32''),
      (''long'', ''System.Int64''), (''ulong'', ''System.UInt64''), (''object'', ''System.Object''),
      (''short'', ''System.Int16''), (''ushort'', ''System.UInt16''), (''string'', ''System.String''),
      (''IntPtr'', ''System.IntPtr''), (''UIntPtr'', ''System.UIntPtr'')]"

definition RenameToSystem :: "string \<Rightarrow> string" where
  "RenameToSystem typeName = (case map_of cs2system typeName of Some n \<Rightarrow> n | None \<Rightarrow> typeName)"

definition system2cs :: "(string \<times> string) list" where
  "system2cs =
     [(''System.Boolean'', ''bool''), (''System.Byte'', ''byte''), (''System.SByte'', ''sbyte''),
      (''System.Char'', ''char''), (''System.Decimal'', ''decimal''), (''System.Double'', ''double''),
      (''System.Single'', ''float''), (''System.Int32'', ''int''), (''System.UInt32'', ''uint''),
      (''System.Int64'', ''long''), (''System.UInt64'', ''ulong''), (''System.Object'', ''object''),
      (''System.Int16'', ''short''), (''System.UInt16'', ''ushort''), (''System.String'', ''string''),
      (''System.IntPtr'', ''IntPtr''), (''System.UIntPtr'', ''UIntPtr'')]"

definition RenameToCSharp :: "string \<Rightarrow> string" where
  "RenameToCSharp typeName = (case map_of system2cs typeName of Some n \<Rightarrow> n | None \<Rightarrow> typeName)"

section \<open>Names from tokens\<close>

text \<open>Answers of the metadata of a module.  The three fields for the internal interface are the status of
  the query for the helper, whether the helper has an interface cached, and the status of the query on it.\<close>

record type_metadata =
  md_typedef :: "nat \<Rightarrow> hresult + string \<times> nat"
  md_enclosing :: "nat \<Rightarrow> hresult + nat"
  md_field :: "nat \<Rightarrow> hresult + nat \<times> string"
  md_method :: "nat \<Rightarrow> hresult + nat \<times> string"
  md_memberref :: "nat \<Rightarrow> hresult + nat \<times> string"
  md_typeref :: "nat \<Rightarrow> (string \<times> string) option"
  md_helper :: hresult
  md_cached :: bool
  md_internal :: hresult
  md_generics :: "nat \<Rightarrow> nat"

definition IsTdNested :: "nat \<Rightarrow> bool" where
  "IsTdNested flags \<longleftrightarrow> flags AND 7 \<ge> 2"

text \<open>Status, name and the arguments left.  The name keeps what was written to it when a call fails.\<close>

type_synonym named = "hresult \<times> string \<times> string list"

partial_function (option) NameForTypeDef :: "type_metadata \<Rightarrow> nat \<Rightarrow> string \<Rightarrow> string list \<Rightarrow> named option" where
  "NameForTypeDef md tkTypeDef mdName args =
     (case md_typedef md tkTypeDef of
        Inl hr \<Rightarrow> Some (hr, mdName, args)
      | Inr (name, flags) \<Rightarrow>
          if \<not> IsTdNested flags
          then (case ConsumeGenericArgs name args of (n, args') \<Rightarrow> Some (S_OK, n, args'))
          else (case md_enclosing md tkTypeDef of
                  Inl hr \<Rightarrow> Some (hr, name, args)
                | Inr tkEnclosingClass \<Rightarrow>
                    Option.bind (NameForTypeDef md tkEnclosingClass [] args) (\<lambda>(hr, enclosingName, args1).
                      if \<not> succeeded hr then Some (hr, name, args1)
                      else (case ConsumeGenericArgs name args1 of (n, args2) \<Rightarrow>
                              Some (S_OK, enclosingName @ ''.'' @ n, args2)))))"

text \<open>The status, and whether there is an interface: with nothing cached the status is that of the first
  query, a success.\<close>

definition GetMDInternalFromImport :: "type_metadata \<Rightarrow> hresult \<times> bool" where
  "GetMDInternalFromImport md =
     (if \<not> succeeded (md_helper md) then (md_helper md, False)
      else if \<not> md_cached md then (md_helper md, False)
      else (md_internal md, succeeded (md_internal md)))"

text \<open>The name that a type reference gives a position in the name, \<open>mdName\<close> otherwise; the status is that
  of getting the interface.\<close>

definition typeref_name :: "type_metadata \<Rightarrow> nat \<Rightarrow> string \<Rightarrow> string \<Rightarrow> (hresult \<times> string) option" where
  "typeref_name md tk end mdName =
     (case GetMDInternalFromImport md of (hr, present) \<Rightarrow>
        if \<not> succeeded hr then Some (hr, mdName)
        else if \<not> present then None
        else Some (hr, case md_typeref md tk of
                         Some (sznamespace, szname) \<Rightarrow> sznamespace @ ''.'' @ szname @ end
                       | None \<Rightarrow> mdName))"

text \<open>A member: the name of its class when that is wanted, then its own.\<close>

definition member_name :: "type_metadata \<Rightarrow> bool \<Rightarrow> hresult + nat \<times> string \<Rightarrow> string \<Rightarrow> string list \<Rightarrow> named option" where
  "member_name md bClassName props mdName args =
     (case props of
        Inl hr \<Rightarrow> Some (hr, mdName, args)
      | Inr (mdClass, name) \<Rightarrow>
          if mdClass \<noteq> mdTypeDefNil \<and> bClassName
          then Option.bind (NameForTypeDef md mdClass mdName args) (\<lambda>(hr, n, args').
                 Some (hr, n @ ''.'' @ name, args'))
          else Some (S_OK, mdName @ name, args))"

definition memberref_name :: "type_metadata \<Rightarrow> bool \<Rightarrow> nat \<Rightarrow> string \<Rightarrow> string list \<Rightarrow> named option" where
  "memberref_name md bClassName mb mdName args =
     (case md_memberref md mb of
        Inl hr \<Rightarrow> Some (hr, mdName, args)
      | Inr (mdClass, name) \<Rightarrow>
          if TypeFromToken mdClass = mdtTypeRef \<and> bClassName
          then Option.bind (typeref_name md mdClass ''.'' mdName) (\<lambda>(hr, n). Some (hr, n @ name, args))
          else if TypeFromToken mdClass = mdtTypeDef \<and> bClassName
          then Option.bind (NameForTypeDef md mdClass mdName args) (\<lambda>(hr, n, args').
                 Some (hr, n @ ''.'' @ name, args'))
          else Some (S_OK, mdName @ name, args))"

definition mdtFieldDef :: nat where "mdtFieldDef = 0x04000000"
definition mdtMemberRef :: nat where "mdtMemberRef = 0x0a000000"

text \<open>\<open>mdName[0] = 0\<close>: the first character of a name that is not empty becomes the null character.\<close>

definition clear_first :: "string \<Rightarrow> string" where
  "clear_first s = (case s of [] \<Rightarrow> [] | _ # r \<Rightarrow> CHR 0x00 # r)"

text \<open>A type reference is looked up by the constant \<open>mdtTypeRef\<close>, not by its token.\<close>

definition NameForToken :: "type_metadata \<Rightarrow> nat \<Rightarrow> string \<Rightarrow> bool \<Rightarrow> string list \<Rightarrow> named option" where
  "NameForToken md mb mdName0 bClassName args =
     (let mdName = clear_first mdName0 in
       Option.bind
         (if TypeFromToken mb = mdtTypeDef then NameForTypeDef md mb mdName args
          else if TypeFromToken mb = mdtFieldDef then member_name md bClassName (md_field md mb) mdName args
          else if TypeFromToken mb = mdtMethodDef then member_name md bClassName (md_method md mb) mdName args
          else if TypeFromToken mb = mdtMemberRef then memberref_name md bClassName mb mdName args
          else if TypeFromToken mb = mdtTypeRef
          then map_option (\<lambda>(hr, n). (hr, n, args)) (typeref_name md mdtTypeRef [] mdName)
          else Some (E_FAIL, mdName, args))
         (\<lambda>(hr, n, args'). Some (hr, if succeeded hr then RenameToCSharp n else n, args')))"

section \<open>Names from the types of the runtime\<close>

text \<open>\<open>ICorDebugType\<close>: its element type, its type parameters (None when they cannot be enumerated), the first
  one, its rank, and its class: not to be had, a failure on the way to the metadata, or a token.\<close>

datatype class_answer = No_Class | Class_Failure hresult | Class_Token nat type_metadata

datatype cor_type = Cor_Type
  (ct_element: "hresult + cor_element")
  (ct_params: "cor_type list option")
  (ct_first: "cor_type option")
  (ct_rank: "u32 option")
  (ct_class: class_answer)

definition type_parts :: "hresult \<times> string \<times> string \<Rightarrow> hresult \<times> string" where
  "type_parts r = (case r of (hr, elementType, arrayType) \<Rightarrow>
     (hr, if succeeded hr then elementType @ arrayType else []))"

definition class_name :: "class_answer \<Rightarrow> string \<Rightarrow> string list \<Rightarrow> (hresult \<times> string) option" where
  "class_name answer dflt args =
     (case answer of
        No_Class \<Rightarrow> Some (S_OK, [])
      | Class_Failure hr \<Rightarrow> Some (hr, dflt)
      | Class_Token typeDef md \<Rightarrow>
          Option.bind (NameForToken md (typeDef OR mdtTypeDef) [] False args) (\<lambda>(hr, name, _).
            Some (S_OK, if succeeded hr then name else [])))"

text \<open>\<open>rank - 1\<close> is computed in 32 bits; the rank is 0 when it cannot be read.\<close>

definition rank_text :: "u32 option \<Rightarrow> string" where
  "rank_text r =
     (let rank = (case r of Some k \<Rightarrow> k | None \<Rightarrow> 0) in
       ''['' @ replicate (unat (rank - 1)) (CHR '','') @ '']'')"

fun GetTypeOfValue_parts :: "cor_type \<Rightarrow> (hresult \<times> string \<times> string) option"
  and AddGenericArgs_loop :: "cor_type list \<Rightarrow> string list option" where
  "GetTypeOfValue_parts (Cor_Type element params first rank class) =
     (case element of
        Inl hr \<Rightarrow> Some (hr, [], [])
      | Inr corElemType \<Rightarrow>
         (case corElemType of
            ELEMENT_TYPE_VALUETYPE \<Rightarrow>
              Option.bind (case params of None \<Rightarrow> Some [] | Some ts \<Rightarrow> AddGenericArgs_loop ts) (\<lambda>args.
              Option.bind (class_name class ''struct'' args) (\<lambda>(hr, name). Some (hr, name, [])))
          | ELEMENT_TYPE_CLASS \<Rightarrow>
              Option.bind (case params of None \<Rightarrow> Some [] | Some ts \<Rightarrow> AddGenericArgs_loop ts) (\<lambda>args.
              Option.bind (class_name class ''class'' args) (\<lambda>(hr, name). Some (hr, name, [])))
          | ELEMENT_TYPE_VOID \<Rightarrow> Some (S_OK, ''void'', [])
          | ELEMENT_TYPE_BOOLEAN \<Rightarrow> Some (S_OK, ''bool'', [])
          | ELEMENT_TYPE_CHAR \<Rightarrow> Some (S_OK, ''char'', [])
          | ELEMENT_TYPE_I1 \<Rightarrow> Some (S_OK, ''sbyte'', [])
          | ELEMENT_TYPE_U1 \<Rightarrow> Some (S_OK, ''byte'', [])
          | ELEMENT_TYPE_I2 \<Rightarrow> Some (S_OK, ''short'', [])
          | ELEMENT_TYPE_U2 \<Rightarrow> Some (S_OK, ''ushort'', [])
          | ELEMENT_TYPE_I4 \<Rightarrow> Some (S_OK, ''int'', [])
          | ELEMENT_TYPE_U4 \<Rightarrow> Some (S_OK, ''uint'', [])
          | ELEMENT_TYPE_I8 \<Rightarrow> Some (S_OK, ''long'', [])
          | ELEMENT_TYPE_U8 \<Rightarrow> Some (S_OK, ''ulong'', [])
          | ELEMENT_TYPE_R4 \<Rightarrow> Some (S_OK, ''float'', [])
          | ELEMENT_TYPE_R8 \<Rightarrow> Some (S_OK, ''double'', [])
          | ELEMENT_TYPE_OBJECT \<Rightarrow> Some (S_OK, ''object'', [])
          | ELEMENT_TYPE_STRING \<Rightarrow> Some (S_OK, ''string'', [])
          | ELEMENT_TYPE_I \<Rightarrow> Some (S_OK, ''IntPtr'', [])
          | ELEMENT_TYPE_U \<Rightarrow> Some (S_OK, ''UIntPtr'', [])
          | ELEMENT_TYPE_SZARRAY \<Rightarrow>
              Option.bind (case first of None \<Rightarrow> Some (S_OK, ''<unknown>'', []) | Some t \<Rightarrow> GetTypeOfValue_parts t)
                (\<lambda>(_, sub, subArray). Some (S_OK, sub, ''[]'' @ subArray))
          | ELEMENT_TYPE_ARRAY \<Rightarrow>
              Option.bind (case first of None \<Rightarrow> Some (S_OK, ''<unknown>'', []) | Some t \<Rightarrow> GetTypeOfValue_parts t)
                (\<lambda>(_, sub, subArray). Some (S_OK, sub, rank_text rank @ subArray))
          | ELEMENT_TYPE_BYREF \<Rightarrow>
              Option.bind (case first of None \<Rightarrow> Some (S_OK, ''<unknown>'', []) | Some t \<Rightarrow> GetTypeOfValue_parts t)
                (\<lambda>(_, sub, subArray). Some (S_OK, sub, subArray))
          | ELEMENT_TYPE_PTR \<Rightarrow>
              Option.bind (case first of None \<Rightarrow> Some (S_OK, ''<unknown>'', []) | Some t \<Rightarrow> GetTypeOfValue_parts t)
                (\<lambda>(_, sub, subArray). Some (S_OK, sub, subArray @ ''*''))
          | ELEMENT_TYPE_FNPTR \<Rightarrow> Some (S_OK, ''*(...)'', [])
          | ELEMENT_TYPE_TYPEDBYREF \<Rightarrow> Some (S_OK, ''typedbyref'', [])
          | other \<Rightarrow> Some (S_OK, ''(Unhandled CorElementType: 0x'' @ to_hex (element_code other) @ '')'', [])))"
| "AddGenericArgs_loop [] = Some []"
| "AddGenericArgs_loop (t # ts) =
     Option.bind (GetTypeOfValue_parts t) (\<lambda>r.
     Option.bind (AddGenericArgs_loop ts) (\<lambda>names. Some (snd (type_parts r) # names)))"

definition GetTypeOfValue :: "cor_type \<Rightarrow> (hresult \<times> string) option" where
  "GetTypeOfValue t = map_option type_parts (GetTypeOfValue_parts t)"

text \<open>The type of a value: None when it has no exact type.\<close>

definition GetTypeOfValue_value :: "hresult \<Rightarrow> cor_type option \<Rightarrow> (hresult \<times> string) option" where
  "GetTypeOfValue_value getType exactType =
     (if \<not> succeeded getType then Some (getType, [])
      else (case exactType of Some t \<Rightarrow> GetTypeOfValue t | None \<Rightarrow> Some (S_OK, ''<unknown>'')))"

end
