(* ===== verification/Type_Signatures.thy ===== *)
theory Type_Signatures imports Type_Printer begin

text \<open>
  The names of the types in signatures (\<open>TypePrinter::NameForTypeSig\<close>), which are read byte by byte, and the
  names of the methods of stack frames.
\<close>

section \<open>Signatures\<close>

definition all_elements :: "cor_element list" where
  "all_elements =
     [ELEMENT_TYPE_END, ELEMENT_TYPE_VOID, ELEMENT_TYPE_BOOLEAN, ELEMENT_TYPE_CHAR, ELEMENT_TYPE_I1, ELEMENT_TYPE_U1,
      ELEMENT_TYPE_I2, ELEMENT_TYPE_U2, ELEMENT_TYPE_I4, ELEMENT_TYPE_U4, ELEMENT_TYPE_I8, ELEMENT_TYPE_U8,
      ELEMENT_TYPE_R4, ELEMENT_TYPE_R8, ELEMENT_TYPE_STRING, ELEMENT_TYPE_PTR, ELEMENT_TYPE_BYREF,
      ELEMENT_TYPE_VALUETYPE, ELEMENT_TYPE_CLASS, ELEMENT_TYPE_VAR, ELEMENT_TYPE_ARRAY, ELEMENT_TYPE_GENERICINST,
      ELEMENT_TYPE_TYPEDBYREF, ELEMENT_TYPE_I, ELEMENT_TYPE_U, ELEMENT_TYPE_FNPTR, ELEMENT_TYPE_OBJECT,
      ELEMENT_TYPE_SZARRAY, ELEMENT_TYPE_MVAR, ELEMENT_TYPE_CMOD_REQD, ELEMENT_TYPE_CMOD_OPT, ELEMENT_TYPE_INTERNAL,
      ELEMENT_TYPE_MAX, ELEMENT_TYPE_MODIFIER, ELEMENT_TYPE_SENTINEL, ELEMENT_TYPE_PINNED]"

definition element_of :: "nat \<Rightarrow> cor_element option" where
  "element_of n = find (\<lambda>e. element_code e = n) all_elements"

text \<open>\<open>typePtr += n\<close> stays inside the signature.\<close>

definition advance :: "u32 \<Rightarrow> signature \<Rightarrow> signature option" where
  "advance n s = (if unat n \<le> length s then Some (drop (unat n) s) else None)"

text \<open>The two loops over the sizes and the lower bounds of an array, whose values are not used.  More of them
  than the rank are written past the end of their vector.\<close>

fun skip_sizes :: "nat \<Rightarrow> signature \<Rightarrow> signature option" where
  "skip_sizes 0 s = Some s"
| "skip_sizes (Suc n) s = Option.bind (CorSigUncompressData s) (\<lambda>(_, s'). skip_sizes n s')"

fun skip_bounds :: "nat \<Rightarrow> signature \<Rightarrow> signature option" where
  "skip_bounds 0 s = Some s"
| "skip_bounds (Suc n) s =
     Option.bind (CorSigUncompressSignedInt s 0) (\<lambda>(cb, _). Option.bind (advance cb s) (skip_bounds n))"

definition array_shape :: "signature \<Rightarrow> (string \<times> signature) option" where
  "array_shape s =
     Option.bind (CorSigUncompressData s) (\<lambda>(rank, s1).
       if rank = 0 then Some (''[BAD: RANK == 0!]'', s1)
       else
         Option.bind (CorSigUncompressData s1) (\<lambda>(numSizes, s2).
         if rank < numSizes then None
         else Option.bind (skip_sizes (unat numSizes) s2) (\<lambda>s3.
           Option.bind (CorSigUncompressData s3) (\<lambda>(numLowBounds, s4).
           if rank < numLowBounds then None
           else Option.bind (skip_bounds (unat numLowBounds) s4) (\<lambda>s5.
             Some (''['' @ (if rank = 1 \<and> numSizes = 0 \<and> numLowBounds = 0 then ''..''
                            else replicate (unat rank - 1) (CHR '','')) @ '']'', s5))))))"

text \<open>\<open>out\<close>, \<open>appendix\<close> and the position after the type; None when the bytes run out, a class is not found to end, or
  more sizes or bounds than dimensions are written.  Each call for a type reads a byte and the loop over the arguments
  of a generic type makes one call for each, so that the fuel, twice the length of the signature and one, is never used
  up: \<open>stop\<close> is what the calls would give then.\<close>

type_synonym sig_name = "(string \<times> string \<times> signature) option"

definition with_appendix :: "string \<Rightarrow> sig_name \<Rightarrow> sig_name" where
  "with_appendix t r = map_option (\<lambda>(out, appendix, s). (out, t @ appendix, s)) r"

definition token_out :: "type_metadata \<Rightarrow> u32 \<Rightarrow> string \<Rightarrow> string list \<Rightarrow> string option" where
  "token_out md tk out genericArgs =
     map_option (\<lambda>(_, name, _). name) (NameForToken md (unat tk) out True genericArgs)"

fun sig_loop :: "sig_name \<Rightarrow> nat \<Rightarrow> string list \<Rightarrow> type_metadata \<Rightarrow> signature \<Rightarrow> string \<Rightarrow> string \<Rightarrow> sig_name"
  and generic_loop :: "sig_name \<Rightarrow> nat \<Rightarrow> string list \<Rightarrow> type_metadata \<Rightarrow> nat \<Rightarrow> signature \<Rightarrow> (string list \<times> signature) option" where
  "sig_loop stop 0 args md s out appendix = stop"
| "sig_loop stop (Suc fuel) args md s0 out appendix =
     Option.bind (CorSigUncompressElementType s0) (\<lambda>(typ, s).
       case element_of (unat typ) of
         Some ELEMENT_TYPE_VOID \<Rightarrow> Some (''void'', appendix, s)
       | Some ELEMENT_TYPE_BOOLEAN \<Rightarrow> Some (''bool'', appendix, s)
       | Some ELEMENT_TYPE_CHAR \<Rightarrow> Some (''char'', appendix, s)
       | Some ELEMENT_TYPE_I1 \<Rightarrow> Some (''sbyte'', appendix, s)
       | Some ELEMENT_TYPE_U1 \<Rightarrow> Some (''byte'', appendix, s)
       | Some ELEMENT_TYPE_I2 \<Rightarrow> Some (''short'', appendix, s)
       | Some ELEMENT_TYPE_U2 \<Rightarrow> Some (''ushort'', appendix, s)
       | Some ELEMENT_TYPE_I4 \<Rightarrow> Some (''int'', appendix, s)
       | Some ELEMENT_TYPE_U4 \<Rightarrow> Some (''uint'', appendix, s)
       | Some ELEMENT_TYPE_I8 \<Rightarrow> Some (''long'', appendix, s)
       | Some ELEMENT_TYPE_U8 \<Rightarrow> Some (''ulong'', appendix, s)
       | Some ELEMENT_TYPE_R4 \<Rightarrow> Some (''float'', appendix, s)
       | Some ELEMENT_TYPE_R8 \<Rightarrow> Some (''double'', appendix, s)
       | Some ELEMENT_TYPE_U \<Rightarrow> Some (''UIntPtr'', appendix, s)
       | Some ELEMENT_TYPE_I \<Rightarrow> Some (''IntPtr'', appendix, s)
       | Some ELEMENT_TYPE_OBJECT \<Rightarrow> Some (''object'', appendix, s)
       | Some ELEMENT_TYPE_STRING \<Rightarrow> Some (''string'', appendix, s)
       | Some ELEMENT_TYPE_TYPEDBYREF \<Rightarrow> Some (''typedref'', appendix, s)
       | Some ELEMENT_TYPE_VALUETYPE \<Rightarrow>
           Option.bind (CorSigUncompressToken_size s) (\<lambda>(cb, tk).
           Option.bind (advance cb s) (\<lambda>s'.
           map_option (\<lambda>name. (name, appendix, s')) (token_out md tk out [])))
       | Some ELEMENT_TYPE_CLASS \<Rightarrow>
           Option.bind (CorSigUncompressToken_size s) (\<lambda>(cb, tk).
           Option.bind (advance cb s) (\<lambda>s'.
           map_option (\<lambda>name. (name, appendix, s')) (token_out md tk out [])))
       | Some ELEMENT_TYPE_SZARRAY \<Rightarrow> with_appendix ''[]'' (sig_loop stop fuel args md s out [])
       | Some ELEMENT_TYPE_ARRAY \<Rightarrow>
           Option.bind (sig_loop stop fuel args md s out []) (\<lambda>(out', subAppendix, s').
           map_option (\<lambda>(newAppendix, s''). (out', newAppendix @ subAppendix, s'')) (array_shape s'))
       | Some ELEMENT_TYPE_VAR \<Rightarrow>
           map_option (\<lambda>(n, s').
               (if unat n < length args then args ! unat n else ''!'' @ to_string (unat n), appendix, s'))
             (CorSigUncompressData s)
       | Some ELEMENT_TYPE_MVAR \<Rightarrow>
           map_option (\<lambda>(n, s'). (out @ ''!!'' @ to_string (unat n), appendix, s')) (CorSigUncompressData s)
       | Some ELEMENT_TYPE_FNPTR \<Rightarrow> Some (''method METHOD'', appendix, s)
       | Some ELEMENT_TYPE_GENERICINST \<Rightarrow>
           Option.bind (CorSigUncompressElementType_size s) (\<lambda>(cb1, _).
           Option.bind (advance cb1 s) (\<lambda>s1.
           Option.bind (CorSigUncompressToken_size s1) (\<lambda>(cb2, tk).
           Option.bind (advance cb2 s1) (\<lambda>s2.
           Option.bind (CorSigUncompressData s2) (\<lambda>(numArgs, s3).
           Option.bind (generic_loop stop fuel args md (unat numArgs) s3) (\<lambda>(genericArgs, s4).
           map_option (\<lambda>name. (name, appendix, s4)) (token_out md tk out genericArgs)))))))
       | Some ELEMENT_TYPE_PINNED \<Rightarrow> with_appendix '' pinned'' (sig_loop stop fuel args md s out [])
       | Some ELEMENT_TYPE_PTR \<Rightarrow> with_appendix ''*'' (sig_loop stop fuel args md s out [])
       | Some ELEMENT_TYPE_BYREF \<Rightarrow> with_appendix ''&'' (sig_loop stop fuel args md s out [])
       | _ \<Rightarrow>
           Some (if typ \<noteq> 0 then ''/* UNKNOWN TYPE (0x%X)*/'' @ to_string (unat typ) else out, appendix, s))"
| "generic_loop stop fuel args md 0 s = Some ([], s)"
| "generic_loop stop 0 args md (Suc n) s = map_option (\<lambda>(out, _, s'). ([out], s')) stop"
| "generic_loop stop (Suc fuel) args md (Suc n) s =
     Option.bind (sig_loop stop fuel args md s [] []) (\<lambda>(genType, genTypeAppendix, s').
     Option.bind (generic_loop stop fuel args md n s') (\<lambda>(rest, s'').
     Some ((genType @ genTypeAppendix) # rest, s'')))"

definition NameForTypeSig :: "signature \<Rightarrow> cor_type \<Rightarrow> type_metadata \<Rightarrow> string option" where
  "NameForTypeSig typePtr enclosingType md =
     Option.bind (case ct_params enclosingType of None \<Rightarrow> Some [] | Some ts \<Rightarrow> AddGenericArgs_loop ts) (\<lambda>args.
     map_option (\<lambda>(out, appendix, _). out @ appendix)
       (sig_loop None (2 * length typePtr + 1) args md typePtr [] []))"

section \<open>Methods of frames\<close>

text \<open>A frame: its method with the metadata (or the status of the first call that fails), and its type
  parameters (a failure, none to be enumerated, or the types).\<close>

record method_frame =
  mf_method :: "hresult + type_metadata \<times> nat"
  mf_params :: "hresult + cor_type list option"

definition frame_generic_args :: "method_frame \<Rightarrow> string list option" where
  "frame_generic_args f =
     (case mf_params f of
        Inl _ \<Rightarrow> Some []
      | Inr None \<Rightarrow> Some []
      | Inr (Some ts) \<Rightarrow> AddGenericArgs_loop ts)"

text \<open>Status, type name and method name.\<close>

definition GetTypeAndMethod :: "method_frame \<Rightarrow> (hresult \<times> string \<times> string) option" where
  "GetTypeAndMethod f =
     (case mf_method f of
        Inl hr \<Rightarrow> Some (hr, [], [])
      | Inr (md, methodDef) \<Rightarrow>
          (case md_method md methodDef of
             Inl hr \<Rightarrow> Some (hr, [], [])
           | Inr (memTypeDef, name) \<Rightarrow>
               let methodGenericsCount = md_generics md methodDef;
                   funcName = (if methodGenericsCount > 0 then name @ CHR 0x60 # to_string methodGenericsCount else name) in
               Option.bind (frame_generic_args f) (\<lambda>args.
               Option.bind
                 (if memTypeDef \<noteq> mdTypeDefNil
                  then map_option (\<lambda>(hr, n, args'). (if succeeded hr then n else [], args'))
                         (NameForTypeDef md memTypeDef [] args)
                  else Some ([], args)) (\<lambda>(typeName, args').
               Some (S_OK, typeName, fst (ConsumeGenericArgs funcName args'))))))"

definition GetMethodName :: "method_frame \<Rightarrow> (hresult \<times> string) option" where
  "GetMethodName f =
     map_option (\<lambda>(hr, typeName, methodName).
       if \<not> succeeded hr then (hr, [])
       else (S_OK, (if typeName \<noteq> [] then typeName @ ''.'' else []) @ methodName @ ''()''))
       (GetTypeAndMethod f)"

end
