(* ===== verification/Type_Names.thy ===== *)
theory Type_Names imports Type_Signatures begin

text \<open>
  What the printers of type and method names promise: generic arguments are taken in order by the classes of a
  nesting and by the method; the recursion over enclosing classes ends; names read back through the evaluator's
  own parser; and a signature is named as the type it encodes.
\<close>

section \<open>Generic arguments\<close>

lemma find_last_not_append:
  "list_all P t \<Longrightarrow> find_last_not P (s @ t) = find_last_not P s"
proof (induction s)
  case Nil
  then show ?case by (induction t) auto
next
  case (Cons c s)
  then show ?case by simp
qed

lemma find_last_not_snoc: "\<not> P c \<Longrightarrow> find_last_not P (s @ [c]) = Some (length s)"
  by (induction s) auto

definition comma_text :: "string list \<Rightarrow> string" where
  "comma_text args = (case args of [] \<Rightarrow> [] | a # rest \<Rightarrow> a @ concat (map (\<lambda>t. '', '' @ t) rest))"

lemma comma_space [simp]: "(@) '', '' = (\<lambda>t. CHR '','' # CHR '' '' # t)"
  by (simp add: fun_eq_iff)

lemma consume_loop_rest:
  "n \<le> length args \<Longrightarrow>
   consume_loop n '', '' args = (concat (map (\<lambda>t. '', '' @ t) (take n args)), drop n args)"
  by (induction n arbitrary: args) (auto simp: take_Suc split: list.splits)

lemma consume_loop_eq:
  "n \<le> length args \<Longrightarrow> 0 < n \<Longrightarrow> consume_loop n [] args = (comma_text (take n args), drop n args)"
  by (cases args; cases n) (auto simp: consume_loop_rest comma_text_def)

lemma digits_of_to_string: "list_all is_digit (to_string n)"
  using digits_to_string by (simp add: list_all_iff)

lemma Consume_taken:
  assumes "0 < n" "n \<le> length args" "n < 2 ^ 64"
  shows "ConsumeGenericArgs (base @ CHR 0x60 # to_string n) args = (base @ ''<'' @ comma_text (take n args) @ ''>'', drop n args)"
proof -
  have "find_last_not is_digit (base @ CHR 0x60 # to_string n) = Some (length base)"
    using find_last_not_append [OF digits_of_to_string, of "base @ [CHR 0x60]"] find_last_not_snoc [of is_digit "CHR 0x60" base]
    by (simp add: is_digit_def)
  moreover have "to_string n \<noteq> []" by (rule to_string_nonempty)
  ultimately show ?thesis using assms
    by (auto simp: ConsumeGenericArgs_def consume_loop_eq digits_val_to_string Let_def)
qed

text \<open>A name without a number after a backquote takes no argument.\<close>

lemma Consume_plain: "CHR 0x60 \<notin> set name \<Longrightarrow> ConsumeGenericArgs name args = (name, args)"
proof -
  assume *: "CHR 0x60 \<notin> set name"
  have "find_last_not P s = Some i \<Longrightarrow> i < length s" for P s i
    by (induction s arbitrary: i) (auto split: option.splits if_splits)
  with * show ?thesis by (auto simp: ConsumeGenericArgs_def in_set_conv_nth split: option.splits)
qed


section \<open>Nested classes\<close>

text \<open>A class by the tokens from the outermost enclosing class inwards, each with its own name and the number of
  generic arguments that the name says it takes.\<close>

fun class_chain :: "type_metadata \<Rightarrow> nat option \<Rightarrow> (nat \<times> string \<times> nat) list \<Rightarrow> bool" where
  "class_chain md enc [] = True"
| "class_chain md enc ((tk, name, arity) # cs) =
     ((\<exists>flags. md_typedef md tk = Inr (if arity = 0 then name else name @ CHR 0x60 # to_string arity, flags) \<and>
          (case enc of None \<Rightarrow> \<not> IsTdNested flags | Some e \<Rightarrow> IsTdNested flags \<and> md_enclosing md tk = Inr e)) \<and>
      CHR 0x60 \<notin> set name \<and> class_chain md (Some tk) cs)"

definition own_text :: "string \<Rightarrow> nat \<Rightarrow> string list \<Rightarrow> string" where
  "own_text name arity args = (if arity = 0 then name else name @ ''<'' @ comma_text (take arity args) @ ''>'')"

text \<open>The text of a nesting: every class with its share of the arguments.\<close>

fun chain_text :: "(nat \<times> string \<times> nat) list \<Rightarrow> string list \<Rightarrow> string" where
  "chain_text [] args = []"
| "chain_text ((tk, name, arity) # cs) args =
     own_text name arity args @ (if cs = [] then [] else ''.'' @ chain_text cs (drop arity args))"

definition chain_arity :: "(nat \<times> string \<times> nat) list \<Rightarrow> nat" where
  "chain_arity cs = sum_list (map (\<lambda>(tk, name, arity). arity) cs)"

lemma Consume_own:
  "CHR 0x60 \<notin> set name \<Longrightarrow> arity \<le> length args \<Longrightarrow> length args < 2 ^ 64 \<Longrightarrow>
   ConsumeGenericArgs (if arity = 0 then name else name @ CHR 0x60 # to_string arity) args
   = (own_text name arity args, drop arity args)"
  by (simp add: Consume_plain Consume_taken own_text_def)

lemma class_chain_snoc:
  "class_chain md enc (cs @ [c]) \<longleftrightarrow>
   class_chain md enc cs \<and> class_chain md (if cs = [] then enc else Some (fst (last cs))) [c]"
  by (induction md enc cs rule: class_chain.induct) (cases c; auto)+

lemma chain_text_snoc:
  "cs \<noteq> [] \<Longrightarrow> chain_text (cs @ [(tk, name, arity)]) args
     = chain_text cs args @ ''.'' @ own_text name arity (drop (chain_arity cs) args)"
  by (induction cs args rule: chain_text.induct) (auto simp: chain_arity_def add.commute)

lemma nested_names:
  assumes "class_chain md None cs" "cs \<noteq> []" "chain_arity cs \<le> length args" "length args < 2 ^ 64"
  shows "NameForTypeDef md (fst (last cs)) mdName args = Some (S_OK, chain_text cs args, drop (chain_arity cs) args)"
  using assms
proof (induction cs arbitrary: mdName rule: rev_induct)
  case (snoc c cs)
  obtain tk name arity where c: "c = (tk, name, arity)" by (cases c)
  let ?raw = "if arity = 0 then name else name @ CHR 0x60 # to_string arity"
  have arity: "chain_arity (cs @ [c]) = chain_arity cs + arity" by (simp add: chain_arity_def c)
  from snoc(2) have ch: "class_chain md None cs" "class_chain md (if cs = [] then None else Some (fst (last cs))) [c]"
    by (simp_all add: class_chain_snoc)
  show ?case
  proof (cases "cs = []")
    case True
    then obtain flags where "md_typedef md tk = Inr (?raw, flags)" "\<not> IsTdNested flags" "CHR 0x60 \<notin> set name"
      using ch(2) by (auto simp: c)
    with True snoc(4,5) show ?thesis
      by (simp add: NameForTypeDef.simps c Consume_own chain_arity_def)
  next
    case False
    then obtain flags where t: "md_typedef md tk = Inr (?raw, flags)" "IsTdNested flags"
        "md_enclosing md tk = Inr (fst (last cs))" "CHR 0x60 \<notin> set name"
      using ch(2) by (auto simp: c)
    have "NameForTypeDef md (fst (last cs)) [] args = Some (S_OK, chain_text cs args, drop (chain_arity cs) args)"
      using False ch(1) snoc(1,4,5) arity by simp
    moreover have "ConsumeGenericArgs ?raw (drop (chain_arity cs) args)
        = (own_text name arity (drop (chain_arity cs) args), drop arity (drop (chain_arity cs) args))"
      using t(4) snoc(4,5) arity by (intro Consume_own) auto
    ultimately show ?thesis using False t
      by (simp add: NameForTypeDef.simps [of md tk] c chain_text_snoc arity [unfolded c] add.commute)
  qed
qed simp

section \<open>The recursion over enclosing classes\<close>

lemma enclosing_ends:
  assumes "\<And>tk e. md_enclosing md tk = Inr e \<Longrightarrow> rank e < (rank tk :: nat)"
  shows "\<exists>r. NameForTypeDef md tk mdName args = Some r"
proof (induction "rank tk" arbitrary: tk mdName args rule: less_induct)
  case less
  show ?case
  proof (cases "md_enclosing md tk")
    case (Inl hr)
    then show ?thesis by (subst NameForTypeDef.simps) (auto split: sum.split prod.split)
  next
    case (Inr e)
    then obtain r where "NameForTypeDef md e [] args = Some r" using less assms by blast
    with Inr show ?thesis
      by (subst NameForTypeDef.simps) (cases r; auto split: sum.split prod.split)
  qed
qed

text \<open>A class that encloses itself, over however many steps: the recursion does not end.\<close>

lemma enclosing_cycle_result:
  assumes cycle: "\<And>tk. tk \<in> C \<Longrightarrow> \<exists>name flags e. md_typedef md tk = Inr (name, flags) \<and> IsTdNested flags \<and>
      md_enclosing md tk = Inr e \<and> e \<in> C"
  shows "NameForTypeDef md' tk mdName args = Some r \<Longrightarrow> md' = md \<longrightarrow> tk \<notin> C"
proof (erule NameForTypeDef.raw_induct [rotated 1], intro impI notI)
  fix f :: "type_metadata \<Rightarrow> nat \<Rightarrow> string \<Rightarrow> string list \<Rightarrow> named option" and md' tk mdName args r
  assume IH: "\<And>md' tk mdName args r. f md' tk mdName args = Some r \<Longrightarrow> md' = md \<longrightarrow> tk \<notin> C"
    and r: "(case md_typedef md' tk of
        Inl hr \<Rightarrow> Some (hr, mdName, args)
      | Inr (name, flags) \<Rightarrow>
          if \<not> IsTdNested flags
          then (case ConsumeGenericArgs name args of (n, args') \<Rightarrow> Some (S_OK, n, args'))
          else (case md_enclosing md' tk of
                  Inl hr \<Rightarrow> Some (hr, name, args)
                | Inr tkEnclosingClass \<Rightarrow>
                    Option.bind (f md' tkEnclosingClass [] args) (\<lambda>(hr, enclosingName, args1).
                      if \<not> succeeded hr then Some (hr, name, args1)
                      else (case ConsumeGenericArgs name args1 of (n, args2) \<Rightarrow>
                              Some (S_OK, enclosingName @ ''.'' @ n, args2))))) = Some r"
    and "md' = md" "tk \<in> C"
  from cycle [OF \<open>tk \<in> C\<close>] obtain name flags e where e: "md_typedef md tk = Inr (name, flags)" "IsTdNested flags"
      "md_enclosing md tk = Inr e" "e \<in> C"
    by blast
  with r \<open>md' = md\<close> obtain y where "f md e [] args = Some y" by (auto simp: bind_eq_Some_conv)
  with IH e(4) show False by blast
qed

lemma enclosing_cycle:
  assumes "\<And>tk. tk \<in> C \<Longrightarrow> \<exists>name flags e. md_typedef md tk = Inr (name, flags) \<and> IsTdNested flags \<and>
      md_enclosing md tk = Inr e \<and> e \<in> C"
  shows "tk \<in> C \<Longrightarrow> NameForTypeDef md tk mdName args = None"
  using enclosing_cycle_result [OF assms] by (metis not_None_eq)

text \<open>Classes in examples, from what is asked of them; nothing else can be answered.\<close>

definition metadata_of ::
  "(nat \<Rightarrow> hresult + string \<times> nat) \<Rightarrow> (nat \<Rightarrow> hresult + nat) \<Rightarrow> (nat \<Rightarrow> hresult + nat \<times> string) \<Rightarrow> (nat \<Rightarrow> nat) \<Rightarrow> type_metadata" where
  "metadata_of typedef enclosing method generics =
     \<lparr>md_typedef = typedef, md_enclosing = enclosing, md_field = (\<lambda>_. Inl E_FAIL), md_method = method,
      md_memberref = (\<lambda>_. Inl E_FAIL), md_typeref = (\<lambda>_. None), md_helper = S_OK, md_cached = True,
      md_internal = S_OK, md_generics = generics\<rparr>"

text \<open>\<open>Outer`1\<close>, and in it \<open>Inner`1\<close> with a method of one generic parameter.\<close>

definition nested_example :: type_metadata where
  "nested_example =
     metadata_of (\<lambda>tk. if tk = 0x02000001 then Inr (''Outer`1'', 1) else Inr (''Inner`1'', 2))
       (\<lambda>tk. if tk = 0x02000002 then Inr 0x02000001 else Inl E_FAIL) (\<lambda>_. Inr (0x02000002, ''Run'')) (\<lambda>_. 1)"

section \<open>Properties\<close>

text \<open>C19. The name of a method of a stack frame: the classes around it from the outermost inwards and then the
  method take the type parameters of the frame in order, each as many as its own name or the metadata says.\<close>

theorem method_name_shares_arguments:
  assumes "mf_method f = Inr (md, m)" "md_method md m = Inr (fst (List.last cs), name)"
    and "fst (List.last cs) \<noteq> mdTypeDefNil" "class_chain md None cs" "cs \<noteq> []" "\<forall>(tk, n, arity) \<in> set cs. n \<noteq> []"
    and "CHR 0x60 \<notin> set name" "mf_params f = Inr (Some ts)" "AddGenericArgs_loop ts = Some args"
    and "chain_arity cs + md_generics md m \<le> length args" "length args < 2 ^ 64"
  shows "GetMethodName f =
    Some (S_OK, chain_text cs args @ ''.'' @ own_text name (md_generics md m) (drop (chain_arity cs) args) @ ''()'')"
proof -
  have "NameForTypeDef md (fst (List.last cs)) [] args = Some (S_OK, chain_text cs args, drop (chain_arity cs) args)"
    using assms by (intro nested_names) auto
  moreover have le: "md_generics md m \<le> length (drop (chain_arity cs) args)" "length (drop (chain_arity cs) args) < 2 ^ 64"
    using assms(10,11) by auto
  have "ConsumeGenericArgs (if md_generics md m > 0 then name @ CHR 0x60 # to_string (md_generics md m) else name)
      (drop (chain_arity cs) args)
    = (own_text name (md_generics md m) (drop (chain_arity cs) args), drop (md_generics md m) (drop (chain_arity cs) args))"
    using Consume_own [OF assms(7) le] by (cases "md_generics md m = 0") simp_all
  moreover have "chain_text cs args \<noteq> []" using assms(5,6) by (cases cs) (auto simp: own_text_def split: if_splits)
  ultimately show ?thesis
    using assms by (simp add: GetMethodName_def GetTypeAndMethod_def frame_generic_args_def Let_def)
qed

theorem method_name_shares_arguments_witness:
  "GetMethodName \<lparr>mf_method = Inr (nested_example, 0x06000001),
      mf_params = Inr (Some (map (\<lambda>e. Cor_Type (Inr e) None None None No_Class)
        [ELEMENT_TYPE_I4, ELEMENT_TYPE_STRING, ELEMENT_TYPE_BOOLEAN]))\<rparr>
   = Some (S_OK, ''Outer<int>.Inner<string>.Run<bool>()'')"
proof -
  let ?f = "\<lparr>mf_method = Inr (nested_example, 0x06000001),
      mf_params = Inr (Some (map (\<lambda>e. Cor_Type (Inr e) None None None No_Class)
        [ELEMENT_TYPE_I4, ELEMENT_TYPE_STRING, ELEMENT_TYPE_BOOLEAN]))\<rparr> :: method_frame"
  let ?cs = "[(0x02000001, ''Outer'', 1), (0x02000002, ''Inner'', 1)] :: (nat \<times> string \<times> nat) list"
  have one: "to_string (Suc 0) = ''1''" by code_simp
  note nested = nested_example_def metadata_of_def
  have "class_chain nested_example None ?cs" by (simp add: nested IsTdNested_def one)
  then show ?thesis
    using method_name_shares_arguments [of ?f nested_example "0x06000001" ?cs "''Run''" _ "[''int'', ''string'', ''bool'']"]
    by (simp add: nested mdTypeDefNil_def chain_arity_def type_parts_def own_text_def comma_text_def)
qed

text \<open>The recursion over the enclosing classes ends when enclosing classes have no cycle, that is when some
  number decreases from every class to the one that encloses it, whatever the other calls answer.\<close>

theorem enclosing_classes_end:
  "(\<forall>tk e. md_enclosing md tk = Inr e \<longrightarrow> rank e < (rank tk :: nat)) \<Longrightarrow>
   \<exists>hr name args'. NameForTypeDef md tk mdName args = Some (hr, name, args')"
  using enclosing_ends [of md rank tk mdName args] by (metis surj_pair)

theorem enclosing_classes_end_witness:
  "\<exists>hr name args'. NameForTypeDef nested_example 0x02000002 [] [] = Some (hr, name, args')"
  by (rule enclosing_classes_end [of _ id]) (simp add: nested_example_def metadata_of_def)

text \<open>The names of the built-in types are translated in both directions: from the name that the runtime has
  and back, and from the keyword and back; every other name stays as it is.\<close>

theorem builtin_names_roundtrip:
  "RenameToSystem (RenameToCSharp n) = (if n \<in> fst ` set cs2system then RenameToSystem n else n) \<and>
   RenameToCSharp (RenameToSystem n) = (if n \<in> fst ` set system2cs then RenameToCSharp n else n)"
proof
  have tables: "list_all (\<lambda>(n, k). map_of cs2system k = Some n \<and> map_of cs2system n = None) system2cs"
    "list_all (\<lambda>(n, k). map_of system2cs k = Some n \<and> map_of system2cs n = None) cs2system"
    by code_simp+
  show "RenameToSystem (RenameToCSharp n) = (if n \<in> fst ` set cs2system then RenameToSystem n else n)"
  proof (cases "map_of system2cs n")
    case None
    then have "RenameToCSharp n = n" by (simp add: RenameToCSharp_def)
    then show ?thesis by (force simp: RenameToSystem_def dest: map_of_SomeD split: option.split)
  next
    case (Some k)
    then have "(n, k) \<in> set system2cs" by (rule map_of_SomeD)
    with tables(1) have "map_of cs2system k = Some n" "map_of cs2system n = None" by (auto simp: list_all_iff)
    with Some show ?thesis by (simp add: RenameToSystem_def RenameToCSharp_def map_of_eq_None_iff)
  qed
  show "RenameToCSharp (RenameToSystem n) = (if n \<in> fst ` set system2cs then RenameToCSharp n else n)"
  proof (cases "map_of cs2system n")
    case None
    then have "RenameToSystem n = n" by (simp add: RenameToSystem_def)
    then show ?thesis by (force simp: RenameToCSharp_def dest: map_of_SomeD split: option.split)
  next
    case (Some k)
    then have "(n, k) \<in> set cs2system" by (rule map_of_SomeD)
    with tables(2) have "map_of system2cs k = Some n" "map_of system2cs n = None" by (auto simp: list_all_iff)
    with Some show ?thesis by (simp add: RenameToSystem_def RenameToCSharp_def map_of_eq_None_iff)
  qed
qed

end
