(* ===== verification/Type_Encoding.thy ===== *)
theory Type_Encoding imports Type_Names begin

text \<open>
  Types as they are written into signatures, with the writers of \<open>cor.h\<close>, and the name each should have: the
  printer reads exactly the bytes of the type and gives that name.
\<close>

section \<open>Types and their bytes\<close>

datatype sig_type =
    Sig_Simple cor_element
  | Sig_Class bool u32
  | Sig_SzArray sig_type
  | Sig_Array sig_type u32 "u32 list" "u32 list"
  | Sig_Var u32
  | Sig_MVar u32
  | Sig_Inst bool u32 "sig_type list"
  | Sig_Ptr sig_type
  | Sig_ByRef sig_type
  | Sig_Pinned sig_type

definition put_data :: "u32 \<Rightarrow> signature" where "put_data x = snd (CorSigCompressData x)"
definition put_token :: "u32 \<Rightarrow> signature" where "put_token tk = snd (CorSigCompressToken tk)"
definition put_signed :: "u32 \<Rightarrow> signature" where "put_signed x = snd (CorSigCompressSignedInt x)"
definition put_element :: "cor_element \<Rightarrow> signature" where "put_element e = snd (CorSigCompressElementType e)"

definition class_element :: "bool \<Rightarrow> cor_element" where
  "class_element valuetype = (if valuetype then ELEMENT_TYPE_VALUETYPE else ELEMENT_TYPE_CLASS)"

fun encode :: "sig_type \<Rightarrow> signature" and encode_list :: "sig_type list \<Rightarrow> signature" where
  "encode (Sig_Simple e) = put_element e"
| "encode (Sig_Class vt tk) = put_element (class_element vt) @ put_token tk"
| "encode (Sig_SzArray t) = put_element ELEMENT_TYPE_SZARRAY @ encode t"
| "encode (Sig_Array t rank sizes bounds) =
     put_element ELEMENT_TYPE_ARRAY @ encode t @ put_data rank @
     put_data (of_nat (length sizes)) @ concat (map put_data sizes) @
     put_data (of_nat (length bounds)) @ concat (map put_signed bounds)"
| "encode (Sig_Var n) = put_element ELEMENT_TYPE_VAR @ put_data n"
| "encode (Sig_MVar n) = put_element ELEMENT_TYPE_MVAR @ put_data n"
| "encode (Sig_Inst vt tk ts) =
     put_element ELEMENT_TYPE_GENERICINST @ put_element (class_element vt) @ put_token tk @
     put_data (of_nat (length ts)) @ encode_list ts"
| "encode (Sig_Ptr t) = put_element ELEMENT_TYPE_PTR @ encode t"
| "encode (Sig_ByRef t) = put_element ELEMENT_TYPE_BYREF @ encode t"
| "encode (Sig_Pinned t) = put_element ELEMENT_TYPE_PINNED @ encode t"
| "encode_list [] = []"
| "encode_list (t # ts) = encode t @ encode_list ts"

section \<open>Their names\<close>

definition simple_names :: "(cor_element \<times> string) list" where
  "simple_names =
     [(ELEMENT_TYPE_VOID, ''void''), (ELEMENT_TYPE_BOOLEAN, ''bool''), (ELEMENT_TYPE_CHAR, ''char''),
      (ELEMENT_TYPE_I1, ''sbyte''), (ELEMENT_TYPE_U1, ''byte''), (ELEMENT_TYPE_I2, ''short''),
      (ELEMENT_TYPE_U2, ''ushort''), (ELEMENT_TYPE_I4, ''int''), (ELEMENT_TYPE_U4, ''uint''),
      (ELEMENT_TYPE_I8, ''long''), (ELEMENT_TYPE_U8, ''ulong''), (ELEMENT_TYPE_R4, ''float''),
      (ELEMENT_TYPE_R8, ''double''), (ELEMENT_TYPE_U, ''UIntPtr''), (ELEMENT_TYPE_I, ''IntPtr''),
      (ELEMENT_TYPE_OBJECT, ''object''), (ELEMENT_TYPE_STRING, ''string''), (ELEMENT_TYPE_TYPEDBYREF, ''typedref'')]"

definition array_text :: "u32 \<Rightarrow> u32 list \<Rightarrow> u32 list \<Rightarrow> string" where
  "array_text rank sizes bounds =
     ''['' @ (if rank = 1 \<and> sizes = [] \<and> bounds = [] then ''..'' else replicate (unat rank - 1) (CHR '','')) @ '']''"

text \<open>Name of the innermost element type, and the array part in reading order.\<close>

fun sig_text :: "type_metadata \<Rightarrow> string list \<Rightarrow> sig_type \<Rightarrow> (string \<times> string) option"
  and sig_texts :: "type_metadata \<Rightarrow> string list \<Rightarrow> sig_type list \<Rightarrow> string list option" where
  "sig_text md args (Sig_Simple e) = map_option (\<lambda>n. (n, [])) (map_of simple_names e)"
| "sig_text md args (Sig_Class vt tk) = map_option (\<lambda>n. (n, [])) (token_out md tk [] [])"
| "sig_text md args (Sig_SzArray t) = map_option (\<lambda>(n, a). (n, ''[]'' @ a)) (sig_text md args t)"
| "sig_text md args (Sig_Array t rank sizes bounds) =
     map_option (\<lambda>(n, a). (n, array_text rank sizes bounds @ a)) (sig_text md args t)"
| "sig_text md args (Sig_Var n) =
     Some (if unat n < length args then args ! unat n else ''!'' @ to_string (unat n), [])"
| "sig_text md args (Sig_MVar n) = Some (''!!'' @ to_string (unat n), [])"
| "sig_text md args (Sig_Inst vt tk ts) =
     Option.bind (sig_texts md args ts) (\<lambda>gs. map_option (\<lambda>n. (n, [])) (token_out md tk [] gs))"
| "sig_text md args (Sig_Ptr t) = map_option (\<lambda>(n, a). (n, ''*'' @ a)) (sig_text md args t)"
| "sig_text md args (Sig_ByRef t) = map_option (\<lambda>(n, a). (n, ''&'' @ a)) (sig_text md args t)"
| "sig_text md args (Sig_Pinned t) = map_option (\<lambda>(n, a). (n, '' pinned'' @ a)) (sig_text md args t)"
| "sig_texts md args [] = Some []"
| "sig_texts md args (t # ts) =
     Option.bind (sig_text md args t) (\<lambda>(n, a). map_option (\<lambda>gs. (n @ a) # gs) (sig_texts md args ts))"

text \<open>What can be written: numbers and tokens in the range of the writers, and no more sizes and bounds than
  dimensions.\<close>

definition number_ok :: "u32 \<Rightarrow> bool" where "number_ok x \<longleftrightarrow> x \<le> 0x1FFFFFFF"
definition token_ok :: "u32 \<Rightarrow> bool" where "token_ok tk \<longleftrightarrow> tk AND 0xff000000 \<in> set g_tkCorEncodeToken"

fun sig_wf :: "sig_type \<Rightarrow> bool" where
  "sig_wf (Sig_Simple e) = True"
| "sig_wf (Sig_Class vt tk) = token_ok tk"
| "sig_wf (Sig_SzArray t) = sig_wf t"
| "sig_wf (Sig_Array t rank sizes bounds) =
     (sig_wf t \<and> number_ok rank \<and> rank \<noteq> 0 \<and> length sizes \<le> unat rank \<and> length bounds \<le> unat rank \<and>
      (\<forall>x \<in> set sizes. number_ok x) \<and> (\<forall>x \<in> set bounds. fst (CorSigCompressSignedInt x) \<noteq> - 1))"
| "sig_wf (Sig_Var n) = number_ok n"
| "sig_wf (Sig_MVar n) = number_ok n"
| "sig_wf (Sig_Inst vt tk ts) = (token_ok tk \<and> length ts \<le> 0x1FFFFFFF \<and> (\<forall>t \<in> set ts. sig_wf t))"
| "sig_wf (Sig_Ptr t) = sig_wf t"
| "sig_wf (Sig_ByRef t) = sig_wf t"
| "sig_wf (Sig_Pinned t) = sig_wf t"

section \<open>Reading the parts\<close>

lemma element_of_code: "element_of (element_code e) = Some e"
  by (cases e) (simp_all add: element_of_def all_elements_def)

lemma element_code_bound: "element_code e < 128"
  by (cases e) simp_all

lemma read_element:
  "CorSigUncompressElementType (put_element e @ s) = Some (of_nat (element_code e), s)"
  "unat (of_nat (element_code e) :: u8) = element_code e"
  using element_code_bound [of e]
  by (simp_all add: put_element_def CorSigCompressElementType_def CorSigUncompressElementType_def
    unsigned_of_nat take_bit_nat_eq_self)

lemma skip_element:
  "CorSigUncompressElementType_size (put_element e @ s) = Some (1, of_nat (element_code e) AND 0x7f)"
  "advance 1 (put_element e @ s) = Some s"
  by (simp_all add: put_element_def CorSigCompressElementType_def CorSigUncompressElementType_size_def advance_def)

lemma length_put_element [simp]: "length (put_element e) = 1"
  by (simp add: put_element_def CorSigCompressElementType_def)

lemma read_data: "number_ok x \<Longrightarrow> CorSigUncompressData (put_data x @ s) = Some (x, s)"
proof -
  assume x: "number_ok x"
  obtain n bs where c: "CorSigCompressData x = (n, bs)" by fastforce
  then have "n \<noteq> - 1" using x by (auto simp: CorSigCompressData_def number_ok_def split: if_splits)
  from reads_compressed [OF c this] show ?thesis by (simp add: reads_def put_data_def c)
qed

lemma advance_over: "n = of_nat (length bs) \<Longrightarrow> length bs \<in> {1, 2, 4} \<Longrightarrow> advance n (bs @ s) = Some s"
  by (auto simp: advance_def)

lemma read_token:
  assumes "token_ok tk"
  obtains n where "CorSigUncompressToken_size (put_token tk @ s) = Some (n, tk)" "advance n (put_token tk @ s) = Some s"
proof -
  obtain j where j: "tk AND 0xff000000 = g_tkCorEncodeToken ! j" "j < 4"
    using assms by (metis encode_token_codes(5) in_set_conv_nth token_ok_def)
  obtain n bs where c: "CorSigCompressToken tk = (n, bs)" by fastforce
  note t = token_roundtrip [OF j c]
  have "advance n (bs @ s) = Some s" using t(3,4) by (rule advance_over)
  with t(2) [of s] show thesis by (intro that [of n]) (simp_all add: put_token_def c)
qed

lemma read_signed:
  assumes "fst (CorSigCompressSignedInt x) \<noteq> - 1"
  obtains n where "CorSigUncompressSignedInt (put_signed x @ s) p = Some (n, x)" "advance n (put_signed x @ s) = Some s"
proof -
  obtain n bs where c: "CorSigCompressSignedInt x = (n, bs)" by fastforce
  with assms have "n \<noteq> - 1" by simp
  note t = signed_roundtrip [OF c this]
  have len: "length bs \<in> {1, 2, 4}"
    using c \<open>n \<noteq> - 1\<close> by (auto simp: CorSigCompressSignedInt_def Let_def split: if_splits)
  have "n = of_nat (length bs)" by (rule conjunct2) (rule signed_roundtrip [OF c \<open>n \<noteq> - 1\<close>, of "[]" undefined])
  then have "advance n (bs @ s) = Some s" using len by (rule advance_over)
  then show thesis using t by (intro that [of n]) (auto simp: put_signed_def c)
qed

lemma skip_sizes_put: "\<forall>x \<in> set xs. number_ok x \<Longrightarrow> skip_sizes (length xs) (concat (map put_data xs) @ s) = Some s"
  by (induction xs) (simp_all add: read_data)

lemma skip_bounds_put:
  "\<forall>x \<in> set xs. fst (CorSigCompressSignedInt x) \<noteq> - 1 \<Longrightarrow>
   skip_bounds (length xs) (concat (map put_signed xs) @ s) = Some s"
proof (induction xs)
  case (Cons x xs)
  from Cons.prems have "fst (CorSigCompressSignedInt x) \<noteq> - 1" by simp
  from read_signed [OF this, of "concat (map put_signed xs) @ s" 0] obtain n where
    "CorSigUncompressSignedInt (put_signed x @ concat (map put_signed xs) @ s) 0 = Some (n, x)"
    "advance n (put_signed x @ concat (map put_signed xs) @ s) = Some (concat (map put_signed xs) @ s)" by blast
  with Cons show ?case by simp
qed simp

lemma small_count: "length xs \<le> 0x1FFFFFFF \<Longrightarrow> number_ok (of_nat (length xs)) \<and> unat (of_nat (length xs) :: u32) = length xs"
  by (simp add: number_ok_def word_le_nat_alt unsigned_of_nat take_bit_nat_eq_self)

lemma read_shape:
  assumes "sig_wf (Sig_Array t rank sizes bounds)"
  shows "array_shape (put_data rank @ put_data (of_nat (length sizes)) @ concat (map put_data sizes) @
     put_data (of_nat (length bounds)) @ concat (map put_signed bounds) @ s) = Some (array_text rank sizes bounds, s)"
proof -
  from assms have "unat rank \<le> 0x1FFFFFFF" by (simp add: number_ok_def word_le_nat_alt)
  with assms have l: "length sizes \<le> 0x1FFFFFFF" "length bounds \<le> 0x1FFFFFFF" by simp_all
  note c = small_count [OF l(1)] small_count [OF l(2)]
  have le: "\<not> rank < of_nat (length sizes)" "\<not> rank < of_nat (length bounds)"
    using assms c by (simp_all add: word_less_nat_alt not_less)
  have z: "(of_nat (length sizes) :: u32) = 0 \<longleftrightarrow> sizes = []" "(of_nat (length bounds) :: u32) = 0 \<longleftrightarrow> bounds = []"
    using c by (simp_all add: unat_eq_zero [symmetric])
  from assms have w: "number_ok rank" "rank \<noteq> 0" "\<forall>x \<in> set sizes. number_ok x"
      "\<forall>x \<in> set bounds. fst (CorSigCompressSignedInt x) \<noteq> - 1"
    by simp_all
  show ?thesis
    unfolding array_shape_def array_text_def z [symmetric]
    by (simp only: read_data [OF w(1)] read_data [OF c(1) [THEN conjunct1]] read_data [OF c(2) [THEN conjunct1]]
      c [THEN conjunct2] skip_sizes_put [OF w(3)] skip_bounds_put [OF w(4)] w(2) le Option.bind.simps prod.case if_False)
qed


section \<open>Reading types\<close>

lemma encode_nonempty: "0 < length (encode t)"
  by (cases t) simp_all

lemmas element_numbers =
  element_of_code [of ELEMENT_TYPE_VOID, simplified]
  element_of_code [of ELEMENT_TYPE_BOOLEAN, simplified]
  element_of_code [of ELEMENT_TYPE_CHAR, simplified]
  element_of_code [of ELEMENT_TYPE_I1, simplified]
  element_of_code [of ELEMENT_TYPE_U1, simplified]
  element_of_code [of ELEMENT_TYPE_I2, simplified]
  element_of_code [of ELEMENT_TYPE_U2, simplified]
  element_of_code [of ELEMENT_TYPE_I4, simplified]
  element_of_code [of ELEMENT_TYPE_U4, simplified]
  element_of_code [of ELEMENT_TYPE_I8, simplified]
  element_of_code [of ELEMENT_TYPE_U8, simplified]
  element_of_code [of ELEMENT_TYPE_R4, simplified]
  element_of_code [of ELEMENT_TYPE_R8, simplified]
  element_of_code [of ELEMENT_TYPE_STRING, simplified]
  element_of_code [of ELEMENT_TYPE_PTR, simplified]
  element_of_code [of ELEMENT_TYPE_BYREF, simplified]
  element_of_code [of ELEMENT_TYPE_VALUETYPE, simplified]
  element_of_code [of ELEMENT_TYPE_CLASS, simplified]
  element_of_code [of ELEMENT_TYPE_VAR, simplified]
  element_of_code [of ELEMENT_TYPE_ARRAY, simplified]
  element_of_code [of ELEMENT_TYPE_GENERICINST, simplified]
  element_of_code [of ELEMENT_TYPE_TYPEDBYREF, simplified]
  element_of_code [of ELEMENT_TYPE_I, simplified]
  element_of_code [of ELEMENT_TYPE_U, simplified]
  element_of_code [of ELEMENT_TYPE_OBJECT, simplified]
  element_of_code [of ELEMENT_TYPE_SZARRAY, simplified]
  element_of_code [of ELEMENT_TYPE_MVAR, simplified]
  element_of_code [of ELEMENT_TYPE_PINNED, simplified]

lemma sig_loop_simple:
  assumes "map_of simple_names e = Some n"
  shows "sig_loop None (Suc m) args md (put_element e @ s) [] [] = Some (n, [], s)"
proof -
  from assms have "(e, n) \<in> set simple_names" by (rule map_of_SomeD)
  then show ?thesis
    unfolding simple_names_def by (auto simp: read_element element_numbers)
qed

lemma token_type:
  assumes "token_ok tk"
  shows "sig_loop None (Suc m) args md (put_element (class_element vt) @ put_token tk @ s) [] []
       = map_option (\<lambda>n. (n, [], s)) (token_out md tk [] [])"
proof -
  from read_token [OF assms, of s] obtain n where
    "CorSigUncompressToken_size (put_token tk @ s) = Some (n, tk)" "advance n (put_token tk @ s) = Some s" by blast
  then show ?thesis by (cases vt) (simp_all add: class_element_def read_element element_numbers)
qed

lemma inst_type:
  assumes "token_ok tk" "length ts \<le> 0x1FFFFFFF"
    and "generic_loop None m args md (length ts) (encode_list ts @ s) = Some (gs, s)"
  shows "sig_loop None (Suc m) args md (encode (Sig_Inst vt tk ts) @ s) [] []
       = map_option (\<lambda>n. (n, [], s)) (token_out md tk [] gs)"
proof -
  let ?s = "put_data (of_nat (length ts)) @ encode_list ts @ s"
  from read_token [OF assms(1), of ?s] obtain n where n:
    "CorSigUncompressToken_size (put_token tk @ ?s) = Some (n, tk)" "advance n (put_token tk @ ?s) = Some ?s" by blast
  note c = small_count [OF assms(2)]
  show ?thesis
    using n read_data [OF c [THEN conjunct1], of "encode_list ts @ s"] c assms(3)
    by (simp add: read_element element_numbers skip_element)
qed

lemma sig_loop_encode:
  "sig_wf t \<Longrightarrow> sig_text md args t = Some (out, appendix) \<Longrightarrow> 2 * length (encode t) \<le> n \<Longrightarrow>
   sig_loop None n args md (encode t @ rest) [] [] = Some (out, appendix, rest)"
  "\<forall>t \<in> set ts. sig_wf t \<Longrightarrow> sig_texts md args ts = Some gs \<Longrightarrow> 2 * length (encode_list ts) < n \<Longrightarrow>
   generic_loop None n args md (length ts) (encode_list ts @ rest) = Some (gs, rest)"
proof (induction t and ts arbitrary: n out appendix rest and n gs rest rule: sig_text_sig_texts.induct)
  case (1 md args e)
  then show ?case by (cases n) (auto simp: sig_loop_simple simp del: sig_loop.simps)
next
  case (2 md args vt tk)
  then show ?case by (cases n) (auto simp: token_type simp del: sig_loop.simps)
next
  case (3 md args t)
  then obtain m where n: "n = Suc m" by (cases n) auto
  from 3(3) obtain o' a' where "sig_text md args t = Some (o', a')" "out = o'" "appendix = ''[]'' @ a'" by auto
  with 3 show ?case by (simp add: n read_element element_numbers with_appendix_def)
next
  case (4 md args t rank sizes bounds)
  then obtain m where n: "n = Suc m" by (cases n) auto
  from 4(3) obtain a' where a: "sig_text md args t = Some (out, a')" "appendix = array_text rank sizes bounds @ a'" by auto
  note shape = read_shape [OF 4(2)]
  have "sig_loop None m args md (encode t @ r) [] [] = Some (out, a', r)" for r
    using 4(1) [of _ _ m r] 4(2,4) a(1) by (simp add: n)
  then show ?case by (simp add: n read_element element_numbers shape a(2))
next
  case (5 md args k)
  then show ?case by (cases n) (auto simp: read_element element_numbers read_data)
next
  case (6 md args k)
  then show ?case by (cases n) (auto simp: read_element element_numbers read_data)
next
  case (7 md args vt tk ts)
  then obtain m where n: "n = Suc m" by (cases n) auto
  from 7(3) obtain gs where gs: "sig_texts md args ts = Some gs" "appendix = []" "token_out md tk [] gs = Some out"
    by (auto simp: bind_eq_Some_conv)
  have "generic_loop None m args md (length ts) (encode_list ts @ rest) = Some (gs, rest)"
    using 7(1) [OF _ gs(1)] 7(2,4) by (simp add: n)
  with inst_type [of tk ts m args md rest gs vt] 7(2) gs show ?case by (simp add: n del: encode.simps)
next
  case (8 md args t)
  then obtain m where n: "n = Suc m" by (cases n) auto
  from 8(3) obtain o' a' where "sig_text md args t = Some (o', a')" "out = o'" "appendix = ''*'' @ a'" by auto
  with 8 show ?case by (simp add: n read_element element_numbers with_appendix_def)
next
  case (9 md args t)
  then obtain m where n: "n = Suc m" by (cases n) auto
  from 9(3) obtain o' a' where "sig_text md args t = Some (o', a')" "out = o'" "appendix = ''&'' @ a'" by auto
  with 9 show ?case by (simp add: n read_element element_numbers with_appendix_def)
next
  case (10 md args t)
  then obtain m where n: "n = Suc m" by (cases n) auto
  from 10(3) obtain o' a' where "sig_text md args t = Some (o', a')" "out = o'" "appendix = '' pinned'' @ a'" by auto
  with 10 show ?case by (simp add: n read_element element_numbers with_appendix_def)
next
  case (11 md args)
  then show ?case by simp
next
  case (12 md args t ts)
  then obtain m where n: "n = Suc m" by (cases n) auto
  from 12(4) obtain o' a' gs' where p: "sig_text md args t = Some (o', a')" "sig_texts md args ts = Some gs'"
      "gs = (o' @ a') # gs'"
    by (auto simp: bind_eq_Some_conv)
  have "sig_loop None m args md (encode t @ r) [] [] = Some (o', a', r)" for r
    using 12(1) [OF _ p(1), of m r] 12(3,5) by (simp add: n)
  moreover have "generic_loop None m args md (length ts) (encode_list ts @ rest) = Some (gs', rest)"
    using 12(2) [OF p(1) refl _ p(2), of m rest] 12(3,5) encode_nonempty [of t] by (simp add: n del: length_greater_0_conv)
  ultimately show ?case by (simp add: n p(3))
qed

section \<open>The fuel\<close>

lemma element_shorter: "CorSigUncompressElementType s = Some (ty, s') \<Longrightarrow> length s' < length s"
  by (auto simp: CorSigUncompressElementType_def split: list.splits)

lemma data_shorter: "CorSigUncompressData s = Some (x, s') \<Longrightarrow> length s' < length s"
  by (auto simp: CorSigUncompressData_def CorSigUncompressBigData_def split: list.splits if_splits)

lemma advance_shorter: "advance n s = Some s' \<Longrightarrow> length s' \<le> length s"
  by (auto simp: advance_def split: if_splits)

lemma skip_sizes_shorter: "skip_sizes n s = Some s' \<Longrightarrow> length s' \<le> length s"
  by (induction n arbitrary: s) (fastforce simp: bind_eq_Some_conv dest!: data_shorter)+

lemma skip_bounds_shorter: "skip_bounds n s = Some s' \<Longrightarrow> length s' \<le> length s"
  by (induction n arbitrary: s) (fastforce simp: bind_eq_Some_conv dest!: advance_shorter)+

lemma shape_shorter: "array_shape s = Some (t, s') \<Longrightarrow> length s' \<le> length s"
  by (fastforce simp: array_shape_def bind_eq_Some_conv split: if_splits
    dest!: data_shorter skip_sizes_shorter skip_bounds_shorter)

lemma loops_shorter:
  "(sig_loop None n args md s out appendix = Some (out', appendix', s') \<longrightarrow> length s' < length s) \<and>
   (generic_loop None n args md k s = Some (gs, s') \<longrightarrow> length s' \<le> length s)"
proof (induction n arbitrary: s out appendix out' appendix' s' k gs)
  case 0
  then show ?case by (cases k) simp_all
next
  case (Suc n)
  have type: "length s' < length s" if "sig_loop None n args md s out appendix = Some (out', appendix', s')"
    for s out appendix out' appendix' s' using that Suc.IH by blast
  have args: "length s' \<le> length s" if "generic_loop None n args md k s = Some (gs, s')" for k s gs s'
    using that Suc.IH by blast
  have "length s' < length s" if r: "sig_loop None (Suc n) args md s out appendix = Some (out', appendix', s')"
  proof -
    from r obtain ty s1 where s1: "CorSigUncompressElementType s = Some (ty, s1)" by (auto simp: bind_eq_Some_conv)
    have "length s' \<le> length s1"
    proof (cases "element_of (unat ty)")
      case None
      with r s1 show ?thesis by simp
    next
      case (Some e)
      with r s1 show ?thesis
        by (cases e) (auto simp: bind_eq_Some_conv with_appendix_def dest!: type args shape_shorter data_shorter advance_shorter)
    qed
    with element_shorter [OF s1] show ?thesis by simp
  qed
  moreover have "length s' \<le> length s" if r: "generic_loop None (Suc n) args md k s = Some (gs, s')"
    using r by (cases k) (auto simp: bind_eq_Some_conv dest!: type args)
  ultimately show ?case by blast
qed

lemma sig_loop_shorter: "sig_loop None n args md s out appendix = Some (out', appendix', s') \<Longrightarrow> length s' < length s"
  using loops_shorter by blast

lemma sig_loop_cong:
  assumes "\<And>s' out. length s' < length s \<Longrightarrow> sig_loop z n args md s' out [] = sig_loop None m args md s' out []"
    and "\<And>s' k. length s' < length s \<Longrightarrow> generic_loop z n args md k s' = generic_loop None m args md k s'"
  shows "sig_loop z (Suc n) args md s out appendix = sig_loop None (Suc m) args md s out appendix"
proof (cases "CorSigUncompressElementType s")
  case (Some r)
  then obtain ty s1 where s1: "CorSigUncompressElementType s = Some (ty, s1)" by (cases r) auto
  note shorter = element_shorter [OF s1]
  show ?thesis
  proof (cases "element_of (unat ty)")
    case (Some e)
    show ?thesis
    proof (cases "e = ELEMENT_TYPE_GENERICINST")
      case True
      with s1 Some shorter show ?thesis
        by (auto intro!: Option.bind_cong simp: assms(2) dest!: data_shorter advance_shorter)
    next
      case False
      with s1 Some shorter assms(1) show ?thesis by (cases e) simp_all
    qed
  qed (simp add: s1)
qed simp

lemma fuel_step:
  "(2 * length s \<le> n \<longrightarrow> sig_loop None (Suc n) args md s out appendix = sig_loop None n args md s out appendix) \<and>
   (2 * length s < n \<longrightarrow> generic_loop None (Suc n) args md k s = generic_loop None n args md k s)"
proof (induction n arbitrary: s out appendix k)
  case 0
  then show ?case by (simp add: CorSigUncompressElementType_def)
next
  case (Suc n)
  have "sig_loop None (Suc (Suc n)) args md s out appendix = sig_loop None (Suc n) args md s out appendix" if "2 * length s \<le> Suc n"
    using that Suc.IH by (intro sig_loop_cong) auto
  moreover have "generic_loop None (Suc (Suc n)) args md k s = generic_loop None (Suc n) args md k s" if "2 * length s < Suc n"
  proof (cases k)
    case (Suc j)
    have "sig_loop None (Suc n) args md s [] [] = sig_loop None n args md s [] []" using that Suc.IH by simp
    then show ?thesis
      using that Suc.IH unfolding Suc generic_loop.simps
      by (auto intro!: Option.bind_cong dest!: sig_loop_shorter)
  qed simp
  ultimately show ?case by blast
qed

text \<open>Whatever the calls would give without fuel is not looked at.\<close>

lemma stop_unseen:
  "(2 * length s < n \<longrightarrow> sig_loop z n args md s out appendix = sig_loop None n args md s out appendix) \<and>
   (2 * length s + 1 < n \<longrightarrow> generic_loop z n args md k s = generic_loop None n args md k s)"
proof (induction n arbitrary: s out appendix k)
  case (Suc n)
  have "sig_loop z (Suc n) args md s out appendix = sig_loop None (Suc n) args md s out appendix" if "2 * length s < Suc n"
    using that Suc.IH by (intro sig_loop_cong) auto
  moreover have "generic_loop z (Suc n) args md k s = generic_loop None (Suc n) args md k s" if "2 * length s + 1 < Suc n"
  proof (cases k)
    case (Suc j)
    have "sig_loop z n args md s [] [] = sig_loop None n args md s [] []" using that Suc.IH by simp
    then show ?thesis
      using that Suc.IH unfolding Suc generic_loop.simps
      by (auto intro!: Option.bind_cong dest!: sig_loop_shorter)
  qed simp
  ultimately show ?case by blast
qed simp

lemma fuel_enough: "2 * length s \<le> n \<Longrightarrow> sig_loop None (n + d) args md s out appendix = sig_loop None n args md s out appendix"
  by (induction d) (simp_all add: fuel_step del: sig_loop.simps)

section \<open>Properties\<close>

text \<open>C37. Reading the name of a signature ends, whatever its bytes are, and within the fuel of the model: with any more
  fuel, and whatever the model would give for a call without fuel, the name is the same, so no call is without.\<close>

theorem signature_fuel_enough:
  "2 * length typePtr + 1 \<le> n \<Longrightarrow>
   NameForTypeSig typePtr T md =
     Option.bind (case ct_params T of None \<Rightarrow> Some [] | Some ts \<Rightarrow> AddGenericArgs_loop ts) (\<lambda>args.
       map_option (\<lambda>(out, appendix, _). out @ appendix) (sig_loop stop n args md typePtr [] []))"
  using fuel_enough [of typePtr "2 * length typePtr + 1" "n - (2 * length typePtr + 1)"] stop_unseen [of typePtr n stop]
  by (simp add: NameForTypeSig_def)

theorem signature_fuel_enough_witness:
  "NameForTypeSig [0x1D, 0x08] (Cor_Type (Inr ELEMENT_TYPE_CLASS) None None None No_Class) nested_example =
     map_option (\<lambda>(out, appendix, _). out @ appendix)
       (sig_loop (Some (''out of fuel'', [], [])) 9 [] nested_example [0x1D, 0x08] [] [])"
  using signature_fuel_enough [of "[0x1D, 0x08]" 9 "Cor_Type (Inr ELEMENT_TYPE_CLASS) None None None No_Class" nested_example
      "Some (''out of fuel'', [], [])"]
  by simp

text \<open>C15. For a type made of simple types, classes and value types, type variables, generic instances, arrays, pointers,
  references and pinned types (not of function pointers, modifiers and internal types, whose operands the printer
  leaves unread), the printer of signatures reads exactly the bytes of the type and gives it its name: the text of the
  innermost type, then the arrays, pointers and references around it from the outside in, with the generic
  arguments of the enclosing type in the place of its variables.\<close>

theorem signature_named:
  assumes "sig_wf t" "sig_text md args t = Some (out, appendix)"
    and "(case ct_params T of None \<Rightarrow> Some [] | Some ts \<Rightarrow> AddGenericArgs_loop ts) = Some args"
  shows "NameForTypeSig (encode t @ rest) T md = Some (out @ appendix)"
  using sig_loop_encode(1) [OF assms(1,2), of "2 * length (encode t @ rest) + 1" rest] assms(3)
  by (simp add: NameForTypeSig_def)

theorem signature_named_witness:
  "NameForTypeSig [0x14, 0x15, 0x12, 0x04, 0x02, 0x08, 0x13, 0x00, 0x02, 0x00, 0x00, 0x1D]
      (Cor_Type (Inr ELEMENT_TYPE_CLASS) (Some [Cor_Type (Inr ELEMENT_TYPE_STRING) None None None No_Class]) None None No_Class)
      (metadata_of (\<lambda>_. Inr (''Map`2'', 0)) (\<lambda>_. Inl E_FAIL) (\<lambda>_. Inl E_FAIL) (\<lambda>_. 0))
   = Some ''Map<int, string>[,]''"
proof -
  let ?t = "Sig_Array (Sig_Inst False 0x02000001 [Sig_Simple ELEMENT_TYPE_I4, Sig_Var 0]) 2 [] []"
  let ?md = "metadata_of (\<lambda>_. Inr (''Map`2'', 0)) (\<lambda>_. Inl E_FAIL) (\<lambda>_. Inl E_FAIL) (\<lambda>_. 0)"
  let ?T = "Cor_Type (Inr ELEMENT_TYPE_CLASS) (Some [Cor_Type (Inr ELEMENT_TYPE_STRING) None None None No_Class]) None None No_Class"
  have bytes: "encode ?t @ [0x1D] = [0x14, 0x15, 0x12, 0x04, 0x02, 0x08, 0x13, 0x00, 0x02, 0x00, 0x00, 0x1D]"
    by (simp add: put_element_def put_data_def put_token_def class_element_def CorSigCompressElementType_def
      CorSigCompressData_def CorSigCompressToken_def encode_token_codes [simplified])
  have two: "digits_val ''2'' = 2" by code_simp
  have loop: "consume_loop 2 [] [''int'', ''string''] = (''int, string'', [])" by code_simp
  have consume: "ConsumeGenericArgs ''Map`2'' [''int'', ''string''] = (''Map<int, string>'', [])"
    by (simp add: ConsumeGenericArgs_def is_digit_def two loop)
  have "NameForTypeDef ?md 0x02000001 [] [''int'', ''string''] = Some (S_OK, ''Map<int, string>'', [])"
    by (subst NameForTypeDef.simps) (simp add: metadata_of_def IsTdNested_def consume)
  moreover have "RenameToCSharp ''Map<int, string>'' = ''Map<int, string>''" by code_simp
  ultimately have "token_out ?md 0x02000001 [] [''int'', ''string''] = Some ''Map<int, string>''"
    by (simp add: token_out_def NameForToken_def TypeFromToken_def mdtTypeDef_def clear_first_def)
  then have named: "sig_text ?md [''string''] ?t = Some (''Map<int, string>'', ''[,]'')"
    by (simp add: simple_names_def array_text_def)
  have wf: "sig_wf ?t" by (simp add: token_ok_def number_ok_def g_tkCorEncodeToken_def mdtTypeDef_def)
  have args: "(case ct_params ?T of None \<Rightarrow> Some [] | Some ts \<Rightarrow> AddGenericArgs_loop ts) = Some [''string'']"
    by (simp add: type_parts_def)
  have "''Map<int, string>[,]'' = ''Map<int, string>'' @ ''[,]''" by simp
  with signature_named [OF wf named args, of "[0x1D]"] show ?thesis by (simp only: bytes)
qed

text \<open>C36. Every type of another assembly has the same name in a signature, whichever it is, since the reference is
  looked up by the constant of the kind instead of the token.\<close>

theorem typeref_names_alike:
  assumes "a AND 0xff000000 = of_nat mdtTypeRef" "b AND 0xff000000 = of_nat mdtTypeRef"
  shows "NameForTypeSig (encode (Sig_Class vt a) @ rest) T md = NameForTypeSig (encode (Sig_Class vt b) @ rest) T md"
proof -
  have kind: "token_ok tk" "TypeFromToken (unat tk) = mdtTypeRef" if "tk AND 0xff000000 = of_nat mdtTypeRef" for tk
  proof -
    show "token_ok tk" using that by (simp add: token_ok_def g_tkCorEncodeToken_def)
    define r where "r = tk AND 0x00ffffff"
    have "unat r < 2 ^ 24"
      using word_and_le1 [of tk "0x00ffffff"] by (simp add: r_def word_le_nat_alt)
    moreover have "tk = r + 0x01000000"
    proof -
      have "r AND 0x01000000 = 0" by (simp add: r_def and.assoc)
      then show ?thesis using token_parts [of tk] that by (simp add: r_def mdtTypeRef_def disjunctive_add_eq_or)
    qed
    ultimately have "unat tk = unat r + 2 ^ 24" by (simp add: unat_word_ariths)
    with \<open>unat r < 2 ^ 24\<close> show "TypeFromToken (unat tk) = mdtTypeRef"
      by (simp add: TypeFromToken_def mdtTypeRef_def)
  qed
  have "token_out md a [] [] = token_out md b [] []"
    by (simp add: token_out_def NameForToken_def kind(2) [OF assms(1)] kind(2) [OF assms(2)] mdtTypeRef_def mdtTypeDef_def
      mdtFieldDef_def mdtMethodDef_def mdtMemberRef_def)
  then show ?thesis
    using token_type [OF kind(1) [OF assms(1)]] token_type [OF kind(1) [OF assms(2)]]
    by (simp add: NameForTypeSig_def)
qed

theorem typeref_names_alike_witness:
  "\<forall>T. NameForTypeSig (encode (Sig_Class False 0x01000005)) T nested_example
   = NameForTypeSig (encode (Sig_Class False 0x01000006)) T nested_example"
  using typeref_names_alike [of "0x01000005" "0x01000006" False "[]" _ nested_example] by (simp add: mdtTypeRef_def)

end
