(* ===== verification/Type_Readback.thy ===== *)
theory Type_Readback imports Type_Encoding begin

text \<open>
  Printed names are read back: the evaluator splits the name that \<open>GetTypeOfValue\<close> prints for a class, with its
  generic arguments and array dimensions, into the name that the metadata knows and the names of the arguments.
\<close>

section \<open>Types by their names\<close>

text \<open>The parts of the name, the generic arguments, and the ranks of the arrays around it, outermost first.\<close>

datatype written = Written (w_parts: "string list") (w_args: "written list") (w_dims: "nat list")

fun dotted :: "string list \<Rightarrow> string" where
  "dotted [] = []"
| "dotted (p # ps) = p @ concat (map (\<lambda>q. CHR ''.'' # q) ps)"

definition dim_text :: "nat \<Rightarrow> string" where
  "dim_text d = ''['' @ replicate (d - 1) (CHR '','') @ '']''"

definition dims_text :: "nat list \<Rightarrow> string" where
  "dims_text dims = concat (map dim_text dims)"

text \<open>As printed, and without the blanks after the commas.\<close>

fun base_text :: "string list \<Rightarrow> string list \<Rightarrow> string" where
  "base_text ps args = dotted ps @ (if args = [] then [] else ''<'' @ comma_text args @ ''>'')"

fun written_text :: "written \<Rightarrow> string" where
  "written_text (Written ps args dims) = base_text ps (map written_text args) @ dims_text dims"

definition args_text :: "string list \<Rightarrow> string" where
  "args_text args = (if args = [] then [] else CHR ''<'' # comma_list args @ ''>'')"

fun compact_text :: "written \<Rightarrow> string" where
  "compact_text (Written ps args dims) = dotted ps @ args_text (map compact_text args) @ dims_text dims"

definition raw_name :: "string \<Rightarrow> nat \<Rightarrow> string" where
  "raw_name name arity = (if arity = 0 then name else name @ CHR 0x60 # to_string arity)"

definition part_ok :: "string \<Rightarrow> bool" where
  "part_ok p \<longleftrightarrow> p \<noteq> [] \<and>
     set p \<inter> {CHR ''.'', CHR ''['', CHR '']'', CHR ''<'', CHR ''>'', CHR '','', CHR '' '', CHR 0x60} = {}"

fun written_ok :: "written \<Rightarrow> bool" where
  "written_ok (Written ps args dims) \<longleftrightarrow>
     ps \<noteq> [] \<and> list_all part_ok ps \<and> list_all (\<lambda>d. 0 < d \<and> d < 2 ^ 32) dims \<and> length args < 2 ^ 64 \<and>
     (args = [] \<longrightarrow> dotted ps \<notin> fst ` set system2cs) \<and> (\<forall>t \<in> set args. written_ok t)"

text \<open>The type of the runtime: a built-in type for a keyword, else the class with the token of its name.\<close>

definition keywords_of :: "(string \<times> cor_element) list" where
  "keywords_of = map (\<lambda>(e, n). (n, e)) (butlast simple_names)"

fun array_of :: "nat list \<Rightarrow> cor_type \<Rightarrow> cor_type" where
  "array_of [] t = t"
| "array_of (d # ds) t =
     Cor_Type (Inr (if d = 1 then ELEMENT_TYPE_SZARRAY else ELEMENT_TYPE_ARRAY)) None (Some (array_of ds t))
       (Some (of_nat d)) No_Class"

definition class_of :: "type_metadata \<Rightarrow> (string \<Rightarrow> nat) \<Rightarrow> string list \<Rightarrow> cor_type list \<Rightarrow> cor_type" where
  "class_of md tok ps args =
     (case map_of keywords_of (dotted ps) of
        Some e \<Rightarrow> if args = [] then Cor_Type (Inr e) None None None No_Class
                  else Cor_Type (Inr ELEMENT_TYPE_CLASS) (Some args) None None
                         (Class_Token (tok (raw_name (dotted ps) (length args))) md)
      | None \<Rightarrow> Cor_Type (Inr ELEMENT_TYPE_CLASS) (Some args) None None
                  (Class_Token (tok (raw_name (dotted ps) (length args))) md))"

fun type_of :: "type_metadata \<Rightarrow> (string \<Rightarrow> nat) \<Rightarrow> written \<Rightarrow> cor_type" where
  "type_of md tok (Written ps args dims) = array_of dims (class_of md tok ps (map (type_of md tok) args))"

text \<open>The metadata has the classes that are no keywords under their tokens, and none is nested.\<close>

definition class_known :: "type_metadata \<Rightarrow> (string \<Rightarrow> nat) \<Rightarrow> string \<Rightarrow> bool" where
  "class_known md tok name \<longleftrightarrow>
     TypeFromToken (tok name OR mdtTypeDef) = mdtTypeDef \<and> md_typedef md (tok name OR mdtTypeDef) = Inr (name, 0)"

fun known :: "type_metadata \<Rightarrow> (string \<Rightarrow> nat) \<Rightarrow> written \<Rightarrow> bool" where
  "known md tok (Written ps args dims) \<longleftrightarrow>
     (args = [] \<and> map_of keywords_of (dotted ps) \<noteq> None \<or> class_known md tok (raw_name (dotted ps) (length args))) \<and>
     (\<forall>t \<in> set args. known md tok t)"

section \<open>Printing\<close>

lemma array_of_parts:
  "list_all (\<lambda>d. 0 < d \<and> d < 2 ^ 32) dims \<Longrightarrow> GetTypeOfValue_parts t = Some (S_OK, name, []) \<Longrightarrow>
   GetTypeOfValue_parts (array_of dims t) = Some (S_OK, name, dims_text dims)"
proof (induction dims)
  case (Cons d ds)
  have "unat (of_nat d - 1 :: u32) = d - 1"
    using Cons.prems(1) by (subst unat_minus_one) (auto simp: unsigned_of_nat take_bit_nat_eq_self unat_eq_zero [symmetric])
  with Cons show ?case by (auto simp: dims_text_def dim_text_def rank_text_def)
qed (simp add: dims_text_def)

lemma keyword_printed:
  "map_of keywords_of n = Some e \<Longrightarrow> GetTypeOfValue_parts (Cor_Type (Inr e) None None None No_Class) = Some (S_OK, n, [])"
  by (drule map_of_SomeD) (auto simp: keywords_of_def simple_names_def)

lemma dotted_chars: "list_all part_ok ps \<Longrightarrow> c \<in> {CHR ''['', CHR '']'', CHR ''<'', CHR ''>'', CHR '','', CHR '' '', CHR 0x60} \<Longrightarrow>
    c \<notin> set (dotted ps)"
  by (cases ps) (auto simp: part_ok_def list_all_iff)

lemma Rename_generic: "CHR ''<'' \<in> set name \<or> name \<notin> fst ` set system2cs \<Longrightarrow> RenameToCSharp name = name"
proof -
  have keys: "\<forall>n \<in> fst ` set system2cs. CHR ''<'' \<notin> set n" by (simp add: system2cs_def)
  assume "CHR ''<'' \<in> set name \<or> name \<notin> fst ` set system2cs"
  with keys have "map_of system2cs name = None" by (auto simp: map_of_eq_None_iff)
  then show ?thesis by (simp add: RenameToCSharp_def)
qed

lemma class_printed:
  assumes "list_all part_ok ps" "length args < 2 ^ 64"
    and "args = [] \<and> map_of keywords_of (dotted ps) \<noteq> None \<or> class_known md tok (raw_name (dotted ps) (length args))"
    and "args = [] \<longrightarrow> dotted ps \<notin> fst ` set system2cs"
    and "AddGenericArgs_loop ts = Some args" "length ts = length args"
  shows "GetTypeOfValue_parts (class_of md tok ps ts) = Some (S_OK, base_text ps args, [])"
proof (cases "args = [] \<and> map_of keywords_of (dotted ps) \<noteq> None")
  case True
  then show ?thesis using assms(6) keyword_printed [of "dotted ps"] by (auto simp: class_of_def)
next
  case False
  with assms(3) have kn: "class_known md tok (raw_name (dotted ps) (length args))" by blast
  have q: "CHR 0x60 \<notin> set (dotted ps)" using dotted_chars [OF assms(1), of "CHR 0x60"] by simp
  have "ConsumeGenericArgs (raw_name (dotted ps) (length args)) args = (base_text ps args, [])"
    using Consume_own [OF q, of "length args" args] assms(2) by (simp add: raw_name_def own_text_def)
  then have "NameForTypeDef md (tok (raw_name (dotted ps) (length args)) OR mdtTypeDef) [] args = Some (S_OK, base_text ps args, [])"
    using kn by (subst NameForTypeDef.simps) (simp add: class_known_def IsTdNested_def)
  moreover have "RenameToCSharp (base_text ps args) = base_text ps args"
    using assms(4) by (intro Rename_generic) auto
  ultimately have "class_name (Class_Token (tok (raw_name (dotted ps) (length ts))) md) ''class'' args
      = Some (S_OK, base_text ps args)"
    using kn assms(6) by (simp add: class_name_def NameForToken_def class_known_def clear_first_def)
  moreover have "ts = [] \<longleftrightarrow> args = []" using assms(6) by auto
  ultimately show ?thesis
    using assms(5) False by (auto simp: class_of_def split: option.split)
qed

lemma type_printed:
  "written_ok t \<Longrightarrow> known md tok t \<Longrightarrow>
   \<exists>b. GetTypeOfValue_parts (type_of md tok t) = Some (S_OK, b, dims_text (w_dims t)) \<and> written_text t = b @ dims_text (w_dims t)"
proof (induction t)
  case (Written ps args dims)
  have "AddGenericArgs_loop (map (type_of md tok) us) = Some (map written_text us)" if "set us \<subseteq> set args" for us
    using that
  proof (induction us)
    case (Cons u us)
    then have "u \<in> set args" by simp
    with Written obtain b where "GetTypeOfValue_parts (type_of md tok u) = Some (S_OK, b, dims_text (w_dims u))"
        "written_text u = b @ dims_text (w_dims u)"
      by force
    with Cons show ?case by (simp add: type_parts_def)
  qed simp
  then have "GetTypeOfValue_parts (class_of md tok ps (map (type_of md tok) args))
      = Some (S_OK, base_text ps (map written_text args), [])"
    using Written.prems by (intro class_printed) auto
  from array_of_parts [OF _ this, of dims] Written.prems show ?case by simp
qed

section \<open>Reading\<close>

text \<open>Inside angle brackets the splitting of a type only drops the blanks.\<close>

definition skimmed :: "string \<Rightarrow> string \<Rightarrow> bool" where
  "skimmed t u \<longleftrightarrow> (\<forall>d ranks r x s. 1 \<le> d \<longrightarrow>
     parse_type_loop d ranks (r @ [x]) (t @ s) = parse_type_loop d ranks (r @ [x @ u]) s)"

lemma skimmedD:
  "skimmed t u \<Longrightarrow> 1 \<le> d \<Longrightarrow> parse_type_loop d ranks (r @ [x]) (t @ s) = parse_type_loop d ranks (r @ [x @ u]) s"
  by (simp add: skimmed_def)

lemma skimmed_append: "skimmed t u \<Longrightarrow> skimmed t' u' \<Longrightarrow> skimmed (t @ t') (u @ u')"
  by (simp add: skimmed_def)

lemma skimmed_plain: "set t \<inter> {CHR ''<'', CHR ''>'', CHR '' ''} = {} \<Longrightarrow> skimmed t t"
proof (induction t)
  case (Cons c t)
  then have "skimmed t t" by simp
  with Cons.prems show ?case by (auto simp: skimmed_def)
qed (simp add: skimmed_def)

lemma skimmed_brackets: "skimmed t u \<Longrightarrow> skimmed (CHR ''<'' # t @ ''>'') (CHR ''<'' # u @ ''>'')"
  by (auto simp: skimmed_def)

lemma skimmed_commas: "list_all2 skimmed ts us \<Longrightarrow> skimmed (comma_text ts) (comma_list us)"
proof -
  have rest: "list_all2 skimmed ts us \<Longrightarrow> skimmed (concat (map (\<lambda>t. CHR '','' # CHR '' '' # t) ts)) (concat (map (\<lambda>t. CHR '','' # t) us))" for ts us
  proof (induction rule: list_all2_induct)
    case (Cons t ts u us)
    have "skimmed (CHR '','' # CHR '' '' # t) (CHR '','' # u)" using Cons(1) by (auto simp: skimmed_def)
    from skimmed_append [OF this Cons(3)] show ?case by simp
  qed (simp add: skimmed_def)
  have "comma_list (u # us) = u @ concat (map (\<lambda>t. CHR '','' # t) us)" for u us
    by (induction us arbitrary: u) auto
  note list = this
  assume l: "list_all2 skimmed ts us"
  show "skimmed (comma_text ts) (comma_list us)"
  proof (cases ts)
    case Nil
    with l show ?thesis by (simp add: comma_text_def skimmed_def)
  next
    case (Cons t ts')
    with l obtain u us' where us: "us = u # us'" "skimmed t u" "list_all2 skimmed ts' us'" by (cases us) auto
    from skimmed_append [OF us(2) rest [OF us(3)]] show ?thesis by (simp add: us(1) list Cons comma_text_def)
  qed
qed

lemma dims_chars: "c \<in> set (dims_text dims) \<Longrightarrow> c \<in> {CHR ''['', CHR '']'', CHR '',''}"
  by (auto simp: dims_text_def dim_text_def split: if_splits)

lemma written_skimmed: "written_ok t \<Longrightarrow> skimmed (written_text t) (compact_text t)"
proof (induction t)
  case (Written ps args dims)
  have "skimmed (dotted ps) (dotted ps)"
    using Written.prems dotted_chars [of ps] by (intro skimmed_plain) auto
  moreover have "skimmed (dims_text dims) (dims_text dims)"
    using dims_chars by (intro skimmed_plain) fastforce
  moreover have "list_all2 skimmed (map written_text args) (map compact_text args)"
    using Written by (auto simp: list_all2_conv_all_nth)
  note args = skimmed_brackets [OF skimmed_commas [OF this]]
  ultimately show ?case
    using skimmed_append [OF skimmed_append [OF _ args]] skimmed_append
    by (cases "args = []") (simp_all add: args_text_def)
qed

lemma parse_part:
  "part_ok p \<Longrightarrow> parse_type_loop 0 ranks (r @ [x]) (p @ s) = parse_type_loop 0 ranks (r @ [x @ p]) s"
proof -
  have "set p \<inter> {CHR ''.'', CHR ''['', CHR '']'', CHR ''<'', CHR ''>'', CHR '','', CHR '' ''} = {} \<Longrightarrow>
      parse_type_loop 0 ranks (r @ [x]) (p @ s) = parse_type_loop 0 ranks (r @ [x @ p]) s"
    by (induction p arbitrary: x) auto
  then show "part_ok p \<Longrightarrow> ?thesis" by (auto simp: part_ok_def)
qed

lemma parse_dotted:
  "list_all part_ok ps \<Longrightarrow> ps \<noteq> [] \<Longrightarrow>
   parse_type_loop 0 ranks [[]] (dotted ps @ s) = parse_type_loop 0 ranks ps s"
proof -
  have rest: "list_all part_ok qs \<Longrightarrow>
      parse_type_loop 0 ranks r (concat (map (\<lambda>q. CHR ''.'' # q) qs) @ s) = parse_type_loop 0 ranks (r @ qs) s" for qs r
    by (induction qs arbitrary: r) (simp_all add: parse_part [of _ _ _ "[]", simplified])
  show "list_all part_ok ps \<Longrightarrow> ps \<noteq> [] \<Longrightarrow> ?thesis"
    by (cases ps) (simp_all add: parse_part [of _ _ "[]" "[]", simplified] rest)
qed

lemma parse_dims:
  "list_all (\<lambda>d. 0 < d \<and> d < 2 ^ 32) dims \<Longrightarrow>
   parse_type_loop 0 ranks r (dims_text dims) = (r, ranks @ map int dims)"
proof (induction dims arbitrary: ranks)
  case (Cons d ds)
  have commas: "parse_type_loop 0 (rs @ [k]) r (replicate n (CHR '','') @ s) = parse_type_loop 0 (rs @ [k + int n]) r s" for n k rs s
    by (induction n arbitrary: k) (auto simp: algebra_simps)
  from Cons have "parse_type_loop 0 (ranks @ [int d]) r (dims_text ds) = (r, ranks @ int d # map int ds)" by simp
  with Cons.prems show ?case by (simp add: dims_text_def dim_text_def commas)
qed (simp add: dims_text_def)

lemma parse_written:
  assumes "written_ok (Written ps args dims)"
  shows "ParseType (written_text (Written ps args dims))
       = (butlast ps @ [List.last ps @ args_text (map compact_text args)], map int dims)"
proof -
  let ?s = "dims_text dims"
  have ps: "list_all part_ok ps" "ps \<noteq> []" using assms by auto
  show ?thesis
  proof (cases "args = []")
    case True
    with assms parse_dims [of dims "[]" ps] show ?thesis
      by (simp add: ParseType_def parse_dotted [OF ps] args_text_def)
  next
    case False
    have "list_all2 skimmed (map written_text args) (map compact_text args)"
      using assms written_skimmed by (auto simp: list_all2_conv_all_nth)
    from skimmedD [OF skimmed_commas [OF this], of 1 "[]" "butlast ps" "List.last ps @ ''<''" "''>'' @ ?s"]
    have "parse_type_loop 0 [] ps (CHR ''<'' # comma_text (map written_text args) @ CHR ''>'' # ?s)
        = parse_type_loop 0 [] (butlast ps @ [List.last ps @ args_text (map compact_text args)]) ?s"
      using ps False by (simp add: push_char_def args_text_def)
    with assms False parse_dims [of dims "[]"] show ?thesis
      by (simp add: ParseType_def parse_dotted [OF ps])
  qed
qed

section \<open>Generic arguments\<close>

lemma copied_append: "copied t \<Longrightarrow> copied u \<Longrightarrow> copied (t @ u)"
  by (simp add: copied_def)

lemma copied_plain: "set n \<inter> {CHR ''['', CHR '']'', CHR ''<'', CHR ''>'', CHR '',''} = {} \<Longrightarrow> copied n"
  by (simp add: copied_def generic_params_plain)

lemma copied_dims: "copied (dims_text dims)"
proof (induction dims)
  case (Cons d ds)
  have commas: "generic_params_loop k True (r @ [x]) (replicate n (CHR '','') @ s)
      = generic_params_loop k True (r @ [x @ replicate n (CHR '','')]) s" for k r x n s
    by (induction n arbitrary: x) (auto simp: replicate_append_same)
  have "copied (dim_text d)" by (simp add: copied_def dim_text_def commas)
  from copied_append [OF this Cons] show ?case by (simp add: dims_text_def)
qed (simp add: dims_text_def copied_def)

lemma copied_args: "\<forall>t \<in> set ts. copied t \<Longrightarrow> copied (args_text ts)"
  by (auto simp: copied_def args_text_def commas_inner [unfolded copied_def])

lemma compact_copied: "written_ok t \<Longrightarrow> copied (compact_text t)"
proof (induction t)
  case (Written ps args dims)
  then have "copied (dotted ps)" using dotted_chars [of ps] by (intro copied_plain) auto
  moreover have "copied (args_text (map compact_text args))" using Written by (intro copied_args) auto
  ultimately show ?case using copied_dims copied_append by simp
qed

lemma parse_part_args:
  assumes "part_ok n" "\<forall>t \<in> set ts. copied t"
  shows "ParseGenericParams (n @ args_text ts) = (ts, raw_name n (length ts))"
proof -
  have n: "CHR ''<'' \<notin> set n" using assms by (auto simp: part_ok_def)
  show ?thesis
  proof (cases "ts = []")
    case True
    from n have "str_find (CHR ''<'') n = None" by (simp add: str_find_None_iff)
    with True show ?thesis by (simp add: ParseGenericParams_def args_text_def raw_name_def)
  next
    case False
    have "generic_params_loop 0 False [[]] (CHR ''<'' # comma_list ts @ ''>'') = ts"
      using commas_outer [OF assms(2), of "[]" "''>''"] False by simp
    then show ?thesis using False n
      by (simp add: ParseGenericParams_def args_text_def raw_name_def str_find_append_notin)
  qed
qed

section \<open>Properties\<close>

text \<open>C14. The name that is printed for a type is one that the evaluator of expressions understands, for the types made
  of the built-in types with a keyword and of the classes of the metadata that are not nested in others and whose dotted
  names have no blanks, commas, brackets, angle brackets or back quotes (as compiler-generated names have) and are not
  those that are printed as a keyword, with generic arguments and arrays of any depth; pointers and nested classes are
  left out.  The parser splits the printed name into
  the parts of the full name and the ranks of the arrays, and the last part into the generic arguments and the last part
  of the name of the class in the metadata, or the keyword.\<close>

theorem printed_name_reads_back:
  assumes "written_ok (Written ps args dims)" "known md tok (Written ps args dims)"
  shows "\<exists>name part.
    GetTypeOfValue (type_of md tok (Written ps args dims)) = Some (S_OK, name) \<and>
    ParseType name = (butlast ps @ [part], map int dims) \<and>
    ParseGenericParams part = (map compact_text args, raw_name (List.last ps) (length args))"
proof (intro exI conjI)
  show "GetTypeOfValue (type_of md tok (Written ps args dims)) = Some (S_OK, written_text (Written ps args dims))"
    using type_printed [OF assms] by (auto simp: GetTypeOfValue_def type_parts_def)
  show "ParseType (written_text (Written ps args dims))
      = (butlast ps @ [List.last ps @ args_text (map compact_text args)], map int dims)"
    by (rule parse_written [OF assms(1)])
  have "part_ok (List.last ps)" using assms(1) by (auto simp: list_all_iff)
  moreover have "\<forall>t \<in> set (map compact_text args). copied t" using assms(1) compact_copied by auto
  ultimately show "ParseGenericParams (List.last ps @ args_text (map compact_text args))
      = (map compact_text args, raw_name (List.last ps) (length args))"
    using parse_part_args by fastforce
qed

text \<open>A module with one class, for examples.\<close>

definition one_class :: "string \<Rightarrow> type_metadata" where
  "one_class name =
     \<lparr>md_typedef = (\<lambda>_. Inr (name, 0)), md_enclosing = (\<lambda>_. Inl E_FAIL), md_field = (\<lambda>_. Inl E_FAIL),
      md_method = (\<lambda>_. Inl E_FAIL), md_memberref = (\<lambda>_. Inl E_FAIL), md_typeref = (\<lambda>_. None), md_helper = S_OK,
      md_cached = True, md_internal = S_OK, md_generics = (\<lambda>_. 0)\<rparr>"

theorem printed_name_reads_back_witness:
  "\<exists>name part.
    GetTypeOfValue (type_of (one_class ''Lib.Map`2'') (\<lambda>_. 0x02000005)
      (Written [''Lib'', ''Map''] [Written [''int''] [] [], Written [''string''] [] [2]] [1])) = Some (S_OK, name) \<and>
    ParseType name = ([''Lib'', part], [1]) \<and>
    ParseGenericParams part = ([''int'', ''string[,]''], ''Map`2'')"
proof -
  let ?t = "Written [''Lib'', ''Map''] [Written [''int''] [] [], Written [''string''] [] [2]] [1]"
  have "to_string 2 = ''2''" by code_simp
  then have two: "to_string (Suc (Suc 0)) = ''2''" by (simp add: numeral_2_eq_2)
  have "written_ok ?t" by (simp add: part_ok_def system2cs_def)
  moreover have "known (one_class ''Lib.Map`2'') (\<lambda>_. 0x02000005) ?t"
    by (simp add: class_known_def one_class_def raw_name_def keywords_of_def simple_names_def TypeFromToken_def
      mdtTypeDef_def two)
  ultimately show ?thesis
    using printed_name_reads_back [of "[''Lib'', ''Map'']" "[Written [''int''] [] [], Written [''string''] [] [2]]" "[1]"
      "one_class ''Lib.Map`2''" "\<lambda>_. 0x02000005"]
    by (simp add: raw_name_def two args_text_def dims_text_def dim_text_def)
qed

end
