(* ===== verification/Sig_Parser.thy ===== *)
theory Sig_Parser imports Type_Signatures begin

text \<open>
  The walker over signatures of the SOS extension (\<open>class SigParser\<close>): a position and the number of bytes that
  belong to the signature from there on.  An operation gives a status, what it writes through its pointer, and the
  position after it; None is a read past the last byte there is.
\<close>

record sig_parser =
  m_ptr :: signature
  m_dwLen :: u32

type_synonym 'a sp_result = "(hresult \<times> 'a \<times> sig_parser) option"

text \<open>\<open>IfFailRet\<close>: a failure is returned, with the given value in the place of the result.\<close>

definition IfFailRet :: "'a sp_result \<Rightarrow> 'b \<Rightarrow> ('a \<Rightarrow> sig_parser \<Rightarrow> 'b sp_result) \<Rightarrow> 'b sp_result" where
  "IfFailRet r dflt f = Option.bind r (\<lambda>(hr, x, p). if succeeded hr then f x p else Some (hr, dflt, p))"

text \<open>Work on a copy that is assigned back on success.\<close>

definition on_copy :: "sig_parser \<Rightarrow> 'a sp_result \<Rightarrow> 'a sp_result" where
  "on_copy p r = map_option (\<lambda>(hr, x, p'). (hr, x, if succeeded hr then p' else p)) r"

lemma IfFailRet_cong [fundef_cong]:
  "r = r' \<Longrightarrow> (\<And>hr x p. r' = Some (hr, x, p) \<Longrightarrow> f x p = g x p) \<Longrightarrow> IfFailRet r d f = IfFailRet r' d g"
  by (cases r') (auto simp: IfFailRet_def)

lemma IfFailRet_Some [simp]:
  "IfFailRet (Some (hr, x, p)) d f = (if succeeded hr then f x p else Some (hr, d, p))"
  by (simp add: IfFailRet_def)

lemma IfFailRet_None [simp]: "IfFailRet None d f = None"
  by (simp add: IfFailRet_def)

section \<open>Raw reads\<close>

definition SigParser_sized :: "signature \<Rightarrow> u32 \<Rightarrow> sig_parser" where
  "SigParser_sized ptr len = \<lparr>m_ptr = ptr, m_dwLen = len\<rparr>"

definition SigParser_unsized :: "signature \<Rightarrow> sig_parser" where
  "SigParser_unsized ptr = \<lparr>m_ptr = ptr, m_dwLen = 0xffffffff\<rparr>"

definition SkipBytes :: "u32 \<Rightarrow> sig_parser \<Rightarrow> sig_parser option" where
  "SkipBytes cb p =
     (if unat cb \<le> length (m_ptr p)
      then Some (p\<lparr>m_ptr := drop (unat cb) (m_ptr p), m_dwLen := m_dwLen p - cb\<rparr>)
      else None)"

definition GetData :: "sig_parser \<Rightarrow> u32 sp_result" where
  "GetData p =
     Option.bind (CorSigUncompressData_bounded (m_ptr p) (m_dwLen p)) (\<lambda>(hr, data, sizeOfData).
       if succeeded hr then map_option (\<lambda>p'. (hr, data, p')) (SkipBytes sizeOfData p) else Some (hr, data, p))"

definition PeekByte :: "sig_parser \<Rightarrow> u8 sp_result" where
  "PeekByte p =
     (if m_dwLen p > 0 then (case m_ptr p of [] \<Rightarrow> None | b # _ \<Rightarrow> Some (S_OK, b, p))
      else Some (META_E_BAD_SIGNATURE, 0, p))"

definition GetByte :: "sig_parser \<Rightarrow> u8 sp_result" where
  "GetByte p =
     (if m_dwLen p > 0
      then (case m_ptr p of [] \<Rightarrow> None | b # _ \<Rightarrow> map_option (\<lambda>p'. (S_OK, b, p')) (SkipBytes 1 p))
      else Some (META_E_BAD_SIGNATURE, 0, p))"

definition PeekData :: "sig_parser \<Rightarrow> u32 sp_result" where
  "PeekData p = map_option (\<lambda>(hr, data, _). (hr, data, p)) (CorSigUncompressData_bounded (m_ptr p) (m_dwLen p))"

definition GetToken :: "sig_parser \<Rightarrow> u32 sp_result" where
  "GetToken p =
     Option.bind (CorSigUncompressToken_bounded (m_ptr p) (m_dwLen p)) (\<lambda>(hr, token, dwLen).
       if succeeded hr then map_option (\<lambda>p'. (hr, token, p')) (SkipBytes dwLen p) else Some (hr, token, p))"

text \<open>A pointer of 64 bits, the low byte first.\<close>

fun pointer_value :: "u8 list \<Rightarrow> 64 word" where
  "pointer_value [] = 0"
| "pointer_value (b # bs) = ucast b OR push_bit 8 (pointer_value bs)"

definition GetPointer :: "sig_parser \<Rightarrow> 64 word sp_result" where
  "GetPointer p =
     (if m_dwLen p < 8 then Some (META_E_BAD_SIGNATURE, 0, p)
      else map_option (\<lambda>p'. (S_OK, pointer_value (take 8 (m_ptr p)), p')) (SkipBytes 8 p))"

definition AtSentinel :: "sig_parser \<Rightarrow> bool option" where
  "AtSentinel p =
     (if m_dwLen p > 0
      then (case m_ptr p of [] \<Rightarrow> None | b # _ \<Rightarrow> Some (unat b = element_code ELEMENT_TYPE_SENTINEL))
      else Some False)"

definition IMAGE_CEE_CS_CALLCONV_FIELD :: u32 where "IMAGE_CEE_CS_CALLCONV_FIELD = 0x6"
definition IMAGE_CEE_CS_CALLCONV_LOCAL_SIG :: u32 where "IMAGE_CEE_CS_CALLCONV_LOCAL_SIG = 0x7"
definition IMAGE_CEE_CS_CALLCONV_MASK :: u32 where "IMAGE_CEE_CS_CALLCONV_MASK = 0x0f"
definition IMAGE_CEE_CS_CALLCONV_GENERIC :: u32 where "IMAGE_CEE_CS_CALLCONV_GENERIC = 0x10"

definition GetCallingConvInfo :: "sig_parser \<Rightarrow> u32 sp_result" where
  "GetCallingConvInfo p =
     Option.bind (CorSigUncompressCallingConv_bounded (m_ptr p) (m_dwLen p)) (\<lambda>(hr, data).
       if succeeded hr then map_option (\<lambda>p'. (hr, data, p')) (SkipBytes 1 p) else Some (hr, data, p))"

text \<open>The output stays as it was on a failure.\<close>

definition GetCallingConv :: "u32 \<Rightarrow> sig_parser \<Rightarrow> u32 sp_result" where
  "GetCallingConv data p =
     IfFailRet (GetCallingConvInfo p) data (\<lambda>info p'. Some (S_OK, IMAGE_CEE_CS_CALLCONV_MASK AND info, p'))"

section \<open>Modifiers\<close>

definition SkipAnyVASentinel :: "sig_parser \<Rightarrow> unit sp_result" where
  "SkipAnyVASentinel p =
     IfFailRet (PeekByte p) () (\<lambda>bElementType p1.
       if unat bElementType = element_code ELEMENT_TYPE_SENTINEL
       then map_option (\<lambda>p2. (S_OK, (), p2)) (SkipBytes 1 p1) else Some (S_OK, (), p1))"

lemma SkipBytes_shorter: "SkipBytes cb p = Some p' \<Longrightarrow> length (m_ptr p') = length (m_ptr p) - unat cb \<and> unat cb \<le> length (m_ptr p)"
  by (auto simp: SkipBytes_def split: if_splits)

lemma GetToken_shorter: "GetToken p = Some (hr, x, p') \<Longrightarrow> length (m_ptr p') \<le> length (m_ptr p)"
  by (auto simp: GetToken_def bind_eq_Some_conv dest!: SkipBytes_shorter split: if_splits)

lemma PeekByte_same: "PeekByte p = Some (hr, b, p') \<Longrightarrow> p' = p"
  by (auto simp: PeekByte_def split: if_splits list.splits)

text \<open>The loop over the modifiers, each with its token: it gives the byte after them.\<close>

function modifiers_loop :: "(nat \<Rightarrow> bool) \<Rightarrow> u8 \<Rightarrow> sig_parser \<Rightarrow> u8 sp_result" where
  "modifiers_loop modifier bElementType p =
     (if modifier (unat bElementType)
      then Option.bind (SkipBytes 1 p) (\<lambda>p1.
           IfFailRet (GetToken p1) bElementType (\<lambda>_ p2.
           IfFailRet (PeekByte p2) 0 (\<lambda>b p3. modifiers_loop modifier b p3)))
      else Some (S_OK, bElementType, p))"
  by pat_completeness auto
termination
  by (relation "measure (\<lambda>(_, _, p). length (m_ptr p))")
    (auto dest!: SkipBytes_shorter GetToken_shorter PeekByte_same)

declare modifiers_loop.simps [simp del]

definition skip_modifiers :: "(nat \<Rightarrow> bool) \<Rightarrow> sig_parser \<Rightarrow> unit sp_result" where
  "skip_modifiers modifier p =
     on_copy p
       (IfFailRet (SkipAnyVASentinel p) () (\<lambda>_ p1.
        IfFailRet (PeekByte p1) () (\<lambda>b p2.
        IfFailRet (modifiers_loop modifier b p2) () (\<lambda>b' p3.
          Some (if element_code ELEMENT_TYPE_MAX \<le> unat b' \<and> unat b' \<noteq> element_code ELEMENT_TYPE_PINNED
                then META_E_BAD_SIGNATURE else S_OK, (), p3)))))"

definition SkipCustomModifiers :: "sig_parser \<Rightarrow> unit sp_result" where
  "SkipCustomModifiers =
     skip_modifiers (\<lambda>b. b = element_code ELEMENT_TYPE_CMOD_REQD \<or> b = element_code ELEMENT_TYPE_CMOD_OPT)"

definition SkipFunkyAndCustomModifiers :: "sig_parser \<Rightarrow> unit sp_result" where
  "SkipFunkyAndCustomModifiers =
     skip_modifiers (\<lambda>b. b = element_code ELEMENT_TYPE_CMOD_REQD \<or> b = element_code ELEMENT_TYPE_CMOD_OPT \<or>
       b = element_code ELEMENT_TYPE_MODIFIER \<or> b = element_code ELEMENT_TYPE_PINNED)"

section \<open>Element types\<close>

definition GetElemTypeSlow :: "sig_parser \<Rightarrow> u8 sp_result" where
  "GetElemTypeSlow p =
     map_option (\<lambda>(hr, b, p'). if succeeded hr then (S_OK, b, p') else (META_E_BAD_SIGNATURE, 0, p))
       (IfFailRet (SkipCustomModifiers p) 0 (\<lambda>_ p1. GetByte p1))"

definition GetElemType :: "sig_parser \<Rightarrow> u8 sp_result" where
  "GetElemType p =
     (if m_dwLen p > 0 then
        (case m_ptr p of
           [] \<Rightarrow> None
         | typ # _ \<Rightarrow>
             if unat typ < element_code ELEMENT_TYPE_CMOD_REQD
             then map_option (\<lambda>p'. (S_OK, typ, p')) (SkipBytes 1 p)
             else GetElemTypeSlow p)
      else GetElemTypeSlow p)"

text \<open>Strings and objects are shown as classes.\<close>

definition as_class :: "u8 \<Rightarrow> u8" where
  "as_class typ =
     (if unat typ = element_code ELEMENT_TYPE_STRING \<or> unat typ = element_code ELEMENT_TYPE_OBJECT
      then of_nat (element_code ELEMENT_TYPE_CLASS) else typ)"

definition PeekElemTypeSlow :: "sig_parser \<Rightarrow> u8 sp_result" where
  "PeekElemTypeSlow p =
     map_option (\<lambda>(hr, etype, _). (hr, if succeeded hr then as_class etype else etype, p)) (GetElemType p)"

definition PeekElemType :: "sig_parser \<Rightarrow> u8 sp_result" where
  "PeekElemType p =
     (if m_dwLen p > 0 then
        (case m_ptr p of
           [] \<Rightarrow> None
         | typ # _ \<Rightarrow>
             if unat typ < element_code ELEMENT_TYPE_CMOD_REQD then Some (S_OK, as_class typ, p)
             else PeekElemTypeSlow p)
      else PeekElemTypeSlow p)"

text \<open>The sizes on a 64-bit target.\<close>

definition element_size :: "nat \<Rightarrow> hresult \<times> u32" where
  "element_size bElementType =
     (case element_of bElementType of
        None \<Rightarrow> (META_E_BAD_SIGNATURE, 0)
      | Some e \<Rightarrow>
          if e \<in> {ELEMENT_TYPE_I8, ELEMENT_TYPE_U8, ELEMENT_TYPE_R8, ELEMENT_TYPE_I, ELEMENT_TYPE_U} then (S_OK, 8)
          else if e \<in> {ELEMENT_TYPE_I4, ELEMENT_TYPE_U4, ELEMENT_TYPE_R4} then (S_OK, 4)
          else if e \<in> {ELEMENT_TYPE_I2, ELEMENT_TYPE_U2, ELEMENT_TYPE_CHAR} then (S_OK, 2)
          else if e \<in> {ELEMENT_TYPE_I1, ELEMENT_TYPE_U1, ELEMENT_TYPE_BOOLEAN} then (S_OK, 1)
          else if e \<in> {ELEMENT_TYPE_STRING, ELEMENT_TYPE_PTR, ELEMENT_TYPE_BYREF, ELEMENT_TYPE_CLASS,
                       ELEMENT_TYPE_OBJECT, ELEMENT_TYPE_FNPTR, ELEMENT_TYPE_TYPEDBYREF, ELEMENT_TYPE_ARRAY,
                       ELEMENT_TYPE_SZARRAY} then (S_OK, 8)
          else if e = ELEMENT_TYPE_VOID then (S_OK, 0)
          else if e \<in> {ELEMENT_TYPE_END, ELEMENT_TYPE_CMOD_REQD, ELEMENT_TYPE_CMOD_OPT, ELEMENT_TYPE_VALUETYPE}
          then (E_INVALIDARG, 0)
          else (META_E_BAD_SIGNATURE, 0))"

definition PeekElemTypeSize :: "u32 \<Rightarrow> sig_parser \<Rightarrow> u32 sp_result" where
  "PeekElemTypeSize pSize p =
     map_option (\<lambda>(hr, sz, _). (hr, sz, p))
       (IfFailRet (SkipAnyVASentinel p) pSize (\<lambda>_ p1.
        IfFailRet (GetByte p1) 0 (\<lambda>bElementType p2.
          case element_size (unat bElementType) of (hr, sz) \<Rightarrow> Some (hr, sz, p2))))"

section \<open>Skipping types and signatures\<close>

fun skip_data :: "nat \<Rightarrow> sig_parser \<Rightarrow> unit sp_result" where
  "skip_data 0 p = Some (S_OK, (), p)"
| "skip_data (Suc n) p = IfFailRet (GetData p) () (\<lambda>_ p'. skip_data n p')"

text \<open>The rank of an array and, unless it is 0, its sizes and lower bounds.\<close>

definition skip_shape :: "sig_parser \<Rightarrow> unit sp_result" where
  "skip_shape p =
     IfFailRet (GetData p) () (\<lambda>rank p1.
       if rank = 0 then Some (S_OK, (), p1)
       else IfFailRet (GetData p1) () (\<lambda>nsizes p2.
            IfFailRet (skip_data (unat nsizes) p2) () (\<lambda>_ p3.
            IfFailRet (GetData p3) () (\<lambda>nlbounds p4. skip_data (unat nlbounds) p4))))"

text \<open>The three functions call each other; the fuel counts the calls that are open.\<close>

fun skip_one :: "nat \<Rightarrow> sig_parser \<Rightarrow> unit sp_result"
  and skip_types :: "nat \<Rightarrow> nat \<Rightarrow> sig_parser \<Rightarrow> unit sp_result"
  and skip_header :: "nat \<Rightarrow> sig_parser \<Rightarrow> u32 sp_result"
  and skip_signature :: "nat \<Rightarrow> sig_parser \<Rightarrow> unit sp_result" where
  "skip_one 0 p = None"
| "skip_one (Suc fuel) p =
     IfFailRet (GetElemType p) () (\<lambda>typ p1.
       case element_of (unat typ) of
         None \<Rightarrow> Some (META_E_BAD_SIGNATURE, (), p1)
       | Some e \<Rightarrow>
           if CorIsPrimitiveType e then Some (S_OK, (), p1)
           else if e \<in> {ELEMENT_TYPE_VAR, ELEMENT_TYPE_MVAR} then IfFailRet (GetData p1) () (\<lambda>_ p2. Some (S_OK, (), p2))
           else if e \<in> {ELEMENT_TYPE_OBJECT, ELEMENT_TYPE_STRING, ELEMENT_TYPE_TYPEDBYREF} then Some (S_OK, (), p1)
           else if e \<in> {ELEMENT_TYPE_BYREF, ELEMENT_TYPE_PTR, ELEMENT_TYPE_PINNED, ELEMENT_TYPE_SZARRAY}
           then skip_one fuel p1
           else if e \<in> {ELEMENT_TYPE_VALUETYPE, ELEMENT_TYPE_CLASS}
           then IfFailRet (GetToken p1) () (\<lambda>_ p2. Some (S_OK, (), p2))
           else if e = ELEMENT_TYPE_FNPTR then skip_signature fuel p1
           else if e = ELEMENT_TYPE_ARRAY then IfFailRet (skip_one fuel p1) () (\<lambda>_ p2. skip_shape p2)
           else if e = ELEMENT_TYPE_SENTINEL then Some (S_OK, (), p1)
           else if e = ELEMENT_TYPE_INTERNAL then IfFailRet (GetPointer p1) () (\<lambda>_ p2. Some (S_OK, (), p2))
           else if e = ELEMENT_TYPE_GENERICINST
           then IfFailRet (skip_one fuel p1) () (\<lambda>_ p2.
                IfFailRet (GetData p2) () (\<lambda>argCnt p3. skip_types fuel (unat argCnt) p3))
           else Some (META_E_BAD_SIGNATURE, (), p1))"
| "skip_types fuel 0 p = Some (S_OK, (), p)"
| "skip_types 0 (Suc n) p = None"
| "skip_types (Suc fuel) (Suc n) p = IfFailRet (skip_one fuel p) () (\<lambda>_ p'. skip_types fuel n p')"
| "skip_header 0 p = None"
| "skip_header (Suc fuel) p =
     IfFailRet (GetCallingConvInfo p) 0 (\<lambda>uCallConv p1.
       if uCallConv = IMAGE_CEE_CS_CALLCONV_FIELD \<or> uCallConv = IMAGE_CEE_CS_CALLCONV_LOCAL_SIG
       then Some (META_E_BAD_SIGNATURE, 0, p1)
       else
         IfFailRet (if uCallConv AND IMAGE_CEE_CS_CALLCONV_GENERIC \<noteq> 0 then GetData p1 else Some (S_OK, 0, p1)) 0 (\<lambda>_ p2.
         IfFailRet (GetData p2) 0 (\<lambda>cArgs p3.
         IfFailRet (skip_one fuel p3) cArgs (\<lambda>_ p4. Some (S_OK, cArgs, p4)))))"
| "skip_signature 0 p = None"
| "skip_signature (Suc fuel) p =
     IfFailRet (skip_header fuel p) () (\<lambda>cArgs p1. skip_types fuel (unat cArgs) p1)"

text \<open>Each call reads a byte, or is one of two more for the signature of a function pointer.\<close>

definition SkipExactlyOne :: "sig_parser \<Rightarrow> unit sp_result" where
  "SkipExactlyOne p = skip_one (2 * length (m_ptr p) + 3) p"

definition SkipMethodHeaderSignature :: "sig_parser \<Rightarrow> u32 sp_result" where
  "SkipMethodHeaderSignature p = skip_header (2 * length (m_ptr p) + 3) p"

definition SkipSignature :: "sig_parser \<Rightarrow> unit sp_result" where
  "SkipSignature p = skip_signature (2 * length (m_ptr p) + 3) p"

end
