(* ===== verification/Sig_Skip.thy ===== *)
theory Sig_Skip imports Sig_Parser Type_Encoding begin

text \<open>
  The walker of \<open>Sig_Parser\<close> stays inside the signature and ends, whatever the bytes are; its quick ways agree with
  its slow ones; and it skips exactly the bytes of a type, as the printer of names reads them.
\<close>

section \<open>Staying inside\<close>

definition moved :: "sig_parser \<Rightarrow> sig_parser \<Rightarrow> bool" where
  "moved p p' \<longleftrightarrow> (\<exists>k \<le> unat (m_dwLen p). m_ptr p' = drop k (m_ptr p) \<and> unat (m_dwLen p') = unat (m_dwLen p) - k)"

text \<open>There is a byte after the last one of the signature: the readers of numbers look at it.\<close>

definition in_buffer :: "sig_parser \<Rightarrow> bool" where
  "in_buffer p \<longleftrightarrow> unat (m_dwLen p) < length (m_ptr p)"

text \<open>A result that is defined, has moved inside the signature, and has used up at least \<open>n\<close> bytes on success.\<close>

definition stays :: "nat \<Rightarrow> sig_parser \<Rightarrow> 'a sp_result \<Rightarrow> bool" where
  "stays n p r \<longleftrightarrow> (\<exists>hr x p'. r = Some (hr, x, p') \<and> moved p p' \<and>
     (succeeded hr \<longrightarrow> unat (m_dwLen p') + n \<le> unat (m_dwLen p)))"

lemma moved_refl: "moved p p"
  unfolding moved_def by (rule exI [of _ 0]) simp

lemma moved_trans: "moved p q \<Longrightarrow> moved q r \<Longrightarrow> moved p r"
  unfolding moved_def
proof (elim exE conjE)
  fix k l
  assume "k \<le> unat (m_dwLen p)" "m_ptr q = drop k (m_ptr p)" "unat (m_dwLen q) = unat (m_dwLen p) - k"
    "l \<le> unat (m_dwLen q)" "m_ptr r = drop l (m_ptr q)" "unat (m_dwLen r) = unat (m_dwLen q) - l"
  then show "\<exists>k \<le> unat (m_dwLen p). m_ptr r = drop k (m_ptr p) \<and> unat (m_dwLen r) = unat (m_dwLen p) - k"
    by (intro exI [of _ "k + l"]) (auto simp: add.commute)
qed

lemma moved_in_buffer: "moved p p' \<Longrightarrow> in_buffer p \<Longrightarrow> in_buffer p'"
  by (auto simp: moved_def in_buffer_def)

lemma stays_weaken: "stays n p r \<Longrightarrow> m \<le> n \<Longrightarrow> stays m p r"
  by (fastforce simp: stays_def)

lemma stays_here: "stays 0 p (Some (hr, x, p))"
  by (simp add: stays_def moved_refl)

lemma stays_failed: "\<not> succeeded hr \<Longrightarrow> stays n p (Some (hr, x, p))"
  by (simp add: stays_def moved_refl)

lemma IfFailRet_stays:
  assumes p: "in_buffer p" and r: "stays a p r"
    and f: "\<And>hr x p'. r = Some (hr, x, p') \<Longrightarrow> succeeded hr \<Longrightarrow> in_buffer p' \<Longrightarrow> unat (m_dwLen p') + a \<le> unat (m_dwLen p) \<Longrightarrow> stays b p' (f x p')"
  shows "stays (a + b) p (IfFailRet r d f)"
proof -
  from r obtain hr x p' where r': "r = Some (hr, x, p')" "moved p p'"
      "succeeded hr \<longrightarrow> unat (m_dwLen p') + a \<le> unat (m_dwLen p)"
    by (auto simp: stays_def)
  show ?thesis
  proof (cases "succeeded hr")
    case True
    then have "stays b p' (f x p')" using r' p moved_in_buffer by (intro f) auto
    then show ?thesis using r' True by (fastforce simp: stays_def intro: moved_trans)
  qed (use r' in \<open>simp add: stays_def\<close>)
qed

lemma SkipBytes_stays:
  assumes "in_buffer p" "unat cb \<le> unat (m_dwLen p)"
  obtains p' where "SkipBytes cb p = Some p'" "moved p p'" "unat (m_dwLen p') = unat (m_dwLen p) - unat cb"
proof
  have "unat (m_dwLen p - cb) = unat (m_dwLen p) - unat cb" using assms(2) by (simp add: unat_sub word_le_nat_alt)
  then show "SkipBytes cb p = Some (p\<lparr>m_ptr := drop (unat cb) (m_ptr p), m_dwLen := m_dwLen p - cb\<rparr>)"
    "moved p (p\<lparr>m_ptr := drop (unat cb) (m_ptr p), m_dwLen := m_dwLen p - cb\<rparr>)"
    "unat (m_dwLen (p\<lparr>m_ptr := drop (unat cb) (m_ptr p), m_dwLen := m_dwLen p - cb\<rparr>)) = unat (m_dwLen p) - unat cb"
    using assms by (auto simp: SkipBytes_def moved_def in_buffer_def)
qed

lemma SkipBytes_result:
  "in_buffer p \<Longrightarrow> unat cb \<le> unat (m_dwLen p) \<Longrightarrow> stays (unat cb) p (map_option (\<lambda>p'. (hr, x, p')) (SkipBytes cb p))"
  by (rule SkipBytes_stays [of p cb]) (auto simp: stays_def)

lemma bounded_stays:
  "unat len < length s \<Longrightarrow> \<exists>hr x n. CorSigUncompressData_bounded s len = Some (hr, x, n) \<and>
     (succeeded hr \<longrightarrow> 1 \<le> unat n \<and> unat n \<le> unat len)"
  by (cases s) (auto simp: CorSigUncompressData_bounded_def META_E_BAD_SIGNATURE_def word_less_nat_alt split: list.split)

lemma GetData_stays: "in_buffer p \<Longrightarrow> stays 1 p (GetData p)"
proof -
  assume p: "in_buffer p"
  then obtain hr x n where n: "CorSigUncompressData_bounded (m_ptr p) (m_dwLen p) = Some (hr, x, n)"
      "succeeded hr \<longrightarrow> 1 \<le> unat n \<and> unat n \<le> unat (m_dwLen p)"
    using bounded_stays unfolding in_buffer_def by blast
  then show ?thesis
    using stays_weaken [OF SkipBytes_result [OF p, of n hr x]] by (cases "succeeded hr") (auto simp: GetData_def stays_failed)
qed

lemma GetToken_stays: "in_buffer p \<Longrightarrow> stays 1 p (GetToken p)"
proof -
  assume p: "in_buffer p"
  then obtain hr x n where n: "CorSigUncompressData_bounded (m_ptr p) (m_dwLen p) = Some (hr, x, n)"
      "succeeded hr \<longrightarrow> 1 \<le> unat n \<and> unat n \<le> unat (m_dwLen p)"
    using bounded_stays unfolding in_buffer_def by blast
  then show ?thesis
    using stays_weaken [OF SkipBytes_result [OF p, of n hr "decode_token x"]]
    by (cases "succeeded hr") (auto simp: GetToken_def CorSigUncompressToken_bounded_def stays_failed)
qed

lemma first_byte_there: "in_buffer p \<Longrightarrow> \<exists>b s. m_ptr p = b # s"
  by (cases "m_ptr p") (auto simp: in_buffer_def)

lemma one_left: "m_dwLen p > 0 \<Longrightarrow> unat (1 :: u32) \<le> unat (m_dwLen p)"
  by (simp add: word_less_nat_alt)

lemma bad [simp]: "\<not> succeeded META_E_BAD_SIGNATURE"
  by (simp add: META_E_BAD_SIGNATURE_def)

lemma PeekByte_ok: "PeekByte p = Some (hr, b, p') \<Longrightarrow> succeeded hr \<Longrightarrow> p' = p \<and> m_dwLen p > 0"
  by (auto simp: PeekByte_def split: if_splits list.splits)

lemma PeekByte_stays: "in_buffer p \<Longrightarrow> stays 0 p (PeekByte p)"
  by (auto dest!: first_byte_there simp: PeekByte_def stays_here)

lemma GetByte_stays: "in_buffer p \<Longrightarrow> stays 1 p (GetByte p)"
  using SkipBytes_result [OF _ one_left, of p S_OK "hd (m_ptr p)"]
  by (auto dest: first_byte_there simp: GetByte_def stays_failed)

lemma GetPointer_stays: "in_buffer p \<Longrightarrow> stays 8 p (GetPointer p)"
  using SkipBytes_result [of p 8 S_OK] by (auto simp: GetPointer_def stays_failed word_less_nat_alt not_less)

lemma GetCallingConvInfo_stays: "in_buffer p \<Longrightarrow> stays 1 p (GetCallingConvInfo p)"
  using SkipBytes_result [OF _ one_left, of p S_OK]
  by (auto dest!: first_byte_there simp: GetCallingConvInfo_def CorSigUncompressCallingConv_bounded_def stays_failed)

lemma SkipAnyVASentinel_stays: "in_buffer p \<Longrightarrow> stays 0 p (SkipAnyVASentinel p)"
  using stays_weaken [OF SkipBytes_result [OF _ one_left, of p S_OK "()"]]
  by (auto dest!: first_byte_there simp: SkipAnyVASentinel_def PeekByte_def stays_here stays_failed)

lemma modifiers_loop_stays:
  "in_buffer p \<Longrightarrow> m_dwLen p > 0 \<Longrightarrow> stays 0 p (modifiers_loop modifier b p)"
proof (induction modifier b p rule: modifiers_loop.induct)
  case (1 modifier b p)
  show ?case
  proof (cases "modifier (unat b)")
    case True
    from SkipBytes_stays [OF "1.prems"(1) one_left [OF "1.prems"(2)]] obtain p1 where
      p1: "SkipBytes 1 p = Some p1" "moved p p1" "unat (m_dwLen p1) = unat (m_dwLen p) - unat (1 :: u32)" .
    have in1: "in_buffer p1" using moved_in_buffer [OF p1(2) "1.prems"(1)] .
    have "stays 0 p2 (IfFailRet (PeekByte p2) 0 (\<lambda>b p3. modifiers_loop modifier b p3))"
      if "GetToken p1 = Some (hr, x, p2)" "in_buffer p2" for hr x p2
    proof -
      have "stays (0 + 0) p2 (IfFailRet (PeekByte p2) 0 (\<lambda>b p3. modifiers_loop modifier b p3))"
        using that "1.IH" [OF True p1(1) that(1)]
        by (intro IfFailRet_stays PeekByte_stays) (auto dest: PeekByte_ok)
      then show ?thesis by simp
    qed
    then have "stays (1 + 0) p1 (IfFailRet (GetToken p1) b (\<lambda>_ p2. IfFailRet (PeekByte p2) 0 (\<lambda>b p3. modifiers_loop modifier b p3)))"
      using in1 by (intro IfFailRet_stays GetToken_stays) auto
    then show ?thesis using True p1 by (subst modifiers_loop.simps) (fastforce simp: stays_def intro: moved_trans)
  next
    case False
    then show ?thesis by (subst modifiers_loop.simps) (simp add: stays_here)
  qed
qed

lemma on_copy_stays: "stays n p r \<Longrightarrow> stays n p (on_copy p r)"
proof -
  assume "stays n p r"
  then obtain hr x p' where r: "r = Some (hr, x, p')" "moved p p'"
      "succeeded hr \<longrightarrow> unat (m_dwLen p') + n \<le> unat (m_dwLen p)"
    unfolding stays_def by blast
  then show ?thesis by (cases "succeeded hr") (simp_all add: on_copy_def stays_failed, simp add: stays_def)
qed

lemma stays_if: "(c \<Longrightarrow> stays n p a) \<Longrightarrow> (\<not> c \<Longrightarrow> stays n p b) \<Longrightarrow> stays n p (if c then a else b)"
  by simp

lemma stays_then_ok: "in_buffer p \<Longrightarrow> stays n p r \<Longrightarrow> stays 0 p (IfFailRet r () (\<lambda>_ p'. Some (S_OK, (), p')))"
proof -
  assume "in_buffer p" "stays n p r"
  then have "stays (n + 0) p (IfFailRet r () (\<lambda>_ p'. Some (S_OK, (), p')))" by (intro IfFailRet_stays stays_here)
  then show ?thesis by (rule stays_weaken) simp
qed

lemma skip_modifiers_stays: "in_buffer p \<Longrightarrow> stays 0 p (skip_modifiers modifier p)"
proof -
  assume p: "in_buffer p"
  have "stays (0 + (0 + (0 + 0))) p
    (IfFailRet (SkipAnyVASentinel p) () (\<lambda>_ p1.
        IfFailRet (PeekByte p1) () (\<lambda>b p2.
        IfFailRet (modifiers_loop modifier b p2) () (\<lambda>b' p3.
          Some (if element_code ELEMENT_TYPE_MAX \<le> unat b' \<and> unat b' \<noteq> element_code ELEMENT_TYPE_PINNED
                then META_E_BAD_SIGNATURE else S_OK, (), p3)))))"
    by (intro IfFailRet_stays SkipAnyVASentinel_stays PeekByte_stays modifiers_loop_stays stays_here)
      (auto simp: p dest: PeekByte_ok)
  then show ?thesis by (simp add: skip_modifiers_def on_copy_stays)
qed

lemma GetElemTypeSlow_stays: "in_buffer p \<Longrightarrow> stays 1 p (GetElemTypeSlow p)"
proof -
  assume p: "in_buffer p"
  have "stays (0 + 1) p (IfFailRet (SkipCustomModifiers p) 0 (\<lambda>_ p1. GetByte p1))"
    unfolding SkipCustomModifiers_def by (intro IfFailRet_stays skip_modifiers_stays GetByte_stays p)
  then obtain hr x p' where r: "IfFailRet (SkipCustomModifiers p) 0 (\<lambda>_ p1. GetByte p1) = Some (hr, x, p')" "moved p p'"
      "succeeded hr \<longrightarrow> unat (m_dwLen p') + 1 \<le> unat (m_dwLen p)"
    unfolding stays_def by auto
  then have slow: "GetElemTypeSlow p = Some (if succeeded hr then (S_OK, x, p') else (META_E_BAD_SIGNATURE, 0, p))"
    unfolding GetElemTypeSlow_def by simp
  from r(2,3) show ?thesis by (cases "succeeded hr") (simp_all add: slow stays_failed, simp add: stays_def)
qed

lemma GetElemType_stays: "in_buffer p \<Longrightarrow> stays 1 p (GetElemType p)"
proof -
  assume p: "in_buffer p"
  obtain b s where "m_ptr p = b # s" using first_byte_there [OF p] by blast
  then show ?thesis
    using SkipBytes_result [OF p one_left, of S_OK b] GetElemTypeSlow_stays [OF p] by (simp add: GetElemType_def)
qed

lemma skip_data_stays: "in_buffer p \<Longrightarrow> stays 0 p (skip_data n p)"
proof (induction n arbitrary: p)
  case (Suc n)
  have "stays (1 + 0) p (IfFailRet (GetData p) () (\<lambda>_ p'. skip_data n p'))"
    using Suc by (intro IfFailRet_stays GetData_stays) auto
  then show ?case by (auto intro: stays_weaken)
qed (simp add: stays_here)

lemma skip_shape_stays: "in_buffer p \<Longrightarrow> stays 0 p (skip_shape p)"
proof -
  assume p: "in_buffer p"
  have "stays 0 p1 (IfFailRet (GetData p1) () (\<lambda>nsizes p2.
            IfFailRet (skip_data (unat nsizes) p2) () (\<lambda>_ p3.
            IfFailRet (GetData p3) () (\<lambda>nlbounds p4. skip_data (unat nlbounds) p4))))" if "in_buffer p1" for p1
  proof -
    have "stays (1 + (0 + (1 + 0))) p1 (IfFailRet (GetData p1) () (\<lambda>nsizes p2.
            IfFailRet (skip_data (unat nsizes) p2) () (\<lambda>_ p3.
            IfFailRet (GetData p3) () (\<lambda>nlbounds p4. skip_data (unat nlbounds) p4))))"
      by (intro IfFailRet_stays GetData_stays skip_data_stays that)
    then show ?thesis by (rule stays_weaken) simp
  qed
  then have "stays (1 + 0) p (skip_shape p)"
    unfolding skip_shape_def using p by (intro IfFailRet_stays GetData_stays) (auto simp: stays_here)
  then show ?thesis by (rule stays_weaken) simp
qed

lemma skip_stays:
  "in_buffer p \<Longrightarrow>
   (2 * unat (m_dwLen p) + 1 \<le> n \<longrightarrow> stays 1 p (skip_one n p)) \<and>
   (2 * unat (m_dwLen p) + 2 \<le> n \<longrightarrow> stays 0 p (skip_types n k p)) \<and>
   (2 * unat (m_dwLen p) + 1 \<le> n \<longrightarrow> stays 1 p (skip_header n p)) \<and>
   (2 * unat (m_dwLen p) + 2 \<le> n \<longrightarrow> stays 1 p (skip_signature n p))"
proof (induction n arbitrary: p k)
  case (Suc n)
  have one: "stays 1 p (skip_one n p)" if "in_buffer p" "2 * unat (m_dwLen p) + 1 \<le> n" for p
    using that Suc.IH by blast
  have types: "stays 0 p (skip_types n k p)" if "in_buffer p" "2 * unat (m_dwLen p) + 2 \<le> n" for p k
    using that Suc.IH by blast
  have header: "stays 1 p (skip_header n p)" if "in_buffer p" "2 * unat (m_dwLen p) + 1 \<le> n" for p
    using that Suc.IH by blast
  have signature: "stays 1 p (skip_signature n p)" if "in_buffer p" "2 * unat (m_dwLen p) + 2 \<le> n" for p
    using that Suc.IH by blast
  note p = Suc.prems
  have "stays 1 p (skip_one (Suc n) p)" if "2 * unat (m_dwLen p) + 1 \<le> Suc n"
  proof -
    have "stays 0 p1 (case element_of (unat ty) of
         None \<Rightarrow> Some (META_E_BAD_SIGNATURE, (), p1)
       | Some e \<Rightarrow>
           if CorIsPrimitiveType e then Some (S_OK, (), p1)
           else if e \<in> {ELEMENT_TYPE_VAR, ELEMENT_TYPE_MVAR} then IfFailRet (GetData p1) () (\<lambda>_ p2. Some (S_OK, (), p2))
           else if e \<in> {ELEMENT_TYPE_OBJECT, ELEMENT_TYPE_STRING, ELEMENT_TYPE_TYPEDBYREF} then Some (S_OK, (), p1)
           else if e \<in> {ELEMENT_TYPE_BYREF, ELEMENT_TYPE_PTR, ELEMENT_TYPE_PINNED, ELEMENT_TYPE_SZARRAY}
           then skip_one n p1
           else if e \<in> {ELEMENT_TYPE_VALUETYPE, ELEMENT_TYPE_CLASS}
           then IfFailRet (GetToken p1) () (\<lambda>_ p2. Some (S_OK, (), p2))
           else if e = ELEMENT_TYPE_FNPTR then skip_signature n p1
           else if e = ELEMENT_TYPE_ARRAY then IfFailRet (skip_one n p1) () (\<lambda>_ p2. skip_shape p2)
           else if e = ELEMENT_TYPE_SENTINEL then Some (S_OK, (), p1)
           else if e = ELEMENT_TYPE_INTERNAL then IfFailRet (GetPointer p1) () (\<lambda>_ p2. Some (S_OK, (), p2))
           else if e = ELEMENT_TYPE_GENERICINST
           then IfFailRet (skip_one n p1) () (\<lambda>_ p2.
                IfFailRet (GetData p2) () (\<lambda>argCnt p3. skip_types n (unat argCnt) p3))
           else Some (META_E_BAD_SIGNATURE, (), p1))"
      if p1: "in_buffer p1" and len: "unat (m_dwLen p1) + 1 \<le> unat (m_dwLen p)" for p1 ty
    proof -
      have le: "2 * unat (m_dwLen p1) + 2 \<le> n" using len \<open>2 * unat (m_dwLen p) + 1 \<le> Suc n\<close> by simp
      have data: "stays 0 p1 (IfFailRet (GetData p1) () (\<lambda>_ p2. Some (S_OK, (), p2)))"
        by (rule stays_then_ok [OF p1 GetData_stays [OF p1]])
      have token: "stays 0 p1 (IfFailRet (GetToken p1) () (\<lambda>_ p2. Some (S_OK, (), p2)))"
        by (rule stays_then_ok [OF p1 GetToken_stays [OF p1]])
      have pointer: "stays 0 p1 (IfFailRet (GetPointer p1) () (\<lambda>_ p2. Some (S_OK, (), p2)))"
        by (rule stays_then_ok [OF p1 GetPointer_stays [OF p1]])
      have "stays (1 + 0) p1 (IfFailRet (skip_one n p1) () (\<lambda>_ p2. skip_shape p2))"
        using p1 le by (intro IfFailRet_stays one skip_shape_stays) auto
      then have array: "stays 0 p1 (IfFailRet (skip_one n p1) () (\<lambda>_ p2. skip_shape p2))" by (rule stays_weaken) simp
      have "stays (1 + (1 + 0)) p1 (IfFailRet (skip_one n p1) () (\<lambda>_ p2.
                IfFailRet (GetData p2) () (\<lambda>argCnt p3. skip_types n (unat argCnt) p3)))"
        using p1 le by (intro IfFailRet_stays one GetData_stays types) auto
      then have inst: "stays 0 p1 (IfFailRet (skip_one n p1) () (\<lambda>_ p2.
                IfFailRet (GetData p2) () (\<lambda>argCnt p3. skip_types n (unat argCnt) p3)))" by (rule stays_weaken) simp
      have rec: "stays 0 p1 (skip_one n p1)" "stays 0 p1 (skip_signature n p1)"
        using stays_weaken [OF one [OF p1], of 0] stays_weaken [OF signature [OF p1], of 0] le by simp_all
      show ?thesis
      proof (cases "element_of (unat ty)")
        case (Some e)
        show ?thesis
          unfolding Some option.case by (intro stays_if data token pointer array inst rec stays_here)
      qed (simp add: stays_here)
    qed
    then have "stays (1 + 0) p (skip_one (Suc n) p)"
      unfolding skip_one.simps by (intro IfFailRet_stays GetElemType_stays p)
    then show ?thesis by simp
  qed
  moreover have "stays 0 p (skip_types (Suc n) k p)" if "2 * unat (m_dwLen p) + 2 \<le> Suc n"
  proof (cases k)
    case (Suc j)
    have "stays (1 + 0) p (IfFailRet (skip_one n p) () (\<lambda>_ p'. skip_types n j p'))"
      using p that by (intro IfFailRet_stays one types) auto
    then show ?thesis unfolding Suc skip_types.simps by (rule stays_weaken) simp
  qed (simp add: stays_here)
  moreover have "stays 1 p (skip_header (Suc n) p)" if le: "2 * unat (m_dwLen p) + 1 \<le> Suc n"
  proof -
    have "stays 0 p1 (if uCallConv = IMAGE_CEE_CS_CALLCONV_FIELD \<or> uCallConv = IMAGE_CEE_CS_CALLCONV_LOCAL_SIG
       then Some (META_E_BAD_SIGNATURE, 0, p1)
       else
         IfFailRet (if uCallConv AND IMAGE_CEE_CS_CALLCONV_GENERIC \<noteq> 0 then GetData p1 else Some (S_OK, 0, p1)) 0 (\<lambda>_ p2.
         IfFailRet (GetData p2) 0 (\<lambda>cArgs p3.
         IfFailRet (skip_one n p3) cArgs (\<lambda>_ p4. Some (S_OK, cArgs, p4)))))"
      if p1: "in_buffer p1" and len: "unat (m_dwLen p1) + 1 \<le> unat (m_dwLen p)" for p1 uCallConv
    proof -
      have count: "stays 0 p1 (if uCallConv AND IMAGE_CEE_CS_CALLCONV_GENERIC \<noteq> 0 then GetData p1 else Some (S_OK, 0, p1))"
        using stays_weaken [OF GetData_stays [OF p1], of 0] by (simp add: stays_here)
      have "stays (0 + (1 + (1 + 0))) p1
         (IfFailRet (if uCallConv AND IMAGE_CEE_CS_CALLCONV_GENERIC \<noteq> 0 then GetData p1 else Some (S_OK, 0, p1)) 0 (\<lambda>_ p2.
         IfFailRet (GetData p2) 0 (\<lambda>cArgs p3.
         IfFailRet (skip_one n p3) cArgs (\<lambda>_ p4. Some (S_OK, cArgs, p4)))))"
        using p1 le len by (intro IfFailRet_stays count GetData_stays one stays_here) auto
      note stays_weaken [OF this, of 0]
      then show ?thesis by (intro stays_if stays_here) simp
    qed
    then have "stays (1 + 0) p (skip_header (Suc n) p)"
      unfolding skip_header.simps by (intro IfFailRet_stays GetCallingConvInfo_stays p)
    then show ?thesis by simp
  qed
  moreover have "stays 1 p (skip_signature (Suc n) p)" if "2 * unat (m_dwLen p) + 2 \<le> Suc n"
  proof -
    have "stays (1 + 0) p (skip_signature (Suc n) p)"
      unfolding skip_signature.simps using p that by (intro IfFailRet_stays header types) auto
    then show ?thesis by simp
  qed
  ultimately show ?case by blast
qed simp

declare skip_one.simps [simp del]

section \<open>Skipping what is written\<close>

text \<open>\<open>f\<close> takes exactly the bytes \<open>bs\<close>, whatever follows and whatever length is given, and gives \<open>x\<close>.\<close>

definition takes :: "(sig_parser \<Rightarrow> 'a sp_result) \<Rightarrow> signature \<Rightarrow> 'a \<Rightarrow> bool" where
  "takes f bs x \<longleftrightarrow> (\<forall>s len. length bs \<le> unat len \<longrightarrow>
     f \<lparr>m_ptr = bs @ s, m_dwLen = len\<rparr> = Some (S_OK, x, \<lparr>m_ptr = s, m_dwLen = len - of_nat (length bs)\<rparr>))"

lemma takesD:
  "takes f bs x \<Longrightarrow> length bs \<le> unat len \<Longrightarrow>
   f \<lparr>m_ptr = bs @ s, m_dwLen = len\<rparr> = Some (S_OK, x, \<lparr>m_ptr = s, m_dwLen = len - of_nat (length bs)\<rparr>)"
  by (simp add: takes_def)

lemma unat_length: "n \<le> unat (len :: u32) \<Longrightarrow> unat (of_nat n :: u32) = n \<and> unat (len - of_nat n) = unat len - n"
proof -
  assume n: "n \<le> unat len"
  have "unat len < 2 ^ 32" using unsigned_less [where 'a = nat, of len] by simp
  with n have u: "unat (of_nat n :: u32) = n" by (simp add: unsigned_of_nat take_bit_nat_eq_self)
  with n have "(of_nat n :: u32) \<le> len" by (simp add: word_le_nat_alt)
  with u show ?thesis by (simp add: unat_sub)
qed

lemma takes_then:
  assumes f: "takes f bs x" and g: "takes (g x) cs y"
  shows "takes (\<lambda>p. IfFailRet (f p) d g) (bs @ cs) y"
  unfolding takes_def
proof (intro allI impI)
  fix s and len :: u32
  assume len: "length (bs @ cs) \<le> unat len"
  then have "length cs \<le> unat (len - of_nat (length bs))" using unat_length [of "length bs" len] by simp
  with len show "IfFailRet (f \<lparr>m_ptr = (bs @ cs) @ s, m_dwLen = len\<rparr>) d g
      = Some (S_OK, y, \<lparr>m_ptr = s, m_dwLen = len - of_nat (length (bs @ cs))\<rparr>)"
    by (simp add: takesD [OF f] takesD [OF g] algebra_simps)
qed

lemma takes_seq:
  "takes f bs x \<Longrightarrow> takes g cs y \<Longrightarrow> takes (\<lambda>p. IfFailRet (f p) d (\<lambda>_ p'. g p')) (bs @ cs) y"
  using takes_then [of f bs x "\<lambda>_. g"] by simp

lemma takes_eq: "(\<And>p. f p = g p) \<Longrightarrow> takes g bs x \<Longrightarrow> takes f bs x"
  by (simp add: takes_def)

lemma takes_nothing: "takes (\<lambda>p. Some (S_OK, x, p)) [] x"
  by (simp add: takes_def)

lemma SkipBytes_put:
  "length bs \<le> unat len \<Longrightarrow> SkipBytes (of_nat (length bs)) \<lparr>m_ptr = bs @ s, m_dwLen = len\<rparr>
     = Some \<lparr>m_ptr = s, m_dwLen = len - of_nat (length bs)\<rparr>"
  using unat_length [of "length bs" len] by (simp add: SkipBytes_def)

lemma GetData_reads: "reads bs x \<Longrightarrow> takes GetData bs x"
  unfolding takes_def reads_def GetData_def
  using unat_length by (auto simp: word_le_nat_alt SkipBytes_put)

lemma takes_data: "number_ok x \<Longrightarrow> takes GetData (put_data x) x"
proof -
  assume x: "number_ok x"
  obtain n bs where c: "CorSigCompressData x = (n, bs)" by fastforce
  then have "n \<noteq> - 1" using x by (auto simp: CorSigCompressData_def number_ok_def split: if_splits)
  from reads_compressed [OF c this] show ?thesis by (simp add: put_data_def c GetData_reads)
qed

lemma takes_token: "token_ok tk \<Longrightarrow> takes GetToken (put_token tk) tk"
proof -
  assume "token_ok tk"
  then obtain j where "tk AND 0xff000000 = g_tkCorEncodeToken ! j" "j < 4"
    by (metis encode_token_codes(5) in_set_conv_nth token_ok_def)
  then obtain x where x: "CorSigCompressToken tk = CorSigCompressData x" "x \<le> 0x1FFFFFFF" "decode_token x = tk"
    by (rule token_compressed)
  obtain n bs where c: "CorSigCompressData x = (n, bs)" by fastforce
  then have "n \<noteq> - 1" using x(2) by (auto simp: CorSigCompressData_def split: if_splits)
  from reads_compressed [OF c this] have "reads bs x" by blast
  then show ?thesis
    unfolding takes_def reads_def GetToken_def put_token_def x(1) c CorSigUncompressToken_bounded_def
    using unat_length by (auto simp: word_le_nat_alt SkipBytes_put x(3))
qed

text \<open>A lower bound is skipped as a number, though it is written with its sign.\<close>

lemma takes_signed: "fst (CorSigCompressSignedInt x) \<noteq> - 1 \<Longrightarrow> \<exists>d. takes GetData (put_signed x) d"
proof -
  assume x: "fst (CorSigCompressSignedInt x) \<noteq> - 1"
  define s :: u32 where "s = (if x <s 0 then 1 else 0)"
  define d where "d = (\<lambda>m. push_bit 1 (x AND NOT m) OR s)"
  have "s \<in> {0, 1}" by (simp add: s_def)
  note b = packed_below [OF this sign_masks(1), of x] packed_below [OF this sign_masks(2), of x]
    packed_below [OF this sign_masks(3), of x]
  have "d SIGN_MASK_ONEBYTE \<le> 0x7F" "d SIGN_MASK_TWOBYTE \<le> 0x3FFF" "d SIGN_MASK_FOURBYTE \<le> 0x1FFFFFFF"
    using b by (simp_all add: d_def word_le_nat_alt)
  then have r: "reads [ucast (d SIGN_MASK_ONEBYTE)] (d SIGN_MASK_ONEBYTE)"
    "reads [ucast (drop_bit 8 (d SIGN_MASK_TWOBYTE) OR 0x80), ucast (d SIGN_MASK_TWOBYTE AND 0xff)] (d SIGN_MASK_TWOBYTE)"
    "reads [ucast (drop_bit 24 (d SIGN_MASK_FOURBYTE) OR 0xC0), ucast (drop_bit 16 (d SIGN_MASK_FOURBYTE) AND 0xff),
       ucast (drop_bit 8 (d SIGN_MASK_FOURBYTE) AND 0xff), ucast (d SIGN_MASK_FOURBYTE AND 0xff)] (d SIGN_MASK_FOURBYTE)"
    by (blast intro: reads_one_byte reads_two_bytes reads_four_bytes)+
  show ?thesis
    using x r [THEN GetData_reads]
    unfolding put_signed_def CorSigCompressSignedInt_def Let_def s_def [symmetric] d_def [symmetric]
    by (auto simp: d_def)
qed

text \<open>Pinned is the only element of a type that is not below the modifiers.\<close>

lemma takes_element: "element_code e < element_code ELEMENT_TYPE_CMOD_REQD \<or> e = ELEMENT_TYPE_PINNED \<Longrightarrow>
    takes GetElemType (put_element e) (of_nat (element_code e))"
  unfolding takes_def
proof (intro allI impI)
  fix s and len :: u32
  assume e: "element_code e < element_code ELEMENT_TYPE_CMOD_REQD \<or> e = ELEMENT_TYPE_PINNED"
    and "length (put_element e) \<le> unat len"
  then have len: "0 < len" by (simp add: word_less_nat_alt)
  from \<open>length (put_element e) \<le> unat len\<close>
  have skip: "SkipBytes 1 \<lparr>m_ptr = put_element e @ s, m_dwLen = len\<rparr> = Some \<lparr>m_ptr = s, m_dwLen = len - 1\<rparr>"
    using SkipBytes_put [of "put_element e" len s] by simp
  have b: "put_element e = [of_nat (element_code e)]" by (simp add: put_element_def CorSigCompressElementType_def)
  show "GetElemType \<lparr>m_ptr = put_element e @ s, m_dwLen = len\<rparr>
      = Some (S_OK, of_nat (element_code e), \<lparr>m_ptr = s, m_dwLen = len - of_nat (length (put_element e))\<rparr>)"
  proof (cases "e = ELEMENT_TYPE_PINNED")
    case True
    with len skip b show ?thesis
      by (simp add: GetElemType_def GetElemTypeSlow_def SkipCustomModifiers_def skip_modifiers_def on_copy_def
        SkipAnyVASentinel_def PeekByte_def GetByte_def modifiers_loop.simps)
  next
    case False
    with e len skip b read_element(2) [of e] show ?thesis by (simp add: GetElemType_def)
  qed
qed

lemma takes_skip_data: "\<forall>bs \<in> set bss. \<exists>d. takes GetData bs d \<Longrightarrow> takes (skip_data (length bss)) (concat bss) ()"
proof (induction bss)
  case (Cons bs bss)
  then obtain d where "takes GetData bs d" by auto
  moreover from Cons have "takes (skip_data (length bss)) (concat bss) ()" by simp
  ultimately have "takes (\<lambda>p. IfFailRet (GetData p) () (\<lambda>_ p'. skip_data (length bss) p')) (bs @ concat bss) ()"
    by (rule takes_seq)
  then show ?case by (simp add: takes_def)
qed (simp add: takes_def)

lemma takes_shape:
  assumes "sig_wf (Sig_Array t rank sizes bounds)"
  shows "takes skip_shape (put_data rank @ put_data (of_nat (length sizes)) @ concat (map put_data sizes) @
     put_data (of_nat (length bounds)) @ concat (map put_signed bounds)) ()"
proof -
  from assms have "unat rank \<le> 0x1FFFFFFF" by (simp add: number_ok_def word_le_nat_alt)
  with assms have l: "length sizes \<le> 0x1FFFFFFF" "length bounds \<le> 0x1FFFFFFF" by simp_all
  note c = small_count [OF l(1)] small_count [OF l(2)]
  have bounds: "takes (skip_data (unat (of_nat (length bounds) :: u32))) (concat (map put_signed bounds)) ()"
    using takes_skip_data [of "map put_signed bounds"] takes_signed assms c(2) by auto
  have sizes: "takes (skip_data (unat (of_nat (length sizes) :: u32))) (concat (map put_data sizes)) ()"
    using takes_skip_data [of "map put_data sizes"] takes_data assms c(1) by auto
  note b = takes_then [where g = "\<lambda>n. skip_data (unat n)", OF takes_data [OF c(2) [THEN conjunct1]] bounds, where d = "()"]
  note b = takes_seq [OF sizes b, where d = "()"]
  note b = takes_then [where g = "\<lambda>n p2. IfFailRet (skip_data (unat n) p2) () (\<lambda>_ p3.
      IfFailRet (GetData p3) () (\<lambda>m p4. skip_data (unat m) p4))",
      OF takes_data [OF c(1) [THEN conjunct1]] b, where d = "()"]
  have "takes (\<lambda>p. IfFailRet (GetData p) () (\<lambda>rank p1.
       if rank = 0 then Some (S_OK, (), p1)
       else IfFailRet (GetData p1) () (\<lambda>nsizes p2.
            IfFailRet (skip_data (unat nsizes) p2) () (\<lambda>_ p3.
            IfFailRet (GetData p3) () (\<lambda>nlbounds p4. skip_data (unat nlbounds) p4)))))
     (put_data rank @ put_data (of_nat (length sizes)) @ concat (map put_data sizes) @
      put_data (of_nat (length bounds)) @ concat (map put_signed bounds)) ()"
    by (rule takes_then [OF takes_data]) (use assms b in simp_all)
  then show ?thesis by (simp add: skip_shape_def takes_def)
qed

text \<open>The step of \<open>skip_one\<close> over the element at the position.\<close>

lemma takes_one:
  assumes "element_code e < element_code ELEMENT_TYPE_CMOD_REQD \<or> e = ELEMENT_TYPE_PINNED"
    and "takes (\<lambda>p1. if CorIsPrimitiveType e then Some (S_OK, (), p1)
           else if e \<in> {ELEMENT_TYPE_VAR, ELEMENT_TYPE_MVAR} then IfFailRet (GetData p1) () (\<lambda>_ p2. Some (S_OK, (), p2))
           else if e \<in> {ELEMENT_TYPE_OBJECT, ELEMENT_TYPE_STRING, ELEMENT_TYPE_TYPEDBYREF} then Some (S_OK, (), p1)
           else if e \<in> {ELEMENT_TYPE_BYREF, ELEMENT_TYPE_PTR, ELEMENT_TYPE_PINNED, ELEMENT_TYPE_SZARRAY}
           then skip_one m p1
           else if e \<in> {ELEMENT_TYPE_VALUETYPE, ELEMENT_TYPE_CLASS}
           then IfFailRet (GetToken p1) () (\<lambda>_ p2. Some (S_OK, (), p2))
           else if e = ELEMENT_TYPE_FNPTR then skip_signature m p1
           else if e = ELEMENT_TYPE_ARRAY then IfFailRet (skip_one m p1) () (\<lambda>_ p2. skip_shape p2)
           else if e = ELEMENT_TYPE_SENTINEL then Some (S_OK, (), p1)
           else if e = ELEMENT_TYPE_INTERNAL then IfFailRet (GetPointer p1) () (\<lambda>_ p2. Some (S_OK, (), p2))
           else if e = ELEMENT_TYPE_GENERICINST
           then IfFailRet (skip_one m p1) () (\<lambda>_ p2.
                IfFailRet (GetData p2) () (\<lambda>argCnt p3. skip_types m (unat argCnt) p3))
           else Some (META_E_BAD_SIGNATURE, (), p1)) bs ()"
  shows "takes (skip_one (Suc m)) (put_element e @ bs) ()"
  by (rule takes_eq, rule skip_one.simps(2), rule takes_then [OF takes_element [OF assms(1)]])
    (use assms(2) in \<open>simp only: read_element(2) element_of_code option.case\<close>)

lemma takes_then_ok: "takes f bs x \<Longrightarrow> takes (\<lambda>p. IfFailRet (f p) () (\<lambda>_ p2. Some (S_OK, (), p2))) bs ()"
  using takes_seq [OF _ takes_nothing, of f bs x "()" "()"] by simp

lemma skip_class: "token_ok tk \<Longrightarrow> takes (skip_one (Suc m)) (put_element (class_element vt) @ put_token tk) ()"
  by (rule takes_one) (use takes_then_ok [OF takes_token] in \<open>auto simp: class_element_def CorIsPrimitiveType_def\<close>)

lemma skip_encoded:
  "sig_wf t \<Longrightarrow> sig_text md args t \<noteq> None \<Longrightarrow> 2 * length (encode t) \<le> n \<Longrightarrow> takes (skip_one n) (encode t) ()"
  "\<forall>t \<in> set ts. sig_wf t \<Longrightarrow> sig_texts md args ts \<noteq> None \<Longrightarrow> 2 * length (encode_list ts) < n \<Longrightarrow>
   takes (skip_types n (length ts)) (encode_list ts) ()"
proof (induction t and ts arbitrary: n and n rule: sig_text_sig_texts.induct)
  case (1 md args e)
  then obtain m where n: "n = Suc m" by (cases n) auto
  from 1(2) obtain name where "map_of simple_names e = Some name" by auto
  then have e: "(e, name) \<in> set simple_names" by (rule map_of_SomeD)
  have "takes (skip_one (Suc m)) (put_element e @ []) ()"
    by (rule takes_one) (use e takes_nothing in \<open>auto simp: simple_names_def CorIsPrimitiveType_def\<close>)
  then show ?case by (simp add: n)
next
  case (2 md args vt tk)
  then show ?case using skip_class by (cases n) auto
next
  case (3 md args t)
  then obtain m where n: "n = Suc m" by (cases n) auto
  have "takes (skip_one m) (encode t) ()" using 3 by (simp add: n)
  then show ?case unfolding n encode.simps by (intro takes_one) (auto simp: CorIsPrimitiveType_def)
next
  case (4 md args t rank sizes bounds)
  then obtain m where n: "n = Suc m" by (cases n) auto
  have "takes (skip_one m) (encode t) ()" using 4 by (simp add: n)
  from takes_seq [OF this takes_shape [OF 4(2)], where d = "()"]
  show ?case unfolding n encode.simps by (intro takes_one) (auto simp: CorIsPrimitiveType_def)
next
  case (5 md args k)
  then obtain m where n: "n = Suc m" by (cases n) auto
  show ?case unfolding n encode.simps
    using takes_then_ok [OF takes_data] 5 by (intro takes_one) (auto simp: CorIsPrimitiveType_def)
next
  case (6 md args k)
  then obtain m where n: "n = Suc m" by (cases n) auto
  show ?case unfolding n encode.simps
    using takes_then_ok [OF takes_data] 6 by (intro takes_one) (auto simp: CorIsPrimitiveType_def)
next
  case (7 md args vt tk ts)
  then obtain m where n: "n = Suc (Suc m)" by (cases n; cases "n - 1") auto
  from 7(2) have c: "number_ok (of_nat (length ts))" "unat (of_nat (length ts) :: u32) = length ts"
    using small_count [of ts] by simp_all
  from 7(3) have "sig_texts md args ts \<noteq> None" by (auto simp: bind_eq_None_conv)
  then have "takes (skip_types (Suc m) (unat (of_nat (length ts) :: u32))) (encode_list ts) ()"
    using 7(1) [of "Suc m"] 7(2,4) c(2) by (simp add: n)
  from takes_then [where g = "\<lambda>k. skip_types (Suc m) (unat k)", OF takes_data [OF c(1)] this, where d = "()"]
  have "takes (\<lambda>p2. IfFailRet (GetData p2) () (\<lambda>argCnt p3. skip_types (Suc m) (unat argCnt) p3))
      (put_data (of_nat (length ts)) @ encode_list ts) ()" .
  note inst = takes_seq [OF skip_class this, where d = "()"]
  show ?case unfolding n encode.simps
    using inst [of tk m vt] 7(2) by (intro takes_one) (auto simp: CorIsPrimitiveType_def simp del: skip_one.simps skip_types.simps)
next
  case (8 md args t)
  then obtain m where n: "n = Suc m" by (cases n) auto
  have "takes (skip_one m) (encode t) ()" using 8 by (simp add: n)
  then show ?case unfolding n encode.simps by (intro takes_one) (auto simp: CorIsPrimitiveType_def)
next
  case (9 md args t)
  then obtain m where n: "n = Suc m" by (cases n) auto
  have "takes (skip_one m) (encode t) ()" using 9 by (simp add: n)
  then show ?case unfolding n encode.simps by (intro takes_one) (auto simp: CorIsPrimitiveType_def)
next
  case (10 md args t)
  then obtain m where n: "n = Suc m" by (cases n) auto
  have "takes (skip_one m) (encode t) ()" using 10 by (simp add: n)
  then show ?case unfolding n encode.simps by (intro takes_one) (auto simp: CorIsPrimitiveType_def)
next
  case (11 md args)
  then show ?case by (simp add: takes_def)
next
  case (12 md args t ts)
  then obtain m where n: "n = Suc m" by (cases n) auto
  from 12(4) obtain o' a' where p: "sig_text md args t = Some (o', a')" "sig_texts md args ts \<noteq> None"
    by (cases "sig_text md args t") (auto simp: bind_eq_Some_conv)
  have "takes (skip_one m) (encode t) ()" using 12 p by (simp add: n)
  moreover have "takes (skip_types m (length ts)) (encode_list ts) ()"
    using 12(2) [OF p(1) refl] 12(3,5) p(2) encode_nonempty [of t] by (simp add: n del: length_greater_0_conv)
  ultimately have "takes (\<lambda>p. IfFailRet (skip_one m p) () (\<lambda>_ p'. skip_types m (length ts) p')) (encode t @ encode_list ts) ()"
    by (rule takes_seq)
  then show ?case by (simp add: n takes_def)
qed

section \<open>Quick ways\<close>

lemma plain_modifiers:
  assumes "0 < m_dwLen p" "m_ptr p = b # s" "unat b < element_code ELEMENT_TYPE_CMOD_REQD"
  shows "SkipCustomModifiers p = Some (S_OK, (), p)"
  using assms
  by (simp add: SkipCustomModifiers_def skip_modifiers_def on_copy_def SkipAnyVASentinel_def PeekByte_def
    modifiers_loop.simps)

section \<open>Properties\<close>

text \<open>C17. Whatever the bytes are, skipping a type or a whole signature ends and stays inside: the position moves
  over at most the bytes that belong to the signature, and what is left of the length is what was not moved over.
  The one byte after the signature must be readable, since the readers of numbers look at a byte before the length.\<close>

theorem skipping_stays_inside:
  assumes "unat (m_dwLen p) < length (m_ptr p)"
  shows "(\<exists>hr p'. SkipExactlyOne p = Some (hr, (), p') \<and> moved p p') \<and>
    (\<exists>hr p'. SkipSignature p = Some (hr, (), p') \<and> moved p p') \<and>
    (\<exists>hr n p'. SkipMethodHeaderSignature p = Some (hr, n, p') \<and> moved p p')"
proof -
  have p: "in_buffer p" using assms by (simp add: in_buffer_def)
  have "2 * unat (m_dwLen p) + 2 \<le> 2 * length (m_ptr p) + 3" using assms by simp
  then have "stays 1 p (SkipExactlyOne p)" "stays 1 p (SkipMethodHeaderSignature p)" "stays 1 p (SkipSignature p)"
    using skip_stays [OF p, of "2 * length (m_ptr p) + 3"]
    unfolding SkipExactlyOne_def SkipMethodHeaderSignature_def SkipSignature_def by auto
  then show ?thesis by (auto simp: stays_def)
qed

theorem skipping_stays_inside_witness:
  "\<exists>hr p'. SkipExactlyOne \<lparr>m_ptr = [0x14, 0x1D, 0x45, 0x00], m_dwLen = 3\<rparr> = Some (hr, (), p') \<and>
     moved \<lparr>m_ptr = [0x14, 0x1D, 0x45, 0x00], m_dwLen = 3\<rparr> p'"
  using skipping_stays_inside [of "\<lparr>m_ptr = [0x14, 0x1D, 0x45, 0x00], m_dwLen = 3\<rparr>"] by simp

text \<open>Without that byte a read past the end of the buffer happens.\<close>

lemma skip_reads_beyond: "SkipExactlyOne \<lparr>m_ptr = [0x13], m_dwLen = 1\<rparr> = None"
proof -
  have "skip_one (Suc 4) \<lparr>m_ptr = [0x13], m_dwLen = 1\<rparr> = None"
    by (simp add: skip_one.simps GetElemType_def SkipBytes_def element_numbers CorIsPrimitiveType_def
      GetData_def CorSigUncompressData_bounded_def del: Suc_numeral)
  then show ?thesis by (simp add: SkipExactlyOne_def)
qed

text \<open>Where they part: after a modifier the printer stops at its token, and the parser goes on to the end of the type.\<close>

lemma walkers_part_at_modifiers:
  "sig_loop None (Suc n) args md [0x20, 0x04, 0x08] [] [] = Some (''/* UNKNOWN TYPE (0x%X)*/'' @ to_string 32, [], [0x04, 0x08])"
  "SkipExactlyOne \<lparr>m_ptr = [0x20, 0x04, 0x08], m_dwLen = 3\<rparr> = Some (S_OK, (), \<lparr>m_ptr = [], m_dwLen = 0\<rparr>)"
proof -
  show "sig_loop None (Suc n) args md [0x20, 0x04, 0x08] [] [] = Some (''/* UNKNOWN TYPE (0x%X)*/'' @ to_string 32, [], [0x04, 0x08])"
    by (simp add: CorSigUncompressElementType_def element_of_code [of ELEMENT_TYPE_CMOD_OPT, simplified] del: to_string.simps)
  let ?mo = "\<lambda>b. b = element_code ELEMENT_TYPE_CMOD_REQD \<or> b = element_code ELEMENT_TYPE_CMOD_OPT"
  have "modifiers_loop ?mo 0x08 \<lparr>m_ptr = [0x08], m_dwLen = 1\<rparr> = Some (S_OK, 0x08, \<lparr>m_ptr = [0x08], m_dwLen = 1\<rparr>)"
    by (subst modifiers_loop.simps) simp
  then have "modifiers_loop ?mo 0x20 \<lparr>m_ptr = [0x20, 0x04, 0x08], m_dwLen = 3\<rparr>
      = Some (S_OK, 0x08, \<lparr>m_ptr = [0x08], m_dwLen = 1\<rparr>)"
    by (subst modifiers_loop.simps)
      (simp add: SkipBytes_def GetToken_def CorSigUncompressToken_bounded_def CorSigUncompressData_bounded_def PeekByte_def)
  then have "GetElemType \<lparr>m_ptr = [0x20, 0x04, 0x08], m_dwLen = 3\<rparr> =
      Some (S_OK, 0x08, \<lparr>m_ptr = [], m_dwLen = 0\<rparr>)"
    by (simp add: GetElemType_def GetElemTypeSlow_def SkipCustomModifiers_def skip_modifiers_def on_copy_def SkipAnyVASentinel_def
        PeekByte_def GetByte_def SkipBytes_def)
  then have "skip_one (Suc 8) \<lparr>m_ptr = [0x20, 0x04, 0x08], m_dwLen = 3\<rparr> = Some (S_OK, (), \<lparr>m_ptr = [], m_dwLen = 0\<rparr>)"
    by (simp add: skip_one.simps element_numbers CorIsPrimitiveType_def del: Suc_numeral)
  then show "SkipExactlyOne \<lparr>m_ptr = [0x20, 0x04, 0x08], m_dwLen = 3\<rparr> = Some (S_OK, (), \<lparr>m_ptr = [], m_dwLen = 0\<rparr>)"
    by (simp add: SkipExactlyOne_def)
qed

text \<open>C18. For a type made of simple types, classes and value types, type variables, generic instances, arrays, pointers,
  references and pinned types, the bytes that are written for it are skipped exactly, and the printer of names stops at
  the same byte: there the two walkers of signatures, written apart from each other, agree on where a type ends.  They
  part at function pointers, modifiers and internal types, whose operands the printer leaves unread.\<close>

theorem walkers_agree:
  assumes "sig_wf t" "sig_text md args t = Some (out, appendix)" "length (encode t) \<le> unat len"
  shows "SkipExactlyOne \<lparr>m_ptr = encode t @ rest, m_dwLen = len\<rparr>
      = Some (S_OK, (), \<lparr>m_ptr = rest, m_dwLen = len - of_nat (length (encode t))\<rparr>) \<and>
    sig_loop None (2 * length (encode t @ rest) + 1) args md (encode t @ rest) [] [] = Some (out, appendix, rest)"
  using takesD [OF skip_encoded(1) [OF assms(1), of md args "2 * length (encode t @ rest) + 3"] assms(3), of rest]
    sig_loop_encode(1) [OF assms(1,2), of "2 * length (encode t @ rest) + 1" rest] assms(2)
  by (simp add: SkipExactlyOne_def)

theorem walkers_agree_witness:
  "SkipExactlyOne \<lparr>m_ptr = encode (Sig_Array (Sig_Pinned (Sig_Simple ELEMENT_TYPE_I4)) 2 [7] []) @ [0x1D], m_dwLen = 100\<rparr>
   = Some (S_OK, (), \<lparr>m_ptr = [0x1D], m_dwLen = 93\<rparr>)"
proof -
  let ?t = "Sig_Array (Sig_Pinned (Sig_Simple ELEMENT_TYPE_I4)) 2 [7] []"
  have "length (encode ?t) = 7" by (simp add: put_data_def CorSigCompressData_def)
  moreover have "sig_wf ?t" by (simp add: number_ok_def)
  moreover have "sig_text nested_example [] ?t = Some (''int'', array_text 2 [7] [] @ '' pinned'')"
    by (simp add: simple_names_def)
  ultimately show ?thesis
    using walkers_agree [of ?t nested_example "[]" "''int''" "array_text 2 [7] [] @ '' pinned''" 100 "[0x1D]"] by simp
qed

text \<open>C34. The quick ways of reading an element type give what the slow ones give.\<close>

theorem quick_elements_agree:
  "GetElemType p = GetElemTypeSlow p \<and> PeekElemType p = PeekElemTypeSlow p"
proof
  show quick: "GetElemType p = GetElemTypeSlow p"
  proof (cases "0 < m_dwLen p \<and> m_ptr p \<noteq> [] \<and> unat (hd (m_ptr p)) < element_code ELEMENT_TYPE_CMOD_REQD")
    case True
    then obtain b s where b: "m_ptr p = b # s" "unat b < element_code ELEMENT_TYPE_CMOD_REQD" "0 < m_dwLen p"
      by (cases "m_ptr p") auto
    then show ?thesis
      by (simp add: GetElemType_def GetElemTypeSlow_def plain_modifiers GetByte_def SkipBytes_def)
  next
    case False
    moreover have "GetElemTypeSlow p = None" if "0 < m_dwLen p" "m_ptr p = []"
      using that by (simp add: GetElemTypeSlow_def SkipCustomModifiers_def skip_modifiers_def on_copy_def
        SkipAnyVASentinel_def PeekByte_def)
    ultimately show ?thesis by (auto simp: GetElemType_def split: list.split)
  qed
  show "PeekElemType p = PeekElemTypeSlow p"
    by (auto simp: PeekElemType_def PeekElemTypeSlow_def GetElemType_def SkipBytes_def split: list.split)
qed

end
