(* ===== verification/Spec2Isabelle.thy ===== *)
theory Spec2Isabelle imports
  Prelude Mi_Escape Mi_Tokenizer Mi_Args Protocol_Types Exception_Breakpoints Module_Resolution
  Breakpoints Entry_Point Breakpoint_Manager Mi_Print Mi_Protocol Mi_Sync Mi_Commands
  Module_Loading Evaluation Frames Shell_Args Callbacks Managed_Debugger Managed_Session
  Array_Index Value_Walk Expressions Variables Variable_Evaluation Cor_Types Decimal_Print Value_Print
  Json_Text Json_Parser Json_Scan Json_Roundtrip VSCode_Protocol VSCode_Commands VSCode_Session VSCode_Laws
  Cor_Sig Type_Printer Type_Signatures Type_Names Type_Encoding Type_Readback Sig_Parser Sig_Skip
begin

text \<open>
  A model of the debugger that this repository keeps under
  \<open>src/source/own/netcoredbg310/src/debug/netcoredbg\<close> (the other copies of it in the tree are
  identical): a process that speaks the GDB machine interface (MI), or the debug adapter protocol of
  VSCode, on standard input and output and drives a .NET debuggee through \<open>ICorDebug\<close>.

  The parts and how they interact.  \<open>MIProtocol::CommandLoop\<close> reads a line, takes it apart
  (\<open>ParseLine\<close>, the tokenizer), finds the handler of the command (\<open>HandleCommand\<close>), which parses its
  arguments, calls the operations of the \<open>Debugger\<close> interface and keeps the front end's own record of
  breakpoints and variable objects; the answer is printed as a result record with escaped values.
  The breakpoint requests end in \<open>class Breakpoints\<close>, which owns the source, function, exception and
  entry breakpoints, resolves them against the table of loaded modules (\<open>class Modules\<close>), and decides
  at a native stop which of them was hit.  \<open>class ManagedDebugger\<close> owns the process: it starts and ends
  sessions, reacts to the callbacks of the runtime, and walks the stacks of the stopped threads.

  Theories, in the order of the code they model.

  \<^item> \<open>Prelude\<close>: bytes and decimal numbers, the results \<open>HRESULT\<close> and C++ exceptions as values,
    \<open>std::unordered_map\<close> as an association list without duplicate keys (the iteration order is that
    of the list; lookup, assignment, \<open>emplace\<close> and \<open>erase\<close> with their laws).
  \<^item> \<open>Mi_Escape\<close>, \<open>Mi_Tokenizer\<close>, \<open>Mi_Args\<close> (\<open>miprotocol.cpp\<close>): \<open>EscapeMIValue\<close>; \<open>Tokenizer\<close> with its
    state machine and \<open>ParseLine\<close>; the option and location parsing in front of the handlers.  The
    lemmas are round trips: what a client renders is what the code reads, and the exact inputs on
    which an exception escapes.
  \<^item> \<open>Protocol_Types\<close> (\<open>protocol.h\<close>): the records shared by front end and back end, the frame
    identifier packed into 64 bits, the mode of an exception filter.
  \<^item> \<open>Exception_Breakpoints\<close> (\<open>ExceptionBreakpointStorage\<close>): the table of numbered filters and the
    multimap of modes, with the invariant that ties them together and the decision \<open>Match\<close>.
  \<^item> \<open>Module_Resolution\<close> (\<open>modules.cpp\<close>, \<open>cputil.cpp\<close>): the loaded modules and the searches over them.
    Metadata, symbol files and code objects belong to the runtime; a module is a record whose fields
    are the answers the code asks for.
  \<^item> \<open>Breakpoints\<close>, \<open>Entry_Point\<close>, \<open>Breakpoint_Manager\<close> (\<open>breakpoints.cpp\<close>): the tables of managed
    breakpoints and the two export loops, the reader of the entry point token from the bytes of a PE
    file, and the whole of \<open>class Breakpoints\<close>: setting, resolving, hitting, deleting.  Native
    activations are collected in the order in which the code makes them.  The two export loops are
    instances of one locale, \<open>numbered_export\<close>, whose lemmas give the numbering laws of both.  The
    invariant of the class is kept by every operation, and by every sequence of them.
  \<^item> \<open>Mi_Print\<close> (\<open>miprotocol.cpp\<close>): the printers of results and of asynchronous events.
  \<^item> \<open>Mi_Protocol\<close> (\<open>miprotocol.cpp\<close>, \<open>debugger.h\<close>): the state of the front end, every command, and the
    command loop as a function from the lines read to the lines written.  The interface \<open>Debugger\<close> is a
    record of operations on an abstract back-end state.
  \<^item> \<open>Mi_Sync\<close>: the front end over the modelled manager.  The locale \<open>line_server\<close> says what the front
    end relies on; it is interpreted on \<open>Breakpoints::SetBreakpoints\<close>.  The relation \<open>in_sync\<close> between
    the two records of breakpoints is the abstract specification of the pair; the theorems say which
    commands keep it and which do not.
  \<^item> \<open>Mi_Commands\<close>: the properties of the command handlers and of the loop.
  \<^item> \<open>Module_Loading\<close> (\<open>modules.cpp\<close>, \<open>jmc.cpp\<close>): loading a module and its symbols, its printed
    identifier, and the choice of the methods and types that are not user code.
  \<^item> \<open>Evaluation\<close> (\<open>valuewalk.cpp\<close>, \<open>manageddebugger.h\<close>): the evaluations in progress; a promise is a
    number, with its outcome once it is kept or broken.  The step relation of the table has the
    invariant that every promise is either pending for one thread or resolved.
  \<^item> \<open>Frames\<close> (\<open>frames.cpp\<close>): threads and stack traces.  The callback-driven walk is proved equal to a
    fold of the callback over the list of frames, the reference for the windows and levels.
  \<^item> \<open>Shell_Args\<close> (\<open>EscapeShellArg\<close>, \<open>RunProcess\<close>): the launch command line, which reads back whatever the
    arguments are; the loop is that of \<open>EscapeMIValue\<close> with another switch.
  \<^item> \<open>Callbacks\<close> (\<open>ManagedCallback\<close>): the state of \<open>class ManagedDebugger\<close> and every callback.  What is
    sent to the runtime and to the front end is a trace; what the runtime answers comes with the
    callback.  The thread that a breakpoint callback starts is a pending task.
  \<^item> \<open>Managed_Debugger\<close>, \<open>Managed_Session\<close> (\<open>manageddebugger.cpp\<close>): process control, and the step
    relation of whole sessions with the invariant of its reachable states.
  \<^item> \<open>Array_Index\<close>, \<open>Value_Walk\<close> (\<open>valuewalk.cpp\<close>): the indices of arrays; the members of a value and the
    variables of a frame, reported to a callback.  The walk is proved equal to going through a list
    (\<open>visit\<close>), and two callbacks in a relation keep it through the walk of a frame (\<open>WalkStackVars_sim\<close>).
  \<^item> \<open>Expressions\<close> (\<open>expr.cpp\<close>): splitting expressions and type names, generic arguments, the search for
    types, and \<open>EvalExpr\<close>.
  \<^item> \<open>Variables\<close> (\<open>variables.cpp\<close>, \<open>valuewrite.cpp\<close>): the table of references with the invariant of its step
    relation, scopes, stack variables, children in pages, setting values.  \<open>Variable_Evaluation\<close> has evaluating and assigning expressions and the
    names that the compiler service asks for, and shows that an assignment hits the value that is shown.
  \<^item> \<open>Cor_Types\<close> (\<open>corhdr.h\<close>), \<open>Decimal_Print\<close>, \<open>Value_Print\<close> (\<open>valueprint.cpp\<close>): element types; the decimal
    printer over 32-bit words, proved exact; the printers of values and their marshalling.  The bytes of a
    value are a list, with the memory behind it where the code reads past its end.
  \<^item> \<open>Json_Text\<close>, \<open>Json_Parser\<close> (\<open>third_party/json/json.hpp\<close>): the values of the JSON library, its serializer
    with the table-driven UTF-8 check and the buffer sized in advance, its lexer and parser.  \<open>Json_Scan\<close>
    and \<open>Json_Roundtrip\<close> hold the proofs: the table accepts the byte ranges of the scanner, the parser
    ends, reads back what is printed, and accepts only values that can be printed.
  \<^item> \<open>VSCode_Protocol\<close>, \<open>VSCode_Commands\<close> (\<open>vscodeprotocol.cpp\<close>): the second front end; a handler is a
    state action that may end with an exception, which ends the process.  The events that an operation
    of the debugger emits are part of its result.  \<open>VSCode_Session\<close> proves what every handler sends,
    and the step relation of sessions; \<open>VSCode_Laws\<close> holds the properties: one response for a request,
    numbered messages without gaps, the debugger disconnected at the end.

  \<^item> \<open>Cor_Sig\<close> (\<open>cor.h\<close>): the writers and readers of the numbers, tokens and element types in metadata
    signatures; a position is the list of bytes from there on, and reading past the end is None.
  \<^item> \<open>Type_Printer\<close>, \<open>Type_Signatures\<close> (\<open>typeprinter.cpp\<close>): the names of tokens, of the types of the
    runtime, of signatures and of the methods of frames.  \<open>Type_Names\<close> shows how nested classes and a
    method share the type parameters and that the recursion over enclosing classes ends; \<open>Type_Encoding\<close>
    has types as a datatype with their bytes and names, and shows that the printer reads the one and gives
    the other; \<open>Type_Readback\<close> composes the printer with the parser of \<open>Expressions\<close>.
  \<^item> \<open>Sig_Parser\<close> (\<open>diagnostics/src/SOS/Strike/sigparser.h\<close>, \<open>sigparser.cpp\<close>): the second walker over signatures in
    the tree, bounded by a length.  \<open>Sig_Skip\<close> shows that it ends and stays inside whatever the bytes are, by a rule
    for its \<open>IfFailRet\<close>, and that it agrees with the printer on where a type ends.

  Bounds.  Breakpoint numbers are 32-bit words; the theorems on numbering assume that the counter has
  not wrapped, as a bound on the number of requests.  \<open>std::stoi\<close> is modelled with its 32-bit range.
  Sums of \<open>int\<close> values that the front end gives (the end of a page of children or of a stack trace) wrap
  around as in the compiled code (\<open>c_int\<close>), and the theorems on pages assume that they do not.
  The loops of the modelled code are structural recursion or have a measure.  An operation that waits for
  callbacks is given those that arrive and is None while it still waits.  The reader of command lines takes the length of the line as its fuel, which is enough since each step uses up
  a character.  The JSON parser has fuel \<open>2 * n + 3\<close> for \<open>n\<close> characters: a value or an entry uses at least
  one, and each is at most two calls deep; \<open>json_parse_ends\<close> shows that it is never used up.  The
  reader of signatures has fuel \<open>2 * n + 1\<close> for \<open>n\<close> bytes, a type and a step of the loop over generic
  arguments for each; \<open>signature_fuel_enough\<close> shows that more changes nothing, nor what a call without
  fuel would give; \<open>SigParser\<close> has \<open>2 * n + 3\<close>, and \<open>skipping_stays_inside\<close> shows that a result is always reached.  Every definition computes.

  Not modelled: the \<open>ICorDebug\<close> runtime, symbol and metadata readers and the compiler service
  (parameters; a value of the debuggee is a number, and records hold what the runtime answers about it);
  the code that only builds runtime values (literals, objects without constructor, class constructors,
  the instances of generic types); the text of floating-point numbers and of single UTF-16 units
  (\<open>strtod\<close> is a parameter of the JSON parser; a \<open>double\<close> is its integer part and its digits); the
  exception report of \<open>manageddebugger.cpp\<close>; output
  buffering, locking (each operation runs under one mutex) and the log of function entries.  The bucket order of
  \<open>std::unordered_map\<close> is replaced by insertion order, so nothing here depends on more than the set of
  entries unless it says so.  The rest of the tree is vendored code, bindings and test programs.
\<close>

end
